(* ===== verification/Auction_Prelude.thy ===== *)
theory Auction_Prelude
  imports Main "HOL-Library.Multiset"
begin

text \<open>
  What every component shares: the value of a Go computation that may panic, the Go slice
  operations with their bounds checks, and the generic lemmas on lists and on permutations
  given by index lists.
\<close>

section \<open>Computations that may panic\<close>

datatype go_panic =
    IndexOutOfRange
  | SliceBoundsOutOfRange
  | MakeSliceLenOutOfRange
  | NilPointer
  | InvalidIntn
  | MakeChanSizeOutOfRange
  | IntegerDivideByZero
  | NegativeRepeatCount
  | UserPanic string

datatype 'a outcome = Ret 'a | Panic go_panic

text \<open>A Go \<open>error\<close> value: \<open>None\<close> is \<open>nil\<close>, \<open>Some m\<close> an error whose \<open>Error()\<close> is \<open>m\<close>.\<close>

type_synonym go_error = "string option"

fun obind :: "'a outcome \<Rightarrow> ('a \<Rightarrow> 'b outcome) \<Rightarrow> 'b outcome" where
  "obind (Ret x) f = f x"
| "obind (Panic p) f = Panic p"

definition go_index :: "'a list \<Rightarrow> int \<Rightarrow> 'a outcome" where
  "go_index xs i =
     (if 0 \<le> i \<and> i < int (length xs) then Ret (xs ! nat i) else Panic IndexOutOfRange)"

text \<open>\<open>xs[:n]\<close> on a slice whose capacity is its length.\<close>

definition go_slice_to :: "'a list \<Rightarrow> int \<Rightarrow> 'a list outcome" where
  "go_slice_to xs n =
     (if 0 \<le> n \<and> n \<le> int (length xs) then Ret (take (nat n) xs)
      else Panic SliceBoundsOutOfRange)"

text \<open>The elements of \<open>xs\<close> at the indices \<open>p\<close>, in the order of \<open>p\<close>.\<close>

definition permute :: "nat list \<Rightarrow> 'a list \<Rightarrow> 'a list" where
  "permute p xs = map (\<lambda>i. xs ! i) p"

text \<open>\<open>strings.Split(s, c)\<close> for a separator of one byte.\<close>

fun split_on :: "char \<Rightarrow> string \<Rightarrow> string list" where
  "split_on c [] = [[]]"
| "split_on c (x # xs) =
     (if x = c then [] # split_on c xs
      else (case split_on c xs of [] \<Rightarrow> [[x]] | s # ss \<Rightarrow> (x # s) # ss))"

named_theorems go_inv "inversion of a computation that returned"

section \<open>Lemmas\<close>

lemma obind_Ret_iff [go_inv]: "obind m f = Ret y \<longleftrightarrow> (\<exists>x. m = Ret x \<and> f x = Ret y)"
  by (cases m) auto

lemma map_outcome_fst_iff: "map_outcome fst m = Ret x \<longleftrightarrow> (\<exists>y. m = Ret (x, y))"
  by (cases m) auto

lemma obind_returns:
  assumes "\<exists>x. m = Ret x" and "\<And>x. m = Ret x \<Longrightarrow> \<exists>y. f x = Ret y"
  shows "\<exists>y. obind m f = Ret y"
  using assms by auto

lemma go_index_Ret_iff:
  "go_index xs i = Ret x \<longleftrightarrow> 0 \<le> i \<and> i < int (length xs) \<and> x = xs ! nat i"
  by (auto simp: go_index_def)

lemma go_index_0 [simp]: "go_index (x # xs) 0 = Ret x"
  by (simp add: go_index_def)

lemma go_index_0_Ret_iff [go_inv]: "go_index xs 0 = Ret x \<longleftrightarrow> (\<exists>ys. xs = x # ys)"
  by (cases xs) (auto simp: go_index_def)

lemma go_slice_to_Ret_iff [go_inv]:
  "go_slice_to xs n = Ret ys \<longleftrightarrow> 0 \<le> n \<and> n \<le> int (length xs) \<and> ys = take (nat n) xs"
  by (auto simp: go_slice_to_def)

lemma go_slice_to_cases:
  "go_slice_to xs n = Panic SliceBoundsOutOfRange \<or> (\<exists>ys. go_slice_to xs n = Ret ys)"
  by (simp add: go_slice_to_def)

lemma length_permute [simp]: "length (permute p xs) = length p"
  by (simp add: permute_def)

lemma permute_Nil [simp]: "permute [] xs = []"
  by (simp add: permute_def)

lemma mset_permute:
  assumes "mset p = mset [0..<length xs]"
  shows "mset (permute p xs) = mset xs"
proof -
  have "mset (permute p xs) = image_mset ((!) xs) (mset p)"
    by (simp add: permute_def)
  also have "\<dots> = image_mset ((!) xs) (mset [0..<length xs])"
    by (simp only: assms)
  also have "\<dots> = mset (map ((!) xs) [0..<length xs])"
    by (simp only: mset_map)
  finally show ?thesis by (simp only: map_nth)
qed

lemma permute_complete:
  assumes "mset ys = mset xs"
  shows "\<exists>p. mset p = mset [0..<length xs] \<and> permute p xs = ys"
  using assms
proof (induction xs arbitrary: ys)
  case Nil
  then show ?case by (auto simp: permute_def)
next
  case (Cons x xs)
  then have "x \<in> set ys" by (metis list.set_intros(1) mset_eq_setD)
  then obtain as bs where ys: "ys = as @ x # bs" by (meson split_list)
  with Cons.prems have "mset (as @ bs) = mset xs" by simp
  then obtain p where p: "mset p = mset [0..<length xs]" "permute p xs = as @ bs"
    using Cons.IH by blast
  let ?k = "length as"
  let ?q = "map Suc (take ?k p) @ 0 # map Suc (drop ?k p)"
  have pxs: "map ((!) xs) (take ?k p) = as" "map ((!) xs) (drop ?k p) = bs"
    using p(2) by (simp_all add: permute_def flip: take_map drop_map)
  have "mset ?q = {#0#} + image_mset Suc (mset (take ?k p @ drop ?k p))"
    by (simp only: mset_append mset.simps mset_map image_mset_union) simp
  also have "\<dots> = {#0#} + mset (map Suc [0..<length xs])"
    by (simp only: append_take_drop_id p(1) mset_map)
  also have "\<dots> = mset [0..<length (x # xs)]"
    by (simp add: map_Suc_upt upt_conv_Cons del: upt_Suc)
  finally have "mset ?q = mset [0..<length (x # xs)]" .
  moreover have "permute ?q (x # xs) = ys"
    using pxs by (simp add: permute_def ys comp_def)
  ultimately show ?case by blast
qed

lemma mset_take_subset: "set (take n xs) \<subseteq> set xs"
  by (rule set_take_subset)

lemma filter_nonempty_iff: "filter P xs \<noteq> [] \<longleftrightarrow> (\<exists>x\<in>set xs. P x)"
  by (induction xs) auto

end
