(* ===== verification/Go_Float64.thy ===== *)
theory Go_Float64
  imports Complex_Main "HOL-Library.Log_Nat" Auction_Prelude
begin

text \<open>
  Go's \<open>float64\<close>: IEEE 754 binary64 with round-to-nearest-even, as far as the program uses it
  (addition, subtraction, multiplication, division, comparison, conversion from and to
  \<open>int\<close>, \<open>math.Ceil\<close>).  A finite non-zero value is its exact rational value, the two
  zeros, the infinities and NaN are constructors of their own.  Each operation is the exact
  rational operation followed by \<open>of_exact\<close>, which rounds to 53 significant bits (fewer below
  \<open>2 powi (- 1022)\<close>) and overflows to an infinity, as the standard prescribes; all of it
  computes.  The lemmas say what the components need: rounding is monotone, idempotent and exact
  on the integers of at most 53 bits, and comparison is a strict weak order off NaN.
\<close>

section \<open>Values, rounding and operations\<close>

datatype float64 = Fin rat | NegZero | PosInf | NegInf | NaN

text \<open>The binary exponent of a positive rational, and rounding half to even.\<close>

definition ilog2 :: "rat \<Rightarrow> int" where
  "ilog2 x =
     (let (p, q) = quotient_of x; k = bitlen p - bitlen q
      in if 2 powi k \<le> x then k else k - 1)"

definition rne :: "rat \<Rightarrow> int" where
  "rne x =
     (let f = \<lfloor>x\<rfloor>; d = x - of_int f
      in if d < 1 / 2 then f else if 1 / 2 < d then f + 1 else if even f then f else f + 1)"

text \<open>The exponent of the last place of \<open>x\<close>, and \<open>x\<close> rounded to that place.\<close>

definition rnd_exp :: "rat \<Rightarrow> int" where
  "rnd_exp x = max (ilog2 \<bar>x\<bar> - 52) (- 1074)"

definition rnd :: "rat \<Rightarrow> rat" where
  "rnd x = (if x = 0 then 0 else of_int (rne (x / 2 powi rnd_exp x)) * 2 powi rnd_exp x)"

text \<open>The float of an exact result; \<open>neg\<close> is the sign of an exact zero.\<close>

definition of_exact :: "bool \<Rightarrow> rat \<Rightarrow> float64" where
  "of_exact neg x =
     (let r = rnd x
      in if r = 0 then (if x < 0 \<or> x = 0 \<and> neg then NegZero else Fin 0)
         else if 2 ^ 1024 \<le> r then PosInf
         else if r \<le> - (2 ^ 1024) then NegInf
         else Fin r)"

fun fval :: "float64 \<Rightarrow> rat" where
  "fval (Fin r) = r"
| "fval _ = 0"

fun is_finite :: "float64 \<Rightarrow> bool" where
  "is_finite (Fin r) = True"
| "is_finite NegZero = True"
| "is_finite _ = False"

text \<open>The sign bit.\<close>

fun fsign :: "float64 \<Rightarrow> bool" where
  "fsign (Fin r) = (r < 0)"
| "fsign NegZero = True"
| "fsign NegInf = True"
| "fsign _ = False"

definition fneg :: "float64 \<Rightarrow> float64" where
  "fneg a =
     (case a of
        Fin r \<Rightarrow> if r = 0 then NegZero else Fin (- r)
      | NegZero \<Rightarrow> Fin 0
      | PosInf \<Rightarrow> NegInf
      | NegInf \<Rightarrow> PosInf
      | NaN \<Rightarrow> NaN)"

definition fadd :: "float64 \<Rightarrow> float64 \<Rightarrow> float64" where
  "fadd a b =
     (if a = NaN \<or> b = NaN then NaN
      else if \<not> is_finite a then (if \<not> is_finite b \<and> a \<noteq> b then NaN else a)
      else if \<not> is_finite b then b
      else of_exact (a = NegZero \<and> b = NegZero) (fval a + fval b))"

definition fsub :: "float64 \<Rightarrow> float64 \<Rightarrow> float64" where
  "fsub a b = fadd a (fneg b)"

definition fmul :: "float64 \<Rightarrow> float64 \<Rightarrow> float64" where
  "fmul a b =
     (let neg = (fsign a \<noteq> fsign b)
      in if a = NaN \<or> b = NaN then NaN
         else if \<not> is_finite a \<or> \<not> is_finite b then
           (if is_finite a \<and> fval a = 0 \<or> is_finite b \<and> fval b = 0 then NaN
            else if neg then NegInf else PosInf)
         else of_exact neg (fval a * fval b))"

definition fdiv :: "float64 \<Rightarrow> float64 \<Rightarrow> float64" where
  "fdiv a b =
     (let neg = (fsign a \<noteq> fsign b)
      in if a = NaN \<or> b = NaN then NaN
         else if \<not> is_finite a then
           (if \<not> is_finite b then NaN else if neg then NegInf else PosInf)
         else if \<not> is_finite b then (if neg then NegZero else Fin 0)
         else if fval b = 0 then
           (if fval a = 0 then NaN else if neg then NegInf else PosInf)
         else of_exact neg (fval a / fval b))"

text \<open>The comparisons \<open>a < b\<close> and \<open>a <= b\<close>; both are false as soon as one side is NaN.\<close>

definition flt :: "float64 \<Rightarrow> float64 \<Rightarrow> bool" where
  "flt a b \<longleftrightarrow>
     a \<noteq> NaN \<and> b \<noteq> NaN \<and>
     (if is_finite a \<and> is_finite b then fval a < fval b
      else a \<noteq> b \<and> (a = NegInf \<or> b = PosInf))"

definition fle :: "float64 \<Rightarrow> float64 \<Rightarrow> bool" where
  "fle a b \<longleftrightarrow>
     a \<noteq> NaN \<and> b \<noteq> NaN \<and>
     (if is_finite a \<and> is_finite b then fval a \<le> fval b
      else a = NegInf \<or> b = PosInf)"

text \<open>The conversions \<open>float64(n)\<close>, \<open>math.Ceil\<close> and \<open>int(f)\<close> (truncation; amd64 gives the
  least integer for NaN and for values outside the range of \<open>int\<close>).\<close>

definition float_of_int :: "int \<Rightarrow> float64" where
  "float_of_int n = of_exact False (of_int n)"

definition fceil :: "float64 \<Rightarrow> float64" where
  "fceil a =
     (if is_finite a
      then (if \<lceil>fval a\<rceil> = 0 then (if fsign a then NegZero else Fin 0) else Fin (of_int \<lceil>fval a\<rceil>))
      else a)"

definition int_of_float :: "float64 \<Rightarrow> int" where
  "int_of_float a =
     (let n = (if fval a < 0 then \<lceil>fval a\<rceil> else \<lfloor>fval a\<rfloor>)
      in if is_finite a \<and> - (2 ^ 63) \<le> n \<and> n < 2 ^ 63 then n else - (2 ^ 63))"

text \<open>The values binary64 has: their own rounding, and in range.\<close>

fun representable :: "float64 \<Rightarrow> bool" where
  "representable (Fin r) \<longleftrightarrow> rnd r = r \<and> \<bar>r\<bar> < 2 ^ 1024"
| "representable _ \<longleftrightarrow> True"

section \<open>Rounding\<close>

lemma powi2_pos [simp]: "(0::rat) < 2 powi k"
  by (simp add: zero_less_power_int)

lemma powi2_mono: "i \<le> j \<Longrightarrow> (2::rat) powi i \<le> 2 powi j"
  by (rule power_int_increasing) auto

lemma powi2_strict_mono: "i < j \<Longrightarrow> (2::rat) powi i < 2 powi j"
  by (rule power_int_strict_increasing) auto

lemma powi2_of_nat: "0 \<le> k \<Longrightarrow> (2::rat) powi k = of_int (2 ^ nat k)"
  by (simp add: power_int_def)

lemma bitlen_powi_bounds:
  assumes "0 < p"
  shows "(2::rat) powi (bitlen p - 1) \<le> of_int p" and "of_int p < (2::rat) powi bitlen p"
proof -
  from assms have pos: "0 < bitlen p"
    using bitlen_nonneg[of p] bitlen_eq_zero_iff[of p] by linarith
  have "2 ^ nat (bitlen p - 1) \<le> p" "p < 2 ^ nat (bitlen p)"
    using bitlen_bounds[OF assms] by auto
  then show "(2::rat) powi (bitlen p - 1) \<le> of_int p" and "of_int p < (2::rat) powi bitlen p"
    using pos by (simp_all add: powi2_of_nat del: of_int_power)
qed

lemma ilog2_bounds:
  assumes "0 < x"
  shows "2 powi ilog2 x \<le> x" and "x < 2 powi (ilog2 x + 1)"
proof -
  obtain p q where pq: "quotient_of x = (p, q)" by (cases "quotient_of x")
  then have x: "x = of_int p / of_int q" and q: "0 < q"
    by (auto dest: quotient_of_div quotient_of_denom_pos)
  with assms have p: "0 < p" by (simp add: zero_less_divide_iff)
  define k where "k = bitlen p - bitlen q"
  note P = bitlen_powi_bounds[OF p] and Q = bitlen_powi_bounds[OF q]
  have "(2::rat) powi (k - 1) = 2 powi (bitlen p - 1) / 2 powi bitlen q"
    by (simp add: k_def power_int_diff)
  also have "\<dots> \<le> x"
    unfolding x using P Q q p by (intro frac_le) auto
  finally have lo: "2 powi (k - 1) \<le> x" .
  have "x < 2 powi bitlen p / 2 powi (bitlen q - 1)"
    unfolding x using P Q q p by (intro frac_less) auto
  also have "\<dots> = (2::rat) powi (k + 1)"
    by (simp add: k_def power_int_diff power_int_add)
  finally have hi: "x < 2 powi (k + 1)" .
  show "2 powi ilog2 x \<le> x" and "x < 2 powi (ilog2 x + 1)"
    using lo hi by (auto simp: ilog2_def pq k_def Let_def)
qed

lemma ilog2_mono:
  assumes "0 < x" and "x \<le> y"
  shows "ilog2 x \<le> ilog2 y"
proof (rule ccontr)
  assume "\<not> ilog2 x \<le> ilog2 y"
  then have "(2::rat) powi (ilog2 y + 1) \<le> 2 powi ilog2 x" by (intro powi2_mono) simp
  also have "\<dots> \<le> x" using assms by (intro ilog2_bounds)
  also have "\<dots> \<le> y" by fact
  also have "\<dots> < 2 powi (ilog2 y + 1)" using assms by (intro ilog2_bounds) simp
  finally show False by simp
qed

lemma rne_of_int [simp]: "rne (of_int n) = n"
  by (simp add: rne_def)

lemma rne_bounds: "\<lfloor>x\<rfloor> \<le> rne x" "rne x \<le> \<lfloor>x\<rfloor> + 1"
  by (auto simp: rne_def Let_def)

lemma rne_mono:
  assumes "x \<le> y"
  shows "rne x \<le> rne y"
proof (cases "\<lfloor>x\<rfloor> = \<lfloor>y\<rfloor>")
  case True
  with assms show ?thesis by (auto simp: rne_def Let_def)
next
  case False
  with assms have "\<lfloor>x\<rfloor> + 1 \<le> \<lfloor>y\<rfloor>" using floor_mono[OF assms] by simp
  then show ?thesis using rne_bounds(2)[of x] rne_bounds(1)[of y] by linarith
qed

lemma rne_minus: "rne (- x) = - rne x"
proof (cases "x = of_int \<lfloor>x\<rfloor>")
  case True
  then have "rne (- x) = rne (of_int (- \<lfloor>x\<rfloor>))" by simp
  also have "\<dots> = - \<lfloor>x\<rfloor>" by (simp only: rne_of_int)
  also have "\<lfloor>x\<rfloor> = rne x" using True rne_of_int by metis
  finally show ?thesis by simp
next
  case False
  then have c: "\<lceil>x\<rceil> = \<lfloor>x\<rfloor> + 1" by (simp add: ceiling_altdef)
  then have f: "\<lfloor>- x\<rfloor> = - \<lfloor>x\<rfloor> - 1" by (simp add: floor_minus)
  show ?thesis
    unfolding rne_def Let_def f by auto
qed

lemma rnd_0 [simp]: "rnd 0 = 0"
  by (simp add: rnd_def)

lemma rnd_minus [simp]: "rnd (- x) = - rnd x"
  by (simp add: rnd_def rnd_exp_def rne_minus)

lemma rnd_nonneg:
  assumes "0 \<le> x"
  shows "0 \<le> rnd x"
proof -
  have "0 / 2 powi rnd_exp x \<le> x / 2 powi rnd_exp x"
    using assms by (intro divide_right_mono) (auto simp: less_imp_le)
  from rne_mono[OF this] have "0 \<le> rne (x / 2 powi rnd_exp x)"
    using rne_of_int[of 0] by simp
  then show ?thesis by (simp add: rnd_def)
qed

text \<open>
  A multiple of a place not finer than the last place of \<open>x\<close> that bounds \<open>x\<close> bounds its
  rounding.
\<close>

lemma powi2_grid:
  "d \<le> e \<Longrightarrow> of_int m * (2::rat) powi e = of_int (m * 2 ^ nat (e - d)) * 2 powi d"
  using power_int_add[of "2::rat" "e - d" d] by (simp add: power_int_def)

lemma rnd_le_grid:
  assumes "0 < x" and "x \<le> of_int m * 2 powi e" and "rnd_exp x \<le> e"
  shows "rnd x \<le> of_int m * 2 powi e"
proof -
  note grid = powi2_grid[OF assms(3), of m]
  have "x / 2 powi rnd_exp x \<le> of_int (m * 2 ^ nat (e - rnd_exp x))"
    using assms(2) by (simp only: grid divide_le_eq powi2_pos if_True)
  then have "rne (x / 2 powi rnd_exp x) \<le> m * 2 ^ nat (e - rnd_exp x)"
    using rne_mono rne_of_int by metis
  then have "(of_int (rne (x / 2 powi rnd_exp x)) :: rat) \<le> of_int (m * 2 ^ nat (e - rnd_exp x))"
    by (simp only: of_int_le_iff)
  then show ?thesis
    using assms(1) by (simp only: grid rnd_def mult_le_cancel_right_pos powi2_pos) simp
qed

lemma rnd_ge_grid:
  assumes "0 < x" and "of_int m * 2 powi e \<le> x" and "rnd_exp x \<le> e"
  shows "of_int m * 2 powi e \<le> rnd x"
proof -
  note grid = powi2_grid[OF assms(3), of m]
  have "of_int (m * 2 ^ nat (e - rnd_exp x)) \<le> x / 2 powi rnd_exp x"
    using assms(2) by (simp only: grid le_divide_eq powi2_pos if_True)
  then have "m * 2 ^ nat (e - rnd_exp x) \<le> rne (x / 2 powi rnd_exp x)"
    using rne_mono rne_of_int by metis
  then have "of_int (m * 2 ^ nat (e - rnd_exp x)) \<le> (of_int (rne (x / 2 powi rnd_exp x)) :: rat)"
    by (simp only: of_int_le_iff)
  then show ?thesis
    using assms(1) by (simp only: grid rnd_def mult_le_cancel_right_pos powi2_pos) simp
qed

lemma rnd_exp_le:
  assumes "0 < x" and "x < 2 powi (e + 53)" and "- 1074 \<le> e"
  shows "rnd_exp x \<le> e"
proof -
  have "\<not> e + 53 \<le> ilog2 x"
    using ilog2_bounds(1)[OF assms(1)] assms(2) powi2_mono[of "e + 53" "ilog2 x"] by linarith
  with assms(1,3) show ?thesis by (simp add: rnd_exp_def)
qed

lemma rnd_mono_pos:
  assumes "0 < x" and "x \<le> y"
  shows "rnd x \<le> rnd y"
proof (cases "rnd_exp x = rnd_exp y")
  case True
  have "x / 2 powi rnd_exp y \<le> y / 2 powi rnd_exp y"
    using assms(2) by (simp add: divide_right_mono less_imp_le)
  then have "of_int (rne (x / 2 powi rnd_exp y)) \<le> (of_int (rne (y / 2 powi rnd_exp y)) :: rat)"
    by (simp only: of_int_le_iff rne_mono)
  then show ?thesis
    using assms True by (simp add: rnd_def mult_right_mono less_imp_le)
next
  case False
  have "ilog2 x \<le> ilog2 y" using assms by (rule ilog2_mono)
  with False assms have lt: "ilog2 x < ilog2 y" and e: "rnd_exp y = ilog2 y - 52"
    and ex: "rnd_exp x \<le> ilog2 y"
    by (auto simp: rnd_exp_def max_def split: if_splits)
  have "x < 2 powi (ilog2 x + 1)" using assms(1) by (rule ilog2_bounds)
  also have "\<dots> \<le> (2::rat) powi ilog2 y" using lt by (intro powi2_mono) simp
  finally have "rnd x \<le> of_int 1 * 2 powi ilog2 y"
    using assms(1) ex by (intro rnd_le_grid) auto
  also have "\<dots> \<le> rnd y"
    using assms e ilog2_bounds(1)[of y] by (intro rnd_ge_grid) auto
  finally show ?thesis .
qed

lemma rnd_mono:
  assumes "x \<le> y"
  shows "rnd x \<le> rnd y"
proof -
  consider "0 < x" | "x \<le> 0" "0 \<le> y" | "y < 0" by linarith
  then show ?thesis
  proof cases
    case 1 then show ?thesis using assms by (rule rnd_mono_pos)
  next
    case 2
    then show ?thesis using rnd_nonneg[of "- x"] rnd_nonneg[of y] by simp
  next
    case 3
    then have "rnd (- y) \<le> rnd (- x)" using assms by (intro rnd_mono_pos) auto
    then show ?thesis by simp
  qed
qed

lemma rnd_grid_pos:
  assumes "0 < m" and "m \<le> 2 ^ 53" and "- 1074 \<le> e"
  shows "rnd (of_int m * 2 powi e) = of_int m * 2 powi e"
proof -
  have exact: "rnd (of_int n * 2 powi d) = of_int n * 2 powi d"
    if "0 < n" "rnd_exp (of_int n * 2 powi d) \<le> d" for n d
    using that rnd_le_grid[of "of_int n * 2 powi d" n d] rnd_ge_grid[of "of_int n * 2 powi d" n d]
    by (simp add: order_antisym)
  show ?thesis
  proof (cases "m = 2 ^ 53")
    case True
    then have eq: "of_int m * 2 powi e = of_int 1 * (2::rat) powi (e + 53)"
      by (simp add: power_int_add)
    have "rnd_exp (of_int 1 * (2::rat) powi (e + 53)) \<le> e + 53"
      using assms(3) by (intro rnd_exp_le) (auto intro: powi2_strict_mono)
    then show ?thesis using exact[of 1 "e + 53"] by (simp only: eq)
  next
    case False
    with assms have "(of_int m :: rat) < of_int (2 ^ 53)" by (simp only: of_int_less_iff)
    then have "of_int m * (2::rat) powi e < 2 powi (e + 53)"
      by (simp add: power_int_add mult.commute)
    then show ?thesis using assms by (intro exact rnd_exp_le) auto
  qed
qed

text \<open>Every integer of at most 53 bits times a power of two of the range is its own rounding.\<close>

lemma rnd_grid:
  assumes "\<bar>m\<bar> \<le> 2 ^ 53" and "- 1074 \<le> e"
  shows "rnd (of_int m * 2 powi e) = of_int m * 2 powi e"
proof -
  consider "m = 0" | "0 < m" | "m < 0" by linarith
  then show ?thesis
  proof cases
    case 3
    then show ?thesis using rnd_grid_pos[of "- m" e] assms by simp
  qed (use assms rnd_grid_pos in auto)
qed

lemma rnd_of_int: "\<bar>m\<bar> \<le> 2 ^ 53 \<Longrightarrow> rnd (of_int m) = of_int m"
  using rnd_grid[of m 0] by simp

lemma rnd_1 [simp]: "rnd 1 = 1"
  using rnd_of_int[of 1] by simp

lemma rnd_on_grid:
  assumes "0 < x"
  shows "\<exists>m e. rnd x = of_int m * 2 powi e \<and> \<bar>m\<bar> \<le> 2 ^ 53 \<and> - 1074 \<le> e"
proof -
  let ?e = "rnd_exp x"
  have "x < 2 powi (ilog2 x + 1)" using assms by (rule ilog2_bounds)
  also have "\<dots> \<le> 2 powi (?e + 53)" using assms by (intro powi2_mono) (simp add: rnd_exp_def)
  also have "\<dots> = of_int (2 ^ 53) * 2 powi ?e" by (simp add: power_int_add)
  finally have "x / 2 powi ?e \<le> of_int (2 ^ 53)" by (simp only: divide_le_eq powi2_pos if_True less_imp_le)
  from rne_mono[OF this] have up: "rne (x / 2 powi ?e) \<le> 2 ^ 53" by (simp only: rne_of_int)
  have "of_int 0 \<le> x / 2 powi ?e" using assms by simp
  from rne_mono[OF this] have "0 \<le> rne (x / 2 powi ?e)" by (simp only: rne_of_int)
  moreover have "- 1074 \<le> ?e" by (simp add: rnd_exp_def)
  ultimately show ?thesis
    using up assms
    by (intro exI[of _ "rne (x / 2 powi ?e)"] exI[of _ ?e]) (auto simp: rnd_def)
qed

lemma rnd_idem [simp]: "rnd (rnd x) = rnd x"
proof -
  have pos: "rnd (rnd y) = rnd y" if "0 < y" for y
    using rnd_on_grid[OF that] rnd_grid by metis
  consider "x = 0" | "0 < x" | "x < 0" by linarith
  then show ?thesis
  proof cases
    case 3
    then show ?thesis using pos[of "- x"] by simp
  qed (use pos in auto)
qed

section \<open>Finite arithmetic\<close>

named_theorems float_fin "operations on finite values that do not overflow"

lemma finite_cases: "is_finite a \<longleftrightarrow> (\<exists>r. a = Fin r) \<or> a = NegZero"
  by (cases a) auto

lemma not_finite_cases: "\<not> is_finite a \<longleftrightarrow> a = PosInf \<or> a = NegInf \<or> a = NaN"
  by (cases a) auto

lemma rnd_abs_le:
  assumes "\<bar>x\<bar> \<le> 2 ^ 1023"
  shows "\<bar>rnd x\<bar> < 2 ^ 1024"
proof -
  define b :: rat where "b = 2 ^ 1023"
  have "b = of_int 1 * 2 powi 1023" by (simp add: b_def)
  then have "rnd b = b" by (simp only: rnd_grid) (rule rnd_grid, auto)
  moreover have "rnd x \<le> rnd b" "rnd (- x) \<le> rnd b"
    using assms unfolding b_def[symmetric] by (auto simp only: abs_le_iff intro!: rnd_mono)
  moreover have "b < 2 ^ 1024" by (simp add: b_def)
  ultimately show ?thesis by (simp add: abs_less_iff del: power_strict_increasing_iff)
qed

lemma of_exact_finite:
  assumes "\<bar>x\<bar> \<le> 2 ^ 1023"
  shows "is_finite (of_exact neg x)" and "fval (of_exact neg x) = rnd x"
  using rnd_abs_le[OF assms] by (auto simp: of_exact_def Let_def abs_less_iff)

lemma fval_fneg [simp]: "fval (fneg a) = - fval a"
  by (cases a) (auto simp: fneg_def)

lemma is_finite_fneg [simp]: "is_finite (fneg a) = is_finite a"
  by (cases a) (auto simp: fneg_def)

lemma finite_not_NaN [simp]: "is_finite a \<Longrightarrow> a \<noteq> NaN"
  by auto

lemma fadd_fin [float_fin]:
  assumes "is_finite a" and "is_finite b" and "\<bar>fval a + fval b\<bar> \<le> 2 ^ 1023"
  shows "is_finite (fadd a b)" and "fval (fadd a b) = rnd (fval a + fval b)"
  using assms by (auto simp: fadd_def of_exact_finite)

lemma fsub_fin [float_fin]:
  assumes "is_finite a" and "is_finite b" and "\<bar>fval a - fval b\<bar> \<le> 2 ^ 1023"
  shows "is_finite (fsub a b)" and "fval (fsub a b) = rnd (fval a - fval b)"
  using assms fadd_fin[of a "fneg b"] by (simp_all add: fsub_def)

lemma fmul_fin [float_fin]:
  assumes "is_finite a" and "is_finite b" and "\<bar>fval a * fval b\<bar> \<le> 2 ^ 1023"
  shows "is_finite (fmul a b)" and "fval (fmul a b) = rnd (fval a * fval b)"
  using assms by (auto simp: fmul_def of_exact_finite)

lemma fdiv_fin [float_fin]:
  assumes "is_finite a" and "is_finite b" and "fval b \<noteq> 0" and "\<bar>fval a / fval b\<bar> \<le> 2 ^ 1023"
  shows "is_finite (fdiv a b)" and "fval (fdiv a b) = rnd (fval a / fval b)"
  using assms by (auto simp: fdiv_def of_exact_finite)

lemma float_of_int_fin [float_fin]:
  assumes "\<bar>n\<bar> \<le> 2 ^ 53"
  shows "is_finite (float_of_int n)" and "fval (float_of_int n) = of_int n"
proof -
  have "\<bar>of_int n\<bar> \<le> (of_int (2 ^ 53) :: rat)"
    using assms by (simp only: of_int_abs [symmetric] of_int_le_iff)
  also have "\<dots> \<le> 2 ^ 1023" by simp
  finally have "\<bar>of_int n\<bar> \<le> (2::rat) ^ 1023" .
  then show "is_finite (float_of_int n)" and "fval (float_of_int n) = of_int n"
    using assms by (simp_all add: float_of_int_def of_exact_finite rnd_of_int)
qed

text \<open>Rounding keeps a result between two integers of at most 53 bits.\<close>

lemma rnd_between:
  assumes "of_int m \<le> x" and "x \<le> of_int n" and "\<bar>m\<bar> \<le> 2 ^ 53" and "\<bar>n\<bar> \<le> 2 ^ 53"
  shows "of_int m \<le> rnd x" and "rnd x \<le> of_int n"
  using rnd_mono[OF assms(1)] rnd_mono[OF assms(2)] assms(3,4) by (simp_all add: rnd_of_int)

section \<open>Comparison\<close>

lemma flt_irrefl [simp]: "\<not> flt a a"
  by (cases a) (auto simp: flt_def)

lemma flt_asym: "flt a b \<Longrightarrow> \<not> flt b a"
  by (cases a; cases b) (auto simp: flt_def)

lemma flt_trans: "flt a b \<Longrightarrow> flt b c \<Longrightarrow> flt a c"
  by (cases a; cases b; cases c) (auto simp: flt_def)

text \<open>Off NaN, "not greater" is transitive: \<open>flt\<close> is a strict weak order there.\<close>

lemma not_flt_trans:
  "b \<noteq> NaN \<Longrightarrow> \<not> flt b a \<Longrightarrow> \<not> flt c b \<Longrightarrow> \<not> flt c a"
  by (cases a; cases b; cases c) (auto simp: flt_def)

lemma flt_fin: "is_finite a \<Longrightarrow> is_finite b \<Longrightarrow> flt a b \<longleftrightarrow> fval a < fval b"
  by (auto simp: flt_def)

lemma fle_fin: "is_finite a \<Longrightarrow> is_finite b \<Longrightarrow> fle a b \<longleftrightarrow> fval a \<le> fval b"
  by (auto simp: fle_def)

lemma fle_iff_not_flt: "a \<noteq> NaN \<Longrightarrow> b \<noteq> NaN \<Longrightarrow> fle a b \<longleftrightarrow> \<not> flt b a"
  by (cases a; cases b) (auto simp: flt_def fle_def)

end
