(* ===== verification/Go_Rand.thy ===== *)
theory Go_Rand
  imports Go_Float64
begin

text \<open>
  Go's \<open>math/rand\<close>, as far as the program uses it: \<open>Intn\<close>, \<open>Perm\<close> and \<open>Float64\<close> of a
  \<open>*rand.Rand\<close>.  The generator is a source of draws and the number of draws taken; nothing is
  assumed of the source, so every result a generator can give is one the model gives.  The
  lemmas say that \<open>Perm\<close> returns a permutation of the indices, and that every permutation is
  returned for some source.
\<close>

section \<open>The generator\<close>

record rand =
  draws :: "nat \<Rightarrow> nat"
  drawn :: nat

definition draw :: "rand \<Rightarrow> nat \<times> rand" where
  "draw r = (draws r (drawn r), r\<lparr>drawn := Suc (drawn r)\<rparr>)"

definition draw_below :: "nat \<Rightarrow> rand \<Rightarrow> nat \<times> rand" where
  "draw_below n r = (let (v, r') = draw r in (v mod n, r'))"

text \<open>\<open>Intn\<close> panics on a bound that is not positive.\<close>

definition Intn :: "int \<Rightarrow> rand \<Rightarrow> (int \<times> rand) outcome" where
  "Intn n r =
     (if n \<le> 0 then Panic InvalidIntn
      else let (v, r') = draw_below (nat n) r in Ret (int v, r'))"

text \<open>
  \<open>Perm\<close> builds the permutation from the inside out: at step \<open>i\<close> it draws an index \<open>j\<close> not
  above \<open>i\<close>, moves the entry at \<open>j\<close> to \<open>i\<close> and puts \<open>i\<close> at \<open>j\<close>.
\<close>

definition perm_step :: "nat \<Rightarrow> nat \<Rightarrow> nat list \<Rightarrow> nat list" where
  "perm_step i j m = (let m1 = m @ [i] in m1[i := m1 ! j, j := i])"

fun Perm :: "nat \<Rightarrow> rand \<Rightarrow> nat list \<times> rand" where
  "Perm 0 r = ([], r)"
| "Perm (Suc i) r =
     (let (m, r1) = Perm i r; (j, r2) = draw_below (Suc i) r1
      in (perm_step i j m, r2))"

definition Float64 :: "rand \<Rightarrow> float64 \<times> rand" where
  "Float64 r = (let (v, r') = draw r in (Fin (of_nat (v mod 2 ^ 53) / 2 ^ 53), r'))"

text \<open>\<open>n\<close> elements in the order of a drawn permutation.\<close>

definition shuffle :: "'a list \<Rightarrow> rand \<Rightarrow> 'a list \<times> rand" where
  "shuffle xs r = (let (p, r') = Perm (length xs) r in (permute p xs, r'))"

section \<open>Lemmas\<close>

lemma draw_below_less: "0 < n \<Longrightarrow> fst (draw_below n r) < n"
  by (simp add: draw_below_def draw_def)

lemma length_perm_step [simp]: "length (perm_step i j m) = Suc (length m)"
  by (simp add: perm_step_def Let_def)

lemma mset_perm_step:
  assumes "length m = i" and "j \<le> i"
  shows "mset (perm_step i j m) = add_mset i (mset m)"
proof -
  let ?m1 = "m @ [i]"
  have "perm_step i j m = ?m1[i := ?m1 ! j, j := ?m1 ! i]"
    using assms by (simp add: perm_step_def Let_def nth_append)
  also have "mset \<dots> = mset ?m1"
    using assms by (intro mset_swap) auto
  finally show ?thesis by simp
qed

lemma snd_Perm: "snd (Perm n r) = r\<lparr>drawn := drawn r + n\<rparr>"
  by (induction n) (auto simp: draw_below_def draw_def split: prod.splits)

lemma fst_Perm_Suc:
  "fst (Perm (Suc n) r) = perm_step n (draws r (drawn r + n) mod Suc n) (fst (Perm n r))"
proof -
  obtain m r1 where m: "Perm n r = (m, r1)" by fastforce
  moreover from m have "r1 = r\<lparr>drawn := drawn r + n\<rparr>" using snd_Perm[of n r] by simp
  ultimately show ?thesis by (simp add: draw_below_def draw_def)
qed

lemma length_Perm [simp]: "length (fst (Perm n r)) = n"
  by (induction n) (simp_all add: fst_Perm_Suc del: Perm.simps(2))

lemma mset_Perm: "mset (fst (Perm n r)) = mset [0..<n]"
proof (induction n)
  case (Suc n)
  have "draws r (drawn r + n) mod Suc n \<le> n"
    using mod_less_divisor[of "Suc n"] by (simp add: less_Suc_eq_le)
  then show ?case using Suc by (simp add: fst_Perm_Suc mset_perm_step del: Perm.simps(2))
qed simp

lemma set_Perm: "set (fst (Perm n r)) = {0..<n}"
  using mset_Perm[of n r] by (metis atLeastLessThan_upt set_mset_mset)

lemma Perm_cong:
  assumes "\<forall>i<n. f (k + i) = g (k + i)"
  shows "fst (Perm n \<lparr>draws = f, drawn = k\<rparr>) = fst (Perm n \<lparr>draws = g, drawn = k\<rparr>)"
  using assms by (induction n) (simp_all add: fst_Perm_Suc del: Perm.simps(2))

text \<open>Every list of distinct indices ends some step.\<close>

lemma perm_step_complete:
  assumes "mset p = mset [0..<Suc n]"
  shows "\<exists>m j. j \<le> n \<and> mset m = mset [0..<n] \<and> p = perm_step n j m"
proof -
  have len: "length p = Suc n" using mset_eq_length[OF assms] by simp
  have "n \<in> set p" using mset_eq_setD[OF assms] by simp
  then obtain j where j: "j < Suc n" "p ! j = n" using len by (auto simp: in_set_conv_nth)
  define m1 where "m1 = p[n := p ! j, j := p ! n]"
  have m1: "m1 ! n = n" "length m1 = Suc n"
    using j len by (auto simp: m1_def nth_list_update)
  have "mset m1 = mset p" unfolding m1_def using j len by (intro mset_swap) auto
  moreover have split: "take n m1 @ [n] = m1"
    using m1 take_Suc_conv_app_nth[of n m1] by simp
  ultimately have "mset (take n m1 @ [n]) = mset ([0..<n] @ [n])" using assms by simp
  then have "mset (take n m1) = mset [0..<n]" by simp
  moreover have "p = perm_step n j (take n m1)"
    unfolding perm_step_def split Let_def
    using j len by (auto simp: m1_def nth_list_update intro!: nth_equalityI)
  ultimately show ?thesis using j by (auto simp: less_Suc_eq_le)
qed

text \<open>Every permutation of the indices can be drawn, wherever the generator stands.\<close>

lemma Perm_complete:
  assumes "mset p = mset [0..<n]"
  shows "\<exists>f. fst (Perm n \<lparr>draws = f, drawn = k\<rparr>) = p"
  using assms
proof (induction n arbitrary: p)
  case 0
  then show ?case by simp
next
  case (Suc n)
  obtain m j where m: "j \<le> n" "mset m = mset [0..<n]" "p = perm_step n j m"
    using perm_step_complete[OF Suc.prems] by blast
  obtain f where f: "fst (Perm n \<lparr>draws = f, drawn = k\<rparr>) = m"
    using Suc.IH[OF m(2)] by blast
  define g where "g = f(k + n := j)"
  have "fst (Perm n \<lparr>draws = g, drawn = k\<rparr>) = m"
    using f Perm_cong[of n f k g] by (simp add: g_def)
  then have "fst (Perm (Suc n) \<lparr>draws = g, drawn = k\<rparr>) = p"
    using m by (simp add: fst_Perm_Suc g_def del: Perm.simps(2))
  then show ?case by blast
qed

lemma shuffle_eq: "fst (shuffle xs r) = permute (fst (Perm (length xs) r)) xs"
  by (simp add: shuffle_def split: prod.split)

lemma mset_shuffle [simp]: "mset (fst (shuffle xs r)) = mset xs"
  by (simp add: shuffle_eq mset_permute mset_Perm)

lemma length_shuffle [simp]: "length (fst (shuffle xs r)) = length xs"
  using mset_shuffle[of xs r] by (metis size_mset)

lemma set_shuffle [simp]: "set (fst (shuffle xs r)) = set xs"
  using mset_shuffle[of xs r] by (metis set_mset_mset)

lemma shuffle_complete:
  assumes "mset ys = mset xs"
  shows "\<exists>f. fst (shuffle xs \<lparr>draws = f, drawn = k\<rparr>) = ys"
proof -
  obtain p where p: "mset p = mset [0..<length xs]" "permute p xs = ys"
    using permute_complete[OF assms] by blast
  obtain f where "fst (Perm (length xs) \<lparr>draws = f, drawn = k\<rparr>) = p"
    using Perm_complete[OF p(1)] by blast
  with p(2) show ?thesis by (metis shuffle_eq)
qed

lemma Float64_range:
  "is_finite (fst (Float64 r))" "0 \<le> fval (fst (Float64 r))" "fval (fst (Float64 r)) < 1"
proof -
  define v where "v = fst (draw r) mod 2 ^ 53"
  have "(of_nat v :: rat) < of_nat (2 ^ 53)"
    unfolding v_def by (simp only: of_nat_less_iff) simp
  then have "(of_nat v :: rat) / 2 ^ 53 < 1" by (simp add: divide_less_eq)
  moreover have "fst (Float64 r) = Fin (of_nat v / 2 ^ 53)"
    by (simp add: Float64_def v_def split: prod.split)
  ultimately show "is_finite (fst (Float64 r))" "0 \<le> fval (fst (Float64 r))"
    "fval (fst (Float64 r)) < 1"
    by simp_all
qed

end
