(* ===== verification/Util.thy ===== *)
theory Util
  imports Go_Rand "HOL-Library.Word"
begin

text \<open>
  \<open>util/util.go\<close>: the package state (the shared generator \<open>R\<close> and the guid counters), the
  guids made from a prefix and a counter, the random integers and the random guids.  The state
  is the record \<open>world\<close>, which the other components extend with fields of their own; it also
  holds what the program reads from outside: the results of \<open>crypto/rand\<close> and the readings of
  \<open>time.Now\<close>, both arbitrary.  Numbers are printed as \<open>fmt.Sprintf\<close> prints them.
\<close>

section \<open>The package state\<close>

record world =
  R :: rand
  guidTracker :: "string \<Rightarrow> int option"
  entropy :: "nat \<Rightarrow> (nat \<Rightarrow> 8 word) option"
  entropy_reads :: nat
  now_ns :: "nat \<Rightarrow> int"
  clock_reads :: nat

definition ResetGuids :: "'w world_scheme \<Rightarrow> 'w world_scheme" where
  "ResetGuids w = w\<lparr>guidTracker := Map.empty\<rparr>"

text \<open>\<open>time.Now()\<close>: the next reading of the clock, in nanoseconds.\<close>

definition time_Now :: "'w world_scheme \<Rightarrow> int \<times> 'w world_scheme" where
  "time_Now w = (now_ns w (clock_reads w), w\<lparr>clock_reads := Suc (clock_reads w)\<rparr>)"

section \<open>Printing\<close>

definition digit_char :: "nat \<Rightarrow> char" where
  "digit_char d = ''0123456789abcdef'' ! d"

fun nat_digits :: "nat \<Rightarrow> string" where
  "nat_digits n =
     (if n < 10 then [digit_char n] else nat_digits (n div 10) @ [digit_char (n mod 10)])"

declare nat_digits.simps [simp del]

text \<open>The verb \<open>%d\<close>.\<close>

definition print_int :: "int \<Rightarrow> string" where
  "print_int n = (if n < 0 then CHR ''-'' # nat_digits (nat (- n)) else nat_digits (nat n))"

text \<open>The verb \<open>%x\<close> of a byte slice: two digits a byte.\<close>

definition hex_byte :: "8 word \<Rightarrow> string" where
  "hex_byte b = [digit_char (unat b div 16), digit_char (unat b mod 16)]"

definition hex_bytes :: "8 word list \<Rightarrow> string" where
  "hex_bytes bs = concat (map hex_byte bs)"

section \<open>Guids and random numbers\<close>

text \<open>A missing key of \<open>guidTracker\<close> reads as 0.\<close>

definition tracked :: "'w world_scheme \<Rightarrow> string \<Rightarrow> int" where
  "tracked w prefix = (case guidTracker w prefix of None \<Rightarrow> 0 | Some n \<Rightarrow> n)"

definition bump_guid :: "string \<Rightarrow> 'w world_scheme \<Rightarrow> 'w world_scheme" where
  "bump_guid prefix w =
     w\<lparr>guidTracker := (guidTracker w)(prefix \<mapsto> tracked w prefix + 1)\<rparr>"

definition NewGuid :: "string \<Rightarrow> 'w world_scheme \<Rightarrow> string \<times> 'w world_scheme" where
  "NewGuid prefix w =
     (let w1 = bump_guid prefix w
      in (prefix @ ''-'' @ print_int (tracked w1 prefix), w1))"

definition rgb :: "int \<Rightarrow> int \<Rightarrow> int \<Rightarrow> string" where
  "rgb r g b =
     ''rgb('' @ print_int r @ '','' @ print_int g @ '','' @ print_int b @ '')''"

definition NewGrayscaleGuid ::
    "string \<Rightarrow> 'w world_scheme \<Rightarrow> (string \<times> 'w world_scheme) outcome" where
  "NewGrayscaleGuid prefix w =
     (let w1 = bump_guid prefix w
      in obind (Intn 200 (R w1)) (\<lambda>(col, r).
           Ret (prefix @ ''-'' @ print_int (tracked w1 prefix) @ ''-'' @ rgb col col col,
                w1\<lparr>R := r\<rparr>)))"

definition RandomIntIn ::
    "int \<Rightarrow> int \<Rightarrow> 'w world_scheme \<Rightarrow> (int \<times> 'w world_scheme) outcome" where
  "RandomIntIn mn mx w =
     obind (Intn (mx - mn + 1) (R w)) (\<lambda>(v, r). Ret (v + mn, w\<lparr>R := r\<rparr>))"

text \<open>\<open>crand.Read\<close> fills the eight bytes or fails; on failure the guid is the empty string.\<close>

definition RandomGuid :: "'w world_scheme \<Rightarrow> string \<times> 'w world_scheme" where
  "RandomGuid w =
     (let w1 = w\<lparr>entropy_reads := Suc (entropy_reads w)\<rparr>
      in case entropy w (entropy_reads w) of
           None \<Rightarrow> ('''', w1)
         | Some f \<Rightarrow>
             (let b = map f [0..<8]
              in (hex_bytes (take 2 b) @ ''-'' @ hex_bytes (take 2 (drop 2 b)) @ ''-'' @
                  hex_bytes (take 2 (drop 4 b)) @ ''-'' @ hex_bytes (take 2 (drop 6 b)), w1)))"

text \<open>The guids of a sequence of calls of \<open>NewGuid\<close>, one for each prefix.\<close>

fun newGuids :: "string list \<Rightarrow> 'w world_scheme \<Rightarrow> string list \<times> 'w world_scheme" where
  "newGuids [] w = ([], w)"
| "newGuids (p # ps) w =
     (let (g, w1) = NewGuid p w; (gs, w2) = newGuids ps w1 in (g # gs, w2))"

section \<open>Printing is injective\<close>

lemma digit_char_inj: "d < 16 \<Longrightarrow> e < 16 \<Longrightarrow> digit_char d = digit_char e \<longleftrightarrow> d = e"
  unfolding digit_char_def by (rule nth_eq_iff_index_eq) auto

lemma digit_char_not_minus: "d < 10 \<Longrightarrow> digit_char d \<noteq> CHR ''-''"
  by (auto simp: digit_char_def less_Suc_eq numeral_eq_Suc)

lemma nat_digits_nonempty [simp]: "nat_digits n \<noteq> []" "[] \<noteq> nat_digits n"
  by (subst nat_digits.simps, simp)+

lemma nat_digits_inj: "nat_digits m = nat_digits n \<Longrightarrow> m = n"
proof (induction m arbitrary: n rule: nat_digits.induct)
  case (1 m)
  show ?case
  proof (cases "m < 10")
    case True
    with "1.prems" have m: "[digit_char m] = nat_digits n"
      by (simp add: nat_digits.simps[of m])
    then have "n < 10"
      by (subst (asm) nat_digits.simps) (auto split: if_splits)
    with m True show ?thesis
      by (simp add: nat_digits.simps[of n] digit_char_inj)
  next
    case False
    note m = nat_digits.simps[of m, simplified False if_False]
    have n: "\<not> n < 10"
      using "1.prems" m by (auto simp: nat_digits.simps[of n])
    have "nat_digits (m div 10) = nat_digits (n div 10)"
      and last: "digit_char (m mod 10) = digit_char (n mod 10)"
      using "1.prems" m n by (simp_all add: nat_digits.simps[of n])
    with "1.IH"[OF False] have "m div 10 = n div 10" by blast
    moreover have "m mod 10 = n mod 10"
      using last by (simp add: digit_char_inj)
    ultimately show ?thesis by (metis div_mult_mod_eq)
  qed
qed

lemma nat_digits_no_minus: "CHR ''-'' \<notin> set (nat_digits n)"
proof (induction n rule: nat_digits.induct)
  case (1 n)
  then show ?case
    using digit_char_not_minus[of n] digit_char_not_minus[of "n mod 10"]
    by (subst nat_digits.simps) auto
qed

lemma print_int_inj: "print_int m = print_int n \<Longrightarrow> m = n"
  using nat_digits_no_minus
  by (auto simp: print_int_def dest: nat_digits_inj split: if_splits)
    (metis list.set_intros(1))+

lemma print_int_no_minus: "0 \<le> n \<Longrightarrow> CHR ''-'' \<notin> set (print_int n)"
  by (simp add: print_int_def nat_digits_no_minus)

lemma takeWhile_until_minus:
  "CHR ''-'' \<notin> set s \<Longrightarrow> takeWhile (\<lambda>c. c \<noteq> CHR ''-'') (s @ CHR ''-'' # t) = s"
  by (induction s) auto

lemma split_at_last_minus:
  assumes "p @ CHR ''-'' # s = q @ CHR ''-'' # t"
    and "CHR ''-'' \<notin> set s" and "CHR ''-'' \<notin> set t"
  shows "p = q" and "s = t"
proof -
  have "rev s @ CHR ''-'' # rev p = rev t @ CHR ''-'' # rev q"
    using arg_cong[OF assms(1), of rev] by simp
  moreover note takeWhile_until_minus[of "rev s" "rev p"] takeWhile_until_minus[of "rev t" "rev q"]
  ultimately show "s = t" using assms(2,3) by simp
  then show "p = q" using assms(1) by simp
qed

lemma hex_byte_inj: "hex_byte a = hex_byte b \<longleftrightarrow> a = b"
proof
  assume "hex_byte a = hex_byte b"
  moreover have "unat c div 16 < 16" for c :: "8 word"
  proof -
    have "unat c < 2 ^ LENGTH(8)" by (rule unsigned_less)
    then show ?thesis by (simp add: less_mult_imp_div_less)
  qed
  ultimately have "unat a div 16 = unat b div 16" "unat a mod 16 = unat b mod 16"
    by (simp_all add: hex_byte_def digit_char_inj)
  then have "unat a = unat b" by (metis div_mult_mod_eq)
  then show "a = b" by (simp add: word_unat_eq_iff)
qed simp

lemma length_hex_byte [simp]: "length (hex_byte b) = 2"
  by (simp add: hex_byte_def)

section \<open>Guids\<close>

lemma tracked_bump [simp]:
  "tracked (bump_guid p w) q = (if q = p then tracked w p + 1 else tracked w q)"
  by (simp add: tracked_def bump_guid_def)

lemma NewGuid_eq:
  "NewGuid p w = (p @ CHR ''-'' # print_int (tracked w p + 1), bump_guid p w)"
  by (simp add: NewGuid_def Let_def)

lemma newGuids_issued:
  assumes "newGuids ps w = (gs, w')" and "\<forall>p. 0 \<le> tracked w p" and "g \<in> set gs"
  shows "\<exists>p n. g = p @ CHR ''-'' # print_int n \<and> tracked w p < n"
  using assms
proof (induction ps arbitrary: w w' gs)
  case (Cons p ps)
  obtain hs w1 where hs: "newGuids ps (bump_guid p w) = (hs, w1)" by fastforce
  have nonneg: "\<forall>q. 0 \<le> tracked (bump_guid p w) q" using Cons.prems(2) by simp
  from Cons.prems(1) hs have "gs = (p @ CHR ''-'' # print_int (tracked w p + 1)) # hs"
    by (simp add: NewGuid_eq)
  with Cons.prems(3) consider "g = p @ CHR ''-'' # print_int (tracked w p + 1)" | "g \<in> set hs"
    by auto
  then show ?case
  proof cases
    case 2
    then show ?thesis using Cons.IH[OF hs nonneg] by (fastforce split: if_splits)
  qed force
qed simp

section \<open>Properties\<close>

lemma newGuids_distinct:
  assumes "\<forall>p. 0 \<le> tracked w p"
  shows "distinct (fst (newGuids ps w))"
  using assms
proof (induction ps arbitrary: w)
  case (Cons p ps)
  obtain gs w' where gs: "newGuids ps (bump_guid p w) = (gs, w')" by fastforce
  have nonneg: "\<forall>q. 0 \<le> tracked (bump_guid p w) q" using Cons.prems by simp
  have "p @ CHR ''-'' # print_int (tracked w p + 1) \<notin> set gs"
  proof
    assume "p @ CHR ''-'' # print_int (tracked w p + 1) \<in> set gs"
    from newGuids_issued[OF gs nonneg this] obtain q n
      where q: "p @ CHR ''-'' # print_int (tracked w p + 1) = q @ CHR ''-'' # print_int n"
        and n: "tracked (bump_guid p w) q < n"
      by blast
    have "0 \<le> n" "0 \<le> tracked w p + 1" using n nonneg Cons.prems by (smt (verit))+
    then have "p = q" "print_int (tracked w p + 1) = print_int n"
      using split_at_last_minus[OF q] by (simp_all add: print_int_no_minus)
    then have "p = q" "tracked w p + 1 = n" by (auto dest: print_int_inj)
    with n show False by simp
  qed
  with Cons.IH[OF nonneg] gs show ?case by (simp add: NewGuid_eq)
qed simp

text \<open> after a reset, \<open>NewGuid\<close> never issues a guid twice, whatever prefixes it is given, also
  when a prefix itself ends in a minus sign and a number.\<close>

theorem NewGuid_unique: "distinct (fst (newGuids ps (ResetGuids w)))"
  by (rule newGuids_distinct) (simp add: tracked_def ResetGuids_def)

text \<open> \<open>RandomIntIn\<close> returns exactly the integers between its bounds, both included: it never
  returns another and each can be drawn.\<close>

theorem RandomIntIn_range:
  assumes "mn \<le> mx"
  shows "{v. \<exists>f w'. RandomIntIn mn mx (w\<lparr>R := \<lparr>draws = f, drawn = k\<rparr>\<rparr>) = Ret (v, w')} = {mn..mx}"
proof -
  define m where "m = nat (mx - mn + 1)"
  have m: "int m = mx - mn + 1" "0 < m" using assms by (simp_all add: m_def)
  have eval: "RandomIntIn mn mx (w\<lparr>R := \<lparr>draws = f, drawn = k\<rparr>\<rparr>) =
      Ret (int (f k mod m) + mn, w\<lparr>R := \<lparr>draws = f, drawn = Suc k\<rparr>\<rparr>)" for f
    using assms by (simp add: RandomIntIn_def Intn_def draw_below_def draw_def m_def)
  show ?thesis
  proof (intro set_eqI iffI)
    fix v
    assume "v \<in> {v. \<exists>f w'. RandomIntIn mn mx (w\<lparr>R := \<lparr>draws = f, drawn = k\<rparr>\<rparr>) = Ret (v, w')}"
    then obtain f where "v = int (f k mod m) + mn" by (auto simp: eval)
    moreover have "int (f k mod m) < int m" using m(2) by simp
    ultimately show "v \<in> {mn..mx}" using m(1) by simp
  next
    fix v
    assume "v \<in> {mn..mx}"
    then have "nat (v - mn) < m" "0 \<le> v - mn" using m(1) by auto
    then have "int ((\<lambda>n. nat (v - mn)) k mod m) + mn = v" by simp
    then show "v \<in> {v. \<exists>f w'. RandomIntIn mn mx (w\<lparr>R := \<lparr>draws = f, drawn = k\<rparr>\<rparr>) = Ret (v, w')}"
      using eval[of "\<lambda>n. nat (v - mn)"] by (auto intro!: exI[of _ "\<lambda>n. nat (v - mn)"])
  qed
qed

text \<open>The world of the examples: every source constant.\<close>

definition example_world :: world where
  "example_world =
     \<lparr>R = \<lparr>draws = (\<lambda>n. 0), drawn = 0\<rparr>, guidTracker = Map.empty, entropy = (\<lambda>n. Some (\<lambda>i. 7)),
      entropy_reads = 0, now_ns = (\<lambda>n. 0), clock_reads = 0\<rparr>"

theorem RandomIntIn_range_witness:
  "{v. \<exists>f w'. RandomIntIn (-1) 1 (example_world\<lparr>R := \<lparr>draws = f, drawn = 0\<rparr>\<rparr>) = Ret (v, w')} = {-1..1}"
  by (rule RandomIntIn_range) simp

text \<open> two random guids are equal only when the eight bytes they were made from are.\<close>

theorem RandomGuid_injective:
  assumes "entropy w (entropy_reads w) = Some f" and "entropy v (entropy_reads v) = Some g"
  shows "fst (RandomGuid w) = fst (RandomGuid v) \<longleftrightarrow> map f [0..<8] = map g [0..<8]"
proof -
  have "map f [0..<8] = [f 0, f 1, f 2, f 3, f 4, f 5, f 6, f 7]" for f :: "nat \<Rightarrow> 8 word"
    by (simp add: upt_rec eval_nat_numeral)
  note eight = this
  have bytes: "hex_bytes [a, b] = hex_byte a @ hex_byte b" for a b by (simp add: hex_bytes_def)
  have "fst (RandomGuid w) = fst (RandomGuid v) \<longleftrightarrow>
      [f 0, f 1, f 2, f 3, f 4, f 5, f 6, f 7] = [g 0, g 1, g 2, g 3, g 4, g 5, g 6, g 7]"
    using assms
    by (simp add: RandomGuid_def eight bytes append_eq_append_conv hex_byte_inj)
  then show ?thesis by (simp only: eight)
qed

theorem RandomGuid_injective_witness:
  "fst (RandomGuid example_world) \<noteq> fst (RandomGuid (example_world\<lparr>entropy := (\<lambda>n. Some (\<lambda>i. 8))\<rparr>))"
proof -
  have "entropy example_world (entropy_reads example_world) = Some (\<lambda>i. 7)"
    "entropy (example_world\<lparr>entropy := (\<lambda>n. Some (\<lambda>i. 8))\<rparr>)
      (entropy_reads (example_world\<lparr>entropy := (\<lambda>n. Some (\<lambda>i. 8))\<rparr>)) = Some (\<lambda>i. 8)"
    by (simp_all add: example_world_def)
  from RandomGuid_injective[OF this] show ?thesis by (simp add: upt_rec)
qed

end
