(* ===== verification/Types.thy ===== *)
theory Types
  imports Util
begin

text \<open>
  Package \<open>types\<close>: the records of an auction (\<open>types.go\<close>), the operations on the list of the
  representatives' guids (\<open>rep_guids.go\<close>) and on the list of score results
  (\<open>vote_results.go\<close>), and the interface \<open>RepPoolClient\<close> an auctioneer is given.  The
  operations that shuffle draw from \<open>util.R\<close>, so they take and return the generator.
  Go's \<open>int\<close> is \<open>int\<close>; \<open>time.Duration\<close> is \<open>int\<close>, in nanoseconds.
\<close>

section \<open>types.go\<close>

definition InsufficientResources :: string where
  "InsufficientResources = ''insufficient resources for instance''"

record resources =
  DiskMB :: float64
  MemoryMB :: float64
  Containers :: int

record app_instance =
  AppGuid :: string
  InstanceGuid :: string
  Resources :: resources

type_synonym rep_guids = "string list"

record auction_rules =
  Algorithm :: string
  MaxRounds :: int
  MaxBiddingPool :: float64

record auction_request =
  ReqInstance :: app_instance
  RepGuids :: rep_guids
  Rules :: auction_rules

record auction_result =
  ResInstance :: app_instance
  Winner :: string
  NumRounds :: int
  NumCommunications :: int
  BiddingDuration :: int
  Duration :: int

record score_result =
  Rep :: string
  Score :: float64
  Error :: string

type_synonym score_results = "score_result list"

text \<open>
  \<open>RepPoolClient\<close>: four operations on the state \<open>'w\<close> of the world the client acts on; each may
  panic.
\<close>

record 'w rep_pool_client =
  cScore :: "rep_guids \<Rightarrow> app_instance \<Rightarrow> 'w \<Rightarrow> (score_results \<times> 'w) outcome"
  cScoreThenTentativelyReserve ::
    "rep_guids \<Rightarrow> app_instance \<Rightarrow> 'w \<Rightarrow> (score_results \<times> 'w) outcome"
  cReleaseReservation :: "rep_guids \<Rightarrow> app_instance \<Rightarrow> 'w \<Rightarrow> (unit \<times> 'w) outcome"
  cClaim :: "string \<Rightarrow> app_instance \<Rightarrow> 'w \<Rightarrow> (unit \<times> 'w) outcome"

section \<open>rep\_guids.go\<close>

text \<open>\<open>make(RepGuids, n)\<close> panics when \<open>n\<close> is negative; the permutation has been drawn by then.\<close>

definition RandomSubsetByCount ::
    "rep_guids \<Rightarrow> int \<Rightarrow> rand \<Rightarrow> (rep_guids \<times> rand) outcome" where
  "RandomSubsetByCount r n rng =
     (if int (length r) < n then Ret (r, rng)
      else let (permutation, rng') = Perm (length r) rng
           in if n < 0 then Panic MakeSliceLenOutOfRange
              else Ret (permute (take (nat n) permutation) r, rng'))"

definition RandomSubsetByFraction ::
    "rep_guids \<Rightarrow> float64 \<Rightarrow> rand \<Rightarrow> (rep_guids \<times> rand) outcome" where
  "RandomSubsetByFraction r f rng =
     (if fle (Fin 1) f then Ret (r, rng)
      else let n = int_of_float (fceil (fmul (float_of_int (int (length r))) f))
           in RandomSubsetByCount r n rng)"

definition Without :: "rep_guids \<Rightarrow> string list \<Rightarrow> rep_guids" where
  "Without r guids = filter (\<lambda>guid. \<not> List.member guids guid) r"

section \<open>vote\_results.go\<close>

definition Less :: "score_result \<Rightarrow> score_result \<Rightarrow> bool" where
  "Less a b = flt (Score a) (Score b)"

definition FilterErrors :: "score_results \<Rightarrow> score_results" where
  "FilterErrors v = filter (\<lambda>r. Error r = '''') v"

definition AllFailed :: "score_results \<Rightarrow> bool" where
  "AllFailed v = (length (FilterErrors v) = 0)"

definition Reps :: "score_results \<Rightarrow> rep_guids" where
  "Reps v = map Rep v"

definition Shuffle :: "score_results \<Rightarrow> rand \<Rightarrow> score_results \<times> rand" where
  "Shuffle v rng = shuffle v rng"

text \<open>
  \<open>sort.Sort\<close> with this \<open>Less\<close>: insertion sort, which is what the library runs on short slices.
  \<open>sift\<close> moves an entry left past the entries it is less than, starting from the right end of
  the sorted prefix (held reversed).
\<close>

fun sift :: "score_result \<Rightarrow> score_results \<Rightarrow> score_results" where
  "sift x [] = [x]"
| "sift x (y # ys) = (if Less x y then y # sift x ys else x # y # ys)"

definition Sort :: "score_results \<Rightarrow> score_results" where
  "Sort v = rev (fold sift v [])"

text \<open>\<open>v.FilterErrors().Shuffle().Sort()\<close>, the chain the algorithms order their bids with.\<close>

definition ordered_bids :: "score_results \<Rightarrow> rand \<Rightarrow> score_results \<times> rand" where
  "ordered_bids v rng =
     (let (v1, rng1) = Shuffle (FilterErrors v) rng in (Sort v1, rng1))"

section \<open>Random subsets\<close>

lemma permute_take: "permute (take n p) xs = take n (permute p xs)"
  by (simp add: permute_def take_map)

lemma RandomSubsetByCount_eq:
  "0 \<le> n \<Longrightarrow> n \<le> int (length r) \<Longrightarrow>
     RandomSubsetByCount r n rng = Ret (take (nat n) (fst (shuffle r rng)), snd (shuffle r rng))"
  by (simp add: RandomSubsetByCount_def shuffle_def permute_take split: prod.split)

lemma RandomSubsetByCount_cases:
  assumes "RandomSubsetByCount r n rng = Ret (s, rng')"
  obtains (all) "int (length r) < n" "s = r" "rng' = rng"
  | (some) "0 \<le> n" "n \<le> int (length r)" "s = take (nat n) (fst (shuffle r rng))"
      "rng' = snd (shuffle r rng)"
proof (cases "int (length r) < n")
  case True
  with assms have "s = r" "rng' = rng" by (simp_all add: RandomSubsetByCount_def)
  with True show thesis by (rule all)
next
  case False
  then have n: "n \<le> int (length r)" by simp
  have "\<not> n < 0"
  proof
    assume "n < 0"
    with False assms show False
      by (simp add: RandomSubsetByCount_def split: prod.splits)
  qed
  then have "0 \<le> n" by simp
  with n assms have "s = take (nat n) (fst (shuffle r rng))" "rng' = snd (shuffle r rng)"
    by (simp_all add: RandomSubsetByCount_eq)
  with \<open>0 \<le> n\<close> n show thesis by (rule some)
qed

lemma mset_take_subseteq: "mset (take k xs) \<subseteq># mset xs"
  by (metis append_take_drop_id mset_append mset_subset_eq_add_left)

lemma RandomSubsetByCount_subset:
  assumes "RandomSubsetByCount r n rng = Ret (s, rng')"
  shows "mset s \<subseteq># mset r"
  using assms
proof (cases rule: RandomSubsetByCount_cases)
  case some
  then show ?thesis using mset_take_subseteq[of "nat n" "fst (shuffle r rng)"] by simp
qed simp

lemma RandomSubsetByCount_length:
  "RandomSubsetByCount r n rng = Ret (s, rng') \<Longrightarrow> int (length s) = min n (int (length r))"
  by (erule RandomSubsetByCount_cases) auto

lemma RandomSubsetByFraction_subset:
  "RandomSubsetByFraction r f rng = Ret (s, rng') \<Longrightarrow> mset s \<subseteq># mset r"
  by (auto simp: RandomSubsetByFraction_def Let_def split: if_splits
      intro: RandomSubsetByCount_subset)

lemma RandomSubsetByFraction_set:
  "RandomSubsetByFraction r f rng = Ret (s, rng') \<Longrightarrow> set s \<subseteq> set r"
  by (metis RandomSubsetByFraction_subset set_mset_mono set_mset_mset)

section \<open>Ordering the bids\<close>

lemma mset_sift [simp]: "mset (sift x ys) = add_mset x (mset ys)"
  by (induction ys) auto

lemma mset_Sort [simp]: "mset (Sort v) = mset v"
proof -
  have "mset (fold sift v acc) = mset v + mset acc" for acc
    by (induction v arbitrary: acc) auto
  then show ?thesis by (simp add: Sort_def)
qed

lemma set_Sort [simp]: "set (Sort v) = set v"
  by (metis mset_Sort set_mset_mset)

lemma length_Sort [simp]: "length (Sort v) = length v"
  by (metis mset_Sort size_mset)

text \<open>No entry is less than one before it.\<close>

definition in_order :: "score_results \<Rightarrow> bool" where
  "in_order v = sorted_wrt (\<lambda>a b. \<not> Less b a) v"

definition no_NaN :: "score_results \<Rightarrow> bool" where
  "no_NaN v = (\<forall>r\<in>set v. Score r \<noteq> NaN)"

lemma sift_ordered:
  assumes "sorted_wrt (\<lambda>a b. \<not> Less a b) ys" and "\<forall>r\<in>set (x # ys). Score r \<noteq> NaN"
  shows "sorted_wrt (\<lambda>a b. \<not> Less a b) (sift x ys)"
  using assms
proof (induction ys)
  case (Cons y ys)
  have set: "set (sift x ys) = insert x (set ys)"
    by (metis mset_sift set_mset_add_mset_insert set_mset_mset)
  show ?case
  proof (cases "Less x y")
    case True
    with Cons set show ?thesis by (auto simp: Less_def dest: flt_asym)
  next
    case False
    have "\<not> Less x z" if "z \<in> set ys" for z
      using that False Cons.prems not_flt_trans[of "Score y" "Score z" "Score x"]
      by (auto simp: Less_def)
    with False Cons.prems show ?thesis by auto
  qed
qed simp

lemma Sort_in_order:
  assumes "no_NaN v"
  shows "in_order (Sort v)"
proof -
  have "sorted_wrt (\<lambda>a b. \<not> Less a b) (fold sift v acc)"
    if "sorted_wrt (\<lambda>a b. \<not> Less a b) acc" "\<forall>r\<in>set v \<union> set acc. Score r \<noteq> NaN" for acc
    using that
  proof (induction v arbitrary: acc)
    case (Cons x v)
    have "set (sift x acc) = insert x (set acc)"
      by (metis mset_sift set_mset_add_mset_insert set_mset_mset)
    with Cons show ?case by (auto intro!: Cons.IH sift_ordered)
  qed simp
  from this[of "[]"] assms show ?thesis
    by (simp add: Sort_def in_order_def no_NaN_def sorted_wrt_rev)
qed

lemma Sort_id:
  assumes "in_order v"
  shows "Sort v = v"
proof -
  have "fold sift v acc = rev v @ acc"
    if "in_order v" "\<forall>x\<in>set v. \<forall>y\<in>set acc. \<not> Less x y" for acc
    using that
  proof (induction v arbitrary: acc)
    case (Cons x v)
    have "sift x acc = x # acc" using Cons.prems(2) by (cases acc) auto
    with Cons show ?case by (auto simp: in_order_def)
  qed simp
  from this[of "[]"] assms show ?thesis by (simp add: Sort_def)
qed

lemma FilterErrors_Nil [simp]: "FilterErrors [] = []"
  by (simp add: FilterErrors_def)

lemma set_FilterErrors [simp]: "set (FilterErrors v) = {r \<in> set v. Error r = ''''}"
  by (simp add: FilterErrors_def)

lemma AllFailed_iff: "AllFailed v \<longleftrightarrow> (\<forall>r\<in>set v. Error r \<noteq> '''')"
  by (auto simp: AllFailed_def FilterErrors_def filter_empty_conv)

lemma mset_ordered_bids: "mset (fst (ordered_bids v rng)) = mset (FilterErrors v)"
  by (simp add: ordered_bids_def Shuffle_def split: prod.split)
    (metis fst_conv mset_shuffle)

lemma set_ordered_bids [simp]:
  "set (fst (ordered_bids v rng)) = {r \<in> set v. Error r = ''''}"
  using mset_ordered_bids[of v rng] by (metis set_FilterErrors set_mset_mset)

lemma length_ordered_bids [simp]:
  "length (fst (ordered_bids v rng)) = length (FilterErrors v)"
  using mset_ordered_bids[of v rng] by (metis size_mset)

text \<open>
  What the algorithms rely on in \<open>sort.Sort\<close>, as its documentation states it: the entries are
  kept, and off NaN they come out in order.
\<close>

locale bid_sort =
  fixes srt :: "score_results \<Rightarrow> score_results"
  assumes mset_srt: "mset (srt v) = mset v"
    and srt_in_order: "no_NaN v \<Longrightarrow> in_order (srt v)"
begin

lemma set_srt: "set (srt v) = set v"
  by (metis mset_srt set_mset_mset)

lemma srt_hd_in: "v \<noteq> [] \<Longrightarrow> \<exists>b bs. srt v = b # bs \<and> b \<in> set v"
  using set_srt[of v] by (cases "srt v") auto

lemma srt_hd_least:
  assumes "no_NaN v" and "srt v = b # bs" and "r \<in> set v"
  shows "\<not> Less r b"
proof -
  have "r = b \<or> r \<in> set bs" using set_srt[of v] assms(2,3) by auto
  then show ?thesis
    using srt_in_order[OF assms(1)] assms(2) by (auto simp: in_order_def Less_def)
qed

end

interpretation go_sort: bid_sort Sort
  by unfold_locales (auto intro: Sort_in_order)

lemma ordered_bids_eq: "fst (ordered_bids v rng) = Sort (fst (Shuffle (FilterErrors v) rng))"
  by (simp add: ordered_bids_def split: prod.split)

lemma no_NaN_Shuffle: "no_NaN v \<Longrightarrow> no_NaN (fst (Shuffle (FilterErrors v) rng))"
  by (simp add: no_NaN_def Shuffle_def)

lemma ordered_bids_hd:
  assumes "\<not> AllFailed v"
  shows "\<exists>b bs. fst (ordered_bids v rng) = b # bs \<and> b \<in> set v \<and> Error b = ''''"
proof -
  have "fst (Shuffle (FilterErrors v) rng) \<noteq> []"
    using assms by (metis AllFailed_def Shuffle_def length_0_conv length_shuffle)
  from go_sort.srt_hd_in[OF this] show ?thesis
    by (auto simp: ordered_bids_eq Shuffle_def)
qed

lemma ordered_bids_hd_least:
  assumes "no_NaN v" and "fst (ordered_bids v rng) = b # bs" and "r \<in> set v" and "Error r = ''''"
  shows "\<not> Less r b"
  using assms(2-4) by (intro go_sort.srt_hd_least[OF no_NaN_Shuffle[OF assms(1)]])
    (auto simp: ordered_bids_eq Shuffle_def)

section \<open>Properties\<close>

text \<open> \<open>RandomSubsetByCount\<close> picks a sublist (up to order) of the asked size, or the whole list
  when it has fewer guids than asked.\<close>

theorem RandomSubsetByCount_size:
  assumes "RandomSubsetByCount r n rng = Ret (s, rng')"
  shows "int (length s) = min n (int (length r)) \<and> mset s \<subseteq># mset r"
  using RandomSubsetByCount_length[OF assms] RandomSubsetByCount_subset[OF assms] by simp

theorem RandomSubsetByCount_size_witness:
  "int (length [''c'', ''a'']) = min 2 (int (length [''a'', ''b'', ''c''])) \<and>
   mset [''c'', ''a''] \<subseteq># mset [''a'', ''b'', ''c'']"
proof -
  have "map_outcome fst (RandomSubsetByCount [''a'', ''b'', ''c''] 2
      \<lparr>draws = (\<lambda>n. 0), drawn = 0\<rparr>) = Ret [''c'', ''a'']"
    by code_simp
  then obtain r where "RandomSubsetByCount [''a'', ''b'', ''c''] 2
      \<lparr>draws = (\<lambda>n. 0), drawn = 0\<rparr> = Ret ([''c'', ''a''], r)"
    by (auto simp: map_outcome_fst_iff)
  from RandomSubsetByCount_size[OF this] show ?thesis by simp
qed

text \<open> for a fraction strictly between 0 and 1, \<open>RandomSubsetByFraction\<close> picks the float
  product of the length and the fraction, rounded up: never nothing, never more than there is.\<close>

theorem RandomSubsetByFraction_size:
  assumes "RandomSubsetByFraction r f rng = Ret (s, rng')" and "representable f"
    and "flt (Fin 0) f" and "flt f (Fin 1)" and "r \<noteq> []" and "length r \<le> 2 ^ 53"
  shows "int (length s) = \<lceil>rnd (of_int (int (length r)) * fval f)\<rceil> \<and> s \<noteq> [] \<and>
    length s \<le> length r \<and> mset s \<subseteq># mset r"
proof -
  define n where "n = int (length r)"
  define x where "x = of_int n * fval f"
  have f: "is_finite f" "0 < fval f" "fval f < 1" "rnd (fval f) = fval f" "\<not> fle (Fin 1) f"
    using assms(2-4) by (cases f; auto simp: flt_def fle_def)+
  have n: "1 \<le> n" "n \<le> 2 ^ 53" "is_finite (float_of_int n)" "fval (float_of_int n) = of_int n"
    using assms(5,6) by (simp_all add: n_def Suc_leI float_of_int_fin del: of_int_of_nat_eq)
  have "(1::rat) \<le> of_int n" "of_int n \<le> (of_int (2 ^ 53) :: rat)"
    using n(1,2) by (simp_all only: of_int_le_iff of_int_1_le_iff)
  then have x: "fval f \<le> x" "x \<le> of_int n" "0 < x"
    using f(2,3) mult_right_mono[of 1 "of_int n" "fval f"] mult_left_mono[of "fval f" 1 "of_int n"]
    by (simp_all add: x_def)
  then have "\<bar>x\<bar> \<le> 2 ^ 1023"
    using \<open>of_int n \<le> of_int (2 ^ 53)\<close> by simp
  then have m: "is_finite (fmul (float_of_int n) f)" "fval (fmul (float_of_int n) f) = rnd x"
    using n(3,4) f(1) by (simp_all add: fmul_fin x_def)
  have "rnd (of_int n) = of_int n" using n(1,2) by (intro rnd_of_int) simp
  then have r: "0 < rnd x" "rnd x \<le> of_int n"
    using rnd_mono[OF x(1)] rnd_mono[OF x(2)] f(2,4) by simp_all
  then have c: "0 < \<lceil>rnd x\<rceil>" "\<lceil>rnd x\<rceil> \<le> n" by (simp_all add: ceiling_le_iff)
  then have k: "int_of_float (fceil (fmul (float_of_int n) f)) = \<lceil>rnd x\<rceil>"
    using m r n(2) by (simp add: fceil_def int_of_float_def Let_def)
  have "RandomSubsetByCount r \<lceil>rnd x\<rceil> rng = Ret (s, rng')"
    using assms(1) f(5) k by (simp add: RandomSubsetByFraction_def n_def)
  note RandomSubsetByCount_length[OF this] RandomSubsetByCount_subset[OF this]
  then have "int (length s) = \<lceil>rnd x\<rceil>" "mset s \<subseteq># mset r" using c by (simp_all add: n_def)
  moreover have "int (length s) \<noteq> 0" using calculation(1) c(1) by linarith
  then have "s \<noteq> []" by auto
  moreover have "length s \<le> length r" using calculation(1) c(2) by (simp add: n_def)
  ultimately show ?thesis by (simp add: x_def n_def)
qed

theorem RandomSubsetByFraction_size_witness:
  "int (length [''c'', ''a'']) = \<lceil>rnd (of_int (int (length [''a'', ''b'', ''c''])) * fval (Fin (1 / 2)))\<rceil>"
proof -
  have "float_of_int 3 = Fin 3" by code_simp
  moreover have "fmul (Fin 3) (Fin (1 / 2)) = Fin (3 / 2)" by code_simp
  moreover have "fceil (Fin (3 / 2)) = Fin 2" by code_simp
  moreover have "int_of_float (Fin 2) = 2" by code_simp
  ultimately have "int_of_float (fceil (fmul (float_of_int 3) (Fin (1 / 2)))) = 2" by simp
  moreover have "\<not> fle (Fin 1) (Fin (1 / 2))" by code_simp
  moreover have "int (length [''a'', ''b'', ''c'']) = 3" by simp
  ultimately have "RandomSubsetByFraction [''a'', ''b'', ''c''] (Fin (1 / 2)) rng =
      RandomSubsetByCount [''a'', ''b'', ''c''] 2 rng" for rng
    unfolding RandomSubsetByFraction_def Let_def by metis
  moreover have "map_outcome fst (RandomSubsetByCount [''a'', ''b'', ''c''] 2
      \<lparr>draws = (\<lambda>n. 0), drawn = 0\<rparr>) = Ret [''c'', ''a'']"
    by code_simp
  ultimately have "map_outcome fst (RandomSubsetByFraction [''a'', ''b'', ''c''] (Fin (1 / 2))
      \<lparr>draws = (\<lambda>n. 0), drawn = 0\<rparr>) = Ret [''c'', ''a'']"
    by simp
  then obtain r where "RandomSubsetByFraction [''a'', ''b'', ''c''] (Fin (1 / 2))
      \<lparr>draws = (\<lambda>n. 0), drawn = 0\<rparr> = Ret ([''c'', ''a''], r)"
    by (auto simp: map_outcome_fst_iff)
  moreover have "representable (Fin (1 / 2))" "flt (Fin 0) (Fin (1 / 2))" "flt (Fin (1 / 2)) (Fin 1)"
    by code_simp+
  ultimately show ?thesis using RandomSubsetByFraction_size by fastforce
qed



end
