(* ===== verification/Rep_Pool.thy ===== *)
theory Rep_Pool
  imports Types
begin

text \<open>
  The contract of a \<open>types.RepPoolClient\<close>, as the auction algorithms rely on it.  \<open>holders w\<close> are
  the representatives that hold the instance \<open>inst\<close> (reserved or claimed) in world \<open>w\<close>,
  \<open>known\<close> the guids the client can reach, and \<open>ok\<close> what every call keeps.  A pool that keeps
  the contract answers every guid it is asked about exactly once; a reservation is held exactly
  when its answer has no error, and a release is never lost.
\<close>

section \<open>The abstract pool\<close>

text \<open>
  The calls of a client, about one instance, and what an abstract pool, which is just the set of
  representatives that hold the instance, does on each: the answers it may give and the holders it
  goes on with.
\<close>

datatype pool_call = PoolScore rep_guids | PoolReserve rep_guids | PoolRelease rep_guids | PoolClaim string

datatype pool_answer = Scores score_results | Acknowledged

fun call_guids :: "pool_call \<Rightarrow> string set" where
  "call_guids (PoolScore gs) = set gs"
| "call_guids (PoolReserve gs) = set gs"
| "call_guids (PoolRelease gs) = set gs"
| "call_guids (PoolClaim g) = {g}"

fun pool_spec :: "pool_call \<Rightarrow> string set \<Rightarrow> pool_answer \<Rightarrow> string set \<Rightarrow> bool" where
  "pool_spec (PoolScore gs) H (Scores rs) H' = (H' = H \<and> mset (map Rep rs) = mset gs)"
| "pool_spec (PoolReserve gs) H (Scores rs) H' =
     (H' = H \<union> set (Reps (FilterErrors rs)) \<and> mset (map Rep rs) = mset gs)"
| "pool_spec (PoolRelease gs) H Acknowledged H' = (H' = H - set gs)"
| "pool_spec (PoolClaim g) H Acknowledged H' = (H' = H)"
| "pool_spec _ H _ H' = False"

inductive pool_runs :: "pool_call list \<Rightarrow> string set \<Rightarrow> pool_answer list \<Rightarrow> string set \<Rightarrow> bool" where
  quiet: "pool_runs [] H [] H"
| call: "pool_spec c H a H1 \<Longrightarrow> pool_runs cs H1 as H' \<Longrightarrow> pool_runs (c # cs) H (a # as) H'"


text \<open>A client's calls, one after the other.\<close>

fun client_call ::
    "'w world_scheme rep_pool_client \<Rightarrow> app_instance \<Rightarrow> pool_call \<Rightarrow> 'w world_scheme
     \<Rightarrow> (pool_answer \<times> 'w world_scheme) outcome" where
  "client_call client i (PoolScore gs) w =
     obind (cScore client gs i w) (\<lambda>(rs, w1). Ret (Scores rs, w1))"
| "client_call client i (PoolReserve gs) w =
     obind (cScoreThenTentativelyReserve client gs i w) (\<lambda>(rs, w1). Ret (Scores rs, w1))"
| "client_call client i (PoolRelease gs) w =
     obind (cReleaseReservation client gs i w) (\<lambda>(_, w1). Ret (Acknowledged, w1))"
| "client_call client i (PoolClaim g) w =
     obind (cClaim client g i w) (\<lambda>(_, w1). Ret (Acknowledged, w1))"

fun client_calls ::
    "'w world_scheme rep_pool_client \<Rightarrow> app_instance \<Rightarrow> pool_call list \<Rightarrow> 'w world_scheme
     \<Rightarrow> (pool_answer list \<times> 'w world_scheme) outcome" where
  "client_calls client i [] w = Ret ([], w)"
| "client_calls client i (c # cs) w =
     obind (client_call client i c w) (\<lambda>(a, w1).
     obind (client_calls client i cs w1) (\<lambda>(as, w2). Ret (a # as, w2)))"


section \<open>The contract\<close>

locale reserving_pool =
  fixes client :: "'w world_scheme rep_pool_client"
    and holders :: "'w world_scheme \<Rightarrow> string set"
    and ok :: "'w world_scheme \<Rightarrow> bool"
    and inst :: app_instance
    and known :: "string set"
  assumes ok_R: "ok w \<Longrightarrow> ok (w\<lparr>R := r\<rparr>)"
    and holders_R: "holders (w\<lparr>R := r\<rparr>) = holders w"
    and ok_clock: "ok w \<Longrightarrow> ok (w\<lparr>clock_reads := n\<rparr>)"
    and holders_clock: "holders (w\<lparr>clock_reads := n\<rparr>) = holders w"
    and score_law: "ok w \<Longrightarrow> set gs \<subseteq> known \<Longrightarrow>
      \<exists>rs w'. cScore client gs inst w = Ret (rs, w') \<and> ok w' \<and> holders w' = holders w \<and>
        mset (map Rep rs) = mset gs"
    and reserve_law: "ok w \<Longrightarrow> set gs \<subseteq> known \<Longrightarrow>
      \<exists>rs w'. cScoreThenTentativelyReserve client gs inst w = Ret (rs, w') \<and> ok w' \<and>
        holders w' = holders w \<union> set (Reps (FilterErrors rs)) \<and> mset (map Rep rs) = mset gs"
    and release_law: "ok w \<Longrightarrow> set gs \<subseteq> known \<Longrightarrow>
      \<exists>w'. cReleaseReservation client gs inst w = Ret ((), w') \<and> ok w' \<and>
        holders w' = holders w - set gs"
    and claim_law: "ok w \<Longrightarrow> g \<in> known \<Longrightarrow>
      \<exists>w'. cClaim client g inst w = Ret ((), w') \<and> ok w' \<and> holders w' = holders w"
begin

lemma score_returns:
  assumes "ok w" and "set gs \<subseteq> known"
  obtains rs w' where "cScore client gs inst w = Ret (rs, w')" "ok w'" "holders w' = holders w"
    "mset (map Rep rs) = mset gs" "Rep ` set rs = set gs" "length rs = length gs"
proof -
  obtain rs w' where rs: "cScore client gs inst w = Ret (rs, w')" "ok w'" "holders w' = holders w"
    "mset (map Rep rs) = mset gs"
    using score_law[OF assms] by blast
  have "Rep ` set rs = set gs" using mset_eq_setD[OF rs(4)] by simp
  moreover have "length rs = length gs" using mset_eq_length[OF rs(4)] by simp
  ultimately show thesis by (rule that[OF rs(1-4)])
qed

lemma reserve_returns:
  assumes "ok w" and "set gs \<subseteq> known"
  obtains rs w' where "cScoreThenTentativelyReserve client gs inst w = Ret (rs, w')" "ok w'"
    "holders w' = holders w \<union> set (Reps (FilterErrors rs))"
    "mset (map Rep rs) = mset gs" "Rep ` set rs = set gs" "length rs = length gs"
proof -
  obtain rs w' where rs: "cScoreThenTentativelyReserve client gs inst w = Ret (rs, w')" "ok w'"
    "holders w' = holders w \<union> set (Reps (FilterErrors rs))"
    "mset (map Rep rs) = mset gs"
    using reserve_law[OF assms] by blast
  have "Rep ` set rs = set gs" using mset_eq_setD[OF rs(4)] by simp
  moreover have "length rs = length gs" using mset_eq_length[OF rs(4)] by simp
  ultimately show thesis by (rule that[OF rs(1-4)])
qed

text \<open>Asking one representative: the answer is there to be read.\<close>

lemma reserve_one:
  assumes "ok w" and "g \<in> known"
  obtains r w' where "cScoreThenTentativelyReserve client [g] inst w = Ret ([r], w')" "ok w'"
    "Rep r = g" "holders w' = (if Error r = '''' then insert g (holders w) else holders w)"
proof -
  have "set [g] \<subseteq> known" using assms(2) by simp
  from assms(1) this obtain rs w' where rs: "cScoreThenTentativelyReserve client [g] inst w = Ret (rs, w')" "ok w'"
    "holders w' = holders w \<union> set (Reps (FilterErrors rs))" "mset (map Rep rs) = mset [g]"
    by (rule reserve_returns)
  from rs(4) obtain r where r: "rs = [r]" "Rep r = g"
    by (cases rs) (auto dest: mset_eq_length)
  show thesis
    by (rule that[of r w']) (use rs r in \<open>auto simp: Reps_def FilterErrors_def\<close>)
qed

text \<open>Whatever is called, a pool that keeps the contract does what the abstract pool does.\<close>

lemma call_refines:
  assumes "ok w" and "call_guids c \<subseteq> known"
  shows "\<exists>a w'. client_call client inst c w = Ret (a, w') \<and> ok w' \<and> pool_spec c (holders w) a (holders w')"
proof (cases c)
  case (PoolScore gs)
  then show ?thesis using score_law[OF assms(1), of gs] assms(2) by fastforce
next
  case (PoolReserve gs)
  then show ?thesis using reserve_law[OF assms(1), of gs] assms(2) by fastforce
next
  case (PoolRelease gs)
  then show ?thesis using release_law[OF assms(1), of gs] assms(2) by fastforce
next
  case (PoolClaim g)
  then show ?thesis using claim_law[OF assms(1), of g] assms(2) by fastforce
qed

lemma calls_refine:
  assumes "ok w" and "\<And>c. c \<in> set cs \<Longrightarrow> call_guids c \<subseteq> known"
  shows "\<exists>as w'. client_calls client inst cs w = Ret (as, w') \<and> ok w' \<and>
    pool_runs cs (holders w) as (holders w')"
  using assms
proof (induction cs arbitrary: w)
  case (Cons c cs w)
  obtain a w1 where 1: "client_call client inst c w = Ret (a, w1)" "ok w1"
    "pool_spec c (holders w) a (holders w1)"
    using call_refines[OF Cons.prems(1), of c] Cons.prems(2)[of c] by auto
  have "\<exists>as w'. client_calls client inst cs w1 = Ret (as, w') \<and> ok w' \<and>
      pool_runs cs (holders w1) as (holders w')"
    by (rule Cons.IH[OF 1(2)]) (rule Cons.prems(2), simp)
  then obtain as w' where 2: "client_calls client inst cs w1 = Ret (as, w')" "ok w'"
    "pool_runs cs (holders w1) as (holders w')" by blast
  from 1 2 have "client_calls client inst (c # cs) w = Ret (a # as, w')" by simp
  with pool_runs.call[OF 1(3) 2(3)] 2(2) show ?case by blast
qed (simp add: pool_runs.quiet)

end

end
