(* ===== verification/Auctioneer.thy ===== *)
theory Auctioneer
  imports Rep_Pool
begin

text \<open>
  Package \<open>auctioneer\<close>: the six auction algorithms and \<open>Auction\<close>.  Each algorithm of the code is
  a loop over rounds; its body is a definition of its own (\<open>pickBestRound\<close> and so on), which
  ends in \<open>Continue\<close> (the code's \<open>continue\<close>) or in \<open>Return\<close> (its \<open>return\<close>), and \<open>run_rounds\<close> is
  the loop the six functions share word for word.  The client is any record of operations on
  the world; a panic of the client or of an index ends the auction.
\<close>

section \<open>The loop over rounds\<close>

datatype 'w round_end =
    Continue (communications: int) (world_of: 'w)
  | Return (winner_of: string) (communications: int) (world_of: 'w)

text \<open>
  \<open>rounds, numCommunications := 1, 0; for ; rounds <= MaxRounds; rounds++ { body }; return "", \<dots>\<close>
\<close>

function run_rounds ::
    "(int \<Rightarrow> 'w \<Rightarrow> 'w round_end outcome) \<Rightarrow> int \<Rightarrow> int \<Rightarrow> int \<Rightarrow> 'w
     \<Rightarrow> ((string \<times> int \<times> int) \<times> 'w) outcome" where
  "run_rounds body maxRounds rounds numCommunications w =
     (if rounds \<le> maxRounds then
        (case body numCommunications w of
           Panic p \<Rightarrow> Panic p
         | Ret (Continue nc w') \<Rightarrow> run_rounds body maxRounds (rounds + 1) nc w'
         | Ret (Return winner nc w') \<Rightarrow> Ret ((winner, rounds, nc), w'))
      else Ret (('''', rounds, numCommunications), w))"
  by pat_completeness auto
termination
  by (relation "measure (\<lambda>(body, mx, rounds, nc, w). nat (mx + 1 - rounds))") auto

declare run_rounds.simps [simp del]

text \<open>The two uses of \<open>util.R\<close> all algorithms share: the subset of a round, and ordered bids.\<close>

definition pick_subset ::
    "auction_request \<Rightarrow> 'w world_scheme \<Rightarrow> (rep_guids \<times> 'w world_scheme) outcome" where
  "pick_subset req w =
     obind (RandomSubsetByFraction (RepGuids req) (MaxBiddingPool (Rules req)) (R w))
       (\<lambda>(reps, r). Ret (reps, w\<lparr>R := r\<rparr>))"

definition order_bids :: "score_results \<Rightarrow> 'w world_scheme \<Rightarrow> score_results \<times> 'w world_scheme" where
  "order_bids v w = (let (bids, r) = ordered_bids v (R w) in (bids, w\<lparr>R := r\<rparr>))"

section \<open>pick\_best.go\<close>

definition pickBestRound ::
    "'w world_scheme rep_pool_client \<Rightarrow> auction_request \<Rightarrow> int \<Rightarrow> 'w world_scheme
     \<Rightarrow> 'w world_scheme round_end outcome" where
  "pickBestRound client req nc w =
     (let inst = ReqInstance req in
      obind (pick_subset req w) (\<lambda>(firstRoundReps, w1).
      let nc1 = nc + int (length firstRoundReps) in
      obind (cScore client firstRoundReps inst w1) (\<lambda>(firstRoundScores, w2).
      if AllFailed firstRoundScores then Ret (Continue nc1 w2)
      else let (bids, w3) = order_bids firstRoundScores w2 in
      obind (go_index bids 0) (\<lambda>winner.
      obind (cScoreThenTentativelyReserve client [Rep winner] inst w3) (\<lambda>(recast, w4).
      obind (go_index recast 0) (\<lambda>result.
      let nc2 = nc1 + 1 in
      if Error result \<noteq> '''' then Ret (Continue nc2 w4)
      else obind (cClaim client (Rep winner) inst w4) (\<lambda>(_, w5).
        Ret (Return (Rep winner) (nc2 + 1) w5))))))))"

definition pickBestAuction where
  "pickBestAuction client req w =
     run_rounds (pickBestRound client req) (MaxRounds (Rules req)) 1 0 w"

section \<open>pick\_among\_best.go\<close>

text \<open>
  \<open>[:5]\<close> of a slice that \<open>Shuffle\<close> made with the capacity of its length: it panics when there
  are fewer than five bids.
\<close>

definition pickAmongBestRound ::
    "'w world_scheme rep_pool_client \<Rightarrow> auction_request \<Rightarrow> int \<Rightarrow> 'w world_scheme
     \<Rightarrow> 'w world_scheme round_end outcome" where
  "pickAmongBestRound client req nc w =
     (let inst = ReqInstance req in
      obind (pick_subset req w) (\<lambda>(firstRoundReps, w1).
      let nc1 = nc + int (length firstRoundReps) in
      obind (cScore client firstRoundReps inst w1) (\<lambda>(firstRoundScores, w2).
      if AllFailed firstRoundScores then Ret (Continue nc1 w2)
      else let (bids, w3) = order_bids firstRoundScores w2 in
      obind (go_slice_to bids 5) (\<lambda>top5Winners.
      let (shuffled, r) = Shuffle top5Winners (R w3); w4 = w3\<lparr>R := r\<rparr> in
      obind (go_index shuffled 0) (\<lambda>winner.
      obind (cScoreThenTentativelyReserve client [Rep winner] inst w4) (\<lambda>(recast, w5).
      obind (go_index recast 0) (\<lambda>result.
      let nc2 = nc1 + 1 in
      if Error result \<noteq> '''' then Ret (Continue nc2 w5)
      else obind (cClaim client (Rep winner) inst w5) (\<lambda>(_, w6).
        Ret (Return (Rep winner) (nc2 + 1) w6)))))))))"

definition pickAmongBestAuction where
  "pickAmongBestAuction client req w =
     run_rounds (pickAmongBestRound client req) (MaxRounds (Rules req)) 1 0 w"

section \<open>random.go\<close>

definition randomRound ::
    "'w world_scheme rep_pool_client \<Rightarrow> auction_request \<Rightarrow> int \<Rightarrow> 'w world_scheme
     \<Rightarrow> 'w world_scheme round_end outcome" where
  "randomRound client req nc w =
     (let inst = ReqInstance req in
      obind (RandomSubsetByCount (RepGuids req) 1 (R w)) (\<lambda>(subset, r).
      let w1 = w\<lparr>R := r\<rparr> in
      obind (go_index subset 0) (\<lambda>randomPick.
      obind (cScoreThenTentativelyReserve client [randomPick] inst w1) (\<lambda>(recast, w2).
      obind (go_index recast 0) (\<lambda>result.
      let nc1 = nc + 1 in
      if Error result \<noteq> '''' then Ret (Continue nc1 w2)
      else obind (cClaim client randomPick inst w2) (\<lambda>(_, w3).
        Ret (Return randomPick (nc1 + 1) w3)))))))"

definition randomAuction where
  "randomAuction client req w =
     run_rounds (randomRound client req) (MaxRounds (Rules req)) 1 0 w"

section \<open>all\_rescore.go\<close>

definition allRescoreRound ::
    "'w world_scheme rep_pool_client \<Rightarrow> auction_request \<Rightarrow> int \<Rightarrow> 'w world_scheme
     \<Rightarrow> 'w world_scheme round_end outcome" where
  "allRescoreRound client req nc w =
     (let inst = ReqInstance req in
      obind (pick_subset req w) (\<lambda>(firstRoundReps, w1).
      let nc1 = nc + int (length firstRoundReps) in
      obind (cScore client firstRoundReps inst w1) (\<lambda>(firstRoundScores, w2).
      if AllFailed firstRoundScores then Ret (Continue nc1 w2)
      else let (bids, w3) = order_bids firstRoundScores w2 in
      obind (go_index bids 0) (\<lambda>winner.
      let nc2 = nc1 + 1 in
      obind (cScoreThenTentativelyReserve client [Rep winner] inst w3) (\<lambda>(recast, w4).
      obind (go_index recast 0) (\<lambda>winnerRecast.
      let secondRoundReps = Without firstRoundReps [Rep winner];
          nc3 = nc2 + int (length secondRoundReps) in
      obind (cScore client secondRoundReps inst w4) (\<lambda>(secondRoundScores, w5).
      let claim = (\<lambda>w'. obind (cClaim client (Rep winner) inst w') (\<lambda>(_, w7).
            Ret (Return (Rep winner) (nc3 + 1) w7))) in
      if Error winnerRecast \<noteq> '''' then Ret (Continue nc3 w5)
      else if \<not> AllFailed secondRoundScores then
        (let (seconds, w6) = order_bids secondRoundScores w5 in
         obind (go_index seconds 0) (\<lambda>secondPlace.
         if Less secondPlace winnerRecast then
           obind (cReleaseReservation client [Rep winner] inst w6) (\<lambda>(_, w7).
             Ret (Continue (nc3 + 1) w7))
         else claim w6))
      else claim w5)))))))"

definition allRescoreAuction where
  "allRescoreAuction client req w =
     run_rounds (allRescoreRound client req) (MaxRounds (Rules req)) 1 0 w"

section \<open>all\_reserve.go\<close>

definition allReserveRound ::
    "'w world_scheme rep_pool_client \<Rightarrow> auction_request \<Rightarrow> int \<Rightarrow> 'w world_scheme
     \<Rightarrow> 'w world_scheme round_end outcome" where
  "allReserveRound client req nc w =
     (let inst = ReqInstance req in
      obind (pick_subset req w) (\<lambda>(firstRoundReps, w1).
      let nc1 = nc + int (length firstRoundReps) in
      obind (cScoreThenTentativelyReserve client firstRoundReps inst w1) (\<lambda>(scores, w2).
      if AllFailed scores then Ret (Continue nc1 w2)
      else let (bids, w3) = order_bids scores w2;
               orderedReps = Reps bids;
               nc2 = nc1 + int (length orderedReps) in
      obind (go_index orderedReps 0) (\<lambda>winner.
      obind (cClaim client winner inst w3) (\<lambda>(_, w4).
      if 1 < length orderedReps then
        obind (cReleaseReservation client (drop 1 orderedReps) inst w4) (\<lambda>(_, w5).
          Ret (Return winner nc2 w5))
      else Ret (Return winner nc2 w4))))))"

definition allReserveAuction where
  "allReserveAuction client req w =
     run_rounds (allReserveRound client req) (MaxRounds (Rules req)) 1 0 w"

section \<open>reserve\_n\_best.go\<close>

definition reserveNBestRound ::
    "'w world_scheme rep_pool_client \<Rightarrow> auction_request \<Rightarrow> int \<Rightarrow> 'w world_scheme
     \<Rightarrow> 'w world_scheme round_end outcome" where
  "reserveNBestRound client req nc w =
     (let inst = ReqInstance req in
      obind (pick_subset req w) (\<lambda>(firstRoundReps, w1).
      let nc1 = nc + int (length firstRoundReps) in
      obind (cScore client firstRoundReps inst w1) (\<lambda>(firstRoundScores, w2).
      if AllFailed firstRoundScores then Ret (Continue nc1 w2)
      else let (winners, w3) = order_bids firstRoundScores w2;
               mx = (if int (length winners) < 5 then int (length winners) else 5) in
      obind (go_slice_to winners mx) (\<lambda>topWinners.
      let nc2 = nc1 + int (length topWinners) in
      obind (cScoreThenTentativelyReserve client (Reps topWinners) inst w3) (\<lambda>(reserved, w4).
      if AllFailed reserved then Ret (Continue nc2 w4)
      else let (bids, w5) = order_bids reserved w4;
               orderedReps = Reps bids;
               nc3 = nc2 + int (length reserved) in
      obind (go_index orderedReps 0) (\<lambda>winner.
      obind (cClaim client winner inst w5) (\<lambda>(_, w6).
      if 1 < length orderedReps then
        obind (cReleaseReservation client (drop 1 orderedReps) inst w6) (\<lambda>(_, w7).
          Ret (Return winner nc3 w7))
      else Ret (Return winner nc3 w6))))))))"

definition reserveNBestAuction where
  "reserveNBestAuction client req w =
     run_rounds (reserveNBestRound client req) (MaxRounds (Rules req)) 1 0 w"

section \<open>auctioneer.go\<close>

definition DefaultRules :: auction_rules where
  "DefaultRules =
     \<lparr>Algorithm = ''reserve_n_best'', MaxRounds = 100, MaxBiddingPool = of_exact False (1 / 5)\<rparr>"

text \<open>The \<open>switch\<close> over the name of the algorithm.\<close>

definition hold_auction ::
    "'w world_scheme rep_pool_client \<Rightarrow> auction_request \<Rightarrow> 'w world_scheme
     \<Rightarrow> ((string \<times> int \<times> int) \<times> 'w world_scheme) outcome" where
  "hold_auction client req w =
     (let alg = Algorithm (Rules req) in
      if alg = ''all_rescore'' then allRescoreAuction client req w
      else if alg = ''all_reserve'' then allReserveAuction client req w
      else if alg = ''pick_among_best'' then pickAmongBestAuction client req w
      else if alg = ''pick_best'' then pickBestAuction client req w
      else if alg = ''reserve_n_best'' then reserveNBestAuction client req w
      else if alg = ''random'' then randomAuction client req w
      else Panic (UserPanic (''unkown algorithm '' @ alg)))"

definition Auction ::
    "'w world_scheme rep_pool_client \<Rightarrow> auction_request \<Rightarrow> 'w world_scheme
     \<Rightarrow> (auction_result \<times> 'w world_scheme) outcome" where
  "Auction client req w =
     (let (t, w1) = time_Now w in
      obind (hold_auction client req w1) (\<lambda>((winner, numRounds, numCommunications), w2).
      let (t', w3) = time_Now w2 in
      Ret (\<lparr>ResInstance = ReqInstance req, Winner = winner, NumRounds = numRounds,
            NumCommunications = numCommunications, BiddingDuration = t' - t, Duration = 0\<rparr>, w3)))"

end
