(* ===== verification/Auction_Rounds.thy ===== *)
theory Auction_Rounds
  imports Auctioneer
begin

text \<open>
  What the algorithms of \<open>auctioneer\<close> guarantee over any pool that keeps the contract
  \<open>reserving_pool\<close>: each round either ends with nobody holding the instance and the auction goes
  on, or ends with exactly the winner holding it; the winner is one of the representatives of
  the request; the communications of a round are bounded.  The loop lifts this to the whole
  auction.  Panics are an explicit case, so that the algorithms that cannot panic are told from
  the one that can.
\<close>

section \<open>The shape of a request and of an ended round\<close>

text \<open>
  A request the algorithms are meant for: known representatives, each listed once, at least one
  of them, and a pool fraction that is not negative (and not NaN).
\<close>

definition valid_request :: "string set \<Rightarrow> app_instance \<Rightarrow> auction_request \<Rightarrow> bool" where
  "valid_request known inst req \<longleftrightarrow>
     ReqInstance req = inst \<and> set (RepGuids req) \<subseteq> known \<and> distinct (RepGuids req) \<and>
     RepGuids req \<noteq> [] \<and> length (RepGuids req) \<le> 2 ^ 53 \<and>
     fle (Fin 0) (MaxBiddingPool (Rules req))"

text \<open>The bound on the communications of one round.\<close>

definition round_bound :: "auction_request \<Rightarrow> int" where
  "round_bound req = 2 * int (length (RepGuids req)) + 10"

definition settles ::
    "('w \<Rightarrow> bool) \<Rightarrow> ('w \<Rightarrow> string set) \<Rightarrow> auction_request \<Rightarrow> int \<Rightarrow> 'w round_end \<Rightarrow> bool" where
  "settles ok holders req nc e \<longleftrightarrow>
     nc \<le> communications e \<and> communications e \<le> nc + round_bound req \<and> ok (world_of e) \<and>
     (case e of
        Continue _ w \<Rightarrow> holders w = {}
      | Return winner _ w \<Rightarrow> holders w = {winner} \<and> winner \<in> set (RepGuids req))"

text \<open>\<open>allowed\<close> are the panics the round may end in.\<close>

definition round_ends ::
    "(go_panic \<Rightarrow> bool) \<Rightarrow> ('w \<Rightarrow> bool) \<Rightarrow> ('w \<Rightarrow> string set) \<Rightarrow> auction_request \<Rightarrow> int
     \<Rightarrow> 'w round_end outcome \<Rightarrow> bool" where
  "round_ends allowed ok holders req nc m =
     (case m of Panic p \<Rightarrow> allowed p | Ret e \<Rightarrow> settles ok holders req nc e)"

definition auction_ends ::
    "(go_panic \<Rightarrow> bool) \<Rightarrow> ('w \<Rightarrow> bool) \<Rightarrow> ('w \<Rightarrow> string set) \<Rightarrow> auction_request \<Rightarrow> int \<Rightarrow> int \<Rightarrow> int
     \<Rightarrow> ((string \<times> int \<times> int) \<times> 'w) outcome \<Rightarrow> bool" where
  "auction_ends allowed ok holders req mx rounds nc m =
     (case m of
        Panic p \<Rightarrow> allowed p
      | Ret ((winner, n, nc'), w') \<Rightarrow>
          ok w' \<and> nc \<le> nc' \<and> nc' \<le> nc + round_bound req * max 0 (mx + 1 - rounds) \<and>
          (if winner \<in> set (RepGuids req) \<and> holders w' = {winner}
           then rounds \<le> n \<and> n \<le> mx
           else winner = '''' \<and> n = max rounds (mx + 1) \<and> holders w' = {}))"

text \<open>The six algorithms by name, and the only one that may panic on a valid request.\<close>

definition algorithms :: "string set" where
  "algorithms =
     {''all_rescore'', ''all_reserve'', ''pick_among_best'', ''pick_best'', ''reserve_n_best'',
      ''random''}"

definition only_pick_among_best :: "auction_request \<Rightarrow> go_panic \<Rightarrow> bool" where
  "only_pick_among_best req p \<longleftrightarrow>
     Algorithm (Rules req) = ''pick_among_best'' \<and> p = SliceBoundsOutOfRange"

text \<open>
  The end of an auction: either a representative of the request has won and alone holds the
  instance, or nobody has won, all rounds were played and nobody holds it.
\<close>

definition settled ::
    "(auction_request \<Rightarrow> go_panic \<Rightarrow> bool) \<Rightarrow> ('w \<Rightarrow> bool) \<Rightarrow> ('w \<Rightarrow> string set) \<Rightarrow> auction_request
     \<Rightarrow> (auction_result \<times> 'w) outcome \<Rightarrow> bool" where
  "settled allowed ok holders req m =
     (case m of
        Panic p \<Rightarrow> allowed req p
      | Ret (res, w') \<Rightarrow>
          ok w' \<and> ResInstance res = ReqInstance req \<and>
          0 \<le> NumCommunications res \<and>
          NumCommunications res \<le> round_bound req * max 0 (MaxRounds (Rules req)) \<and>
          (if Winner res \<in> set (RepGuids req) \<and> holders w' = {Winner res}
           then 1 \<le> NumRounds res \<and> NumRounds res \<le> MaxRounds (Rules req)
           else Winner res = '''' \<and> NumRounds res = max 1 (MaxRounds (Rules req) + 1) \<and>
             holders w' = {}))"

lemma round_bound_nonneg: "0 \<le> round_bound req"
  by (simp add: round_bound_def)

lemma auction_ends_earlier:
  assumes "auction_ends allowed ok holders req mx (rounds + 1) nc1 m" and "rounds \<le> mx"
    and "nc \<le> nc1" and "nc1 \<le> nc + round_bound req"
  shows "auction_ends allowed ok holders req mx rounds nc m"
proof (cases m)
  case (Ret x)
  obtain winner n nc' w' where x: "x = ((winner, n, nc'), w')" by (metis prod.collapse)
  define K where "K = round_bound req"
  have K: "K * max 0 (mx + 1 - rounds) = K + K * max 0 (mx + 1 - (rounds + 1))"
    using assms(2) by (simp add: algebra_simps)
  have "nc' \<le> nc1 + K * max 0 (mx + 1 - (rounds + 1))"
    using assms(1) unfolding Ret x by (simp add: auction_ends_def K_def)
  then have "nc' \<le> nc + K * max 0 (mx + 1 - rounds)" using K assms(4) by (simp add: K_def)
  with assms show ?thesis
    unfolding Ret x by (simp add: auction_ends_def K_def split: if_splits)
qed (use assms in \<open>simp add: auction_ends_def\<close>)

lemma auction_ends_return:
  assumes "settles ok holders req nc (Return winner nc1 w1)" and "rounds \<le> mx"
  shows "auction_ends allowed ok holders req mx rounds nc (Ret ((winner, rounds, nc1), w1))"
proof -
  have "round_bound req * 1 \<le> round_bound req * max 0 (mx + 1 - rounds)"
    using assms(2) by (intro mult_left_mono round_bound_nonneg) simp
  with assms show ?thesis by (simp add: auction_ends_def settles_def)
qed

text \<open>The loop: what every round guarantees, the auction guarantees.\<close>

lemma run_rounds_ends:
  assumes body: "\<And>nc w. ok w \<Longrightarrow> holders w = {} \<Longrightarrow> round_ends allowed ok holders req nc (body nc w)"
    and "ok w" and "holders w = {}"
  shows "auction_ends allowed ok holders req mx rounds nc (run_rounds body mx rounds nc w)"
  using assms(2,3)
proof (induction "nat (mx + 1 - rounds)" arbitrary: rounds nc w)
  case 0
  then show ?case by (subst run_rounds.simps) (simp add: auction_ends_def)
next
  case (Suc k)
  then have le: "rounds \<le> mx" and k: "k = nat (mx + 1 - (rounds + 1))" by simp_all
  have b: "round_ends allowed ok holders req nc (body nc w)" using Suc.prems by (rule body)
  note unfold = run_rounds.simps[of body mx rounds nc w]
  show ?case
  proof (cases "body nc w")
    case (Panic p)
    then show ?thesis using b le by (simp add: unfold round_ends_def auction_ends_def)
  next
    case (Ret e)
    with b have e: "settles ok holders req nc e" by (simp add: round_ends_def)
    show ?thesis
    proof (cases e)
      case (Continue nc1 w1)
      with e have "ok w1" "holders w1 = {}" and nc1: "nc \<le> nc1" "nc1 \<le> nc + round_bound req"
        by (simp_all add: settles_def)
      then have "auction_ends allowed ok holders req mx (rounds + 1) nc1
          (run_rounds body mx (rounds + 1) nc1 w1)"
        by (intro Suc.hyps(1)[OF k])
      then show ?thesis
        using auction_ends_earlier[OF _ le nc1] le Ret Continue by (simp add: unfold)
    next
      case (Return winner nc1 w1)
      with auction_ends_return[OF e[unfolded Return] le] Ret le show ?thesis by (simp add: unfold)
    qed
  qed
qed

section \<open>The subset of a round\<close>

lemma order_bids_eq:
  "order_bids v w = (fst (ordered_bids v (R w)), w\<lparr>R := snd (ordered_bids v (R w))\<rparr>)"
  by (simp add: order_bids_def split: prod.split)

lemma mset_Reps_ordered: "mset (Reps (fst (ordered_bids v r))) = mset (Reps (FilterErrors v))"
  by (simp add: Reps_def mset_ordered_bids)

lemma distinct_Reps_ordered:
  assumes "distinct (map Rep v)"
  shows "distinct (Reps (fst (ordered_bids v r)))"
proof -
  have "distinct (Reps (FilterErrors v))"
    using assms by (simp add: Reps_def FilterErrors_def distinct_map_filter)
  then show ?thesis by (metis mset_Reps_ordered mset_eq_imp_distinct_iff)
qed

lemma set_Reps_ordered: "set (Reps (fst (ordered_bids v r))) = set (Reps (FilterErrors v))"
  using mset_Reps_ordered by (metis set_mset_mset)

text \<open>The size of the subset is not negative when the fraction is not.\<close>

lemma subset_size_nonneg:
  assumes "fle (Fin 0) f" and "\<not> fle (Fin 1) f" and "n \<le> 2 ^ 53"
  shows "0 \<le> int_of_float (fceil (fmul (float_of_int (int n)) f))"
proof -
  have n: "is_finite (float_of_int (int n))" "fval (float_of_int (int n)) = of_int (int n)"
    "(of_int (int n) :: rat) \<le> of_int (2 ^ 53)"
    using assms(3) by (simp_all add: float_of_int_fin del: of_int_of_nat_eq of_int_power)
  have f: "is_finite f" "0 \<le> fval f" "fval f < 1"
    using assms(1,2) by (cases f; auto simp: fle_def)+
  then have "0 \<le> of_int (int n) * fval f" "of_int (int n) * fval f \<le> of_int (2 ^ 53)"
    using n(3) by (auto intro: order_trans[OF mult_left_le])
  note b = this
  then have "\<bar>fval (float_of_int (int n)) * fval f\<bar> \<le> 2 ^ 1023"
    by (simp add: n(2))
  then have m: "is_finite (fmul (float_of_int (int n)) f)"
    "fval (fmul (float_of_int (int n)) f) = rnd (of_int (int n) * fval f)"
    using n(1,2) f(1) by (simp_all add: fmul_fin)
  have r: "0 \<le> rnd (of_int (int n) * fval f)" "rnd (of_int (int n) * fval f) \<le> of_int (2 ^ 53)"
    using b rnd_nonneg rnd_between(2)[of 0 "of_int (int n) * fval f" "2 ^ 53"] by simp_all
  then have "\<lceil>rnd (of_int (int n) * fval f)\<rceil> \<le> 2 ^ 53" by (simp only: ceiling_le_iff)
  with r(1) m show ?thesis
    by (auto simp: fceil_def int_of_float_def Let_def)
qed

lemma distinct_subseteq_mset:
  assumes "mset xs \<subseteq># mset ys" and "distinct ys"
  shows "distinct xs"
proof -
  obtain zs where "mset ys = mset (xs @ zs)"
    using assms(1) by (metis ex_mset mset_append mset_subset_eq_exists_conv)
  then have "distinct (xs @ zs)" using assms(2) by (metis mset_eq_imp_distinct_iff)
  then show ?thesis by simp
qed

lemma pick_subset_returns:
  assumes "valid_request known inst req"
  obtains reps r where "pick_subset req w = Ret (reps, w\<lparr>R := r\<rparr>)"
    "set reps \<subseteq> set (RepGuids req)" "distinct reps" "length reps \<le> length (RepGuids req)"
proof -
  have "\<exists>s r. RandomSubsetByFraction (RepGuids req) (MaxBiddingPool (Rules req)) (R w) = Ret (s, r)"
  proof (cases "fle (Fin 1) (MaxBiddingPool (Rules req))")
    case False
    with assms have "0 \<le> int_of_float
        (fceil (fmul (float_of_int (int (length (RepGuids req)))) (MaxBiddingPool (Rules req))))"
      by (intro subset_size_nonneg) (simp_all add: valid_request_def)
    with False show ?thesis
      by (auto simp: RandomSubsetByFraction_def RandomSubsetByCount_def Let_def split: prod.split)
  qed (simp add: RandomSubsetByFraction_def)
  then obtain s r where s: "RandomSubsetByFraction (RepGuids req) (MaxBiddingPool (Rules req)) (R w) = Ret (s, r)"
    by blast
  then have sub: "mset s \<subseteq># mset (RepGuids req)" by (rule RandomSubsetByFraction_subset)
  then have "set s \<subseteq> set (RepGuids req)" by (metis set_mset_mono set_mset_mset)
  moreover have "distinct s"
    using sub assms by (auto simp: valid_request_def intro: distinct_subseteq_mset)
  moreover have "length s \<le> length (RepGuids req)" using sub by (metis size_mset size_mset_mono)
  moreover have "pick_subset req w = Ret (s, w\<lparr>R := r\<rparr>)" using s by (simp add: pick_subset_def)
  ultimately show thesis using that by blast
qed

lemma pickAmong_hd:
  assumes "go_slice_to bids 5 = Ret tops" and "fst (Shuffle tops r) = b # bs"
  shows "b \<in> set bids"
proof -
  have "b \<in> set tops" using assms(2) by (metis Shuffle_def list.set_intros(1) set_shuffle)
  then show ?thesis using assms(1) by (auto simp: go_inv dest: in_set_takeD)
qed

section \<open>The rounds over a pool that keeps the contract\<close>

context reserving_pool
begin

lemma order_bids_frame:
  "ok w \<Longrightarrow> ok (snd (order_bids v w))" "holders (snd (order_bids v w)) = holders w"
  by (simp_all add: order_bids_eq ok_R holders_R)

text \<open>The subset and its scores: how every round but the random one begins.\<close>

lemma first_round:
  assumes "valid_request known inst req" and "ok w"
  obtains reps scores w1 w2 where "pick_subset req w = Ret (reps, w1)"
    "cScore client reps inst w1 = Ret (scores, w2)" "ok w2" "holders w2 = holders w"
    "mset (map Rep scores) = mset reps" "Rep ` set scores = set reps" "length scores = length reps"
    "set reps \<subseteq> set (RepGuids req)" "length reps \<le> length (RepGuids req)" "distinct reps"
proof -
  obtain reps r where p: "pick_subset req w = Ret (reps, w\<lparr>R := r\<rparr>)"
    "set reps \<subseteq> set (RepGuids req)" "distinct reps" "length reps \<le> length (RepGuids req)"
    using pick_subset_returns[OF assms(1)] by metis
  have ok1: "ok (w\<lparr>R := r\<rparr>)" using assms(2) by (rule ok_R)
  have known: "set reps \<subseteq> known" using p(2) assms(1) by (auto simp: valid_request_def)
  from ok1 known obtain scores w2 where "cScore client reps inst (w\<lparr>R := r\<rparr>) = Ret (scores, w2)"
    "ok w2" "holders w2 = holders (w\<lparr>R := r\<rparr>)" "mset (map Rep scores) = mset reps"
    "Rep ` set scores = set reps" "length scores = length reps"
    by (rule score_returns)
  then show thesis using that[OF p(1)] p by (simp add: holders_R)
qed

text \<open>Reserving one representative and claiming it, as three algorithms end a round.\<close>

lemma reserve_then_claim:
  assumes "ok w" and "holders w = {}" and "g \<in> known"
  obtains (refused) r w1 where "cScoreThenTentativelyReserve client [g] inst w = Ret ([r], w1)"
      "Error r \<noteq> ''''" "ok w1" "holders w1 = {}"
  | (claimed) r w1 w2 where "cScoreThenTentativelyReserve client [g] inst w = Ret ([r], w1)"
      "Error r = ''''" "cClaim client g inst w1 = Ret ((), w2)" "ok w2" "holders w2 = {g}"
proof -
  from assms(1,3) obtain r w1 where r: "cScoreThenTentativelyReserve client [g] inst w = Ret ([r], w1)"
    "ok w1" "Rep r = g" "holders w1 = (if Error r = '''' then insert g (holders w) else holders w)"
    by (rule reserve_one)
  show thesis
  proof (cases "Error r = ''''")
    case True
    obtain w2 where "cClaim client g inst w1 = Ret ((), w2)" "ok w2" "holders w2 = holders w1"
      using claim_law[OF r(2) assms(3)] by blast
    with True r assms(2) show thesis by (intro claimed[of r w1 w2]) auto
  next
    case False
    with r assms(2) show thesis by (intro refused[of r w1]) auto
  qed
qed

lemma pickBestRound_ends:
  assumes "valid_request known inst req" and "ok w" and "holders w = {}"
  shows "round_ends (\<lambda>_. False) ok holders req nc (pickBestRound client req nc w)"
proof -
  have inst: "ReqInstance req = inst" using assms(1) by (simp add: valid_request_def)
  from assms(1,2) obtain reps scores w1 w2 where f: "pick_subset req w = Ret (reps, w1)"
    "cScore client reps inst w1 = Ret (scores, w2)" "ok w2" "holders w2 = holders w"
    "mset (map Rep scores) = mset reps" "Rep ` set scores = set reps" "length scores = length reps"
    "set reps \<subseteq> set (RepGuids req)" "length reps \<le> length (RepGuids req)" "distinct reps"
    by (rule first_round)
  show ?thesis
  proof (cases "AllFailed scores")
    case True
    with f inst assms(3) show ?thesis
      by (simp add: pickBestRound_def round_ends_def settles_def round_bound_def)
  next
    case False
    define w3 where "w3 = snd (order_bids scores w2)"
    obtain b bs where b: "fst (order_bids scores w2) = b # bs" "b \<in> set scores"
      using ordered_bids_hd[OF False, of "R w2"] by (auto simp: order_bids_eq)
    have ob: "order_bids scores w2 = (b # bs, w3)" using b(1) by (simp add: w3_def prod_eq_iff)
    have w3: "ok w3" "holders w3 = {}" using f(3,4) assms(3) by (simp_all add: w3_def order_bids_frame)
    have g: "Rep b \<in> set (RepGuids req)" using b(2) f(6,8) by blast
    then have "Rep b \<in> known" using assms(1) by (auto simp: valid_request_def)
    with w3 show ?thesis
      by (cases rule: reserve_then_claim)
        (use f ob False g inst in \<open>auto simp: pickBestRound_def round_ends_def settles_def round_bound_def\<close>)
  qed
qed

lemma pickAmongBestRound_ends:
  assumes "valid_request known inst req" and "ok w" and "holders w = {}"
  shows "round_ends (\<lambda>p. p = SliceBoundsOutOfRange) ok holders req nc (pickAmongBestRound client req nc w)"
proof -
  have inst: "ReqInstance req = inst" using assms(1) by (simp add: valid_request_def)
  from assms(1,2) obtain reps scores w1 w2 where f: "pick_subset req w = Ret (reps, w1)"
    "cScore client reps inst w1 = Ret (scores, w2)" "ok w2" "holders w2 = holders w"
    "mset (map Rep scores) = mset reps" "Rep ` set scores = set reps" "length scores = length reps"
    "set reps \<subseteq> set (RepGuids req)" "length reps \<le> length (RepGuids req)" "distinct reps"
    by (rule first_round)
  obtain bids w3 where ob: "order_bids scores w2 = (bids, w3)" by fastforce
  have w3: "ok w3" "holders w3 = {}"
    using order_bids_frame[where w = w2 and v = scores] f(3,4) assms(3) by (simp_all add: ob)
  consider "AllFailed scores" | "\<not> AllFailed scores" "go_slice_to bids 5 = Panic SliceBoundsOutOfRange"
    | tops where "\<not> AllFailed scores" "go_slice_to bids 5 = Ret tops"
    using go_slice_to_cases[of bids 5] by blast
  then show ?thesis
  proof cases
    case (3 tops)
    have "length tops = 5" using 3(2) by (auto simp: go_inv)
    then have "length (fst (Shuffle tops (R w3))) = 5" by (simp add: Shuffle_def)
    then obtain b bs where b: "fst (Shuffle tops (R w3)) = b # bs"
      by (auto simp: length_Suc_conv numeral_eq_Suc)
    then obtain r' where sh: "Shuffle tops (R w3) = (b # bs, r')"
      by (cases "Shuffle tops (R w3)") auto
    define w4 where "w4 = w3\<lparr>R := r'\<rparr>"
    have "b \<in> set scores"
      using pickAmong_hd[OF 3(2) b] set_ordered_bids[of scores "R w2"] ob by (auto simp: order_bids_eq)
    then have g: "Rep b \<in> set (RepGuids req)" using f(6,8) by blast
    have w4: "ok w4" "holders w4 = {}" using w3 by (simp_all add: w4_def ok_R holders_R)
    have "Rep b \<in> known" using g assms(1) by (auto simp: valid_request_def)
    with w4 show ?thesis
      by (cases rule: reserve_then_claim)
        (use f ob 3 g inst sh in
          \<open>auto simp: pickAmongBestRound_def round_ends_def settles_def round_bound_def w4_def[symmetric]\<close>)
  qed (use f inst ob assms(3) in
    \<open>simp_all add: pickAmongBestRound_def round_ends_def settles_def round_bound_def\<close>)
qed

lemma randomRound_ends:
  assumes "valid_request known inst req" and "ok w" and "holders w = {}"
  shows "round_ends (\<lambda>_. False) ok holders req nc (randomRound client req nc w)"
proof -
  have inst: "ReqInstance req = inst" and ne: "RepGuids req \<noteq> []"
    using assms(1) by (simp_all add: valid_request_def)
  define s r where "s = take 1 (fst (shuffle (RepGuids req) (R w)))"
    and "r = snd (shuffle (RepGuids req) (R w))"
  have sub: "RandomSubsetByCount (RepGuids req) 1 (R w) = Ret (s, r)"
    using ne by (simp add: RandomSubsetByCount_eq s_def r_def Suc_leI)
  have "length s = 1" using ne by (simp add: s_def Suc_leI)
  then obtain g where g: "s = [g]" by (auto simp: length_Suc_conv)
  then have "g \<in> set (fst (shuffle (RepGuids req) (R w)))"
    by (metis in_set_takeD list.set_intros(1) s_def)
  then have mem: "g \<in> set (RepGuids req)" by simp
  have w1: "ok (w\<lparr>R := r\<rparr>)" "holders (w\<lparr>R := r\<rparr>) = {}"
    using assms(2,3) by (simp_all add: ok_R holders_R)
  have "g \<in> known" using mem assms(1) by (auto simp: valid_request_def)
  with w1 show ?thesis
    by (cases rule: reserve_then_claim)
      (use sub g mem inst in \<open>auto simp: randomRound_def round_ends_def settles_def round_bound_def\<close>)
qed

lemma allRescoreRound_ends:
  assumes "valid_request known inst req" and "ok w" and "holders w = {}"
  shows "round_ends (\<lambda>_. False) ok holders req nc (allRescoreRound client req nc w)"
proof -
  have inst: "ReqInstance req = inst" using assms(1) by (simp add: valid_request_def)
  from assms(1,2) obtain reps scores w1 w2 where f: "pick_subset req w = Ret (reps, w1)"
    "cScore client reps inst w1 = Ret (scores, w2)" "ok w2" "holders w2 = holders w"
    "mset (map Rep scores) = mset reps" "Rep ` set scores = set reps" "length scores = length reps"
    "set reps \<subseteq> set (RepGuids req)" "length reps \<le> length (RepGuids req)" "distinct reps"
    by (rule first_round)
  have known: "set reps \<subseteq> known" using f(8) assms(1) by (auto simp: valid_request_def)
  show ?thesis
  proof (cases "AllFailed scores")
    case True
    with f inst assms(3) show ?thesis
      by (simp add: allRescoreRound_def round_ends_def settles_def round_bound_def)
  next
    case False
    define w3 where "w3 = snd (order_bids scores w2)"
    obtain b bs where b: "fst (order_bids scores w2) = b # bs" "b \<in> set scores"
      using ordered_bids_hd[OF False, of "R w2"] by (auto simp: order_bids_eq)
    have ob: "order_bids scores w2 = (b # bs, w3)" using b(1) by (simp add: w3_def prod_eq_iff)
    have w3: "ok w3" "holders w3 = {}" using f(3,4) assms(3) by (simp_all add: w3_def order_bids_frame)
    have g: "Rep b \<in> set reps" using b(2) f(6) by blast
    have gk: "Rep b \<in> known" and gr: "Rep b \<in> set (RepGuids req)" using g known f(8) by auto
    from w3(1) gk obtain r w4 where r:
      "cScoreThenTentativelyReserve client [Rep b] inst w3 = Ret ([r], w4)" "ok w4"
      "Rep r = Rep b" "holders w4 = (if Error r = '''' then insert (Rep b) (holders w3) else holders w3)"
      by (rule reserve_one)
    define second where "second = Without reps [Rep b]"
    have second: "set second \<subseteq> known" "length second \<le> length reps"
      using known by (auto simp: second_def Without_def)
    from r(2) second(1) obtain scores2 w5 where s:
      "cScore client second inst w4 = Ret (scores2, w5)" "ok w5" "holders w5 = holders w4"
      "mset (map Rep scores2) = mset second" "Rep ` set scores2 = set second"
      "length scores2 = length second"
      by (rule score_returns)
    note eqs = f(1-4,7,9) ob r s(1-3) False inst second_def[symmetric]
    have claim: "\<exists>w7. cClaim client (Rep b) inst w' = Ret ((), w7) \<and> ok w7 \<and> holders w7 = holders w'"
      if "ok w'" for w'
      using claim_law[OF that gk] .
    show ?thesis
    proof (cases "Error r = ''''")
      case refused: False
      with eqs w3 second show ?thesis
        by (simp add: allRescoreRound_def round_ends_def settles_def round_bound_def)
    next
      case reserved: True
      then have h5: "holders w5 = {Rep b}" using r(4) w3(2) s(3) by simp
      show ?thesis
      proof (cases "AllFailed scores2")
        case True
        obtain w7 where "cClaim client (Rep b) inst w5 = Ret ((), w7)" "ok w7" "holders w7 = holders w5"
          using claim[OF s(2)] by blast
        with eqs second reserved True h5 gr show ?thesis
          by (simp add: allRescoreRound_def round_ends_def settles_def round_bound_def)
      next
        case some: False
        define w6 where "w6 = snd (order_bids scores2 w5)"
        obtain c cs where c: "fst (order_bids scores2 w5) = c # cs"
          using ordered_bids_hd[OF some, of "R w5"] by (auto simp: order_bids_eq)
        have ob2: "order_bids scores2 w5 = (c # cs, w6)" using c by (simp add: w6_def prod_eq_iff)
        have w6: "ok w6" "holders w6 = {Rep b}" using s(2) h5 by (simp_all add: w6_def order_bids_frame)
        show ?thesis
        proof (cases "Less c r")
          case True
          obtain w7 where "cReleaseReservation client [Rep b] inst w6 = Ret ((), w7)" "ok w7"
            "holders w7 = holders w6 - set [Rep b]"
            using release_law[OF w6(1), of "[Rep b]"] gk by auto
          with eqs second reserved some ob2 True w6 show ?thesis
            by (simp add: allRescoreRound_def round_ends_def settles_def round_bound_def)
        next
          case False
          obtain w7 where "cClaim client (Rep b) inst w6 = Ret ((), w7)" "ok w7" "holders w7 = holders w6"
            using claim[OF w6(1)] by blast
          with eqs second reserved some ob2 False w6 gr show ?thesis
            by (simp add: allRescoreRound_def round_ends_def settles_def round_bound_def)
        qed
      qed
    qed
  qed
qed

text \<open>Claiming the first of the ordered representatives and releasing the others.\<close>

lemma claim_and_release:
  assumes "ok w" and "holders w = set (g # gs)" and "distinct (g # gs)" and "set (g # gs) \<subseteq> known"
  obtains w1 w2 where "cClaim client g inst w = Ret ((), w1)" "ok w1" "holders w1 = set (g # gs)"
    "cReleaseReservation client gs inst w1 = Ret ((), w2)" "ok w2" "holders w2 = {g}"
proof -
  obtain w1 where w1: "cClaim client g inst w = Ret ((), w1)" "ok w1" "holders w1 = holders w"
    using claim_law[OF assms(1), of g] assms(4) by auto
  obtain w2 where w2: "cReleaseReservation client gs inst w1 = Ret ((), w2)" "ok w2"
    "holders w2 = holders w1 - set gs"
    using release_law[OF w1(2), of gs] assms(4) by auto
  have "holders w2 = {g}" using w1(3) w2(3) assms(2,3) by auto
  with w1 w2 assms(2) show thesis by (intro that[of w1 w2]) simp_all
qed

text \<open>
  Ordering the answers to a reservation: the ordered representatives are those that hold it.
\<close>

lemma ordered_holders:
  assumes "ok w" and "holders w = set (Reps (FilterErrors rs))" and "\<not> AllFailed rs"
    and "mset (map Rep rs) = mset gs" and "distinct gs" and "set gs \<subseteq> known"
  obtains g gs' w' bids where "order_bids rs w = (bids, w')" "Reps bids = g # gs'" "ok w'"
    "holders w' = set (g # gs')" "distinct (g # gs')" "set (g # gs') \<subseteq> set gs"
    "length (g # gs') \<le> length gs"
proof -
  define bids where "bids = fst (order_bids rs w)"
  define w' where "w' = snd (order_bids rs w)"
  have o: "order_bids rs w = (bids, w')" by (simp add: bids_def w'_def)
  have "distinct (map Rep rs)" using assms(4,5) by (metis mset_eq_imp_distinct_iff)
  then have d: "distinct (Reps bids)"
    by (simp add: bids_def order_bids_eq distinct_Reps_ordered)
  obtain b bs where b: "bids = b # bs"
    using ordered_bids_hd[OF assms(3), of "R w"] by (auto simp: bids_def order_bids_eq)
  then have g: "Reps bids = Rep b # Reps bs" by (simp add: Reps_def)
  have h: "set (Reps bids) = set (Reps (FilterErrors rs))"
    by (simp add: bids_def order_bids_eq set_Reps_ordered)
  have "set (Reps (FilterErrors rs)) \<subseteq> set (map Rep rs)" by (auto simp: Reps_def)
  then have sub: "set (Reps bids) \<subseteq> set gs" using h assms(4) by (metis mset_eq_setD)
  then have "length (Reps bids) \<le> length gs"
    using d by (metis List.finite_set card_mono card_length distinct_card le_trans)
  moreover have "ok w'" "holders w' = set (Reps bids)"
    using assms(1,2) h by (simp_all add: w'_def order_bids_frame)
  ultimately show thesis
    using d sub by (intro that[OF o g]) (simp_all add: g[symmetric])
qed

text \<open>The end of a round of the two algorithms that reserve several representatives.\<close>

lemma settle_reserved:
  assumes "cScoreThenTentativelyReserve client gs inst w = Ret (rs, w')" and "ok w"
    and "holders w = {}" and "distinct gs" and "set gs \<subseteq> known"
  obtains (none) "AllFailed rs" "ok w'" "holders w' = {}"
  | (some) g gs' bids w3 w4 w5 where "\<not> AllFailed rs" "order_bids rs w' = (bids, w3)"
      "Reps bids = g # gs'" "set (g # gs') \<subseteq> set gs" "length (g # gs') \<le> length gs"
      "length rs = length gs"
      "cClaim client g inst w3 = Ret ((), w4)" "ok w4" "holders w4 = set (g # gs')"
      "cReleaseReservation client gs' inst w4 = Ret ((), w5)" "ok w5" "holders w5 = {g}"
proof -
  from assms(2,5) obtain rs0 w0 where "cScoreThenTentativelyReserve client gs inst w = Ret (rs0, w0)"
    "ok w0" "holders w0 = holders w \<union> set (Reps (FilterErrors rs0))" "mset (map Rep rs0) = mset gs"
    "Rep ` set rs0 = set gs" "length rs0 = length gs"
    by (rule reserve_returns)
  with assms(1,3) have s: "ok w'" "holders w' = set (Reps (FilterErrors rs))"
    "mset (map Rep rs) = mset gs" "length rs = length gs"
    by simp_all
  show thesis
  proof (cases "AllFailed rs")
    case True
    then have "holders w' = {}"
      using s(2) by (simp add: AllFailed_def Reps_def del: set_FilterErrors)
    with True s(1) show thesis by (rule none)
  next
    case False
    from s(1,2) False s(3) assms(4,5) obtain g gs' w3 bids where o: "order_bids rs w' = (bids, w3)"
      "Reps bids = g # gs'" "ok w3" "holders w3 = set (g # gs')" "distinct (g # gs')"
      "set (g # gs') \<subseteq> set gs" "length (g # gs') \<le> length gs"
      by (rule ordered_holders)
    have "set (g # gs') \<subseteq> known" using o(6) assms(5) by blast
    with o(3-5) obtain w4 w5 where "cClaim client g inst w3 = Ret ((), w4)" "ok w4"
      "holders w4 = set (g # gs')" "cReleaseReservation client gs' inst w4 = Ret ((), w5)" "ok w5"
      "holders w5 = {g}"
      by (rule claim_and_release)
    then show thesis by (rule some[OF False o(1,2,6,7) s(4)])
  qed
qed

lemma allReserveRound_ends:
  assumes "valid_request known inst req" and "ok w" and "holders w = {}"
  shows "round_ends (\<lambda>_. False) ok holders req nc (allReserveRound client req nc w)"
proof -
  have inst: "ReqInstance req = inst" using assms(1) by (simp add: valid_request_def)
  obtain reps r where p: "pick_subset req w = Ret (reps, w\<lparr>R := r\<rparr>)"
    "set reps \<subseteq> set (RepGuids req)" "distinct reps" "length reps \<le> length (RepGuids req)"
    using pick_subset_returns[OF assms(1)] by metis
  have known: "set reps \<subseteq> known" using p(2) assms(1) by (auto simp: valid_request_def)
  have w1: "ok (w\<lparr>R := r\<rparr>)" "holders (w\<lparr>R := r\<rparr>) = {}"
    using assms(2,3) by (simp_all add: ok_R holders_R)
  obtain rs w2 where s: "cScoreThenTentativelyReserve client reps inst (w\<lparr>R := r\<rparr>) = Ret (rs, w2)"
    using reserve_law[OF w1(1) known] by blast
  from s w1 p(3) known show ?thesis
  proof (cases rule: settle_reserved)
    case none
    with p s inst show ?thesis
      by (simp add: allReserveRound_def round_ends_def settles_def round_bound_def)
  next
    case (some g gs' bids w3 w4 w5)
    have "g \<in> set (RepGuids req)" using some(4) p(2) by auto
    with p s inst some show ?thesis
      by (cases "gs' = []")
        (auto simp: allReserveRound_def Let_def round_ends_def settles_def round_bound_def)
  qed
qed

lemma reserveNBestRound_ends:
  assumes "valid_request known inst req" and "ok w" and "holders w = {}"
  shows "round_ends (\<lambda>_. False) ok holders req nc (reserveNBestRound client req nc w)"
proof -
  have inst: "ReqInstance req = inst" using assms(1) by (simp add: valid_request_def)
  from assms(1,2) obtain reps scores w1 w2 where f: "pick_subset req w = Ret (reps, w1)"
    "cScore client reps inst w1 = Ret (scores, w2)" "ok w2" "holders w2 = holders w"
    "mset (map Rep scores) = mset reps" "Rep ` set scores = set reps" "length scores = length reps"
    "set reps \<subseteq> set (RepGuids req)" "length reps \<le> length (RepGuids req)" "distinct reps"
    by (rule first_round)
  have known: "set reps \<subseteq> known" using f(8) assms(1) by (auto simp: valid_request_def)
  define winners where "winners = fst (order_bids scores w2)"
  define w3 where "w3 = snd (order_bids scores w2)"
  have ob: "order_bids scores w2 = (winners, w3)" by (simp add: winners_def w3_def)
  have w3: "ok w3" "holders w3 = {}" using f(3,4) assms(3) by (simp_all add: w3_def order_bids_frame)
  define mx where "mx = (if int (length winners) < 5 then int (length winners) else 5)"
  have mx: "0 \<le> mx" "mx \<le> int (length winners)" "mx \<le> 5" by (auto simp: mx_def)
  define tops where "tops = take (nat mx) winners"
  have sl: "go_slice_to winners mx = Ret tops" using mx by (simp add: go_slice_to_def tops_def)
  have len: "int (length tops) \<le> 5" using mx by (simp add: tops_def)
  have "distinct (map Rep scores)" using f(5,10) by (metis mset_eq_imp_distinct_iff)
  then have d: "distinct (Reps tops)"
    by (simp add: tops_def winners_def order_bids_eq Reps_def take_map [symmetric] distinct_take
        distinct_Reps_ordered[unfolded Reps_def])
  have "set tops \<subseteq> set scores"
    using set_ordered_bids[of scores "R w2"]
    by (auto simp: tops_def winners_def order_bids_eq dest: in_set_takeD)
  then have sub: "set (Reps tops) \<subseteq> set reps" using f(6) by (auto simp: Reps_def)
  then have tk: "set (Reps tops) \<subseteq> known" using known by blast
  obtain rs w4 where s: "cScoreThenTentativelyReserve client (Reps tops) inst w3 = Ret (rs, w4)"
    using reserve_law[OF w3(1) tk] by blast
  have lr: "length (Reps tops) = length tops" by (simp add: Reps_def)
  note eqs = f(1-4,7,9) ob mx_def[symmetric] sl s inst assms(3)
  show ?thesis
  proof (cases "AllFailed scores")
    case True
    with eqs show ?thesis
      by (simp add: reserveNBestRound_def round_ends_def settles_def round_bound_def)
  next
    case False
    from s w3 d tk show ?thesis
    proof (cases rule: settle_reserved)
      case none
      with eqs False len show ?thesis
        by (simp add: reserveNBestRound_def round_ends_def settles_def round_bound_def)
    next
      case (some g gs' bids w5 w6 w7)
      have "g \<in> set (RepGuids req)" using some(4) sub f(8) by auto
      with eqs False some len lr show ?thesis
        by (cases "gs' = []")
          (auto simp: reserveNBestRound_def Let_def round_ends_def settles_def round_bound_def)
    qed
  qed
qed

text \<open>Every algorithm of the \<open>switch\<close>; only \<open>pick_among_best\<close> may panic.\<close>

lemma hold_auction_ends:
  assumes "valid_request known inst req" and "ok w" and "holders w = {}"
    and "Algorithm (Rules req) \<in> algorithms"
  shows "auction_ends (only_pick_among_best req) ok holders req (MaxRounds (Rules req)) 1 0
           (hold_auction client req w)"
proof -
  let ?ends = "\<lambda>allowed body. auction_ends allowed ok holders req (MaxRounds (Rules req)) 1 0
      (run_rounds body (MaxRounds (Rules req)) 1 0 w)"
  note all = pickBestRound_ends[OF assms(1)] randomRound_ends[OF assms(1)]
    allRescoreRound_ends[OF assms(1)] allReserveRound_ends[OF assms(1)]
    reserveNBestRound_ends[OF assms(1)]
  have total: "?ends (\<lambda>_. False) (pickBestRound client req)" "?ends (\<lambda>_. False) (randomRound client req)"
    "?ends (\<lambda>_. False) (allRescoreRound client req)" "?ends (\<lambda>_. False) (allReserveRound client req)"
    "?ends (\<lambda>_. False) (reserveNBestRound client req)"
    using run_rounds_ends[OF all(1) assms(2,3)] run_rounds_ends[OF all(2) assms(2,3)]
      run_rounds_ends[OF all(3) assms(2,3)] run_rounds_ends[OF all(4) assms(2,3)]
      run_rounds_ends[OF all(5) assms(2,3)]
    by simp_all
  have among: "?ends (\<lambda>p. p = SliceBoundsOutOfRange) (pickAmongBestRound client req)"
    using run_rounds_ends[OF pickAmongBestRound_ends[OF assms(1)] assms(2,3)] .
  have weaken: "?ends allowed' body"
    if "?ends allowed body" "\<And>p. allowed p \<Longrightarrow> allowed' p" for allowed allowed' body
    using that by (cases "run_rounds body (MaxRounds (Rules req)) 1 0 w") (auto simp: auction_ends_def)
  have "\<forall>body \<in> {pickBestRound client req, randomRound client req, allRescoreRound client req,
      allReserveRound client req, reserveNBestRound client req}. ?ends (only_pick_among_best req) body"
    using total by (auto intro: weaken)
  moreover have "Algorithm (Rules req) = ''pick_among_best'' \<Longrightarrow>
      ?ends (only_pick_among_best req) (pickAmongBestRound client req)"
    by (rule weaken[OF among]) (simp add: only_pick_among_best_def)
  ultimately show ?thesis
    using assms(4)
    by (auto simp: algorithms_def hold_auction_def allRescoreAuction_def allReserveAuction_def
        pickAmongBestAuction_def pickBestAuction_def reserveNBestAuction_def randomAuction_def)
qed

lemma Auction_settles:
  assumes "valid_request known inst req" and "ok w" and "holders w = {}"
    and "Algorithm (Rules req) \<in> algorithms"
  shows "settled only_pick_among_best ok holders req (Auction client req w)"
proof -
  define w1 where "w1 = snd (time_Now w)"
  have w1: "ok w1" "holders w1 = {}"
    using assms(2,3) by (simp_all add: w1_def time_Now_def ok_clock holders_clock)
  note e = hold_auction_ends[OF assms(1) w1 assms(4)]
  show ?thesis
  proof (cases "hold_auction client req w1")
    case (Panic p)
    with e show ?thesis
      by (simp add: Auction_def w1_def settled_def auction_ends_def split_beta)
  next
    case (Ret x)
    obtain winner n nc w2 where x: "x = ((winner, n, nc), w2)" by (metis prod.collapse)
    have h: "hold_auction client req (snd (time_Now w)) = Ret ((winner, n, nc), w2)"
      using Ret x by (simp add: w1_def)
    have w3: "ok (snd (time_Now w2))" "holders (snd (time_Now w2)) = holders w2"
      using e unfolding Ret x by (simp_all add: auction_ends_def time_Now_def ok_clock holders_clock)
    show ?thesis
      using e w3 unfolding Ret x
      by (simp add: Auction_def Let_def split_beta h settled_def auction_ends_def cong: if_cong)
  qed
qed

end

end
