(* ===== verification/Auction_Winner.thy ===== *)
theory Auction_Winner
  imports Auction_Rounds
begin

text \<open>
  What a round that names a winner says about the answers of the client, for each algorithm and
  for any client at all, and which rounds and auctions panic.  The inversion lemmas open a round
  along its calls; \<open>scripted_client\<close> answers from two lists and serves the examples.
\<close>

section \<open>A client that answers from a script\<close>

definition scripted_client ::
    "score_results \<Rightarrow> score_results \<Rightarrow> 'w world_scheme rep_pool_client" where
  "scripted_client scores answers =
     \<lparr>cScore = (\<lambda>gs i w. Ret (filter (\<lambda>r. List.member gs (Rep r)) scores, w)),
      cScoreThenTentativelyReserve =
        (\<lambda>gs i w. Ret (filter (\<lambda>r. List.member gs (Rep r)) answers, w)),
      cReleaseReservation = (\<lambda>gs i w. Ret ((), w)),
      cClaim = (\<lambda>g i w. Ret ((), w))\<rparr>"

definition example_request :: "string \<Rightarrow> string list \<Rightarrow> auction_request" where
  "example_request alg gs =
     \<lparr>ReqInstance = \<lparr>AppGuid = ''app'', InstanceGuid = ''i'',
        Resources = \<lparr>DiskMB = Fin 1, MemoryMB = Fin 1, Containers = 1\<rparr>\<rparr>,
      RepGuids = gs, Rules = \<lparr>Algorithm = alg, MaxRounds = 3, MaxBiddingPool = Fin 1\<rparr>\<rparr>"

definition bid :: "string \<Rightarrow> rat \<Rightarrow> score_result" where
  "bid g s = \<lparr>Rep = g, Score = Fin s, Error = ''''\<rparr>"

definition refusal :: "string \<Rightarrow> score_result" where
  "refusal g = \<lparr>Rep = g, Score = Fin 0, Error = InsufficientResources\<rparr>"

text \<open>The winner and the communications of a round that returns.\<close>

fun returned :: "'w round_end \<Rightarrow> (string \<times> int) option" where
  "returned (Continue nc w) = None"
| "returned (Return g nc w) = Some (g, nc)"

lemma returned_iff:
  "map_outcome returned m = Ret (Some (g, nc)) \<longleftrightarrow> (\<exists>w. m = Ret (Return g nc w))"
proof (cases m)
  case (Ret e)
  then show ?thesis by (cases e) auto
qed simp

section \<open>The bids a round picks from\<close>

lemma order_bids_hd:
  assumes "order_bids v w = (b # bs, w')"
  shows "b \<in> set v" and "Error b = ''''"
    and "no_NaN v \<Longrightarrow> r \<in> set v \<Longrightarrow> Error r = '''' \<Longrightarrow> \<not> Less r b"
proof -
  have o: "fst (ordered_bids v (R w)) = b # bs" using assms by (simp add: order_bids_eq)
  show "b \<in> set v" "Error b = ''''" using set_ordered_bids[of v "R w"] o by auto
  show "no_NaN v \<Longrightarrow> r \<in> set v \<Longrightarrow> Error r = '''' \<Longrightarrow> \<not> Less r b"
    using ordered_bids_hd_least[OF _ o] by blast
qed

lemma order_bids_in_order:
  "order_bids v w = (bs, w') \<Longrightarrow> no_NaN v \<Longrightarrow> in_order bs"
  by (auto simp: order_bids_eq ordered_bids_eq intro!: go_sort.srt_in_order no_NaN_Shuffle)

lemma order_bids_mset: "order_bids v w = (bs, w') \<Longrightarrow> mset bs = mset (FilterErrors v)"
  by (auto simp: order_bids_eq mset_ordered_bids)

lemma in_order_nth:
  "in_order bs \<Longrightarrow> i < j \<Longrightarrow> j < length bs \<Longrightarrow> \<not> Less (bs ! j) (bs ! i)"
  by (simp add: in_order_def sorted_wrt_iff_nth_less)

text \<open>No more than \<open>k\<close> bids are strictly better than the bid at place \<open>k\<close>.\<close>

lemma better_bids_few:
  assumes "in_order bs" and "k < length bs"
  shows "length (filter (\<lambda>r. Less r (bs ! k)) bs) \<le> k"
proof -
  have "filter (\<lambda>r. Less r (bs ! k)) (drop k bs) = []"
  proof (rule filter_False, rule ballI)
    fix r
    assume "r \<in> set (drop k bs)"
    then obtain j where "j < length (drop k bs)" "drop k bs ! j = r" by (auto simp: in_set_conv_nth)
    then have j: "k + j < length bs" "r = bs ! (k + j)" by auto
    then show "\<not> Less r (bs ! k)"
      using in_order_nth[OF assms(1), of k "k + j"] by (cases "j = 0") (auto simp: Less_def)
  qed
  then have "filter (\<lambda>r. Less r (bs ! k)) bs = filter (\<lambda>r. Less r (bs ! k)) (take k bs)"
    by (metis append_Nil2 append_take_drop_id filter_append)
  then show ?thesis
    using length_filter_le[of "\<lambda>r. Less r (bs ! k)" "take k bs"] assms(2) by simp
qed

lemma length_filter_mset: "mset xs = mset ys \<Longrightarrow> length (filter P xs) = length (filter P ys)"
  by (metis mset_filter size_mset)

section \<open>Rounds that name a winner\<close>

text \<open>C12: \<open>pick_best\<close> awards the instance to a representative with the least score of all that
  answered the first round without error, at the cost of one communication per representative
  asked, one for the reservation and one for the claim.\<close>

theorem pickBest_winner:
  assumes "pickBestRound client req nc w = Ret (Return winner nc' w')"
  shows "\<exists>reps w1 scores w2 b. pick_subset req w = Ret (reps, w1) \<and>
    cScore client reps (ReqInstance req) w1 = Ret (scores, w2) \<and>
    b \<in> set scores \<and> Rep b = winner \<and> Error b = '''' \<and>
    (no_NaN scores \<longrightarrow> (\<forall>r\<in>set scores. Error r = '''' \<longrightarrow> \<not> Less r b)) \<and>
    nc' = nc + int (length reps) + 2"
proof -
  from assms obtain reps w1 scores w2 b bs w3 where r: "pick_subset req w = Ret (reps, w1)"
    "cScore client reps (ReqInstance req) w1 = Ret (scores, w2)"
    "order_bids scores w2 = (b # bs, w3)" "Rep b = winner" "nc' = nc + int (length reps) + 2"
    by (auto simp: pickBestRound_def Let_def go_inv split: prod.splits if_splits)
  with order_bids_hd[OF r(3)] show ?thesis by blast
qed

theorem pickBest_winner_witness:
  "\<exists>reps w1 scores w2 b. pick_subset (example_request ''pick_best'' [''a'', ''b'']) example_world = Ret (reps, w1) \<and>
    cScore (scripted_client [bid ''a'' 2, bid ''b'' 1] [bid ''b'' 1]) reps
      (ReqInstance (example_request ''pick_best'' [''a'', ''b''])) w1 = Ret (scores, w2) \<and>
    b \<in> set scores \<and> Rep b = ''b'' \<and> Error b = '''' \<and>
    (no_NaN scores \<longrightarrow> (\<forall>r\<in>set scores. Error r = '''' \<longrightarrow> \<not> Less r b)) \<and>
    4 = 0 + int (length reps) + 2"
proof -
  have "map_outcome returned (pickBestRound (scripted_client [bid ''a'' 2, bid ''b'' 1] [bid ''b'' 1])
      (example_request ''pick_best'' [''a'', ''b'']) 0 example_world) = Ret (Some (''b'', 4))"
    by code_simp
  then obtain w' where "pickBestRound (scripted_client [bid ''a'' 2, bid ''b'' 1] [bid ''b'' 1])
      (example_request ''pick_best'' [''a'', ''b'']) 0 example_world = Ret (Return ''b'' 4 w')"
    by (auto simp: returned_iff)
  from pickBest_winner[OF this] show ?thesis .
qed

text \<open> \<open>pick_among_best\<close> awards the instance to a representative that fewer than five others
  beat, and only in a round in which at least five answered without error.\<close>

theorem pickAmongBest_winner:
  assumes "pickAmongBestRound client req nc w = Ret (Return winner nc' w')"
  shows "\<exists>reps w1 scores w2 b. pick_subset req w = Ret (reps, w1) \<and>
    cScore client reps (ReqInstance req) w1 = Ret (scores, w2) \<and>
    b \<in> set scores \<and> Rep b = winner \<and> Error b = '''' \<and> 5 \<le> length (FilterErrors scores) \<and>
    (no_NaN scores \<longrightarrow> length (filter (\<lambda>r. Less r b) (FilterErrors scores)) < 5) \<and>
    nc' = nc + int (length reps) + 2"
proof -
  from assms obtain reps w1 scores w2 bids w3 tops b bs r where r: "pick_subset req w = Ret (reps, w1)"
    "cScore client reps (ReqInstance req) w1 = Ret (scores, w2)"
    "order_bids scores w2 = (bids, w3)" "5 \<le> int (length bids)" "tops = take 5 bids"
    "Shuffle tops (R w3) = (b # bs, r)" "Rep b = winner" "nc' = nc + int (length reps) + 2"
    by (auto simp: pickAmongBestRound_def Let_def go_inv split: prod.splits if_splits)
  note m = order_bids_mset[OF r(3)]
  have "b \<in> set tops" using r(6) by (metis Shuffle_def fst_conv list.set_intros(1) set_shuffle)
  then obtain k where k: "k < 5" "k < length bids" "b = bids ! k"
    unfolding r(5) by (auto simp: in_set_conv_nth)
  then have "b \<in> set (FilterErrors scores)" using mset_eq_setD[OF m] nth_mem by blast
  moreover have "length (filter (\<lambda>r. Less r b) (FilterErrors scores)) < 5" if "no_NaN scores"
    using better_bids_few[OF order_bids_in_order[OF r(3) that] k(2)] k
      length_filter_mset[OF m, of "\<lambda>r. Less r b"] by simp
  moreover have "5 \<le> length (FilterErrors scores)" using mset_eq_length[OF m] r(4) by simp
  ultimately show ?thesis using r(1,2,7,8) by auto
qed

theorem pickAmongBest_winner_witness:
  "\<exists>(scores :: score_results) b. b \<in> set scores \<and> Rep b = ''a'' \<and> 5 \<le> length (FilterErrors scores) \<and>
     (no_NaN scores \<longrightarrow> length (filter (\<lambda>r. Less r b) (FilterErrors scores)) < 5)"
proof -
  let ?client = "scripted_client [bid ''a'' 4, bid ''b'' 1, bid ''c'' 2, bid ''d'' 3, bid ''e'' 0,
      bid ''f'' 9] [bid ''a'' 4]"
  have "map_outcome returned (pickAmongBestRound ?client
      (example_request ''pick_among_best'' [''a'', ''b'', ''c'', ''d'', ''e'', ''f'']) 0 example_world) =
      Ret (Some (''a'', 8))"
    by code_simp
  then obtain w' where "pickAmongBestRound ?client
      (example_request ''pick_among_best'' [''a'', ''b'', ''c'', ''d'', ''e'', ''f'']) 0 example_world =
      Ret (Return ''a'' 8 w')"
    by (auto simp: returned_iff)
  from pickAmongBest_winner[OF this] show ?thesis by blast
qed

text \<open> \<open>random\<close> awards the instance to a representative of the request that accepted the
  reservation, without asking any other.\<close>

theorem random_winner:
  assumes "randomRound client req nc w = Ret (Return winner nc' w')"
  shows "winner \<in> set (RepGuids req) \<and> nc' = nc + 2 \<and>
    (\<exists>w1 answer rest w2. cScoreThenTentativelyReserve client [winner] (ReqInstance req) w1 =
        Ret (answer # rest, w2) \<and> Error answer = '''')"
proof -
  from assms obtain s r w1 answer rest w2 where r:
    "RandomSubsetByCount (RepGuids req) 1 (R w) = Ret (winner # s, r)" "nc' = nc + 2"
    "cScoreThenTentativelyReserve client [winner] (ReqInstance req) w1 = Ret (answer # rest, w2)"
    "Error answer = ''''"
    by (auto simp: randomRound_def Let_def go_inv split: prod.splits if_splits)
  have "set (winner # s) \<subseteq> set (RepGuids req)"
    using RandomSubsetByCount_subset[OF r(1)] by (metis set_mset_mono set_mset_mset)
  with r(2-4) show ?thesis by auto
qed

theorem random_winner_witness: "''b'' \<in> set [''a'', ''b'']"
proof -
  let ?req = "example_request ''random'' [''a'', ''b'']"
  have "map_outcome returned (randomRound (scripted_client [] [bid ''b'' 1]) ?req 0 example_world) =
      Ret (Some (''b'', 2))"
    by code_simp
  then obtain w' where "randomRound (scripted_client [] [bid ''b'' 1]) ?req 0 example_world =
      Ret (Return ''b'' 2 w')"
    by (auto simp: returned_iff)
  from random_winner[OF this] show ?thesis by (simp add: example_request_def)
qed

text \<open>C11: \<open>all_rescore\<close> awards the instance to a representative with the least score of the first
  round whose reservation stands, and whose score at the time of the reservation no other
  representative of the round beats when asked again afterwards.\<close>

theorem allRescore_winner:
  assumes "allRescoreRound client req nc w = Ret (Return winner nc' w')"
  shows "\<exists>reps w1 scores w2 b w3 recast rest w4 scores2 w5. pick_subset req w = Ret (reps, w1) \<and>
    cScore client reps (ReqInstance req) w1 = Ret (scores, w2) \<and>
    b \<in> set scores \<and> Rep b = winner \<and> Error b = '''' \<and>
    (no_NaN scores \<longrightarrow> (\<forall>r\<in>set scores. Error r = '''' \<longrightarrow> \<not> Less r b)) \<and>
    cScoreThenTentativelyReserve client [winner] (ReqInstance req) w3 = Ret (recast # rest, w4) \<and>
    Error recast = '''' \<and>
    cScore client (Without reps [winner]) (ReqInstance req) w4 = Ret (scores2, w5) \<and>
    (no_NaN scores2 \<longrightarrow>
       (\<forall>r\<in>set scores2. Error r = '''' \<longrightarrow> \<not> Less r recast)) \<and>
    nc' = nc + int (length reps) + int (length (Without reps [winner])) + 2"
proof -
  from assms obtain reps w1 scores w2 b bs w3 recast rest w4 scores2 w5 where r:
    "pick_subset req w = Ret (reps, w1)"
    "cScore client reps (ReqInstance req) w1 = Ret (scores, w2)"
    "order_bids scores w2 = (b # bs, w3)" "Rep b = winner"
    "cScoreThenTentativelyReserve client [winner] (ReqInstance req) w3 = Ret (recast # rest, w4)"
    "Error recast = ''''"
    "cScore client (Without reps [winner]) (ReqInstance req) w4 = Ret (scores2, w5)"
    "AllFailed scores2 \<or> (\<exists>c cs w6. order_bids scores2 w5 = (c # cs, w6) \<and> \<not> Less c recast)"
    "nc' = nc + int (length reps) + int (length (Without reps [winner])) + 2"
    by (auto simp: allRescoreRound_def Let_def go_inv split: prod.splits if_splits)
  note b = order_bids_hd[OF r(3)]
  have second: "\<not> Less s recast"
    if nan: "no_NaN scores2" and s: "s \<in> set scores2" "Error s = ''''" for s
  proof -
    have "\<not> AllFailed scores2" using s by (auto simp: AllFailed_iff)
    with r(8) obtain c cs w6 where c: "order_bids scores2 w5 = (c # cs, w6)" "\<not> Less c recast" by blast
    then have "\<not> Less s c" "Score c \<noteq> NaN"
      using order_bids_hd[OF c(1)] nan s by (auto simp: no_NaN_def)
    then show ?thesis
      using c(2) not_flt_trans[of "Score c" "Score recast" "Score s"] by (auto simp: Less_def)
  qed
  show ?thesis
    by (intro exI conjI impI ballI) (rule r(1,2,4,5,6,7,9) b second | assumption | simp)+
qed

theorem allRescore_winner_witness:
  "\<exists>(scores :: score_results) b. b \<in> set scores \<and> Rep b = ''b'' \<and> Error b = ''''"
proof -
  let ?req = "example_request ''all_rescore'' [''a'', ''b'']"
  have "map_outcome returned (allRescoreRound (scripted_client [bid ''a'' 2, bid ''b'' 1] [bid ''b'' 1])
      ?req 0 example_world) = Ret (Some (''b'', 5))"
    by code_simp
  then obtain w' where "allRescoreRound (scripted_client [bid ''a'' 2, bid ''b'' 1] [bid ''b'' 1])
      ?req 0 example_world = Ret (Return ''b'' 5 w')"
    by (auto simp: returned_iff)
  from allRescore_winner[OF this] show ?thesis by blast
qed

lemma Reps_simps [simp]: "Reps [] = []" "Reps (b # bs) = Rep b # Reps bs" "Reps bs = [] \<longleftrightarrow> bs = []"
  by (simp_all add: Reps_def)

lemma Reps_Cons: "Reps bids = g # gs \<longleftrightarrow> (\<exists>b bs. bids = b # bs \<and> Rep b = g \<and> Reps bs = gs)"
  by (auto simp: Reps_def)

lemma order_bids_Reps:
  "order_bids v w = (b # bs, w') \<Longrightarrow> mset (Rep b # Reps bs) = mset (Reps (FilterErrors v))"
  using arg_cong[OF order_bids_mset, of v w "b # bs" w' "image_mset Rep"] by (simp add: Reps_def)

text \<open> \<open>all_reserve\<close> reserves with every representative of the round and awards the instance to
  one with the least score of those that reserved it, after asking to release all the others
  that did.\<close>

theorem allReserve_winner:
  assumes "allReserveRound client req nc w = Ret (Return winner nc' w')"
  shows "\<exists>reps w1 reserved w2 b losers w4. pick_subset req w = Ret (reps, w1) \<and>
    cScoreThenTentativelyReserve client reps (ReqInstance req) w1 = Ret (reserved, w2) \<and>
    b \<in> set reserved \<and> Rep b = winner \<and> Error b = '''' \<and>
    (no_NaN reserved \<longrightarrow> (\<forall>r\<in>set reserved. Error r = '''' \<longrightarrow> \<not> Less r b)) \<and>
    mset (winner # losers) = mset (Reps (FilterErrors reserved)) \<and>
    (losers = [] \<and> w' = w4 \<or>
     cReleaseReservation client losers (ReqInstance req) w4 = Ret ((), w')) \<and>
    nc' = nc + int (length reps) + int (length (winner # losers))"
proof -
  from assms consider
    (one) reps w1 reserved w2 b w3 where "pick_subset req w = Ret (reps, w1)"
      "cScoreThenTentativelyReserve client reps (ReqInstance req) w1 = Ret (reserved, w2)"
      "order_bids reserved w2 = ([b], w3)" "Rep b = winner" "nc' = nc + int (length reps) + 1"
  | (more) reps w1 reserved w2 b bs w3 w4 where "pick_subset req w = Ret (reps, w1)"
      "cScoreThenTentativelyReserve client reps (ReqInstance req) w1 = Ret (reserved, w2)"
      "order_bids reserved w2 = (b # bs, w3)" "Rep b = winner"
      "cReleaseReservation client (Reps bs) (ReqInstance req) w4 = Ret ((), w')"
      "nc' = nc + int (length reps) + int (length (Reps (b # bs)))"
    by (auto simp: allReserveRound_def Let_def go_inv Reps_Cons split: prod.splits if_splits)
  then obtain reps w1 reserved w2 b bs w3 w4 where r: "pick_subset req w = Ret (reps, w1)"
    "cScoreThenTentativelyReserve client reps (ReqInstance req) w1 = Ret (reserved, w2)"
    "order_bids reserved w2 = (b # bs, w3)" "Rep b = winner"
    "Reps bs = [] \<and> w' = w4 \<or>
     cReleaseReservation client (Reps bs) (ReqInstance req) w4 = Ret ((), w')"
    "nc' = nc + int (length reps) + int (length (winner # Reps bs))"
  proof cases
    case one
    then show ?thesis by (intro that[of reps w1 reserved w2 b "[]" w3 w']) simp_all
  next
    case more
    then show ?thesis by (intro that[of reps w1 reserved w2 b bs w3 w4]) simp_all
  qed
  note b = order_bids_hd[OF r(3)]
  have "mset (winner # Reps bs) = mset (Reps (FilterErrors reserved))"
    using order_bids_Reps[OF r(3)] r(4) by simp
  then show ?thesis
    by (intro exI conjI impI ballI) (rule r(1,2,4,5,6) b | assumption | simp)+
qed

theorem allReserve_winner_witness:
  "\<exists>(reserved :: score_results) b losers. b \<in> set reserved \<and> Rep b = ''b'' \<and>
     mset (''b'' # losers) = mset (Reps (FilterErrors reserved))"
proof -
  let ?req = "example_request ''all_reserve'' [''a'', ''b'', ''c'']"
  let ?client = "scripted_client [] [bid ''a'' 2, bid ''b'' 1, refusal ''c'']"
  have "map_outcome returned (allReserveRound ?client ?req 0 example_world) = Ret (Some (''b'', 5))"
    by code_simp
  then obtain w' where "allReserveRound ?client ?req 0 example_world = Ret (Return ''b'' 5 w')"
    by (auto simp: returned_iff)
  from allReserve_winner[OF this] show ?thesis by blast
qed

lemma in_order_split:
  assumes "in_order bids" and "mset bids = M"
  shows "mset (take n bids) \<subseteq># M" and "t \<in> set (take n bids) \<Longrightarrow> r \<in># M - mset (take n bids) \<Longrightarrow> \<not> Less r t"
proof -
  have m: "M = mset (take n bids) + mset (drop n bids)"
    using assms(2) by (metis append_take_drop_id mset_append)
  then show "mset (take n bids) \<subseteq># M" by simp
  have "sorted_wrt (\<lambda>a b. \<not> Less b a) (take n bids @ drop n bids)"
    using assms(1) by (simp add: in_order_def)
  then show "t \<in> set (take n bids) \<Longrightarrow> r \<in># M - mset (take n bids) \<Longrightarrow> \<not> Less r t"
    unfolding m sorted_wrt_append by simp
qed

lemma top_slice:
  "go_slice_to bids (if int (length bids) < 5 then int (length bids) else 5) = Ret (take 5 bids)"
  by (simp add: go_slice_to_def)

text \<open>C10: \<open>reserve_n_best\<close> reserves with the best of the first round, five at most, none of which is
  beaten by one left out, and awards the instance to one with the least score of those that
  reserved it, after asking to release all the others that did.\<close>

theorem reserveNBest_winner:
  assumes "reserveNBestRound client req nc w = Ret (Return winner nc' w')"
  shows "\<exists>reps w1 scores w2 asked w3 reserved w4 b losers w6. pick_subset req w = Ret (reps, w1) \<and>
    cScore client reps (ReqInstance req) w1 = Ret (scores, w2) \<and>
    length asked = min 5 (length (FilterErrors scores)) \<and>
    mset asked \<subseteq># mset (FilterErrors scores) \<and>
    (no_NaN scores \<longrightarrow>
       (\<forall>t\<in>set asked. \<forall>r\<in>#mset (FilterErrors scores) - mset asked. \<not> Less r t)) \<and>
    cScoreThenTentativelyReserve client (Reps asked) (ReqInstance req) w3 = Ret (reserved, w4) \<and>
    b \<in> set reserved \<and> Rep b = winner \<and> Error b = '''' \<and>
    (no_NaN reserved \<longrightarrow> (\<forall>r\<in>set reserved. Error r = '''' \<longrightarrow> \<not> Less r b)) \<and>
    mset (winner # losers) = mset (Reps (FilterErrors reserved)) \<and>
    (losers = [] \<and> w' = w6 \<or>
     cReleaseReservation client losers (ReqInstance req) w6 = Ret ((), w')) \<and>
    nc' = nc + int (length reps) + int (length asked) + int (length reserved)"
proof -
  from assms[unfolded reserveNBestRound_def Let_def split_beta top_slice obind.simps] consider
    (one) reps w1 scores w2 bids w3 asked reserved w4 b where "pick_subset req w = Ret (reps, w1)"
      "cScore client reps (ReqInstance req) w1 = Ret (scores, w2)"
      "fst (order_bids scores w2) = bids" "w3 = snd (order_bids scores w2)"
      "asked = take 5 bids"
      "cScoreThenTentativelyReserve client (Reps asked) (ReqInstance req) w3 = Ret (reserved, w4)"
      "fst (order_bids reserved w4) = [b]" "Rep b = winner"
      "nc' = nc + int (length reps) + int (length asked) + int (length reserved)"
  | (more) reps w1 scores w2 bids w3 asked reserved w4 b bs w6 where "pick_subset req w = Ret (reps, w1)"
      "cScore client reps (ReqInstance req) w1 = Ret (scores, w2)"
      "fst (order_bids scores w2) = bids" "w3 = snd (order_bids scores w2)"
      "asked = take 5 bids"
      "cScoreThenTentativelyReserve client (Reps asked) (ReqInstance req) w3 = Ret (reserved, w4)"
      "fst (order_bids reserved w4) = b # bs" "Rep b = winner"
      "cReleaseReservation client (Reps bs) (ReqInstance req) w6 = Ret ((), w')"
      "nc' = nc + int (length reps) + int (length asked) + int (length reserved)"
    by (auto simp: obind_Ret_iff go_index_0_Ret_iff Reps_Cons split: if_splits)
  then obtain reps w1 scores w2 bids w3 asked reserved w4 b bs w5 w6 where r:
    "pick_subset req w = Ret (reps, w1)"
    "cScore client reps (ReqInstance req) w1 = Ret (scores, w2)"
    "order_bids scores w2 = (bids, w3)"
    "asked = take 5 bids"
    "cScoreThenTentativelyReserve client (Reps asked) (ReqInstance req) w3 = Ret (reserved, w4)"
    "order_bids reserved w4 = (b # bs, w5)" "Rep b = winner"
    "Reps bs = [] \<and> w' = w6 \<or>
     cReleaseReservation client (Reps bs) (ReqInstance req) w6 = Ret ((), w')"
    "nc' = nc + int (length reps) + int (length asked) + int (length reserved)"
  proof cases
    case one
    then show ?thesis
      by (intro that[of reps w1 scores w2 bids w3 asked reserved w4 b "[]" "snd (order_bids reserved w4)" w'])
        (simp_all add: prod_eq_iff)
  next
    case more
    then show ?thesis
      by (intro that[of reps w1 scores w2 bids w3 asked reserved w4 b bs "snd (order_bids reserved w4)" w6])
        (simp_all add: prod_eq_iff)
  qed
  note b = order_bids_hd[OF r(6)] and m = order_bids_mset[OF r(3)]
  note io = order_bids_in_order[OF r(3)]
  have "length asked = min 5 (length (FilterErrors scores))"
    using r(4) mset_eq_length[OF m] by auto
  moreover have "mset asked \<subseteq># mset (FilterErrors scores)"
    using mset_take_subseteq m unfolding r(4) by metis
  moreover have "mset (winner # Reps bs) = mset (Reps (FilterErrors reserved))"
    using order_bids_Reps[OF r(6)] r(7) by simp
  moreover have "\<not> Less s t"
    if "no_NaN scores" "t \<in> set asked" "s \<in># mset (FilterErrors scores) - mset asked" for s t
    using in_order_split(2)[OF io[OF that(1)] m] that(2,3) unfolding r(4) by blast
  ultimately show ?thesis
    by (intro exI conjI impI ballI) (rule r(1,2,5,7,8,9) b | assumption | simp)+
qed

theorem reserveNBest_winner_witness:
  "\<exists>(scores :: score_results) (asked :: score_results) (reserved :: score_results) b. length asked = min 5 (length (FilterErrors scores)) \<and>
     b \<in> set reserved \<and> Rep b = ''b'' \<and> Error b = ''''"
proof -
  let ?req = "example_request ''reserve_n_best'' [''a'', ''b'', ''c'']"
  let ?client = "scripted_client [bid ''a'' 2, bid ''b'' 1, refusal ''c''] [bid ''a'' 2, bid ''b'' 1]"
  have "map_outcome returned (reserveNBestRound ?client ?req 0 example_world) = Ret (Some (''b'', 7))"
    by code_simp
  then obtain w' where "reserveNBestRound ?client ?req 0 example_world = Ret (Return ''b'' 7 w')"
    by (auto simp: returned_iff)
  from reserveNBest_winner[OF this] show ?thesis by blast
qed

section \<open>Rounds and auctions that panic\<close>

text \<open>C15: \<open>pick_among_best\<close> panics with slice bounds out of range in every round in which some
  representative answered without error but fewer than five did.\<close>

theorem pickAmongBest_panics:
  assumes "pick_subset req w = Ret (reps, w1)"
    and "cScore client reps (ReqInstance req) w1 = Ret (scores, w2)"
    and "\<not> AllFailed scores" and "length (FilterErrors scores) < 5"
  shows "pickAmongBestRound client req nc w = Panic SliceBoundsOutOfRange"
proof -
  have "length (fst (order_bids scores w2)) < 5" using assms(4) by (simp add: order_bids_eq)
  with assms(1-3) show ?thesis
    by (simp add: pickAmongBestRound_def Let_def split_beta go_slice_to_def)
qed

theorem pickAmongBest_panics_witness:
  "pickAmongBestRound (scripted_client [bid ''a'' 2, bid ''b'' 1] [])
     (example_request ''pick_among_best'' [''a'', ''b'']) 0 example_world = Panic SliceBoundsOutOfRange"
proof -
  let ?req = "example_request ''pick_among_best'' [''a'', ''b'']"
  have "map_outcome fst (pick_subset ?req example_world) = Ret [''a'', ''b'']" by code_simp
  then obtain w1 where w1: "pick_subset ?req example_world = Ret ([''a'', ''b''], w1)"
    by (auto simp: map_outcome_fst_iff)
  have "cScore (scripted_client [bid ''a'' 2, bid ''b'' 1] []) [''a'', ''b''] (ReqInstance ?req) w1 =
      Ret ([bid ''a'' 2, bid ''b'' 1], w1)"
    by (simp add: scripted_client_def bid_def)
  from pickAmongBest_panics[OF w1 this] show ?thesis
    by (simp add: AllFailed_def FilterErrors_def bid_def)
qed

text \<open> \<open>random\<close> panics on a request without representatives, where the other algorithms return
  without a winner: it reads the first element of an empty subset.\<close>

theorem random_without_reps_panics:
  assumes "RepGuids req = []" and "Algorithm (Rules req) = ''random''" and "1 \<le> MaxRounds (Rules req)"
  shows "Auction client req w = Panic IndexOutOfRange"
proof -
  have "randomRound client req nc w' = Panic IndexOutOfRange" for nc and w' :: "'a world_scheme"
    using assms(1) by (simp add: randomRound_def RandomSubsetByCount_def go_index_def)
  then have "run_rounds (randomRound client req) (MaxRounds (Rules req)) 1 0 w' = Panic IndexOutOfRange"
    for w'
    using assms(3) by (subst run_rounds.simps) simp
  with assms(2) show ?thesis
    by (simp add: Auction_def hold_auction_def randomAuction_def split_beta Let_def)
qed

theorem random_without_reps_panics_witness:
  "Auction (scripted_client [] []) (example_request ''random'' []) example_world = Panic IndexOutOfRange"
  by (rule random_without_reps_panics) (simp_all add: example_request_def)

text \<open> a name that is none of the six algorithms makes the auction panic, with that name in the
  message.\<close>

theorem unknown_algorithm_panics:
  assumes "Algorithm (Rules req) \<notin> algorithms"
  shows "Auction client req w = Panic (UserPanic (''unkown algorithm '' @ Algorithm (Rules req)))"
  using assms by (simp add: algorithms_def Auction_def hold_auction_def split_beta Let_def)

theorem unknown_algorithm_panics_witness:
  "Auction (scripted_client [] []) (example_request ''best'' [''a'']) example_world =
     Panic (UserPanic ''unkown algorithm best'')"
  using unknown_algorithm_panics[of "example_request ''best'' [''a'']"]
  by (simp add: example_request_def algorithms_def)

text \<open> an answer list with no entry for the representative asked makes the algorithms that read
  its first entry panic, once the first round has a bid: they rely on a client that answers for
  every guid.\<close>

theorem missing_answer_panics:
  assumes "\<And>gs i w. \<exists>w'. cScoreThenTentativelyReserve client gs i w = Ret ([], w')"
    and "pick_subset req w = Ret (reps, w1)"
    and "cScore client reps (ReqInstance req) w1 = Ret (scores, w2)" and "\<not> AllFailed scores"
  shows "pickBestRound client req nc w = Panic IndexOutOfRange \<and>
    allRescoreRound client req nc w = Panic IndexOutOfRange"
proof -
  obtain b bs where b: "fst (order_bids scores w2) = b # bs"
    using ordered_bids_hd[OF assms(4), of "R w2"] by (auto simp: order_bids_eq)
  obtain w4 where "cScoreThenTentativelyReserve client [Rep b] (ReqInstance req)
      (snd (order_bids scores w2)) = Ret ([], w4)"
    using assms(1) by blast
  with assms(2-4) b show ?thesis
    by (simp add: pickBestRound_def allRescoreRound_def Let_def split_beta go_index_def)
qed

theorem missing_answer_panics_witness:
  "pickBestRound (scripted_client [bid ''a'' 2] []) (example_request ''pick_best'' [''a'']) 0
     example_world = Panic IndexOutOfRange"
proof -
  let ?req = "example_request ''pick_best'' [''a'']" and ?client = "scripted_client [bid ''a'' 2] []"
  have "map_outcome fst (pick_subset ?req example_world) = Ret [''a'']" by code_simp
  then obtain w1 where w1: "pick_subset ?req example_world = Ret ([''a''], w1)"
    by (auto simp: map_outcome_fst_iff)
  have "\<exists>w'. cScoreThenTentativelyReserve ?client gs i w = Ret ([], w')" for gs i and w :: world
    by (simp add: scripted_client_def)
  moreover have "cScore ?client [''a''] (ReqInstance ?req) w1 = Ret ([bid ''a'' 2], w1)"
    by (simp add: scripted_client_def bid_def)
  ultimately show ?thesis
    using missing_answer_panics[OF _ w1, of ?client] by (simp add: AllFailed_def FilterErrors_def bid_def)
qed

text \<open> an auction that may play no round asks nobody and returns no winner, one round and no
  communication.\<close>

theorem no_rounds_no_calls:
  assumes "MaxRounds (Rules req) < 1" and "Algorithm (Rules req) \<in> algorithms"
  shows "\<exists>d w'. Auction client req w = Ret (\<lparr>ResInstance = ReqInstance req, Winner = '''', NumRounds = 1,
      NumCommunications = 0, BiddingDuration = d, Duration = 0\<rparr>, w') \<and>
    w' = w\<lparr>clock_reads := clock_reads w + 2\<rparr>"
proof -
  have "run_rounds body (MaxRounds (Rules req)) 1 0 w' = Ret (('''', 1, 0), w')"
    for body and w' :: "'a world_scheme"
    using assms(1) by (subst run_rounds.simps) simp
  with assms(2) show ?thesis
    by (auto simp: algorithms_def Auction_def hold_auction_def Let_def time_Now_def
        allRescoreAuction_def allReserveAuction_def pickAmongBestAuction_def pickBestAuction_def
        reserveNBestAuction_def randomAuction_def)
qed

theorem no_rounds_no_calls_witness:
  "\<exists>d w'. Auction (scripted_client [] []) ((example_request ''pick_best'' [''a''])\<lparr>Rules :=
      \<lparr>Algorithm = ''pick_best'', MaxRounds = 0, MaxBiddingPool = Fin 1\<rparr>\<rparr>) example_world =
    Ret (\<lparr>ResInstance = ReqInstance (example_request ''pick_best'' [''a'']), Winner = '''', NumRounds = 1,
      NumCommunications = 0, BiddingDuration = d, Duration = 0\<rparr>, w')"
  using no_rounds_no_calls[of "(example_request ''pick_best'' [''a''])\<lparr>Rules :=
      \<lparr>Algorithm = ''pick_best'', MaxRounds = 0, MaxBiddingPool = Fin 1\<rparr>\<rparr>" "scripted_client [] []" example_world]
  by (auto simp: example_request_def algorithms_def)

end
