(* ===== verification/Auction_Rep.thy ===== *)
theory Auction_Rep
  imports Types
begin

text \<open>
  \<open>auctionrep/auction_rep.go\<close>: the representative, which answers the auctioneers for one cell
  and delegates the bookkeeping.  The two Go interfaces are records of operations on the state
  \<open>'d\<close> of a delegate; an operation that may change the state (ranging over a Go map counts,
  since the order of the range is drawn) returns the new one.  Every method of \<open>AuctionRep\<close>
  but \<open>TotalResources\<close> runs under the lock of the representative, so it is one atomic step.

  The locale \<open>rep_delegate\<close> is the contract between the two: which instances a delegate holds
  after each operation, and which invariant every operation keeps.
\<close>

section \<open>The delegate's interface\<close>

record 'd simulation_ops =
  sSetInstances :: "app_instance list \<Rightarrow> 'd \<Rightarrow> 'd"
  sInstances :: "'d \<Rightarrow> app_instance list \<times> 'd"

text \<open>
  \<open>dSimulation\<close> is the type assertion to \<open>SimulationAuctionRepDelegate\<close>: \<open>None\<close> when the
  delegate does not have the two simulation methods.
\<close>

record 'd delegate_ops =
  dRemainingResources :: "'d \<Rightarrow> resources \<times> 'd"
  dTotalResources :: "'d \<Rightarrow> resources"
  dNumInstancesForAppGuid :: "string \<Rightarrow> 'd \<Rightarrow> int \<times> 'd"
  dReserve :: "app_instance \<Rightarrow> 'd \<Rightarrow> go_error \<times> 'd"
  dReleaseReservation :: "app_instance \<Rightarrow> 'd \<Rightarrow> go_error \<times> 'd"
  dClaim :: "app_instance \<Rightarrow> 'd \<Rightarrow> go_error \<times> 'd"
  dSimulation :: "'d simulation_ops option"

section \<open>AuctionRep\<close>

record 'd auction_rep =
  guid :: string
  delegate :: 'd

definition newAuctionRep :: "string \<Rightarrow> 'd \<Rightarrow> 'd auction_rep" where
  "newAuctionRep g d = \<lparr>guid = g, delegate = d\<rparr>"

definition Guid :: "'d auction_rep \<Rightarrow> string" where
  "Guid rep = guid rep"

definition hasRoomFor :: "resources \<Rightarrow> resources \<Rightarrow> bool" where
  "hasRoomFor required remaining =
     (let hasEnoughMemory = fle (MemoryMB required) (MemoryMB remaining);
          hasEnoughDisk = fle (DiskMB required) (DiskMB remaining);
          hasEnoughContainers = 0 < Containers remaining
      in hasEnoughMemory \<and> hasEnoughDisk \<and> hasEnoughContainers)"

definition score :: "resources \<Rightarrow> resources \<Rightarrow> int \<Rightarrow> float64" where
  "score remaining totals nInstances =
     (let fMemory = fsub (Fin 1) (fdiv (MemoryMB remaining) (MemoryMB totals));
          fDisk = fsub (Fin 1) (fdiv (DiskMB remaining) (DiskMB totals));
          fContainers = fsub (Fin 1)
            (fdiv (float_of_int (Containers remaining)) (float_of_int (Containers totals)));
          fResources = fdiv (fadd (fadd fMemory fDisk) fContainers) (Fin 3)
      in fadd fResources (float_of_int nInstances))"

text \<open>\<open>Score\<close>: the score and the error, as the Go method returns them.\<close>

definition repScore ::
    "'d delegate_ops \<Rightarrow> app_instance \<Rightarrow> 'd auction_rep \<Rightarrow> (float64 \<times> go_error) \<times> 'd auction_rep" where
  "repScore ops inst rep =
     (let (remaining, d1) = dRemainingResources ops (delegate rep)
      in if \<not> hasRoomFor (Resources inst) remaining
         then ((Fin 0, Some InsufficientResources), rep\<lparr>delegate := d1\<rparr>)
         else let totals = dTotalResources ops d1;
                  (nInstances, d2) = dNumInstancesForAppGuid ops (AppGuid inst) d1
              in ((score remaining totals nInstances, None), rep\<lparr>delegate := d2\<rparr>))"

definition repScoreThenTentativelyReserve ::
    "'d delegate_ops \<Rightarrow> app_instance \<Rightarrow> 'd auction_rep \<Rightarrow> (float64 \<times> go_error) \<times> 'd auction_rep" where
  "repScoreThenTentativelyReserve ops inst rep =
     (let (remaining, d1) = dRemainingResources ops (delegate rep)
      in if \<not> hasRoomFor (Resources inst) remaining
         then ((Fin 0, Some InsufficientResources), rep\<lparr>delegate := d1\<rparr>)
         else let totals = dTotalResources ops d1;
                  (nInstances, d2) = dNumInstancesForAppGuid ops (AppGuid inst) d1;
                  sc = score remaining totals nInstances;
                  (err, d3) = dReserve ops inst d2
              in (case err of
                    Some e \<Rightarrow> ((Fin 0, Some e), rep\<lparr>delegate := d3\<rparr>)
                  | None \<Rightarrow> ((sc, None), rep\<lparr>delegate := d3\<rparr>)))"

definition repReleaseReservation ::
    "'d delegate_ops \<Rightarrow> app_instance \<Rightarrow> 'd auction_rep \<Rightarrow> go_error \<times> 'd auction_rep" where
  "repReleaseReservation ops inst rep =
     (let (err, d1) = dReleaseReservation ops inst (delegate rep) in (err, rep\<lparr>delegate := d1\<rparr>))"

definition repClaim ::
    "'d delegate_ops \<Rightarrow> app_instance \<Rightarrow> 'd auction_rep \<Rightarrow> go_error \<times> 'd auction_rep" where
  "repClaim ops inst rep =
     (let (err, d1) = dClaim ops inst (delegate rep) in (err, rep\<lparr>delegate := d1\<rparr>))"

definition repTotalResources :: "'d delegate_ops \<Rightarrow> 'd auction_rep \<Rightarrow> resources" where
  "repTotalResources ops rep = dTotalResources ops (delegate rep)"

text \<open>The simulation methods do nothing to a delegate without them.\<close>

definition repReset :: "'d delegate_ops \<Rightarrow> 'd auction_rep \<Rightarrow> 'd auction_rep" where
  "repReset ops rep =
     (case dSimulation ops of
        None \<Rightarrow> rep
      | Some sim \<Rightarrow> rep\<lparr>delegate := sSetInstances sim [] (delegate rep)\<rparr>)"

definition repSetInstances ::
    "'d delegate_ops \<Rightarrow> app_instance list \<Rightarrow> 'd auction_rep \<Rightarrow> 'd auction_rep" where
  "repSetInstances ops insts rep =
     (case dSimulation ops of
        None \<Rightarrow> rep
      | Some sim \<Rightarrow> rep\<lparr>delegate := sSetInstances sim insts (delegate rep)\<rparr>)"

definition repInstances ::
    "'d delegate_ops \<Rightarrow> 'd auction_rep \<Rightarrow> app_instance list \<times> 'd auction_rep" where
  "repInstances ops rep =
     (case dSimulation ops of
        None \<Rightarrow> ([], rep)
      | Some sim \<Rightarrow>
          (let (insts, d1) = sInstances sim (delegate rep) in (insts, rep\<lparr>delegate := d1\<rparr>)))"

lemma guid_of_rep [simp]:
  "guid (snd (repScore ops i rep)) = guid rep"
  "guid (snd (repScoreThenTentativelyReserve ops i rep)) = guid rep"
  "guid (snd (repReleaseReservation ops i rep)) = guid rep"
  "guid (snd (repClaim ops i rep)) = guid rep"
  by (simp_all add: repScore_def repScoreThenTentativelyReserve_def repReleaseReservation_def
      repClaim_def Let_def split_beta split: option.split)

section \<open>The contract of a delegate\<close>

text \<open>
  \<open>holds d g\<close>: the delegate holds an instance of guid \<open>g\<close>, reserved or claimed; \<open>inv\<close> is what
  every operation keeps when the instances it is given are \<open>adm\<close>issible.  No operation changes
  the total resources.
\<close>

locale rep_delegate =
  fixes ops :: "'d delegate_ops"
    and holds :: "'d \<Rightarrow> string \<Rightarrow> bool"
    and inv :: "'d \<Rightarrow> bool"
    and adm :: "app_instance \<Rightarrow> bool"
  assumes remaining_holds: "inv d \<Longrightarrow> holds (snd (dRemainingResources ops d)) = holds d"
    and remaining_inv: "inv d \<Longrightarrow> inv (snd (dRemainingResources ops d))"
    and num_holds: "inv d \<Longrightarrow> holds (snd (dNumInstancesForAppGuid ops a d)) = holds d"
    and num_inv: "inv d \<Longrightarrow> inv (snd (dNumInstancesForAppGuid ops a d))"
    and reserve_ok: "inv d \<Longrightarrow> dReserve ops i d = (None, d') \<Longrightarrow>
      holds d' = (holds d)(InstanceGuid i := True)"
    and reserve_err: "inv d \<Longrightarrow> dReserve ops i d = (Some e, d') \<Longrightarrow> holds d' = holds d \<and> e \<noteq> ''''"
    and reserve_inv: "inv d \<Longrightarrow> adm i \<Longrightarrow> inv (snd (dReserve ops i d))"
    and release_holds: "inv d \<Longrightarrow>
      holds (snd (dReleaseReservation ops i d)) = (holds d)(InstanceGuid i := False)"
    and release_inv: "inv d \<Longrightarrow> inv (snd (dReleaseReservation ops i d))"
    and claim_holds: "inv d \<Longrightarrow> holds (snd (dClaim ops i d)) = holds d"
    and claim_inv: "inv d \<Longrightarrow> inv (snd (dClaim ops i d))"
    and remaining_total: "dTotalResources ops (snd (dRemainingResources ops d)) = dTotalResources ops d"
    and num_total: "dTotalResources ops (snd (dNumInstancesForAppGuid ops a d)) = dTotalResources ops d"
    and reserve_total: "dTotalResources ops (snd (dReserve ops i d)) = dTotalResources ops d"
    and release_total: "dTotalResources ops (snd (dReleaseReservation ops i d)) = dTotalResources ops d"
    and claim_total: "dTotalResources ops (snd (dClaim ops i d)) = dTotalResources ops d"
begin

text \<open>The delegate after the two reads with which both scoring methods begin.\<close>

lemma reads_keep:
  assumes "inv d"
  shows "holds (snd (dNumInstancesForAppGuid ops a (snd (dRemainingResources ops d)))) = holds d"
    and "inv (snd (dNumInstancesForAppGuid ops a (snd (dRemainingResources ops d))))"
  using assms by (simp_all add: remaining_holds remaining_inv num_holds num_inv)

lemma repScore_keeps:
  assumes "inv (delegate rep)"
  shows "holds (delegate (snd (repScore ops i rep))) = holds (delegate rep)"
    and "inv (delegate (snd (repScore ops i rep)))"
  using assms by (simp_all add: repScore_def Let_def split_beta reads_keep remaining_holds remaining_inv)

lemma repScore_error: "snd (fst (repScore ops i rep)) \<noteq> Some ''''"
  by (simp add: repScore_def InsufficientResources_def Let_def split_beta)

lemma repReserve_result:
  assumes "inv (delegate rep)"
    and "repScoreThenTentativelyReserve ops i rep = ((s, err), rep')"
  shows "holds (delegate rep') =
      (if err = None then (holds (delegate rep))(InstanceGuid i := True) else holds (delegate rep))"
    and "err \<noteq> Some ''''"
    and "adm i \<Longrightarrow> inv (delegate rep')"
proof -
  define d1 where "d1 = snd (dRemainingResources ops (delegate rep))"
  define d2 where "d2 = snd (dNumInstancesForAppGuid ops (AppGuid i) d1)"
  obtain e d3 where r: "dReserve ops i d2 = (e, d3)" by fastforce
  have d1: "holds d1 = holds (delegate rep)" "inv d1"
    using assms(1) by (simp_all add: d1_def remaining_holds remaining_inv)
  have d2: "holds d2 = holds (delegate rep)" "inv d2"
    using assms(1) by (simp_all add: d1_def d2_def reads_keep)
  have d3: "holds d3 = (if e = None then (holds d2)(InstanceGuid i := True) else holds d2)"
    "e \<noteq> Some ''''"
    using reserve_ok[OF d2(2)] reserve_err[OF d2(2)] r by (cases e; auto)+
  have i3: "adm i \<Longrightarrow> inv d3" using reserve_inv[OF d2(2), of i] r by simp
  show "holds (delegate rep') =
      (if err = None then (holds (delegate rep))(InstanceGuid i := True) else holds (delegate rep))"
    and "err \<noteq> Some ''''"
    and "adm i \<Longrightarrow> inv (delegate rep')"
    using assms(2) r d1 d2 d3 i3
    by (auto simp: repScoreThenTentativelyReserve_def Let_def split_beta
        InsufficientResources_def d1_def[symmetric] d2_def[symmetric]
        split: if_splits option.splits)
qed

lemma repRelease_holds:
  "inv (delegate rep) \<Longrightarrow> holds (delegate (snd (repReleaseReservation ops i rep))) =
     (holds (delegate rep))(InstanceGuid i := False)"
  "inv (delegate rep) \<Longrightarrow> inv (delegate (snd (repReleaseReservation ops i rep)))"
  by (simp_all add: repReleaseReservation_def split_beta release_holds release_inv)

lemma repClaim_holds:
  "inv (delegate rep) \<Longrightarrow> holds (delegate (snd (repClaim ops i rep))) = holds (delegate rep)"
  "inv (delegate rep) \<Longrightarrow> inv (delegate (snd (repClaim ops i rep)))"
  by (simp_all add: repClaim_def split_beta claim_holds claim_inv)

lemma rep_total [simp]:
  "repTotalResources ops (snd (repScore ops i rep)) = repTotalResources ops rep"
  "repTotalResources ops (snd (repScoreThenTentativelyReserve ops i rep)) = repTotalResources ops rep"
  "repTotalResources ops (snd (repReleaseReservation ops i rep)) = repTotalResources ops rep"
  "repTotalResources ops (snd (repClaim ops i rep)) = repTotalResources ops rep"
  by (auto simp: repTotalResources_def repScore_def repScoreThenTentativelyReserve_def
      repReleaseReservation_def repClaim_def Let_def split_beta remaining_total num_total
      reserve_total release_total claim_total split: option.split)

end

section \<open>The range of the score\<close>

text \<open>The two shares the score is made of: of one resource, and the mean of the three.\<close>

definition used_share :: "float64 \<Rightarrow> float64 \<Rightarrow> float64" where
  "used_share a b = fsub (Fin 1) (fdiv a b)"

definition mean_share :: "resources \<Rightarrow> resources \<Rightarrow> float64" where
  "mean_share remaining totals =
     fdiv (fadd (fadd (used_share (MemoryMB remaining) (MemoryMB totals))
                      (used_share (DiskMB remaining) (DiskMB totals)))
                (used_share (float_of_int (Containers remaining)) (float_of_int (Containers totals))))
       (Fin 3)"

lemma score_eq: "score remaining totals n = fadd (mean_share remaining totals) (float_of_int n)"
  by (simp add: score_def mean_share_def used_share_def Let_def)

text \<open>Remaining resources that are a part of totals that are not zero.\<close>

definition part_of :: "float64 \<Rightarrow> float64 \<Rightarrow> bool" where
  "part_of a b \<longleftrightarrow> is_finite a \<and> is_finite b \<and> 0 \<le> fval a \<and> fval a \<le> fval b \<and> 0 < fval b"

definition within_totals :: "resources \<Rightarrow> resources \<Rightarrow> bool" where
  "within_totals remaining totals \<longleftrightarrow>
     part_of (MemoryMB remaining) (MemoryMB totals) \<and> part_of (DiskMB remaining) (DiskMB totals) \<and>
     0 \<le> Containers remaining \<and> Containers remaining \<le> Containers totals \<and>
     0 < Containers totals \<and> Containers totals \<le> 2 ^ 53"

lemma unit_le_max: "0 \<le> (x::rat) \<Longrightarrow> x \<le> 4 \<Longrightarrow> \<bar>x\<bar> \<le> 2 ^ 1023"
  by (rule order_trans[of _ 4]) simp_all

lemma fdiv_unit:
  assumes "part_of a b"
  shows "is_finite (fdiv a b)" and "fval (fdiv a b) = rnd (fval a / fval b)"
    and "0 \<le> fval (fdiv a b)" and "fval (fdiv a b) \<le> 1"
proof -
  have q: "0 \<le> fval a / fval b" "fval a / fval b \<le> 1"
    using assms by (simp_all add: part_of_def divide_le_eq)
  then have "\<bar>fval a / fval b\<bar> \<le> 2 ^ 1023" by (intro unit_le_max) auto
  with assms show f: "is_finite (fdiv a b)" "fval (fdiv a b) = rnd (fval a / fval b)"
    by (simp_all add: part_of_def fdiv_fin)
  show "0 \<le> fval (fdiv a b)" "fval (fdiv a b) \<le> 1"
    using rnd_between[of 0 "fval a / fval b" 1] q by (simp_all add: f(2))
qed

lemma used_share_range:
  assumes "part_of a b"
  shows "is_finite (used_share a b)" and "fval (used_share a b) = rnd (1 - rnd (fval a / fval b))"
    and "0 \<le> fval (used_share a b)" and "fval (used_share a b) \<le> 1"
proof -
  note d = fdiv_unit[OF assms]
  have "\<bar>1 - fval (fdiv a b)\<bar> \<le> 2 ^ 1023" using d(3,4) by (intro unit_le_max) auto
  then show f: "is_finite (used_share a b)" "fval (used_share a b) = rnd (1 - rnd (fval a / fval b))"
    using d(1,2) by (simp_all add: used_share_def fsub_fin)
  show "0 \<le> fval (used_share a b)" "fval (used_share a b) \<le> 1"
    using rnd_between[of 0 "1 - rnd (fval a / fval b)" 1] d by (simp_all add: f(2))
qed

lemma used_share_antimono:
  assumes "part_of a b" and "part_of a' b" and "fval a \<le> fval a'"
  shows "fval (used_share a' b) \<le> fval (used_share a b)"
proof -
  have "fval a / fval b \<le> fval a' / fval b"
    using assms by (simp add: part_of_def divide_right_mono)
  then show ?thesis
    by (simp only: used_share_range(2)[OF assms(1)] used_share_range(2)[OF assms(2)])
      (intro rnd_mono diff_left_mono)
qed

lemma fadd_range:
  assumes "is_finite a" and "is_finite b" and "0 \<le> fval a" and "fval a \<le> of_int m"
    and "0 \<le> fval b" and "fval b \<le> 1" and "0 \<le> m" and "m \<le> 2"
  shows "is_finite (fadd a b)" and "fval (fadd a b) = rnd (fval a + fval b)"
    and "0 \<le> fval (fadd a b)" and "fval (fadd a b) \<le> of_int (m + 1)"
proof -
  have "of_int m \<le> (of_int 2 :: rat)" using assms(8) by (simp only: of_int_le_iff)
  with assms(3-6) have "\<bar>fval a + fval b\<bar> \<le> 2 ^ 1023" by (intro unit_le_max) simp_all
  with assms(1,2) show f: "is_finite (fadd a b)" "fval (fadd a b) = rnd (fval a + fval b)"
    by (simp_all add: fadd_fin)
  show "0 \<le> fval (fadd a b)" "fval (fadd a b) \<le> of_int (m + 1)"
    using rnd_between[of 0 "fval a + fval b" "m + 1"] assms(3-8) by (simp_all add: f(2))
qed

lemma within_totals_parts:
  assumes "within_totals remaining totals"
  shows "part_of (MemoryMB remaining) (MemoryMB totals)"
    and "part_of (DiskMB remaining) (DiskMB totals)"
    and "part_of (float_of_int (Containers remaining)) (float_of_int (Containers totals))"
  using assms by (simp_all add: within_totals_def part_of_def float_of_int_fin)

lemma mean_share_range:
  assumes "within_totals remaining totals"
  shows "is_finite (mean_share remaining totals)"
    and "fval (mean_share remaining totals) =
      rnd (rnd (rnd (fval (used_share (MemoryMB remaining) (MemoryMB totals)) +
                     fval (used_share (DiskMB remaining) (DiskMB totals))) +
                fval (used_share (float_of_int (Containers remaining)) (float_of_int (Containers totals)))) / 3)"
    and "0 \<le> fval (mean_share remaining totals)" and "fval (mean_share remaining totals) \<le> 1"
proof -
  note m = used_share_range[OF within_totals_parts(1)[OF assms]]
    and d = used_share_range[OF within_totals_parts(2)[OF assms]]
    and c = used_share_range[OF within_totals_parts(3)[OF assms]]
  let ?md = "fadd (used_share (MemoryMB remaining) (MemoryMB totals))
    (used_share (DiskMB remaining) (DiskMB totals))"
  let ?sum = "fadd ?md (used_share (float_of_int (Containers remaining)) (float_of_int (Containers totals)))"
  have md: "is_finite ?md" "0 \<le> fval ?md" "fval ?md \<le> of_int 2"
    "fval ?md = rnd (fval (used_share (MemoryMB remaining) (MemoryMB totals)) +
      fval (used_share (DiskMB remaining) (DiskMB totals)))"
    using fadd_range[OF m(1) d(1) m(3) _ d(3,4), of 1] m(4) by simp_all
  have sum: "is_finite ?sum" "0 \<le> fval ?sum" "fval ?sum \<le> 3"
    "fval ?sum = rnd (fval ?md +
      fval (used_share (float_of_int (Containers remaining)) (float_of_int (Containers totals))))"
    using fadd_range[OF md(1) c(1) md(2,3) c(3,4)] by simp_all
  have p: "part_of ?sum (Fin 3)" using sum by (simp add: part_of_def)
  show "is_finite (mean_share remaining totals)"
    "fval (mean_share remaining totals) =
      rnd (rnd (rnd (fval (used_share (MemoryMB remaining) (MemoryMB totals)) +
                     fval (used_share (DiskMB remaining) (DiskMB totals))) +
                fval (used_share (float_of_int (Containers remaining)) (float_of_int (Containers totals)))) / 3)"
    "0 \<le> fval (mean_share remaining totals)" "fval (mean_share remaining totals) \<le> 1"
    using fdiv_unit[OF p] sum(4) md(4) by (simp_all add: mean_share_def)
qed

lemma score_value:
  assumes "within_totals remaining totals" and "0 \<le> n" and "n < 2 ^ 53"
  shows "is_finite (score remaining totals n)"
    and "fval (score remaining totals n) = rnd (fval (mean_share remaining totals) + of_int n)"
    and "of_int n \<le> fval (score remaining totals n)"
    and "fval (score remaining totals n) \<le> of_int (n + 1)"
proof -
  note s = mean_share_range[OF assms(1)]
  have n: "is_finite (float_of_int n)" "fval (float_of_int n) = of_int n"
    using assms(2,3) by (simp_all add: float_of_int_fin)
  let ?x = "fval (mean_share remaining totals) + of_int n"
  have x: "of_int n \<le> ?x" "?x \<le> of_int (n + 1)" using s(3,4) by simp_all
  have "(0::rat) \<le> of_int n" "of_int (n + 1) \<le> (of_int (2 ^ 53) :: rat)"
    using assms(2,3) by (simp_all only: of_int_0_le_iff of_int_le_iff)
  moreover have "(of_int (2 ^ 53) :: rat) \<le> 2 ^ 1023" by simp
  ultimately have "\<bar>?x\<bar> \<le> 2 ^ 1023" using x by linarith
  then show f: "is_finite (score remaining totals n)" "fval (score remaining totals n) = rnd ?x"
    using s(1) n by (simp_all add: score_eq fadd_fin)
  show "of_int n \<le> fval (score remaining totals n)" "fval (score remaining totals n) \<le> of_int (n + 1)"
    using rnd_between[OF x] assms(2,3) by (simp_all add: f(2))
qed

section \<open>Properties\<close>

text \<open> \<open>ScoreThenTentativelyReserve\<close> is \<open>Score\<close> followed by the delegate's \<open>Reserve\<close>: a refusal
  for lack of room is passed on with the cell untouched, a refused reservation answers 0 with
  the delegate's error, and a reservation answers the score of the cell before it.\<close>

theorem reserve_is_score_then_Reserve:
  "repScoreThenTentativelyReserve ops inst rep =
     (case repScore ops inst rep of
        ((s, Some e), rep1) \<Rightarrow> ((s, Some e), rep1)
      | ((s, None), rep1) \<Rightarrow>
          (case dReserve ops inst (delegate rep1) of
             (Some e, d) \<Rightarrow> ((Fin 0, Some e), rep1\<lparr>delegate := d\<rparr>)
           | (None, d) \<Rightarrow> ((s, None), rep1\<lparr>delegate := d\<rparr>)))"
  by (simp add: repScoreThenTentativelyReserve_def repScore_def Let_def split_beta split: option.split)

text \<open> a representative whose remaining resources are a part of its totals scores between the
  number of instances of the app it runs and that number plus one; the score is never NaN.\<close>

theorem score_bounds:
  assumes "within_totals remaining totals" and "0 \<le> n" and "n < 2 ^ 53"
  shows "is_finite (score remaining totals n) \<and> of_int n \<le> fval (score remaining totals n) \<and>
    fval (score remaining totals n) \<le> of_int (n + 1)"
  using score_value[OF assms] by blast

theorem score_bounds_witness:
  "of_int 2 \<le> fval (score \<lparr>DiskMB = Fin 50, MemoryMB = Fin 30, Containers = 7\<rparr>
      \<lparr>DiskMB = Fin 100, MemoryMB = Fin 100, Containers = 10\<rparr> 2)"
proof -
  have "within_totals \<lparr>DiskMB = Fin 50, MemoryMB = Fin 30, Containers = 7\<rparr>
      \<lparr>DiskMB = Fin 100, MemoryMB = Fin 100, Containers = 10\<rparr>"
    by code_simp
  from score_bounds[OF this, of 2] show ?thesis by simp
qed

text \<open> a cell that runs fewer instances of the app is never beaten by one that runs more,
  whatever resources the two have left.\<close>

theorem score_prefers_fewer_instances:
  assumes "within_totals r t" and "within_totals r' t'" and "0 \<le> n" and "n < n'" and "n' < 2 ^ 53"
  shows "\<not> flt (score r' t' n') (score r t n)"
proof -
  note a = score_value[OF assms(1), of n] and b = score_value[OF assms(2), of n']
  have "of_int (n + 1) \<le> (of_int n' :: rat)" using assms(4) by (simp only: of_int_le_iff)
  with a b assms(3-5) show ?thesis by (simp add: flt_fin)
qed

theorem score_prefers_fewer_instances_witness:
  "\<not> flt (score \<lparr>DiskMB = Fin 100, MemoryMB = Fin 100, Containers = 10\<rparr>
            \<lparr>DiskMB = Fin 100, MemoryMB = Fin 100, Containers = 10\<rparr> 1)
         (score \<lparr>DiskMB = Fin 0, MemoryMB = Fin 1, Containers = 1\<rparr>
            \<lparr>DiskMB = Fin 100, MemoryMB = Fin 100, Containers = 10\<rparr> 0)"
proof -
  have "within_totals \<lparr>DiskMB = Fin 100, MemoryMB = Fin 100, Containers = 10\<rparr>
      \<lparr>DiskMB = Fin 100, MemoryMB = Fin 100, Containers = 10\<rparr>"
    "within_totals \<lparr>DiskMB = Fin 0, MemoryMB = Fin 1, Containers = 1\<rparr>
      \<lparr>DiskMB = Fin 100, MemoryMB = Fin 100, Containers = 10\<rparr>"
    by code_simp+
  from score_prefers_fewer_instances[OF this(2,1), of 0 1] show ?thesis by simp
qed

text \<open> of two cells with the same totals and as many instances of the app, the one that has at
  least as much of every resource left is not beaten by the other: rounding keeps the order.\<close>

theorem score_prefers_more_room:
  assumes "within_totals r t" and "within_totals r' t"
    and "fval (MemoryMB r) \<le> fval (MemoryMB r')" and "fval (DiskMB r) \<le> fval (DiskMB r')"
    and "Containers r \<le> Containers r'" and "0 \<le> n" and "n < 2 ^ 53"
  shows "\<not> flt (score r t n) (score r' t n)"
proof -
  note p = within_totals_parts[OF assms(1)] and p' = within_totals_parts[OF assms(2)]
  have c: "fval (float_of_int (Containers r)) \<le> fval (float_of_int (Containers r'))"
    using assms(1,2,5) by (simp add: within_totals_def float_of_int_fin)
  have "fval (mean_share r' t) \<le> fval (mean_share r t)"
    unfolding mean_share_range(2)[OF assms(1)] mean_share_range(2)[OF assms(2)]
    using used_share_antimono[OF p(1) p'(1) assms(3)] used_share_antimono[OF p(2) p'(2) assms(4)]
      used_share_antimono[OF p(3) p'(3) c]
    by (intro rnd_mono divide_right_mono add_mono) auto
  then have "fval (score r' t n) \<le> fval (score r t n)"
    unfolding score_value(2)[OF assms(1,6,7)] score_value(2)[OF assms(2,6,7)]
    by (intro rnd_mono) simp
  with score_value(1)[OF assms(1,6,7)] score_value(1)[OF assms(2,6,7)] show ?thesis
    by (simp add: flt_fin)
qed

theorem score_prefers_more_room_witness:
  "\<not> flt (score \<lparr>DiskMB = Fin 50, MemoryMB = Fin 30, Containers = 7\<rparr>
            \<lparr>DiskMB = Fin 100, MemoryMB = Fin 100, Containers = 10\<rparr> 3)
         (score \<lparr>DiskMB = Fin 50, MemoryMB = Fin 31, Containers = 8\<rparr>
            \<lparr>DiskMB = Fin 100, MemoryMB = Fin 100, Containers = 10\<rparr> 3)"
proof -
  have "within_totals \<lparr>DiskMB = Fin 50, MemoryMB = Fin 30, Containers = 7\<rparr>
      \<lparr>DiskMB = Fin 100, MemoryMB = Fin 100, Containers = 10\<rparr>"
    "within_totals \<lparr>DiskMB = Fin 50, MemoryMB = Fin 31, Containers = 8\<rparr>
      \<lparr>DiskMB = Fin 100, MemoryMB = Fin 100, Containers = 10\<rparr>"
    by code_simp+
  from score_prefers_more_room[OF this, of 3] show ?thesis by simp
qed

end
