(* ===== verification/Sim_Delegate.thy ===== *)
theory Sim_Delegate
  imports Auction_Rep "HOL-Library.AList"
begin

text \<open>
  \<open>simulation/simulationrepdelegate\<close>: the delegate of the simulation, which keeps the instances
  of a cell in a Go map and checks capacity before a reservation.  The map is an association
  list with distinct keys; \<open>map_order\<close> is the runtime's source for the order of a range over
  it, so every order is possible at every range, and the float subtractions of
  \<open>remainingResources\<close> run in that order.
\<close>

section \<open>The delegate\<close>

record sim_delegate =
  instances :: "(string \<times> app_instance) list"
  totalResources :: resources
  map_order :: rand

definition newSimDelegate :: "resources \<Rightarrow> rand \<Rightarrow> sim_delegate" where
  "newSimDelegate t order = \<lparr>instances = [], totalResources = t, map_order = order\<rparr>"

text \<open>\<open>for _, instance := range rep.instances\<close>: the instances in an order that is drawn.\<close>

definition range_instances :: "sim_delegate \<Rightarrow> app_instance list \<times> sim_delegate" where
  "range_instances d =
     (let (entries, order) = shuffle (instances d) (map_order d)
      in (map snd entries, d\<lparr>map_order := order\<rparr>))"

definition subtract_instance :: "app_instance \<Rightarrow> resources \<Rightarrow> resources" where
  "subtract_instance inst res =
     res\<lparr>MemoryMB := fsub (MemoryMB res) (MemoryMB (Resources inst)),
         DiskMB := fsub (DiskMB res) (DiskMB (Resources inst)),
         Containers := Containers res - 1\<rparr>"

definition remainingResources :: "sim_delegate \<Rightarrow> resources \<times> sim_delegate" where
  "remainingResources d =
     (let (insts, d1) = range_instances d
      in (fold subtract_instance insts (totalResources d), d1))"

definition simRemainingResources :: "sim_delegate \<Rightarrow> resources \<times> sim_delegate" where
  "simRemainingResources d = remainingResources d"

definition simTotalResources :: "sim_delegate \<Rightarrow> resources" where
  "simTotalResources d = totalResources d"

definition NumInstancesForAppGuid :: "string \<Rightarrow> sim_delegate \<Rightarrow> int \<times> sim_delegate" where
  "NumInstancesForAppGuid g d =
     (let (insts, d1) = range_instances d
      in (fold (\<lambda>inst n. if AppGuid inst = g then n + 1 else n) insts 0, d1))"

definition Reserve :: "app_instance \<Rightarrow> sim_delegate \<Rightarrow> go_error \<times> sim_delegate" where
  "Reserve inst d =
     (let (remaining, d1) = remainingResources d;
          hasEnoughMemory = fle (MemoryMB (Resources inst)) (MemoryMB remaining);
          hasEnoughDisk = fle (DiskMB (Resources inst)) (DiskMB remaining);
          hasEnoughContainers = 0 < Containers remaining
      in if \<not> (hasEnoughMemory \<and> hasEnoughDisk \<and> hasEnoughContainers)
         then (Some InsufficientResources, d1)
         else (None, d1\<lparr>instances := AList.update (InstanceGuid inst) inst (instances d1)\<rparr>))"

text \<open>
  The zero value of \<open>types.Instance\<close>, which a read of a missing key returns.  The error of
  \<open>ReleaseReservation\<close> prints the guid of the value it read, not of the instance it was asked
  to release.
\<close>

definition zero_instance :: app_instance where
  "zero_instance =
     \<lparr>AppGuid = '''', InstanceGuid = '''',
      Resources = \<lparr>DiskMB = Fin 0, MemoryMB = Fin 0, Containers = 0\<rparr>\<rparr>"

definition ReleaseReservation :: "app_instance \<Rightarrow> sim_delegate \<Rightarrow> go_error \<times> sim_delegate" where
  "ReleaseReservation inst d =
     (let found = map_of (instances d) (InstanceGuid inst);
          reservedInstance = (case found of None \<Rightarrow> zero_instance | Some i \<Rightarrow> i)
      in if found = None
         then (Some (''no reservation for instance '' @ InstanceGuid reservedInstance), d)
         else (None, d\<lparr>instances := AList.delete (InstanceGuid inst) (instances d)\<rparr>))"

definition Claim :: "app_instance \<Rightarrow> sim_delegate \<Rightarrow> go_error \<times> sim_delegate" where
  "Claim inst d =
     (if map_of (instances d) (InstanceGuid inst) = None
      then (Some (''no reservation for instance '' @ InstanceGuid inst), d)
      else (None, d))"

definition SetInstances :: "app_instance list \<Rightarrow> sim_delegate \<Rightarrow> sim_delegate" where
  "SetInstances insts d =
     d\<lparr>instances := fold (\<lambda>inst m. AList.update (InstanceGuid inst) inst m) insts []\<rparr>"

definition Instances :: "sim_delegate \<Rightarrow> app_instance list \<times> sim_delegate" where
  "Instances d = range_instances d"

definition sim_ops :: "sim_delegate delegate_ops" where
  "sim_ops =
     \<lparr>dRemainingResources = simRemainingResources,
      dTotalResources = simTotalResources,
      dNumInstancesForAppGuid = NumInstancesForAppGuid,
      dReserve = Reserve,
      dReleaseReservation = ReleaseReservation,
      dClaim = Claim,
      dSimulation = Some \<lparr>sSetInstances = SetInstances, sInstances = Instances\<rparr>\<rparr>"

section \<open>What a delegate holds, and its invariants\<close>

definition sim_holds :: "sim_delegate \<Rightarrow> string \<Rightarrow> bool" where
  "sim_holds d g = (map_of (instances d) g \<noteq> None)"

text \<open>The keys are distinct, and no more containers are used than there are.\<close>

definition sim_inv :: "sim_delegate \<Rightarrow> bool" where
  "sim_inv d \<longleftrightarrow>
     distinct (map fst (instances d)) \<and> int (length (instances d)) \<le> Containers (totalResources d)"

text \<open>A whole number of megabytes, small enough that sums and differences are exact.\<close>

definition whole_MB :: "float64 \<Rightarrow> bool" where
  "whole_MB f \<longleftrightarrow>
     is_finite f \<and> 0 \<le> fval f \<and> fval f \<le> 2 ^ 53 \<and> of_int \<lfloor>fval f\<rfloor> = fval f"

definition whole_resources :: "resources \<Rightarrow> bool" where
  "whole_resources r \<longleftrightarrow> whole_MB (MemoryMB r) \<and> whole_MB (DiskMB r)"

definition whole_instance :: "app_instance \<Rightarrow> bool" where
  "whole_instance i \<longleftrightarrow> whole_resources (Resources i)"

text \<open>The memory, the disk and the containers the held instances use.\<close>

definition used_memory :: "sim_delegate \<Rightarrow> rat" where
  "used_memory d = sum_list (map (\<lambda>(g, i). fval (MemoryMB (Resources i))) (instances d))"

definition used_disk :: "sim_delegate \<Rightarrow> rat" where
  "used_disk d = sum_list (map (\<lambda>(g, i). fval (DiskMB (Resources i))) (instances d))"

definition within_capacity :: "sim_delegate \<Rightarrow> bool" where
  "within_capacity d \<longleftrightarrow>
     sim_inv d \<and> whole_resources (totalResources d) \<and>
     list_all (\<lambda>(g, i). whole_instance i) (instances d) \<and>
     used_memory d \<le> fval (MemoryMB (totalResources d)) \<and>
     used_disk d \<le> fval (DiskMB (totalResources d))"

section \<open>Ranging over the map\<close>

lemma range_instances_eq:
  "range_instances d =
     (map snd (fst (shuffle (instances d) (map_order d))),
      d\<lparr>map_order := snd (shuffle (instances d) (map_order d))\<rparr>)"
  by (simp add: range_instances_def split: prod.split)

lemma mset_range_instances:
  "mset (fst (range_instances d)) = image_mset snd (mset (instances d))"
  by (simp add: range_instances_eq)

lemma remainingResources_eq:
  "remainingResources d =
     (fold subtract_instance (fst (range_instances d)) (totalResources d),
      snd (range_instances d))"
  by (simp add: remainingResources_def split: prod.split)

lemma snd_range_instances [simp]:
  "instances (snd (range_instances d)) = instances d"
  "totalResources (snd (range_instances d)) = totalResources d"
  by (simp_all add: range_instances_eq)

lemma sim_frame [simp]:
  "sim_holds (d\<lparr>map_order := x\<rparr>) = sim_holds d"
  "sim_inv (d\<lparr>map_order := x\<rparr>) = sim_inv d"
  "within_capacity (d\<lparr>map_order := x\<rparr>) = within_capacity d"
  by (simp_all add: sim_holds_def sim_inv_def within_capacity_def used_memory_def used_disk_def
      fun_eq_iff)

lemma sim_range_frame [simp]:
  "sim_holds (snd (range_instances d)) = sim_holds d"
  "sim_inv (snd (range_instances d)) = sim_inv d"
  "within_capacity (snd (range_instances d)) = within_capacity d"
  by (simp_all add: range_instances_eq)

text \<open>Containers are counted exactly, whatever the floats.\<close>

lemma Containers_fold_subtract:
  "Containers (fold subtract_instance is r) = Containers r - int (length is)"
  by (induction "is" arbitrary: r) (simp_all add: subtract_instance_def)

lemma Containers_remaining:
  "Containers (fst (remainingResources d)) =
     Containers (totalResources d) - int (length (instances d))"
  using mset_range_instances[of d]
  by (simp add: remainingResources_eq Containers_fold_subtract)
    (metis size_image_mset size_mset)

lemma length_AList_update_le: "length (AList.update k v al) \<le> Suc (length al)"
  by (induction al) auto

lemma length_AList_delete_le: "length (AList.delete k al) \<le> length al"
  by (simp add: AList.delete_eq)

lemma Reserve_eq:
  "Reserve i d =
     (if hasRoomFor (Resources i) (fst (remainingResources d))
      then (None, (snd (range_instances d))
             \<lparr>instances := AList.update (InstanceGuid i) i (instances d)\<rparr>)
      else (Some InsufficientResources, snd (range_instances d)))"
  by (simp add: Reserve_def hasRoomFor_def Let_def remainingResources_eq)

lemma sim_holds_update:
  "sim_holds (d\<lparr>instances := AList.update k v (instances d)\<rparr>) = (sim_holds d)(k := True)"
  by (auto simp: sim_holds_def fun_eq_iff update_conv')

lemma sim_holds_delete:
  "sim_holds (d\<lparr>instances := AList.delete k (instances d)\<rparr>) = (sim_holds d)(k := False)"
  by (auto simp: sim_holds_def fun_eq_iff delete_conv')

lemma sim_holds_Reserve:
  "sim_holds (snd (Reserve i d)) =
     (if fst (Reserve i d) = None then (sim_holds d)(InstanceGuid i := True) else sim_holds d)"
  using sim_holds_update[where d = "snd (range_instances d)" and k = "InstanceGuid i" and v = i]
  by (simp add: Reserve_eq)

lemma sim_holds_ReleaseReservation:
  "sim_holds (snd (ReleaseReservation i d)) = (sim_holds d)(InstanceGuid i := False)"
  by (auto simp: ReleaseReservation_def Let_def sim_holds_delete)
    (auto simp: sim_holds_def fun_eq_iff)

lemma snd_Claim [simp]: "snd (Claim i d) = d"
  by (simp add: Claim_def)

lemma snd_remainingResources [simp]: "snd (remainingResources d) = snd (range_instances d)"
  by (simp add: remainingResources_eq)

lemma snd_NumInstances [simp]: "snd (NumInstancesForAppGuid g d) = snd (range_instances d)"
  by (simp add: NumInstancesForAppGuid_def split_beta)

section \<open>The container bound\<close>

lemma sim_inv_Reserve:
  assumes "sim_inv d"
  shows "sim_inv (snd (Reserve i d))"
proof (cases "hasRoomFor (Resources i) (fst (remainingResources d))")
  case True
  then have "0 < Containers (fst (remainingResources d))"
    by (simp add: hasRoomFor_def Let_def)
  then have "int (Suc (length (instances d))) \<le> Containers (totalResources d)"
    by (simp add: Containers_remaining)
  then have "int (length (AList.update (InstanceGuid i) i (instances d))) \<le> Containers (totalResources d)"
    using length_AList_update_le[of "InstanceGuid i" i "instances d"] by linarith
  with assms True show ?thesis by (simp add: Reserve_eq sim_inv_def distinct_update)
qed (use assms in \<open>simp add: Reserve_eq\<close>)

lemma sim_inv_ReleaseReservation: "sim_inv d \<Longrightarrow> sim_inv (snd (ReleaseReservation i d))"
  using length_AList_delete_le[of "InstanceGuid i" "instances d"]
  by (auto simp: ReleaseReservation_def Let_def sim_inv_def distinct_delete)

lemma sim_total [simp]:
  "totalResources (snd (Reserve i d)) = totalResources d"
  "totalResources (snd (ReleaseReservation i d)) = totalResources d"
  by (simp_all add: Reserve_eq ReleaseReservation_def Let_def)

lemma sim_ops_simps [simp]:
  "dRemainingResources sim_ops = remainingResources"
  "dTotalResources sim_ops = totalResources"
  "dNumInstancesForAppGuid sim_ops = NumInstancesForAppGuid"
  "dReserve sim_ops = Reserve"
  "dReleaseReservation sim_ops = ReleaseReservation"
  "dClaim sim_ops = Claim"
  "dSimulation sim_ops = Some \<lparr>sSetInstances = SetInstances, sInstances = Instances\<rparr>"
  by (auto simp: sim_ops_def simRemainingResources_def simTotalResources_def)

lemma Reserve_error: "Reserve i d = (Some e, d') \<Longrightarrow> e \<noteq> ''''"
  by (auto simp: Reserve_eq InsufficientResources_def split: if_splits)

interpretation sim: rep_delegate sim_ops sim_holds sim_inv "\<lambda>_. True"
proof unfold_locales
  fix d i d' e
  assume "sim_inv d"
  show "dReserve sim_ops i d = (None, d') \<Longrightarrow> sim_holds d' = (sim_holds d)(InstanceGuid i := True)"
    using sim_holds_Reserve[of i d] by simp
  show "dReserve sim_ops i d = (Some e, d') \<Longrightarrow> sim_holds d' = sim_holds d \<and> e \<noteq> ''''"
    using sim_holds_Reserve[of i d] Reserve_error[of i d e d'] by simp
qed (simp_all add: sim_inv_Reserve sim_inv_ReleaseReservation sim_holds_ReleaseReservation)

section \<open>Exact accounting in whole megabytes\<close>

definition int_MB :: "float64 \<Rightarrow> int \<Rightarrow> bool" where
  "int_MB f n \<longleftrightarrow> is_finite f \<and> fval f = of_int n"

lemma whole_MB_int: "whole_MB f \<longleftrightarrow> (\<exists>n. int_MB f n \<and> 0 \<le> n \<and> n \<le> 2 ^ 53)"
proof
  assume w: "whole_MB f"
  then have "0 \<le> \<lfloor>fval f\<rfloor>" "of_int \<lfloor>fval f\<rfloor> \<le> (of_int (2 ^ 53) :: rat)"
    by (simp_all add: whole_MB_def)
  then have "\<lfloor>fval f\<rfloor> \<le> 2 ^ 53" by (simp only: of_int_le_iff)
  moreover have "int_MB f \<lfloor>fval f\<rfloor>"
    using w unfolding whole_MB_def int_MB_def by metis
  ultimately show "\<exists>n. int_MB f n \<and> 0 \<le> n \<and> n \<le> 2 ^ 53"
    using \<open>0 \<le> \<lfloor>fval f\<rfloor>\<close> by blast
next
  assume "\<exists>n. int_MB f n \<and> 0 \<le> n \<and> n \<le> 2 ^ 53"
  then obtain n where n: "int_MB f n" "0 \<le> n" "n \<le> 2 ^ 53" by blast
  from n(3) have "of_int n \<le> (of_int (2 ^ 53) :: rat)" by (simp only: of_int_le_iff)
  with n show "whole_MB f" by (simp add: whole_MB_def int_MB_def)
qed

lemma int_MB_fsub:
  assumes "int_MB a m" and "int_MB b n" and "\<bar>m - n\<bar> \<le> 2 ^ 53"
  shows "int_MB (fsub a b) (m - n)"
proof -
  have "\<bar>fval a - fval b\<bar> = of_int \<bar>m - n\<bar>"
    using assms(1,2) by (simp add: int_MB_def)
  also have "\<dots> \<le> of_int (2 ^ 53)" using assms(3) by (simp only: of_int_le_iff)
  also have "\<dots> \<le> 2 ^ 1023" by simp
  finally have "\<bar>fval a - fval b\<bar> \<le> 2 ^ 1023" .
  moreover have "rnd (of_int m - of_int n) = of_int (m - n)"
    using rnd_of_int[OF assms(3)] by simp
  ultimately show ?thesis
    using assms(1,2) by (simp add: int_MB_def fsub_fin)
qed

text \<open>Subtracting whole numbers is exact as long as the difference is not negative.\<close>

lemma fold_fsub_exact:
  assumes "int_MB a m" and "m \<le> 2 ^ 53" and "\<forall>i\<in>set is. int_MB (f i) (n i) \<and> 0 \<le> n i"
    and "sum_list (map n is) \<le> m"
  shows "int_MB (fold (\<lambda>i r. fsub r (f i)) is a) (m - sum_list (map n is))"
  using assms
proof (induction "is" arbitrary: a m)
  case (Cons i "is")
  have "0 \<le> sum_list (map n is)" using Cons.prems(3) by (intro sum_list_nonneg) auto
  moreover have "0 \<le> n i" using Cons.prems(3) by simp
  ultimately have "\<bar>m - n i\<bar> \<le> 2 ^ 53" "m - n i \<le> 2 ^ 53" "sum_list (map n is) \<le> m - n i"
    using Cons.prems(2,4) by simp_all
  moreover from this have "int_MB (fsub a (f i)) (m - n i)"
    using Cons.prems by (intro int_MB_fsub) auto
  ultimately have "int_MB (fold (\<lambda>i r. fsub r (f i)) is (fsub a (f i))) (m - n i - sum_list (map n is))"
    using Cons.prems(3) by (intro Cons.IH) auto
  then show ?case by (simp add: algebra_simps)
qed simp

lemma MemoryMB_fold_subtract:
  "MemoryMB (fold subtract_instance is r) =
     fold (\<lambda>i m. fsub m (MemoryMB (Resources i))) is (MemoryMB r)"
  by (induction "is" arbitrary: r) (simp_all add: subtract_instance_def)

lemma DiskMB_fold_subtract:
  "DiskMB (fold subtract_instance is r) =
     fold (\<lambda>i m. fsub m (DiskMB (Resources i))) is (DiskMB r)"
  by (induction "is" arbitrary: r) (simp_all add: subtract_instance_def)

lemma sum_list_range_instances:
  "sum_list (map f (fst (range_instances d))) = sum_list (map (\<lambda>(g, i). f i) (instances d))"
  for f :: "app_instance \<Rightarrow> 'a::comm_monoid_add"
proof -
  have "sum_list (map f (fst (range_instances d))) = sum_mset (image_mset f (mset (fst (range_instances d))))"
    by (simp only: mset_map[symmetric] sum_mset_sum_list)
  also have "\<dots> = sum_mset (image_mset (\<lambda>(g, i). f i) (mset (instances d)))"
    by (simp add: mset_range_instances multiset.map_comp comp_def case_prod_unfold)
  also have "\<dots> = sum_list (map (\<lambda>(g, i). f i) (instances d))"
    by (simp only: mset_map[symmetric] sum_mset_sum_list)
  finally show ?thesis .
qed

lemma set_range_instances: "set (fst (range_instances d)) = snd ` set (instances d)"
  using arg_cong[OF mset_range_instances[of d], of set_mset] by simp

lemma of_int_sum_list_map:
  "(\<Sum>x\<leftarrow>xs. of_int (f x)) = (of_int (\<Sum>x\<leftarrow>xs. f x) :: 'a::ring_1)"
  by (induction xs) auto

text \<open>One column of the accounts: \<open>f\<close> is the memory or the disk of an instance.\<close>

lemma column_exact:
  assumes "whole_MB a" and "\<forall>(g, i)\<in>set (instances d). whole_MB (f i)"
    and "sum_list (map (\<lambda>(g, i). fval (f i)) (instances d)) \<le> fval a"
  shows "whole_MB (fold (\<lambda>i r. fsub r (f i)) (fst (range_instances d)) a)"
    and "fval (fold (\<lambda>i r. fsub r (f i)) (fst (range_instances d)) a) =
      fval a - sum_list (map (\<lambda>(g, i). fval (f i)) (instances d))"
proof -
  let ?is = "fst (range_instances d)" and ?n = "\<lambda>i. \<lfloor>fval (f i)\<rfloor>"
  obtain m where m: "int_MB a m" "0 \<le> m" "m \<le> 2 ^ 53"
    using assms(1) by (auto simp: whole_MB_int)
  have n: "\<forall>i\<in>set ?is. int_MB (f i) (?n i) \<and> 0 \<le> ?n i"
    using assms(2) by (auto simp: set_range_instances int_MB_def whole_MB_def)
  then have "\<forall>i\<in>set ?is. fval (f i) = of_int (?n i)" by (simp add: int_MB_def)
  then have "sum_list (map (\<lambda>i. fval (f i)) ?is) = sum_list (map (\<lambda>i. of_int (?n i)) ?is)"
    by (simp cong: map_cong)
  also have "\<dots> = of_int (sum_list (map ?n ?is))" by (simp only: of_int_sum_list_map)
  finally have s: "sum_list (map (\<lambda>(g, i). fval (f i)) (instances d)) = of_int (sum_list (map ?n ?is))"
    by (simp add: sum_list_range_instances)
  with assms(3) m(1) have le: "sum_list (map ?n ?is) \<le> m" by (simp add: int_MB_def)
  have "0 \<le> sum_list (map ?n ?is)" using n by (intro sum_list_nonneg) auto
  moreover have "int_MB (fold (\<lambda>i r. fsub r (f i)) ?is a) (m - sum_list (map ?n ?is))"
    using fold_fsub_exact[OF m(1,3) n le] .
  ultimately show "whole_MB (fold (\<lambda>i r. fsub r (f i)) ?is a)"
    and "fval (fold (\<lambda>i r. fsub r (f i)) ?is a) =
      fval a - sum_list (map (\<lambda>(g, i). fval (f i)) (instances d))"
    using m le s by (auto simp: whole_MB_int int_MB_def intro!: exI[of _ "m - sum_list (map ?n ?is)"])
qed

lemma remaining_exact:
  assumes "within_capacity d"
  shows "whole_resources (fst (remainingResources d))"
    and "fval (MemoryMB (fst (remainingResources d))) = fval (MemoryMB (totalResources d)) - used_memory d"
    and "fval (DiskMB (fst (remainingResources d))) = fval (DiskMB (totalResources d)) - used_disk d"
proof -
  have w: "\<forall>(g, i)\<in>set (instances d). whole_MB (MemoryMB (Resources i))"
    "\<forall>(g, i)\<in>set (instances d). whole_MB (DiskMB (Resources i))"
    "whole_MB (MemoryMB (totalResources d))" "whole_MB (DiskMB (totalResources d))"
    using assms by (auto simp: within_capacity_def whole_instance_def whole_resources_def list_all_iff)
  note mem = column_exact[OF w(3,1)] and disk = column_exact[OF w(4,2)]
  show "whole_resources (fst (remainingResources d))"
    and "fval (MemoryMB (fst (remainingResources d))) = fval (MemoryMB (totalResources d)) - used_memory d"
    and "fval (DiskMB (fst (remainingResources d))) = fval (DiskMB (totalResources d)) - used_disk d"
    using assms mem disk
    by (simp_all add: within_capacity_def used_memory_def used_disk_def whole_resources_def
        remainingResources_eq MemoryMB_fold_subtract DiskMB_fold_subtract)
qed

section \<open>No overcommitment\<close>

lemma sum_list_update_le:
  assumes "\<forall>(k, v)\<in>set al. 0 \<le> f v" and "0 \<le> (f v :: rat)"
  shows "sum_list (map (\<lambda>(k, v). f v) (AList.update k v al)) \<le> sum_list (map (\<lambda>(k, v). f v) al) + f v"
  using assms(1) by (induction al) (use assms(2) in auto)

lemma sum_list_delete_le:
  assumes "\<forall>(k, v)\<in>set al. 0 \<le> (f v :: rat)"
  shows "sum_list (map (\<lambda>(k, v). f v) (AList.delete k al)) \<le> sum_list (map (\<lambda>(k, v). f v) al)"
  using assms by (induction al) (auto simp: AList.delete_eq)

lemma set_AList_update_subset: "set (AList.update k v al) \<subseteq> insert (k, v) (set al)"
  by (induction al) auto

lemma within_capacity_Reserve:
  assumes "within_capacity d" and "whole_instance i"
  shows "within_capacity (snd (Reserve i d))"
proof (cases "hasRoomFor (Resources i) (fst (remainingResources d))")
  case True
  let ?al = "AList.update (InstanceGuid i) i (instances d)"
  have w: "list_all (\<lambda>(g, i). whole_instance i) (instances d)"
    and inv: "sim_inv d" and tot: "whole_resources (totalResources d)"
    using assms(1) by (simp_all add: within_capacity_def)
  have pos: "\<forall>(k, v)\<in>set (instances d). 0 \<le> fval (MemoryMB (Resources v))"
    "\<forall>(k, v)\<in>set (instances d). 0 \<le> fval (DiskMB (Resources v))"
    "0 \<le> fval (MemoryMB (Resources i))" "0 \<le> fval (DiskMB (Resources i))"
    using w assms(2)
    by (auto simp: list_all_iff whole_instance_def whole_resources_def whole_MB_def)
  have "fval (MemoryMB (Resources i)) \<le> fval (MemoryMB (totalResources d)) - used_memory d"
    "fval (DiskMB (Resources i)) \<le> fval (DiskMB (totalResources d)) - used_disk d"
    using True assms(2) remaining_exact[OF assms(1)]
    by (simp_all add: hasRoomFor_def Let_def whole_instance_def whole_resources_def whole_MB_def fle_fin)
  then have "sum_list (map (\<lambda>(k, v). fval (MemoryMB (Resources v))) ?al) \<le> fval (MemoryMB (totalResources d))"
    "sum_list (map (\<lambda>(k, v). fval (DiskMB (Resources v))) ?al) \<le> fval (DiskMB (totalResources d))"
    using sum_list_update_le[OF pos(1,3), of "InstanceGuid i"]
      sum_list_update_le[OF pos(2,4), of "InstanceGuid i"]
    by (simp_all add: used_memory_def used_disk_def)
  moreover have "list_all (\<lambda>(g, i). whole_instance i) ?al"
    using w assms(2) set_AList_update_subset[of "InstanceGuid i" i "instances d"]
    by (fastforce simp: list_all_iff)
  moreover have "sim_inv (snd (Reserve i d))" using inv by (rule sim_inv_Reserve)
  ultimately show ?thesis
    using True tot by (simp add: within_capacity_def Reserve_eq used_memory_def used_disk_def)
qed (use assms in \<open>simp add: Reserve_eq\<close>)

lemma within_capacity_ReleaseReservation:
  assumes "within_capacity d"
  shows "within_capacity (snd (ReleaseReservation i d))"
proof -
  let ?al = "AList.delete (InstanceGuid i) (instances d)"
  have w: "list_all (\<lambda>(g, i). whole_instance i) (instances d)"
    using assms by (simp add: within_capacity_def)
  have pos: "\<forall>(k, v)\<in>set (instances d). 0 \<le> fval (MemoryMB (Resources v))"
    "\<forall>(k, v)\<in>set (instances d). 0 \<le> fval (DiskMB (Resources v))"
    using w by (auto simp: list_all_iff whole_instance_def whole_resources_def whole_MB_def)
  have "sum_list (map (\<lambda>(k, v). fval (MemoryMB (Resources v))) ?al) \<le> fval (MemoryMB (totalResources d))"
    "sum_list (map (\<lambda>(k, v). fval (DiskMB (Resources v))) ?al) \<le> fval (DiskMB (totalResources d))"
    using assms sum_list_delete_le[OF pos(1), of "InstanceGuid i"]
      sum_list_delete_le[OF pos(2), of "InstanceGuid i"]
    by (simp_all add: within_capacity_def used_memory_def used_disk_def)
  moreover have "list_all (\<lambda>(g, i). whole_instance i) ?al"
    using w by (auto simp: list_all_iff AList.delete_eq)
  moreover have "sim_inv (snd (ReleaseReservation i d))"
    using assms by (intro sim_inv_ReleaseReservation) (simp add: within_capacity_def)
  ultimately show ?thesis
    using assms
    by (auto simp: within_capacity_def ReleaseReservation_def Let_def used_memory_def used_disk_def)
qed

interpretation whole_sim: rep_delegate sim_ops sim_holds within_capacity whole_instance
proof unfold_locales
  fix d i d' e
  assume "within_capacity d"
  show "dReserve sim_ops i d = (None, d') \<Longrightarrow> sim_holds d' = (sim_holds d)(InstanceGuid i := True)"
    using sim_holds_Reserve[of i d] by simp
  show "dReserve sim_ops i d = (Some e, d') \<Longrightarrow> sim_holds d' = sim_holds d \<and> e \<noteq> ''''"
    using sim_holds_Reserve[of i d] Reserve_error[of i d e d'] by simp
qed (simp_all add: within_capacity_Reserve within_capacity_ReleaseReservation sim_holds_ReleaseReservation)

section \<open>Reading the map back\<close>

lemma count_app_eq:
  "fold (\<lambda>inst n. if AppGuid inst = g then n + 1 else n) is k =
     k + int (length (filter (\<lambda>inst. AppGuid inst = g) is))"
  by (induction "is" arbitrary: k) auto

lemma NumInstances_eq:
  "fst (NumInstancesForAppGuid g d) =
     int (length (filter (\<lambda>(k, inst). AppGuid inst = g) (instances d)))"
proof -
  have "mset (filter (\<lambda>inst. AppGuid inst = g) (fst (range_instances d))) =
      mset (map snd (filter (\<lambda>(k, inst). AppGuid inst = g) (instances d)))"
    by (simp add: mset_range_instances filter_mset_image_mset case_prod_unfold comp_def)
  from mset_eq_length[OF this] show ?thesis
    by (simp add: NumInstancesForAppGuid_def count_app_eq split_beta)
qed

lemma AList_update_fresh: "map_of al k = None \<Longrightarrow> AList.update k v al = al @ [(k, v)]"
  by (induction al) (auto split: if_splits)

lemma fold_update_append:
  assumes "distinct (map fst al @ map InstanceGuid is)"
  shows "fold (\<lambda>inst m. AList.update (InstanceGuid inst) inst m) is al =
    al @ map (\<lambda>inst. (InstanceGuid inst, inst)) is"
  using assms
proof (induction "is" arbitrary: al)
  case (Cons i "is")
  then have "map_of al (InstanceGuid i) = None" by (simp add: map_of_eq_None_iff)
  with Cons show ?case by (simp add: AList_update_fresh)
qed simp

section \<open>Properties\<close>

text \<open> in whole megabytes, \<open>remainingResources\<close> is the totals less what the instances use,
  exactly, whatever order the range over the map takes.\<close>

theorem remainingResources_exact:
  assumes "within_capacity d"
  shows "fval (MemoryMB (fst (remainingResources d))) = fval (MemoryMB (totalResources d)) - used_memory d \<and>
    fval (DiskMB (fst (remainingResources d))) = fval (DiskMB (totalResources d)) - used_disk d \<and>
    Containers (fst (remainingResources d)) = Containers (totalResources d) - int (length (instances d))"
  using remaining_exact[OF assms] Containers_remaining[of d] by blast

text \<open>The cell of the examples: 100 MB of memory and of disk, two containers, one in use.\<close>

definition example_instance :: "string \<Rightarrow> app_instance" where
  "example_instance g =
     \<lparr>AppGuid = ''app'', InstanceGuid = g,
      Resources = \<lparr>DiskMB = Fin 40, MemoryMB = Fin 60, Containers = 1\<rparr>\<rparr>"

definition example_cell :: "(string \<times> app_instance) list \<Rightarrow> sim_delegate" where
  "example_cell insts =
     \<lparr>instances = insts,
      totalResources = \<lparr>DiskMB = Fin 100, MemoryMB = Fin 100, Containers = 2\<rparr>,
      map_order = \<lparr>draws = (\<lambda>n. n), drawn = 0\<rparr>\<rparr>"

lemma example_cell_ok: "within_capacity (example_cell [(''i'', example_instance ''i'')])"
  by code_simp

lemma example_instance_whole: "whole_instance (example_instance g)"
  by (simp add: whole_instance_def whole_resources_def whole_MB_def example_instance_def)

theorem remainingResources_exact_witness:
  "fval (MemoryMB (fst (remainingResources (example_cell [(''i'', example_instance ''i'')])))) = 40"
  using remainingResources_exact[OF example_cell_ok]
  by (simp add: example_cell_def example_instance_def used_memory_def)

text \<open>C13: in whole megabytes, \<open>Reserve\<close> succeeds exactly when the instance fits beside those the
  cell holds, and the cell never holds more than its memory, disk and containers.\<close>

theorem Reserve_iff_fits:
  assumes "within_capacity d" and "whole_instance i"
  shows "(fst (Reserve i d) = None \<longleftrightarrow>
      used_memory d + fval (MemoryMB (Resources i)) \<le> fval (MemoryMB (totalResources d)) \<and>
      used_disk d + fval (DiskMB (Resources i)) \<le> fval (DiskMB (totalResources d)) \<and>
      int (length (instances d)) < Containers (totalResources d)) \<and>
    used_memory (snd (Reserve i d)) \<le> fval (MemoryMB (totalResources d)) \<and>
    used_disk (snd (Reserve i d)) \<le> fval (DiskMB (totalResources d)) \<and>
    int (length (instances (snd (Reserve i d)))) \<le> Containers (totalResources d)"
proof -
  note r = remaining_exact[OF assms(1)] Containers_remaining[of d]
  have "hasRoomFor (Resources i) (fst (remainingResources d)) \<longleftrightarrow>
      used_memory d + fval (MemoryMB (Resources i)) \<le> fval (MemoryMB (totalResources d)) \<and>
      used_disk d + fval (DiskMB (Resources i)) \<le> fval (DiskMB (totalResources d)) \<and>
      int (length (instances d)) < Containers (totalResources d)"
    using r assms(2)
    by (auto simp: hasRoomFor_def Let_def whole_instance_def whole_resources_def whole_MB_def fle_fin)
  moreover have "fst (Reserve i d) = None \<longleftrightarrow> hasRoomFor (Resources i) (fst (remainingResources d))"
    by (simp add: Reserve_eq)
  moreover have "within_capacity (snd (Reserve i d))" by (rule within_capacity_Reserve[OF assms])
  ultimately show ?thesis by (simp add: within_capacity_def sim_inv_def)
qed

theorem Reserve_iff_fits_witness:
  "fst (Reserve (example_instance ''j'') (example_cell [(''i'', example_instance ''i'')])) \<noteq> None"
  using Reserve_iff_fits[OF example_cell_ok example_instance_whole, of "''j''"]
  by (simp add: example_cell_def example_instance_def used_memory_def)

text \<open> whatever the floats are (fractions, NaN, infinities), a cell never holds more instances
  than it has containers.\<close>

theorem containers_never_overcommitted:
  assumes "sim_inv d"
  shows "int (length (instances (snd (Reserve i d)))) \<le> Containers (totalResources d)"
  using sim_inv_Reserve[OF assms, of i] sim_total(1)[of i d] by (simp add: sim_inv_def)

theorem containers_never_overcommitted_witness:
  "int (length (instances (snd (Reserve (zero_instance\<lparr>InstanceGuid := ''z'',
     Resources := \<lparr>DiskMB = NegInf, MemoryMB = NegInf, Containers = 0\<rparr>\<rparr>)
     (example_cell [(''i'', example_instance ''i''), (''j'', example_instance ''j'')]))))) \<le> 2"
  using containers_never_overcommitted[of
      "example_cell [(''i'', example_instance ''i''), (''j'', example_instance ''j'')]"]
  by (simp add: example_cell_def sim_inv_def)

text \<open> releasing a reservation just made gives the delegate back the instances it had.\<close>

theorem Release_undoes_Reserve:
  assumes "Reserve i d = (None, d1)" and "map_of (instances d) (InstanceGuid i) = None"
  shows "fst (ReleaseReservation i d1) = None \<and>
    map_of (instances (snd (ReleaseReservation i d1))) = map_of (instances d)"
proof -
  have d1: "instances d1 = AList.update (InstanceGuid i) i (instances d)"
    using assms(1) by (auto simp: Reserve_eq split: if_splits)
  then have "map_of (instances d1) = (map_of (instances d))(InstanceGuid i \<mapsto> i)"
    by (simp add: update_conv')
  with assms(2) show ?thesis
    by (auto simp: ReleaseReservation_def Let_def delete_conv' fun_eq_iff)
qed

theorem Release_undoes_Reserve_witness:
  "map_of (instances (snd (ReleaseReservation (example_instance ''j'')
     (snd (Reserve (example_instance ''j'') (example_cell [])))))) ''j'' = None"
proof -
  have "fst (Reserve (example_instance ''j'') (example_cell [])) = None" by code_simp
  then have "Reserve (example_instance ''j'') (example_cell []) =
      (None, snd (Reserve (example_instance ''j'') (example_cell [])))"
    by (simp add: prod_eq_iff)
  from Release_undoes_Reserve[OF this] show ?thesis by (simp add: example_cell_def)
qed

text \<open> the error of \<open>ReleaseReservation\<close> never names the instance it was asked to release: it
  prints the guid of the zero value that the missing key reads as.\<close>

theorem Release_error_without_guid:
  "fst (ReleaseReservation i d) =
     (if map_of (instances d) (InstanceGuid i) = None then Some ''no reservation for instance ''
      else None)"
  by (simp add: ReleaseReservation_def zero_instance_def Let_def)

text \<open> \<open>Instances\<close> reads back what \<open>SetInstances\<close> wrote, in some order, when no two instances
  have the same guid.\<close>

theorem SetInstances_Instances:
  assumes "distinct (map InstanceGuid insts)"
  shows "mset (fst (Instances (SetInstances insts d))) = mset insts"
proof -
  have "instances (SetInstances insts d) = map (\<lambda>inst. (InstanceGuid inst, inst)) insts"
    using fold_update_append[of "[]" insts] assms by (simp add: SetInstances_def)
  then show ?thesis
    by (simp add: Instances_def mset_range_instances multiset.map_comp comp_def)
qed

theorem SetInstances_Instances_witness:
  "mset (fst (Instances (SetInstances [example_instance ''i'', example_instance ''j''] (example_cell [])))) =
     mset [example_instance ''i'', example_instance ''j'']"
  by (rule SetInstances_Instances) (simp add: example_instance_def)

text \<open> reserving a fresh instance raises the count of its app, and so the part of the score that
  spreads an app over the cells, by exactly one; the counts of other apps stay.\<close>

theorem Reserve_counts_app:
  assumes "Reserve i d = (None, d1)" and "map_of (instances d) (InstanceGuid i) = None"
  shows "fst (NumInstancesForAppGuid g d1) =
    fst (NumInstancesForAppGuid g d) + (if AppGuid i = g then 1 else 0)"
proof -
  have "instances d1 = instances d @ [(InstanceGuid i, i)]"
    using assms by (auto simp: Reserve_eq AList_update_fresh split: if_splits)
  then show ?thesis by (simp add: NumInstances_eq)
qed

theorem Reserve_counts_app_witness:
  "fst (NumInstancesForAppGuid ''app'' (snd (Reserve (example_instance ''j'') (example_cell [])))) = 1"
proof -
  have "fst (Reserve (example_instance ''j'') (example_cell [])) = None" by code_simp
  then have "Reserve (example_instance ''j'') (example_cell []) =
      (None, snd (Reserve (example_instance ''j'') (example_cell [])))"
    by (simp add: prod_eq_iff)
  from Reserve_counts_app[OF this, of "''app''"] show ?thesis
    by (simp add: example_cell_def example_instance_def NumInstances_eq)
qed

end
