(* ===== verification/Rep_World.thy ===== *)
theory Rep_World
  imports Sim_Delegate Auction_Rounds
begin

text \<open>
  The world the pool clients act on: the representatives, a source \<open>sched\<close> for the order in which
  goroutines run and deliver, and the steps \<open>others\<close> that the rest of the system (other auctions,
  held at the same time over the same representatives) takes while a call is under way; all of
  these are arbitrary.  Also what the clients share: a goroutine per guid whose answers are
  gathered, which representatives hold an instance, and that steps of others at other instances
  keep the invariant.
\<close>

section \<open>The world of a client\<close>

text \<open>A step of another auction at a representative.\<close>

datatype rep_op =
    OpScore (op_rep: string) (op_instance: app_instance)
  | OpReserve (op_rep: string) (op_instance: app_instance)
  | OpRelease (op_rep: string) (op_instance: app_instance)
  | OpClaim (op_rep: string) (op_instance: app_instance)

record 'd rep_world = world +
  reps :: "string \<Rightarrow> 'd auction_rep option"
  sched :: rand
  others :: "nat \<Rightarrow> rep_op list"
  others_run :: nat

text \<open>
  \<open>client.reps[guid].method(\<dots>)\<close>: a missing key reads as the nil pointer, on which every method
  panics.
\<close>

definition on_rep ::
    "string \<Rightarrow> ('d auction_rep \<Rightarrow> 'a \<times> 'd auction_rep) \<Rightarrow> ('d, 'z) rep_world_scheme
     \<Rightarrow> ('a \<times> ('d, 'z) rep_world_scheme) outcome" where
  "on_rep g f w =
     (case reps w g of
        None \<Rightarrow> Panic NilPointer
      | Some rep \<Rightarrow> (let (x, rep') = f rep in Ret (x, w\<lparr>reps := (reps w)(g \<mapsto> rep')\<rparr>)))"

fun apply_rep_op ::
    "'d delegate_ops \<Rightarrow> rep_op \<Rightarrow> ('d, 'z) rep_world_scheme \<Rightarrow> ('d, 'z) rep_world_scheme outcome" where
  "apply_rep_op ops (OpScore g i) w =
     obind (on_rep g (repScore ops i) w) (\<lambda>(_, w1). Ret w1)"
| "apply_rep_op ops (OpReserve g i) w =
     obind (on_rep g (repScoreThenTentativelyReserve ops i) w) (\<lambda>(_, w1). Ret w1)"
| "apply_rep_op ops (OpRelease g i) w =
     obind (on_rep g (repReleaseReservation ops i) w) (\<lambda>(_, w1). Ret w1)"
| "apply_rep_op ops (OpClaim g i) w =
     obind (on_rep g (repClaim ops i) w) (\<lambda>(_, w1). Ret w1)"

fun apply_rep_ops ::
    "'d delegate_ops \<Rightarrow> rep_op list \<Rightarrow> ('d, 'z) rep_world_scheme \<Rightarrow> ('d, 'z) rep_world_scheme outcome" where
  "apply_rep_ops ops [] w = Ret w"
| "apply_rep_ops ops (x # xs) w = obind (apply_rep_op ops x w) (apply_rep_ops ops xs)"

text \<open>\<open>time.Sleep\<close>: the others take their next steps.\<close>

definition time_Sleep ::
    "'d delegate_ops \<Rightarrow> ('d, 'z) rep_world_scheme \<Rightarrow> ('d, 'z) rep_world_scheme outcome" where
  "time_Sleep ops w =
     apply_rep_ops ops (others w (others_run w)) (w\<lparr>others_run := Suc (others_run w)\<rparr>)"

lemma on_rep_frame: "on_rep g f w = Ret (x, w') \<Longrightarrow> \<exists>r. w' = w\<lparr>reps := r\<rparr>"
  by (auto simp: on_rep_def split: option.splits prod.splits)

lemma apply_rep_op_frame: "apply_rep_op ops x w = Ret w' \<Longrightarrow> \<exists>r. w' = w\<lparr>reps := r\<rparr>"
  by (cases x) (auto simp: obind_Ret_iff dest!: on_rep_frame)

lemma apply_rep_ops_frame: "apply_rep_ops ops xs w = Ret w' \<Longrightarrow> \<exists>r. w' = w\<lparr>reps := r\<rparr>"
proof (induction xs arbitrary: w)
  case Nil
  then have "w' = w\<lparr>reps := reps w\<rparr>" by simp
  then show ?case by blast
next
  case (Cons x xs)
  then show ?case by (fastforce simp: obind_Ret_iff dest!: apply_rep_op_frame)
qed

lemma time_Sleep_frame: "time_Sleep ops w = Ret w' \<Longrightarrow> \<exists>r n. w' = w\<lparr>others_run := n, reps := r\<rparr>"
  unfolding time_Sleep_def by (drule apply_rep_ops_frame) blast

section \<open>Goroutines\<close>

text \<open>
  \<open>for _, guid := range guids { go body(guid, c) }\<close> and the loop that receives one answer per
  guid: the bodies run in a drawn order and their answers arrive in a drawn order.
\<close>

fun run_all :: "(string \<Rightarrow> 'w \<Rightarrow> ('a \<times> 'w) outcome) \<Rightarrow> string list \<Rightarrow> 'w \<Rightarrow> ('a list \<times> 'w) outcome" where
  "run_all body [] w = Ret ([], w)"
| "run_all body (g # gs) w =
     obind (body g w) (\<lambda>(x, w1). obind (run_all body gs w1) (\<lambda>(xs, w2). Ret (x # xs, w2)))"

definition gather ::
    "(string \<Rightarrow> ('d, 'z) rep_world_scheme \<Rightarrow> ('a \<times> ('d, 'z) rep_world_scheme) outcome) \<Rightarrow> string list
     \<Rightarrow> ('d, 'z) rep_world_scheme \<Rightarrow> ('a list \<times> ('d, 'z) rep_world_scheme) outcome" where
  "gather body guids w =
     (let (order, s1) = shuffle guids (sched w) in
      obind (run_all body order (w\<lparr>sched := s1\<rparr>)) (\<lambda>(results, w1).
      let (delivered, s2) = shuffle results (sched w1) in
      Ret (delivered, w1\<lparr>sched := s2\<rparr>)))"

section \<open>What the pool holds and keeps\<close>

definition pool_holders ::
    "('d \<Rightarrow> string \<Rightarrow> bool) \<Rightarrow> app_instance \<Rightarrow> ('d, 'z) rep_world_scheme \<Rightarrow> string set" where
  "pool_holders holds i w =
     {g. \<exists>rep. reps w g = Some rep \<and> holds (delegate rep) (InstanceGuid i)}"

text \<open>
  \<open>rep_ok\<close>: the delegate of a representative keeps its invariant and has the total resources \<open>T\<close>
  gives to it, and its guid is the one it is found under.  \<open>pool_ok\<close>: every representative is \<open>good\<close>, the guids asked about are there, and the others ask
  representatives that are there about other, admissible instances.
\<close>

definition rep_ok ::
    "'d delegate_ops \<Rightarrow> ('d \<Rightarrow> bool) \<Rightarrow> (string \<Rightarrow> resources) \<Rightarrow> string \<Rightarrow> 'd auction_rep \<Rightarrow> bool" where
  "rep_ok ops good T g rep \<longleftrightarrow>
     good (delegate rep) \<and> repTotalResources ops rep = T g \<and> guid rep = g"

definition pool_ok ::
    "(string \<Rightarrow> 'd auction_rep \<Rightarrow> bool) \<Rightarrow> (app_instance \<Rightarrow> bool) \<Rightarrow> app_instance \<Rightarrow> string set
     \<Rightarrow> ('d, 'z) rep_world_scheme \<Rightarrow> bool" where
  "pool_ok good adm i ks w \<longleftrightarrow>
     adm i \<and> ks \<subseteq> dom (reps w) \<and> (\<forall>g rep. reps w g = Some rep \<longrightarrow> good g rep) \<and>
     (\<forall>n. \<forall>x\<in>set (others w n). op_rep x \<in> dom (reps w) \<and> adm (op_instance x) \<and>
        InstanceGuid (op_instance x) \<noteq> InstanceGuid i)"

lemma pool_frame [simp]:
  "pool_ok good adm i ks (w\<lparr>R := r\<rparr>) = pool_ok good adm i ks w"
  "pool_ok good adm i ks (w\<lparr>clock_reads := n\<rparr>) = pool_ok good adm i ks w"
  "pool_ok good adm i ks (w\<lparr>sched := r\<rparr>) = pool_ok good adm i ks w"
  "pool_ok good adm i ks (w\<lparr>others_run := n\<rparr>) = pool_ok good adm i ks w"
  "pool_holders holds i (w\<lparr>R := r\<rparr>) = pool_holders holds i w"
  "pool_holders holds i (w\<lparr>clock_reads := n\<rparr>) = pool_holders holds i w"
  "pool_holders holds i (w\<lparr>sched := r\<rparr>) = pool_holders holds i w"
  "pool_holders holds i (w\<lparr>others_run := n\<rparr>) = pool_holders holds i w"
  by (simp_all add: pool_ok_def pool_holders_def)

lemma pool_ok_set_rep:
  assumes "pool_ok good adm i ks w" and "reps w g = Some rep" and "good g rep'"
  shows "pool_ok good adm i ks (w\<lparr>reps := (reps w)(g \<mapsto> rep')\<rparr>)"
proof -
  have "dom ((reps w)(g \<mapsto> rep')) = dom (reps w)" using assms(2) by auto
  with assms(1,3) show ?thesis by (simp add: pool_ok_def)
qed

lemma pool_holders_set_rep:
  "pool_holders holds i (w\<lparr>reps := (reps w)(g \<mapsto> rep')\<rparr>) =
     (if holds (delegate rep') (InstanceGuid i) then insert g (pool_holders holds i w)
      else pool_holders holds i w - {g})"
  by (auto simp: pool_holders_def)

lemma pool_holders_iff:
  "reps w g = Some rep \<Longrightarrow>
     g \<in> pool_holders holds i w \<longleftrightarrow> holds (delegate rep) (InstanceGuid i)"
  by (simp add: pool_holders_def)

section \<open>Gathering\<close>

text \<open>Running a body that answers for every guid, and gathering the answers.\<close>

lemma run_all_returns:
  assumes "\<And>g w. P w \<Longrightarrow> g \<in> ks \<Longrightarrow>
      \<exists>x w'. body g w = Ret (enc x, w') \<and> P w' \<and> Q x \<and> label x = g \<and> H w' = upd x (H w)"
    and "P w" and "set gs \<subseteq> ks"
  shows "\<exists>xs w'. run_all body gs w = Ret (map enc xs, w') \<and> P w' \<and> list_all Q xs \<and> map label xs = gs \<and>
    H w' = fold upd xs (H w)"
  using assms(2,3)
proof (induction gs arbitrary: w)
  case (Cons g gs)
  then obtain x w1 where 1: "body g w = Ret (enc x, w1)" "P w1" "Q x" "label x = g" "H w1 = upd x (H w)"
    using assms(1)[of w g] by auto
  obtain xs w2 where "run_all body gs w1 = Ret (map enc xs, w2)" "P w2" "list_all Q xs" "map label xs = gs"
    "H w2 = fold upd xs (H w1)"
    using Cons.IH[OF 1(2)] Cons.prems(2) by auto
  with 1 show ?case by (intro exI[of _ "x # xs"] exI[of _ w2]) simp
qed simp

lemma shuffle_map: "shuffle (map f xs) r = (map f (fst (shuffle xs r)), snd (shuffle xs r))"
  by (auto simp: shuffle_def permute_def split_beta set_Perm)

lemma gather_encoded:
  assumes "\<And>g w. P w \<Longrightarrow> g \<in> ks \<Longrightarrow>
      \<exists>x w'. body g w = Ret (enc x, w') \<and> P w' \<and> Q x \<and> label x = g \<and> H w' = upd x (H w)"
    and sched: "\<And>w s. P (w\<lparr>sched := s\<rparr>) = P w" "\<And>w s. H (w\<lparr>sched := s\<rparr>) = H w"
    and "P w" and "set gs \<subseteq> ks"
  shows "\<exists>xs ys w'. gather body gs w = Ret (map enc ys, w') \<and> P w' \<and> list_all Q ys \<and>
    mset (map label xs) = mset gs \<and> mset ys = mset xs \<and> H w' = fold upd xs (H w)"
proof -
  define order where "order = fst (shuffle gs (sched w))"
  define s1 where "s1 = snd (shuffle gs (sched w))"
  have sh: "shuffle gs (sched w) = (order, s1)" by (simp add: order_def s1_def)
  have m: "mset order = mset gs" by (simp add: order_def)
  have "P (w\<lparr>sched := s1\<rparr>)" using assms(4) by (simp add: sched)
  moreover have "set order \<subseteq> ks" using assms(5) by (simp add: order_def)
  ultimately obtain xs w1 where r: "run_all body order (w\<lparr>sched := s1\<rparr>) = Ret (map enc xs, w1)" "P w1"
    "list_all Q xs" "map label xs = order" "H w1 = fold upd xs (H (w\<lparr>sched := s1\<rparr>))"
    using run_all_returns[where P = P and body = body and ks = ks and label = label and H = H
        and upd = upd and enc = enc and Q = Q, OF assms(1)]
    by blast
  define ys s2 where "ys = fst (shuffle xs (sched w1))" and "s2 = snd (shuffle xs (sched w1))"
  have "gather body gs w = Ret (map enc ys, w1\<lparr>sched := s2\<rparr>)"
    using sh r(1) by (simp add: gather_def split_beta shuffle_map ys_def s2_def)
  moreover have "mset ys = mset xs" by (simp add: ys_def)
  moreover from this r(3) have "list_all Q ys" by (metis list_all_iff mset_eq_setD)
  moreover have "P (w1\<lparr>sched := s2\<rparr>)" "H (w1\<lparr>sched := s2\<rparr>) = fold upd xs (H w)"
    "mset (map label xs) = mset gs"
    using r m by (simp_all add: sched)
  ultimately show ?thesis by blast
qed

lemmas gather_returns =
  gather_encoded[where enc = "\<lambda>x. x" and Q = "\<lambda>_. True", unfolded list.map_ident list.pred_True simp_thms]

text \<open>The same for bodies whose answers are not looked at.\<close>

lemma run_all_effect:
  assumes "\<And>g w. P w \<Longrightarrow> g \<in> ks \<Longrightarrow> \<exists>x w'. body g w = Ret (x, w') \<and> P w' \<and> H w' = upd g (H w)"
    and "P w" and "set gs \<subseteq> ks"
  shows "\<exists>xs w'. run_all body gs w = Ret (xs, w') \<and> P w' \<and> H w' = fold upd gs (H w)"
  using assms(2,3)
proof (induction gs arbitrary: w)
  case (Cons g gs)
  then obtain x w1 where 1: "body g w = Ret (x, w1)" "P w1" "H w1 = upd g (H w)"
    using assms(1)[of w g] by auto
  obtain xs w2 where "run_all body gs w1 = Ret (xs, w2)" "P w2" "H w2 = fold upd gs (H w1)"
    using Cons.IH[OF 1(2)] Cons.prems(2) by auto
  with 1 show ?case by simp
qed simp

lemma fold_remove: "fold (\<lambda>g H. H - {g}) hs A = A - set hs"
  by (induction hs arbitrary: A) auto

lemma gather_effect:
  assumes "\<And>g w. P w \<Longrightarrow> g \<in> ks \<Longrightarrow> \<exists>x w'. body g w = Ret (x, w') \<and> P w' \<and> H w' = H w - {g}"
    and sched: "\<And>w s. P (w\<lparr>sched := s\<rparr>) = P w" "\<And>w s. H (w\<lparr>sched := s\<rparr>) = H w"
    and "P w" and "set gs \<subseteq> ks"
  shows "\<exists>ys w'. gather body gs w = Ret (ys, w') \<and> P w' \<and> H w' = H w - set gs"
proof -
  define order s1 where "order = fst (shuffle gs (sched w))" and "s1 = snd (shuffle gs (sched w))"
  have sh: "shuffle gs (sched w) = (order, s1)" and m: "set order = set gs"
    by (simp_all add: order_def s1_def)
  have "P (w\<lparr>sched := s1\<rparr>)" "set order \<subseteq> ks" using assms(4,5) by (simp_all add: sched m)
  then obtain xs w1 where r: "run_all body order (w\<lparr>sched := s1\<rparr>) = Ret (xs, w1)" "P w1"
    "H w1 = fold (\<lambda>g H. H - {g}) order (H (w\<lparr>sched := s1\<rparr>))"
    using run_all_effect[where P = P and body = body and ks = ks and H = H and upd = "\<lambda>g H. H - {g}",
        OF assms(1)] by blast
  then have "H w1 = H w - set gs" by (simp add: fold_remove sched m)
  moreover have "gather body gs w = Ret (fst (shuffle xs (sched w1)), w1\<lparr>sched := snd (shuffle xs (sched w1))\<rparr>)"
    using sh r(1) by (simp add: gather_def split_beta)
  ultimately show ?thesis using r(2) by (auto simp: sched)
qed

text \<open>The effect of the answers on the holders, one after the other.\<close>

lemma fold_keep: "fold (\<lambda>_ H. H) xs H = H"
  by (induction xs) auto

lemma fold_insert_ok:
  "fold (\<lambda>x H. if Error x = '''' then insert (Rep x) H else H) xs H =
     H \<union> set (Reps (FilterErrors xs))"
  by (induction xs arbitrary: H) (auto simp: Reps_def FilterErrors_def)

context rep_delegate
begin

abbreviation "ok T \<equiv> pool_ok (rep_ok ops inv T) adm"
abbreviation "holders \<equiv> pool_holders holds"

text \<open>A method of a representative, seen from the pool.\<close>

lemma on_rep_returns:
  assumes "ok T i ks w" and "g \<in> dom (reps w)"
    and "\<And>rep. inv (delegate rep) \<Longrightarrow> inv (delegate (snd (f rep)))"
    and "\<And>rep. repTotalResources ops (snd (f rep)) = repTotalResources ops rep"
    and "\<And>rep. guid (snd (f rep)) = guid rep"
  obtains rep where "reps w g = Some rep" "inv (delegate rep)" "guid rep = g"
    "on_rep g f w = Ret (fst (f rep), w\<lparr>reps := (reps w)(g \<mapsto> snd (f rep))\<rparr>)"
    "ok T i ks (w\<lparr>reps := (reps w)(g \<mapsto> snd (f rep))\<rparr>)"
proof -
  obtain rep where rep: "reps w g = Some rep" using assms(2) by blast
  then have ok: "inv (delegate rep)" "repTotalResources ops rep = T g" "guid rep = g"
    using assms(1) by (auto simp: pool_ok_def rep_ok_def)
  then have "rep_ok ops inv T g (snd (f rep))" using assms(3-5) by (simp add: rep_ok_def)
  with assms(1) rep ok show thesis
    by (intro that) (auto simp: on_rep_def split_beta intro: pool_ok_set_rep)
qed

lemma holders_unchanged:
  assumes "reps w g = Some rep"
    and "holds (delegate rep') (InstanceGuid i) = holds (delegate rep) (InstanceGuid i)"
  shows "holders i (w\<lparr>reps := (reps w)(g \<mapsto> rep')\<rparr>) = holders i w"
  using pool_holders_iff[OF assms(1), of holds i] assms(2)
  by (auto simp: pool_holders_set_rep)

text \<open>A step of another auction.\<close>

lemma foreign_step:
  assumes "ok T i ks w" and "g \<in> dom (reps w)"
    and "\<And>rep. inv (delegate rep) \<Longrightarrow> inv (delegate (snd (f rep)))"
    and "\<And>rep. repTotalResources ops (snd (f rep)) = repTotalResources ops rep"
    and "\<And>rep. guid (snd (f rep)) = guid rep"
    and "\<And>rep. inv (delegate rep) \<Longrightarrow>
      holds (delegate (snd (f rep))) (InstanceGuid i) = holds (delegate rep) (InstanceGuid i)"
  shows "\<exists>w'. obind (on_rep g f w) (\<lambda>(_, w1). Ret w1) = Ret w' \<and> ok T i ks w' \<and>
    holders i w' = holders i w \<and> dom (reps w') = dom (reps w) \<and> others w' = others w"
proof -
  obtain rep where rep: "reps w g = Some rep" "inv (delegate rep)"
    "on_rep g f w = Ret (fst (f rep), w\<lparr>reps := (reps w)(g \<mapsto> snd (f rep))\<rparr>)"
    "ok T i ks (w\<lparr>reps := (reps w)(g \<mapsto> snd (f rep))\<rparr>)"
    using on_rep_returns[OF assms(1,2), of f] assms(3-5) by blast
  have "dom ((reps w)(g \<mapsto> snd (f rep))) = dom (reps w)" using rep(1) by auto
  with rep holders_unchanged[OF rep(1) assms(6)[OF rep(2)]] show ?thesis by simp
qed

lemma repReserve_keeps:
  assumes "inv (delegate rep)"
  shows "adm j \<Longrightarrow> inv (delegate (snd (repScoreThenTentativelyReserve ops j rep)))"
    and "InstanceGuid j \<noteq> a \<Longrightarrow>
      holds (delegate (snd (repScoreThenTentativelyReserve ops j rep))) a = holds (delegate rep) a"
    and "holds (delegate (snd (repScoreThenTentativelyReserve ops j rep))) (InstanceGuid j) \<longleftrightarrow>
      snd (fst (repScoreThenTentativelyReserve ops j rep)) = None \<or>
      holds (delegate rep) (InstanceGuid j)"
    and "snd (fst (repScoreThenTentativelyReserve ops j rep)) \<noteq> Some ''''"
proof -
  obtain s err rep' where r: "repScoreThenTentativelyReserve ops j rep = ((s, err), rep')"
    by (metis prod.collapse)
  note res = repReserve_result[OF assms r]
  show "adm j \<Longrightarrow> inv (delegate (snd (repScoreThenTentativelyReserve ops j rep)))"
    and "InstanceGuid j \<noteq> a \<Longrightarrow>
      holds (delegate (snd (repScoreThenTentativelyReserve ops j rep))) a = holds (delegate rep) a"
    and "holds (delegate (snd (repScoreThenTentativelyReserve ops j rep))) (InstanceGuid j) \<longleftrightarrow>
      snd (fst (repScoreThenTentativelyReserve ops j rep)) = None \<or>
      holds (delegate rep) (InstanceGuid j)"
    and "snd (fst (repScoreThenTentativelyReserve ops j rep)) \<noteq> Some ''''"
    using res r by (auto split: if_splits)
qed

lemma apply_rep_op_keeps:
  assumes "ok T i ks w" and "op_rep x \<in> dom (reps w)" and "adm (op_instance x)"
    and "InstanceGuid (op_instance x) \<noteq> InstanceGuid i"
  shows "\<exists>w'. apply_rep_op ops x w = Ret w' \<and> ok T i ks w' \<and> holders i w' = holders i w \<and>
    dom (reps w') = dom (reps w) \<and> others w' = others w"
proof (cases x)
  case (OpScore g j)
  with assms show ?thesis by (simp, intro foreign_step) (auto simp: repScore_keeps)
next
  case (OpReserve g j)
  with assms show ?thesis by (simp, intro foreign_step) (auto simp: repReserve_keeps)
next
  case (OpRelease g j)
  with assms show ?thesis by (simp, intro foreign_step) (auto simp: repRelease_holds)
next
  case (OpClaim g j)
  with assms show ?thesis by (simp, intro foreign_step) (auto simp: repClaim_holds)
qed

lemma apply_rep_ops_keeps:
  assumes "ok T i ks w" and "\<forall>x\<in>set xs. op_rep x \<in> dom (reps w) \<and> adm (op_instance x) \<and>
      InstanceGuid (op_instance x) \<noteq> InstanceGuid i"
  shows "\<exists>w'. apply_rep_ops ops xs w = Ret w' \<and> ok T i ks w' \<and> holders i w' = holders i w"
  using assms
proof (induction xs arbitrary: w)
  case (Cons x xs)
  then obtain w1 where "apply_rep_op ops x w = Ret w1" "ok T i ks w1" "holders i w1 = holders i w"
    "dom (reps w1) = dom (reps w)"
    using apply_rep_op_keeps[of T i ks w x] by auto
  moreover from this Cons.prems(2) obtain w2 where "apply_rep_ops ops xs w1 = Ret w2" "ok T i ks w2"
    "holders i w2 = holders i w1"
    using Cons.IH[of w1] by auto
  ultimately show ?case by simp
qed simp

lemma time_Sleep_keeps:
  assumes "ok T i ks w"
  obtains w' where "time_Sleep ops w = Ret w'" "ok T i ks w'" "holders i w' = holders i w"
proof -
  define w1 where "w1 = w\<lparr>others_run := Suc (others_run w)\<rparr>"
  have w1: "ok T i ks w1" "holders i w1 = holders i w" using assms by (simp_all add: w1_def)
  then obtain w2 where "apply_rep_ops ops (others w (others_run w)) w1 = Ret w2" "ok T i ks w2"
    "holders i w2 = holders i w1"
    using apply_rep_ops_keeps[of T i ks w1 "others w (others_run w)"] assms
    by (fastforce simp: pool_ok_def w1_def)
  with w1 show thesis by (intro that[of w2]) (simp_all add: time_Sleep_def w1_def)
qed

end

end
