(* ===== verification/In_Process.thy ===== *)
theory In_Process
  imports Rep_World
begin

text \<open>
  \<open>simulation/communication/inprocess\<close>: the pool client whose representatives live in the same
  process.  Every call starts a goroutine per guid, which sleeps for a random time and then runs
  one method of its representative under that representative's lock; while it sleeps the others
  take their steps.  The draws of \<open>util.R\<close> are arbitrary too, so running the goroutines one after
  the other, each with its own draw, loses no order of the atomic steps.

  The pool keeps the contract \<open>reserving_pool\<close> for every delegate that keeps \<open>rep_delegate\<close>.
\<close>

section \<open>The client\<close>

record 'd pool_world = "'d rep_world" +
  LatencyMin :: int
  LatencyMax :: int
  Timeout :: int

text \<open>\<open>New\<close>: the client refers to the given representatives.\<close>

definition newInprocess ::
    "(string \<Rightarrow> 'd auction_rep option) \<Rightarrow> ('d, 'z) pool_world_scheme \<Rightarrow> ('d, 'z) pool_world_scheme" where
  "newInprocess rs w = w\<lparr>reps := rs\<rparr>"

section \<open>inprocess\_client.go\<close>

definition randomSleep ::
    "'d delegate_ops \<Rightarrow> int \<Rightarrow> int \<Rightarrow> int \<Rightarrow> ('d, 'z) pool_world_scheme
     \<Rightarrow> (bool \<times> ('d, 'z) pool_world_scheme) outcome" where
  "randomSleep ops mn mx timeout w =
     (let (f, r) = Float64 (R w);
          sleepDuration = int_of_float (fadd (fmul f (float_of_int (mx - mn))) (float_of_int mn))
      in obind (time_Sleep ops (w\<lparr>R := r\<rparr>)) (\<lambda>w1. Ret (sleepDuration \<le> timeout, w1)))"

definition beSlowAndPossiblyTimeout ::
    "'d delegate_ops \<Rightarrow> string \<Rightarrow> ('d, 'z) pool_world_scheme
     \<Rightarrow> (bool \<times> ('d, 'z) pool_world_scheme) outcome" where
  "beSlowAndPossiblyTimeout ops g w =
     (let (f, r) = Float64 (R w);
          sleepDuration = int_of_float
            (fadd (fmul f (float_of_int (LatencyMax w - LatencyMin w))) (float_of_int (LatencyMin w)))
      in obind (time_Sleep ops (w\<lparr>R := r\<rparr>)) (\<lambda>w1.
           if sleepDuration \<le> Timeout w then Ret (False, w1) else Ret (True, w1)))"

definition poolTotalResources ::
    "'d delegate_ops \<Rightarrow> string \<Rightarrow> ('d, 'z) pool_world_scheme
     \<Rightarrow> (resources \<times> ('d, 'z) pool_world_scheme) outcome" where
  "poolTotalResources ops g w = on_rep g (\<lambda>rep. (repTotalResources ops rep, rep)) w"

definition poolInstances ::
    "'d delegate_ops \<Rightarrow> string \<Rightarrow> ('d, 'z) pool_world_scheme
     \<Rightarrow> (app_instance list \<times> ('d, 'z) pool_world_scheme) outcome" where
  "poolInstances ops g w = on_rep g (repInstances ops) w"

definition poolSetInstances ::
    "'d delegate_ops \<Rightarrow> string \<Rightarrow> app_instance list \<Rightarrow> ('d, 'z) pool_world_scheme
     \<Rightarrow> (unit \<times> ('d, 'z) pool_world_scheme) outcome" where
  "poolSetInstances ops g insts w = on_rep g (\<lambda>rep. ((), repSetInstances ops insts rep)) w"

definition poolReset ::
    "'d delegate_ops \<Rightarrow> string \<Rightarrow> ('d, 'z) pool_world_scheme
     \<Rightarrow> (unit \<times> ('d, 'z) pool_world_scheme) outcome" where
  "poolReset ops g w = on_rep g (\<lambda>rep. ((), repReset ops rep)) w"

text \<open>The two goroutine bodies: the result that the deferred function sends.\<close>

definition client_score ::
    "'d delegate_ops \<Rightarrow> app_instance \<Rightarrow> string \<Rightarrow> ('d, 'z) pool_world_scheme
     \<Rightarrow> (score_result \<times> ('d, 'z) pool_world_scheme) outcome" where
  "client_score ops inst g w =
     (let result = \<lparr>Rep = g, Score = Fin 0, Error = ''''\<rparr> in
      obind (beSlowAndPossiblyTimeout ops g w) (\<lambda>(late, w1).
      if late then Ret (result\<lparr>Error := ''timeout''\<rparr>, w1)
      else obind (on_rep g (repScore ops inst) w1) (\<lambda>((sc, err), w2).
        case err of
          Some e \<Rightarrow> Ret (result\<lparr>Error := e\<rparr>, w2)
        | None \<Rightarrow> Ret (result\<lparr>Score := sc\<rparr>, w2))))"

definition reserveAndRecastScore ::
    "'d delegate_ops \<Rightarrow> app_instance \<Rightarrow> string \<Rightarrow> ('d, 'z) pool_world_scheme
     \<Rightarrow> (score_result \<times> ('d, 'z) pool_world_scheme) outcome" where
  "reserveAndRecastScore ops inst g w =
     (let result = \<lparr>Rep = g, Score = Fin 0, Error = ''''\<rparr> in
      obind (beSlowAndPossiblyTimeout ops g w) (\<lambda>(late, w1).
      if late then Ret (result\<lparr>Error := ''timedout''\<rparr>, w1)
      else obind (on_rep g (repScoreThenTentativelyReserve ops inst) w1) (\<lambda>((sc, err), w2).
        case err of
          Some e \<Rightarrow> Ret (result\<lparr>Error := e\<rparr>, w2)
        | None \<Rightarrow> Ret (result\<lparr>Score := sc\<rparr>, w2))))"

text \<open>The goroutine of \<open>ReleaseReservation\<close>: being late does not keep it from releasing.\<close>

definition release_one ::
    "'d delegate_ops \<Rightarrow> app_instance \<Rightarrow> string \<Rightarrow> ('d, 'z) pool_world_scheme
     \<Rightarrow> (bool \<times> ('d, 'z) pool_world_scheme) outcome" where
  "release_one ops inst g w =
     obind (beSlowAndPossiblyTimeout ops g w) (\<lambda>(_, w1).
     obind (on_rep g (repReleaseReservation ops inst) w1) (\<lambda>(_, w2). Ret (True, w2)))"

definition poolScore ::
    "'d delegate_ops \<Rightarrow> rep_guids \<Rightarrow> app_instance \<Rightarrow> ('d, 'z) pool_world_scheme
     \<Rightarrow> (score_results \<times> ('d, 'z) pool_world_scheme) outcome" where
  "poolScore ops guids inst w = gather (client_score ops inst) guids w"

definition poolScoreThenTentativelyReserve ::
    "'d delegate_ops \<Rightarrow> rep_guids \<Rightarrow> app_instance \<Rightarrow> ('d, 'z) pool_world_scheme
     \<Rightarrow> (score_results \<times> ('d, 'z) pool_world_scheme) outcome" where
  "poolScoreThenTentativelyReserve ops guids inst w =
     gather (reserveAndRecastScore ops inst) guids w"

definition poolReleaseReservation ::
    "'d delegate_ops \<Rightarrow> rep_guids \<Rightarrow> app_instance \<Rightarrow> ('d, 'z) pool_world_scheme
     \<Rightarrow> (unit \<times> ('d, 'z) pool_world_scheme) outcome" where
  "poolReleaseReservation ops guids inst w =
     obind (gather (release_one ops inst) guids w) (\<lambda>(_, w1). Ret ((), w1))"

definition poolClaim ::
    "'d delegate_ops \<Rightarrow> string \<Rightarrow> app_instance \<Rightarrow> ('d, 'z) pool_world_scheme
     \<Rightarrow> (unit \<times> ('d, 'z) pool_world_scheme) outcome" where
  "poolClaim ops g inst w =
     obind (beSlowAndPossiblyTimeout ops g w) (\<lambda>(_, w1).
     obind (on_rep g (repClaim ops inst) w1) (\<lambda>(_, w2). Ret ((), w2)))"

definition inprocess_client :: "'d delegate_ops \<Rightarrow> ('d, 'z) pool_world_scheme rep_pool_client" where
  "inprocess_client ops =
     \<lparr>cScore = poolScore ops,
      cScoreThenTentativelyReserve = poolScoreThenTentativelyReserve ops,
      cReleaseReservation = poolReleaseReservation ops,
      cClaim = poolClaim ops\<rparr>"

section \<open>The pool keeps the contract\<close>

lemma inprocess_client_simps [simp]:
  "cScore (inprocess_client ops) = poolScore ops"
  "cScoreThenTentativelyReserve (inprocess_client ops) = poolScoreThenTentativelyReserve ops"
  "cReleaseReservation (inprocess_client ops) = poolReleaseReservation ops"
  "cClaim (inprocess_client ops) = poolClaim ops"
  by (simp_all add: inprocess_client_def)

context rep_delegate
begin

lemma beSlow_keeps:
  assumes "ok T i ks w"
  obtains late w' where "beSlowAndPossiblyTimeout ops g w = Ret (late, w')" "ok T i ks w'"
    "holders i w' = holders i w"
proof -
  define w1 where "w1 = w\<lparr>R := snd (Float64 (R w)), others_run := Suc (others_run w)\<rparr>"
  have w1: "ok T i ks w1" "holders i w1 = holders i w" using assms by (simp_all add: w1_def)
  then obtain w2 where a: "apply_rep_ops ops (others w (others_run w)) w1 = Ret w2" and w2: "ok T i ks w2"
    "holders i w2 = holders i w1"
    using apply_rep_ops_keeps[of T i ks w1 "others w (others_run w)"] assms
    by (fastforce simp: pool_ok_def w1_def)
  from a have "\<exists>late. beSlowAndPossiblyTimeout ops g w = Ret (late, w2)"
    by (auto simp: beSlowAndPossiblyTimeout_def time_Sleep_def Let_def split_beta w1_def)
  then obtain late where late: "beSlowAndPossiblyTimeout ops g w = Ret (late, w2)" by blast
  show thesis by (rule that[OF late w2(1)]) (use w1 w2 in simp)
qed

text \<open>The goroutines: the label of an answer and what it does to the holders.\<close>

lemma client_score_answers:
  assumes "ok T i ks w" and "g \<in> ks"
  shows "\<exists>x w'. client_score ops i g w = Ret (x, w') \<and> ok T i ks w' \<and> Rep x = g \<and>
    holders i w' = holders i w"
proof -
  obtain late w1 where 1: "beSlowAndPossiblyTimeout ops g w = Ret (late, w1)" "ok T i ks w1"
    "holders i w1 = holders i w"
    using beSlow_keeps[OF assms(1)] by blast
  have "g \<in> dom (reps w1)" using 1(2) assms(2) by (auto simp: pool_ok_def)
  then obtain rep where rep: "reps w1 g = Some rep" "inv (delegate rep)"
    "on_rep g (repScore ops i) w1 =
      Ret (fst (repScore ops i rep), w1\<lparr>reps := (reps w1)(g \<mapsto> snd (repScore ops i rep))\<rparr>)"
    "ok T i ks (w1\<lparr>reps := (reps w1)(g \<mapsto> snd (repScore ops i rep))\<rparr>)"
    using on_rep_returns[OF 1(2), of g "repScore ops i"] by (auto simp: repScore_keeps)
  have "holders i (w1\<lparr>reps := (reps w1)(g \<mapsto> snd (repScore ops i rep))\<rparr>) = holders i w1"
    by (rule holders_unchanged[OF rep(1)]) (simp add: repScore_keeps rep(2))
  with 1 rep show ?thesis
    by (cases late; cases "snd (fst (repScore ops i rep))")
      (simp_all add: client_score_def Let_def split_beta)
qed

lemma reserveAndRecastScore_answers:
  assumes "ok T i ks w" and "g \<in> ks"
  shows "\<exists>x w'. reserveAndRecastScore ops i g w = Ret (x, w') \<and> ok T i ks w' \<and> Rep x = g \<and>
    holders i w' = (if Error x = '''' then insert (Rep x) (holders i w) else holders i w)"
proof -
  obtain late w1 where 1: "beSlowAndPossiblyTimeout ops g w = Ret (late, w1)" "ok T i ks w1"
    "holders i w1 = holders i w"
    using beSlow_keeps[OF assms(1)] by blast
  have ad: "adm i" using assms(1) by (simp add: pool_ok_def)
  have "g \<in> dom (reps w1)" using 1(2) assms(2) by (auto simp: pool_ok_def)
  then obtain rep where rep: "reps w1 g = Some rep" "inv (delegate rep)"
    "on_rep g (repScoreThenTentativelyReserve ops i) w1 =
      Ret (fst (repScoreThenTentativelyReserve ops i rep),
           w1\<lparr>reps := (reps w1)(g \<mapsto> snd (repScoreThenTentativelyReserve ops i rep))\<rparr>)"
    "ok T i ks (w1\<lparr>reps := (reps w1)(g \<mapsto> snd (repScoreThenTentativelyReserve ops i rep))\<rparr>)"
    using on_rep_returns[OF 1(2), of g "repScoreThenTentativelyReserve ops i"] ad
    by (auto simp: repReserve_keeps)
  obtain sc err rep' where r: "repScoreThenTentativelyReserve ops i rep = ((sc, err), rep')"
    by (metis prod.collapse)
  have h: "holders i (w1\<lparr>reps := (reps w1)(g \<mapsto> rep')\<rparr>) =
      (if err = None then insert g (holders i w1) else holders i w1)"
    using repReserve_keeps(3)[OF rep(2), of i] r pool_holders_iff[OF rep(1), of holds i]
    by (auto simp: pool_holders_set_rep)
  have "err \<noteq> Some ''''" using repReserve_keeps(4)[OF rep(2), of i] r by simp
  with 1 rep r h show ?thesis
    by (cases late; cases err) (simp_all add: reserveAndRecastScore_def Let_def split_beta)
qed

lemma release_one_answers:
  assumes "ok T i ks w" and "g \<in> ks"
  shows "\<exists>w'. release_one ops i g w = Ret (True, w') \<and> ok T i ks w' \<and>
    holders i w' = holders i w - {g}"
proof -
  obtain late w1 where 1: "beSlowAndPossiblyTimeout ops g w = Ret (late, w1)" "ok T i ks w1"
    "holders i w1 = holders i w"
    using beSlow_keeps[OF assms(1)] by blast
  have "g \<in> dom (reps w1)" using 1(2) assms(2) by (auto simp: pool_ok_def)
  then obtain rep where rep: "reps w1 g = Some rep" "inv (delegate rep)"
    "on_rep g (repReleaseReservation ops i) w1 =
      Ret (fst (repReleaseReservation ops i rep),
           w1\<lparr>reps := (reps w1)(g \<mapsto> snd (repReleaseReservation ops i rep))\<rparr>)"
    "ok T i ks (w1\<lparr>reps := (reps w1)(g \<mapsto> snd (repReleaseReservation ops i rep))\<rparr>)"
    using on_rep_returns[OF 1(2), of g "repReleaseReservation ops i"] by (auto simp: repRelease_holds)
  have "holders i (w1\<lparr>reps := (reps w1)(g \<mapsto> snd (repReleaseReservation ops i rep))\<rparr>) =
      holders i w1 - {g}"
    by (simp add: pool_holders_set_rep repRelease_holds rep(2))
  with 1 rep show ?thesis by (simp add: release_one_def split_beta)
qed

lemma poolClaim_answers:
  assumes "ok T i ks w" and "g \<in> ks"
  shows "\<exists>w'. poolClaim ops g i w = Ret ((), w') \<and> ok T i ks w' \<and> holders i w' = holders i w"
proof -
  obtain late w1 where 1: "beSlowAndPossiblyTimeout ops g w = Ret (late, w1)" "ok T i ks w1"
    "holders i w1 = holders i w"
    using beSlow_keeps[OF assms(1)] by blast
  have "g \<in> dom (reps w1)" using 1(2) assms(2) by (auto simp: pool_ok_def)
  then obtain rep where rep: "reps w1 g = Some rep" "inv (delegate rep)"
    "on_rep g (repClaim ops i) w1 =
      Ret (fst (repClaim ops i rep), w1\<lparr>reps := (reps w1)(g \<mapsto> snd (repClaim ops i rep))\<rparr>)"
    "ok T i ks (w1\<lparr>reps := (reps w1)(g \<mapsto> snd (repClaim ops i rep))\<rparr>)"
    using on_rep_returns[OF 1(2), of g "repClaim ops i"] by (auto simp: repClaim_holds)
  have "holders i (w1\<lparr>reps := (reps w1)(g \<mapsto> snd (repClaim ops i rep))\<rparr>) = holders i w1"
    by (rule holders_unchanged[OF rep(1)]) (simp add: repClaim_holds rep(2))
  with 1 rep show ?thesis by (simp add: poolClaim_def split_beta)
qed

text \<open>The three calls that gather the answers of several goroutines.\<close>

lemma poolScore_answers:
  assumes "ok T i ks w" and "set gs \<subseteq> ks"
  shows "\<exists>rs w'. poolScore ops gs i w = Ret (rs, w') \<and> ok T i ks w' \<and>
    holders i w' = holders i w \<and> mset (map Rep rs) = mset gs"
proof -
  have "\<exists>xs ys w'. gather (client_score ops i) gs w = Ret (ys, w') \<and> ok T i ks w' \<and>
      mset (map Rep xs) = mset gs \<and> mset ys = mset xs \<and> holders i w' = fold (\<lambda>_ H. H) xs (holders i w)"
    by (rule gather_returns[where ks = ks]) (use assms client_score_answers in auto)
  then show ?thesis by (auto simp: poolScore_def fold_keep)
qed

lemma poolReserve_answers:
  assumes "ok T i ks w" and "set gs \<subseteq> ks"
  shows "\<exists>rs w'. poolScoreThenTentativelyReserve ops gs i w = Ret (rs, w') \<and> ok T i ks w' \<and>
    holders i w' = holders i w \<union> set (Reps (FilterErrors rs)) \<and> mset (map Rep rs) = mset gs"
proof -
  have "\<exists>xs ys w'. gather (reserveAndRecastScore ops i) gs w = Ret (ys, w') \<and> ok T i ks w' \<and>
      mset (map Rep xs) = mset gs \<and> mset ys = mset xs \<and>
      holders i w' = fold (\<lambda>x H. if Error x = '''' then insert (Rep x) H else H) xs (holders i w)"
    by (rule gather_returns[where ks = ks]) (use assms in \<open>simp_all add: reserveAndRecastScore_answers\<close>)
  then obtain xs ys w' where r: "gather (reserveAndRecastScore ops i) gs w = Ret (ys, w')"
    "ok T i ks w'" "mset (map Rep xs) = mset gs" "mset ys = mset xs"
    "holders i w' = holders i w \<union> set (Reps (FilterErrors xs))"
    by (auto simp: fold_insert_ok)
  have "set ys = set xs" using r(4) by (rule mset_eq_setD)
  then have "set (Reps (FilterErrors ys)) = set (Reps (FilterErrors xs))" by (simp add: Reps_def)
  with r show ?thesis by (simp add: poolScoreThenTentativelyReserve_def)
qed

lemma poolRelease_answers:
  assumes "ok T i ks w" and "set gs \<subseteq> ks"
  shows "\<exists>w'. poolReleaseReservation ops gs i w = Ret ((), w') \<and> ok T i ks w' \<and>
    holders i w' = holders i w - set gs"
proof -
  have "\<exists>ys w'. gather (release_one ops i) gs w = Ret (ys, w') \<and> ok T i ks w' \<and>
      holders i w' = holders i w - set gs"
    by (rule gather_effect[where ks = ks]) (use assms release_one_answers in fastforce)+
  then show ?thesis by (auto simp: poolReleaseReservation_def)
qed

sublocale pool: reserving_pool "inprocess_client ops" "holders i" "ok T i ks" i ks for T i ks
  using poolScore_answers poolReserve_answers poolRelease_answers poolClaim_answers
  by unfold_locales simp_all

end

end
