(* ===== verification/Amqp_Buffer.thy ===== *)
theory Amqp_Buffer
  imports Auction_Prelude
begin

text \<open>
  \<open>bufferDeliveries\<close> (\<open>consumers.go\<close>): the goroutine between the reader and a consumer, as a step
  relation.  The reader sends on \<open>in\<close> or closes it; the consumer receives on \<open>out\<close> when it likes.
  \<open>received\<close> and \<open>delivered\<close> are what went through the two Go channels so far.
\<close>

text \<open>
  \<open>Outer\<close>: at \<open>range in\<close>; \<open>Inner\<close>: in the loop while the queue is not empty; \<open>Ended\<close>: \<open>out\<close> is
  closed.  \<open>queueIn\<close> is set to nil when the inner loop finds \<open>in\<close> closed.
\<close>

datatype buffer_phase = Outer | Inner | Ended

record 'd buffer =
  phase :: buffer_phase
  queued :: "'d list"
  queueIn_nil :: bool
  in_closed :: bool
  received :: "'d list"
  delivered :: "'d list"

definition new_buffer :: "'d buffer" where
  "new_buffer =
     \<lparr>phase = Outer, queued = [], queueIn_nil = False, in_closed = False, received = [], delivered = []\<rparr>"

text \<open>The condition \<open>len(queue) > 0\<close> of the inner loop.\<close>

definition loop_on :: "'d buffer \<Rightarrow> 'd buffer" where
  "loop_on b = b\<lparr>phase := if queued b = [] then Outer else Inner\<rparr>"

inductive buffer_step :: "'d buffer \<Rightarrow> 'd buffer \<Rightarrow> bool" where
  hand_through: "phase b = Outer \<Longrightarrow> \<not> in_closed b \<Longrightarrow>
    buffer_step b (loop_on (b\<lparr>received := received b @ [d], delivered := delivered b @ [d]\<rparr>))"
| enqueue_first: "phase b = Outer \<Longrightarrow> \<not> in_closed b \<Longrightarrow>
    buffer_step b (loop_on (b\<lparr>received := received b @ [d], queued := queued b @ [d]\<rparr>))"
| finish: "phase b = Outer \<Longrightarrow> in_closed b \<Longrightarrow> buffer_step b (b\<lparr>phase := Ended\<rparr>)"
| deliver: "phase b = Inner \<Longrightarrow> queued b = d # ds \<Longrightarrow>
    buffer_step b (loop_on (b\<lparr>delivered := delivered b @ [d], queued := ds\<rparr>))"
| enqueue: "phase b = Inner \<Longrightarrow> \<not> queueIn_nil b \<Longrightarrow> \<not> in_closed b \<Longrightarrow>
    buffer_step b (loop_on (b\<lparr>received := received b @ [d], queued := queued b @ [d]\<rparr>))"
| see_closed: "phase b = Inner \<Longrightarrow> \<not> queueIn_nil b \<Longrightarrow> in_closed b \<Longrightarrow>
    buffer_step b (loop_on (b\<lparr>queueIn_nil := True\<rparr>))"
| reader_closes: "\<not> in_closed b \<Longrightarrow> buffer_step b (b\<lparr>in_closed := True\<rparr>)"

inductive_cases buffer_stepE: "buffer_step b b'"

abbreviation buffer_reachable :: "'d buffer \<Rightarrow> bool" where
  "buffer_reachable \<equiv> buffer_step\<^sup>*\<^sup>* new_buffer"

section \<open>First in, first out\<close>

definition buffer_inv :: "'d buffer \<Rightarrow> bool" where
  "buffer_inv b \<longleftrightarrow>
     received b = delivered b @ queued b \<and> (phase b = Inner \<longleftrightarrow> queued b \<noteq> []) \<and>
     (phase b = Ended \<longrightarrow> in_closed b) \<and> (queueIn_nil b \<longrightarrow> in_closed b)"

lemma buffer_inv_step: "buffer_step b b' \<Longrightarrow> buffer_inv b \<Longrightarrow> buffer_inv b'"
  by (induction rule: buffer_step.induct) (auto simp: buffer_inv_def loop_on_def)

lemma reachable_buffer_inv: "buffer_reachable b \<Longrightarrow> buffer_inv b"
  by (induction rule: rtranclp_induct)
    (auto simp: buffer_inv_step, simp add: buffer_inv_def new_buffer_def)


lemma example_buffer:
  "buffer_reachable \<lparr>phase = Inner, queued = [2, 3], queueIn_nil = False, in_closed = True,
     received = [1, 2, 3], delivered = [1 :: int]\<rparr>"
proof -
  let ?b = "\<lambda>p q r d c. \<lparr>phase = p, queued = q, queueIn_nil = False, in_closed = c,
    received = r, delivered = d :: int list\<rparr>"
  have 1: "buffer_step new_buffer (?b Outer [] [1] [1] False)"
    using hand_through[of new_buffer 1] by (simp add: new_buffer_def loop_on_def)
  have 2: "buffer_step (?b Outer [] [1] [1] False) (?b Inner [2] [1, 2] [1] False)"
    using enqueue_first[of "?b Outer [] [1] [1] False" 2] by (simp add: loop_on_def)
  have 3: "buffer_step (?b Inner [2] [1, 2] [1] False) (?b Inner [2, 3] [1, 2, 3] [1] False)"
    using enqueue[of "?b Inner [2] [1, 2] [1] False" 3] by (simp add: loop_on_def)
  have 4: "buffer_step (?b Inner [2, 3] [1, 2, 3] [1] False) (?b Inner [2, 3] [1, 2, 3] [1] True)"
    using reader_closes[of "?b Inner [2, 3] [1, 2, 3] [1] False"] by simp
  from 1 2 3 4 show ?thesis by (meson rtranclp.rtrancl_refl rtranclp.rtrancl_into_rtrancl)
qed


section \<open>The buffer drains\<close>

text \<open>How many steps are left at most once the reader has closed its end.\<close>

definition steps_left :: "'d buffer \<Rightarrow> nat" where
  "steps_left b =
     (case phase b of Ended \<Rightarrow> 0 | Outer \<Rightarrow> 1 | Inner \<Rightarrow> length (queued b) + (if queueIn_nil b then 1 else 2))"

lemma closed_step:
  "buffer_step b b' \<Longrightarrow> buffer_inv b \<Longrightarrow> in_closed b \<Longrightarrow> in_closed b' \<and> steps_left b' < steps_left b"
  by (induction rule: buffer_step.induct) (auto simp: loop_on_def steps_left_def buffer_inv_def)

lemma closed_progress:
  assumes "buffer_inv b" and "in_closed b" and "phase b \<noteq> Ended"
  shows "\<exists>b'. buffer_step b b'"
proof (cases "phase b")
  case Inner
  then obtain d ds where "queued b = d # ds" using assms(1) by (cases "queued b") (auto simp: buffer_inv_def)
  with Inner show ?thesis by (blast intro: buffer_step.deliver)
qed (use assms in \<open>auto intro: buffer_step.finish\<close>)

lemma closed_run:
  "(buffer_step ^^ n) b b' \<Longrightarrow> buffer_inv b \<Longrightarrow> in_closed b \<Longrightarrow>
    n + steps_left b' \<le> steps_left b \<and> buffer_inv b' \<and> in_closed b' \<and> received b' = received b"
proof (induction n arbitrary: b')
  case (Suc n)
  then obtain b1 where b1: "(buffer_step ^^ n) b b1" "buffer_step b1 b'" by auto
  with Suc have IH: "n + steps_left b1 \<le> steps_left b" "buffer_inv b1" "in_closed b1"
    "received b1 = received b" by auto
  have "received b' = received b1"
    using b1(2) IH(3) by (cases rule: buffer_step.cases) (auto simp: loop_on_def)
  with IH closed_step[OF b1(2) IH(2,3)] buffer_inv_step[OF b1(2) IH(2)] show ?case by simp
qed simp

text \<open>C40: once the reader has closed its end, the goroutine between it and a consumer that keeps
  receiving takes a bounded number of steps, and it can only stop after every delivery it got has
  been delivered and the consumer's Go channel is closed.\<close>

theorem buffer_drains:
  assumes "buffer_reachable b" and "in_closed b" and "(buffer_step ^^ n) b b'"
  shows "n \<le> length (queued b) + 2 \<and>
    (phase b' = Ended \<and> delivered b' = received b \<or> (\<exists>b''. buffer_step b' b''))"
proof -
  note inv = reachable_buffer_inv[OF assms(1)]
  note run = closed_run[OF assms(3) inv assms(2)]
  have "steps_left b \<le> length (queued b) + 2" by (simp add: steps_left_def split: buffer_phase.split)
  moreover have "phase b' = Ended \<and> delivered b' = received b \<or> (\<exists>b''. buffer_step b' b'')"
    using run closed_progress[of b'] by (cases "phase b' = Ended") (auto simp: buffer_inv_def)
  ultimately show ?thesis using run by simp
qed

theorem buffer_drains_witness:
  "\<exists>b' :: int buffer. buffer_step \<lparr>phase = Inner, queued = [2, 3], queueIn_nil = False, in_closed = True,
     received = [1, 2, 3], delivered = [1]\<rparr> b'"
  using buffer_drains[OF example_buffer, of 0] by simp

end
