(* ===== verification/Amqp_Wire.thy ===== *)
theory Amqp_Wire
  imports Auction_Prelude "HOL-Library.Word"
begin

text \<open>
  The wire of the vendored AMQP client (\<open>streadway/amqp\<close>): readers over the bytes that are left,
  writers into a buffer, big-endian integers and the two kinds of string (\<open>read.go\<close>,
  \<open>write.go\<close>).  A reader returns a value and the bytes it left, or an error and the bytes it
  left (the caller may swallow the error and read on), or panics.  A Go string is its bytes.

  The locale \<open>codec\<close> is the contract between the two directions: what a writer wrote, a reader
  gives back, whatever follows.
\<close>

section \<open>Readers and writers\<close>

type_synonym bytes = "8 word list"

datatype amqp_error =
    EOF
  | UnexpectedEOF
  | ErrSyntax
  | ErrFrame
  | ErrFieldType
  | MissingMethod
  | UnknownMethod "16 word" "16 word"
  | UnknownClass "16 word"
  | OutOfFuel

datatype 'a rd = Ok 'a bytes | Fail amqp_error bytes | Crash go_panic

fun rbind :: "'a rd \<Rightarrow> ('a \<Rightarrow> bytes \<Rightarrow> 'b rd) \<Rightarrow> 'b rd" where
  "rbind (Ok x bs) f = f x bs"
| "rbind (Fail e bs) f = Fail e bs"
| "rbind (Crash p) f = Crash p"

type_synonym wr = "amqp_error + bytes"

text \<open>One write after another into the same buffer; an error ends the writing.\<close>

fun wseq :: "wr \<Rightarrow> wr \<Rightarrow> wr" where
  "wseq (Inl e) b = Inl e"
| "wseq (Inr x) b = (case b of Inl e \<Rightarrow> Inl e | Inr y \<Rightarrow> Inr (x @ y))"

text \<open>\<open>io.ReadFull\<close> of \<open>n\<close> bytes: \<open>EOF\<close> when nothing was there, and nothing is left when too little
  was.\<close>

definition read_full :: "nat \<Rightarrow> bytes \<Rightarrow> bytes rd" where
  "read_full n bs =
     (if n \<le> length bs then Ok (take n bs) (drop n bs)
      else Fail (if bs = [] then EOF else UnexpectedEOF) [])"

section \<open>Big-endian integers\<close>

primrec be_encode :: "nat \<Rightarrow> nat \<Rightarrow> bytes" where
  "be_encode 0 x = []"
| "be_encode (Suc n) x = be_encode n (x div 256) @ [word_of_nat (x mod 256)]"

definition be_decode :: "bytes \<Rightarrow> nat" where
  "be_decode bs = foldl (\<lambda>acc b. acc * 256 + unat b) 0 bs"

text \<open>\<open>binary.Write\<close> and \<open>binary.Read\<close> of the unsigned integers.\<close>

definition write_u8 :: "8 word \<Rightarrow> wr" where "write_u8 w = Inr [w]"
definition write_u16 :: "16 word \<Rightarrow> wr" where "write_u16 w = Inr (be_encode 2 (unat w))"
definition write_u32 :: "32 word \<Rightarrow> wr" where "write_u32 w = Inr (be_encode 4 (unat w))"
definition write_u64 :: "64 word \<Rightarrow> wr" where "write_u64 w = Inr (be_encode 8 (unat w))"

definition read_u8 :: "bytes \<Rightarrow> 8 word rd" where
  "read_u8 bs = rbind (read_full 1 bs) (\<lambda>b. Ok (hd b))"
definition read_u16 :: "bytes \<Rightarrow> 16 word rd" where
  "read_u16 bs = rbind (read_full 2 bs) (\<lambda>b. Ok (word_of_nat (be_decode b)))"
definition read_u32 :: "bytes \<Rightarrow> 32 word rd" where
  "read_u32 bs = rbind (read_full 4 bs) (\<lambda>b. Ok (word_of_nat (be_decode b)))"
definition read_u64 :: "bytes \<Rightarrow> 64 word rd" where
  "read_u64 bs = rbind (read_full 8 bs) (\<lambda>b. Ok (word_of_nat (be_decode b)))"

section \<open>Strings\<close>

text \<open>
  The length is converted to \<open>uint8\<close> or \<open>uint32\<close>, which wraps, and only that many bytes are
  written.
\<close>

definition writeShortstr :: "bytes \<Rightarrow> wr" where
  "writeShortstr s =
     (let len = (word_of_nat (length s) :: 8 word) in wseq (write_u8 len) (Inr (take (unat len) s)))"

definition writeLongstr :: "bytes \<Rightarrow> wr" where
  "writeLongstr s =
     (let len = (word_of_nat (length s) :: 32 word) in wseq (write_u32 len) (Inr (take (unat len) s)))"

definition readShortstr :: "bytes \<Rightarrow> bytes rd" where
  "readShortstr bs = rbind (read_u8 bs) (\<lambda>len. read_full (unat len))"

definition readLongstr :: "bytes \<Rightarrow> bytes rd" where
  "readLongstr bs = rbind (read_u32 bs) (\<lambda>len. read_full (unat len))"

section \<open>The contract of a codec\<close>

locale codec =
  fixes enc :: "'a \<Rightarrow> wr"
    and dec :: "bytes \<Rightarrow> 'a rd"
    and fits :: "'a \<Rightarrow> bool"
  assumes round: "fits x \<Longrightarrow> \<exists>bs. enc x = Inr bs \<and> (\<forall>rest. dec (bs @ rest) = Ok x rest)"
begin

lemma dec_enc: "fits x \<Longrightarrow> enc x = Inr bs \<Longrightarrow> dec (bs @ rest) = Ok x rest"
  using round[of x] by auto

lemma enc_returns: "fits x \<Longrightarrow> \<exists>bs. enc x = Inr bs"
  using round[of x] by blast

text \<open>No encoding is the beginning of another: a stream can be cut in one way only.\<close>

lemma enc_prefix_free:
  assumes "fits x" and "fits y" and "enc x = Inr bs" and "enc y = Inr cs" and "bs @ r = cs @ s"
  shows "x = y \<and> r = s"
  using dec_enc[OF assms(1,3), of r] dec_enc[OF assms(2,4), of s] assms(5) by simp

lemma enc_inj: "fits x \<Longrightarrow> fits y \<Longrightarrow> enc x = Inr bs \<Longrightarrow> enc y = Inr bs \<Longrightarrow> x = y"
  using enc_prefix_free[of x y bs bs "[]" "[]"] by simp

end

section \<open>Lemmas\<close>

named_theorems wire "facts that open a writer or a reader on a value that fits"

lemma rbind_Ok_iff: "rbind m f = Ok y r \<longleftrightarrow> (\<exists>x b. m = Ok x b \<and> f x b = Ok y r)"
  by (cases m) auto

lemma wseq_Inr_iff: "wseq a b = Inr z \<longleftrightarrow> (\<exists>x y. a = Inr x \<and> b = Inr y \<and> z = x @ y)"
  by (cases a; cases b) auto

lemma wseq_Inr [simp]: "wseq (Inr x) (Inr y) = Inr (x @ y)"
  by simp

lemma wseq_nil [simp]: "wseq a (Inr []) = a"
  by (cases a) auto

lemma read_full_append [simp]: "length b = n \<Longrightarrow> read_full n (b @ rest) = Ok b rest"
  by (simp add: read_full_def)

lemma length_be_encode [simp]: "length (be_encode n x) = n"
  by (induction n arbitrary: x) auto

lemma be_decode_snoc: "be_decode (bs @ [b]) = be_decode bs * 256 + unat b"
  by (simp add: be_decode_def)

lemma unat_byte: "x < 256 \<Longrightarrow> unat (word_of_nat x :: 8 word) = x"
  by (simp add: unsigned_of_nat take_bit_eq_mod)

lemma be_decode_encode: "be_decode (be_encode n x) = x mod 256 ^ n"
proof (induction n arbitrary: x)
  case 0
  then show ?case by (simp add: be_decode_def)
next
  case (Suc n)
  have "x div 256 mod 256 ^ n * 256 + x mod 256 = x mod (256 * 256 ^ n)"
    by (simp add: mod_mult2_eq)
  then show ?case by (simp add: be_decode_snoc Suc unat_byte)
qed

lemma be_roundtrip:
  "be_decode (be_encode 2 (unat (a :: 16 word))) = unat a"
  "be_decode (be_encode 4 (unat (b :: 32 word))) = unat b"
  "be_decode (be_encode 8 (unat (c :: 64 word))) = unat c"
proof -
  have "unat a < 2 ^ LENGTH(16)" "unat b < 2 ^ LENGTH(32)" "unat c < 2 ^ LENGTH(64)"
    by (rule unsigned_less)+
  then show "be_decode (be_encode 2 (unat a)) = unat a" "be_decode (be_encode 4 (unat b)) = unat b"
    "be_decode (be_encode 8 (unat c)) = unat c"
    by (simp_all add: be_decode_encode)
qed

interpretation u8: codec write_u8 read_u8 "\<lambda>_. True"
  by unfold_locales (simp add: write_u8_def read_u8_def read_full_def)

interpretation u16: codec write_u16 read_u16 "\<lambda>_. True"
  by unfold_locales (simp add: write_u16_def read_u16_def be_roundtrip)

interpretation u32: codec write_u32 read_u32 "\<lambda>_. True"
  by unfold_locales (simp add: write_u32_def read_u32_def be_roundtrip)

interpretation u64: codec write_u64 read_u64 "\<lambda>_. True"
  by unfold_locales (simp add: write_u64_def read_u64_def be_roundtrip)

lemma unat_length:
  "length s < 256 \<Longrightarrow> unat (word_of_nat (length s) :: 8 word) = length s"
  "length s < 2 ^ 32 \<Longrightarrow> unat (word_of_nat (length s) :: 32 word) = length s"
  by (simp_all add: unsigned_of_nat take_bit_eq_mod)

lemma writeShortstr_short: "length s < 256 \<Longrightarrow> writeShortstr s = wseq (write_u8 (word_of_nat (length s))) (Inr s)"
  by (simp add: writeShortstr_def Let_def unat_length)

lemma writeLongstr_long: "length s < 2 ^ 32 \<Longrightarrow> writeLongstr s = wseq (write_u32 (word_of_nat (length s))) (Inr s)"
  by (simp add: writeLongstr_def Let_def unat_length)

interpretation shortstr: codec writeShortstr readShortstr "\<lambda>s. length s < 256"
proof unfold_locales
  fix s :: bytes
  assume len: "length s < 256"
  obtain b where b: "write_u8 (word_of_nat (length s)) = Inr b"
    using u8.enc_returns by blast
  then have "read_u8 (b @ s @ rest) = Ok (word_of_nat (length s)) (s @ rest)" for rest
    by (rule u8.dec_enc[OF TrueI])
  with b len show "\<exists>bs. writeShortstr s = Inr bs \<and> (\<forall>rest. readShortstr (bs @ rest) = Ok s rest)"
    by (simp add: writeShortstr_short readShortstr_def unat_length)
qed

interpretation longstr: codec writeLongstr readLongstr "\<lambda>s. length s < 2 ^ 32"
proof unfold_locales
  fix s :: bytes
  assume len: "length s < 2 ^ 32"
  obtain b where b: "write_u32 (word_of_nat (length s)) = Inr b"
    using u32.enc_returns by blast
  then have "read_u32 (b @ s @ rest) = Ok (word_of_nat (length s)) (s @ rest)" for rest
    by (rule u32.dec_enc[OF TrueI])
  with b len show "\<exists>bs. writeLongstr s = Inr bs \<and> (\<forall>rest. readLongstr (bs @ rest) = Ok s rest)"
    by (simp add: writeLongstr_long readLongstr_def unat_length)
qed

end
