(* ===== verification/Amqp_Fields.thy ===== *)
theory Amqp_Fields
  imports Amqp_Wire "HOL-Library.AList"
begin

text \<open>
  Field tables of the vendored AMQP client: the values a \<open>Table\<close> may hold (\<open>types.go\<close>),
  \<open>validateField\<close>, \<open>writeField\<close>, \<open>writeTable\<close> (\<open>write.go\<close>) and \<open>readField\<close>, \<open>readTable\<close>,
  \<open>readArray\<close> (\<open>read.go\<close>).  A table is the list of its entries in the order a range over the Go
  map takes, so a statement about all lists is one about all orders.  The readers recurse over
  the bytes with fuel; \<open>fuel_suffices\<close> shows that one more than the number of bytes is enough,
  and the fuelless \<open>read_table\<close> uses that much.
\<close>

section \<open>Values\<close>

text \<open>
  \<open>time.Time\<close>: the zero value, or seconds and nanoseconds since the epoch.  The wire holds only
  the seconds; \<open>Unix()\<close> of the zero value is that of the year 1.
\<close>

datatype go_time = ZeroTime | UnixTime "64 word" nat

fun unix_seconds :: "go_time \<Rightarrow> 64 word" where
  "unix_seconds ZeroTime = word_of_int (- 62135596800)"
| "unix_seconds (UnixTime s n) = s"

text \<open>Signed integers and floats are held as their bits.  \<open>FOther\<close> is a value of any other type.\<close>

datatype field =
    FNil
  | FBool bool
  | FByte "8 word"
  | FInt16 "16 word"
  | FInt32 "32 word"
  | FInt64 "64 word"
  | FFloat32 "32 word"
  | FFloat64 "64 word"
  | FString bytes
  | FBytes bytes
  | FDecimal "8 word" "32 word"
  | FTime go_time
  | FArray "field list"
  | FTable "(bytes \<times> field) list"
  | FOther

type_synonym table = "(bytes \<times> field) list"

text \<open>The error of \<open>validateField\<close>: where the value of an unsupported type stands.\<close>

datatype field_error = NotSupported | InArray field_error | InTable bytes field_error

fun validateField :: "field \<Rightarrow> field_error option"
  and validateFields :: "field list \<Rightarrow> field_error option"
  and validateEntries :: "table \<Rightarrow> field_error option" where
  "validateField (FArray vs) = validateFields vs"
| "validateField (FTable t) = validateEntries t"
| "validateField FOther = Some NotSupported"
| "validateField _ = None"
| "validateFields [] = None"
| "validateFields (v # vs) =
     (case validateField v of Some e \<Rightarrow> Some (InArray e) | None \<Rightarrow> validateFields vs)"
| "validateEntries [] = None"
| "validateEntries ((k, v) # t) =
     (case validateField v of Some e \<Rightarrow> Some (InTable k e) | None \<Rightarrow> validateEntries t)"

definition Validate :: "table \<Rightarrow> field_error option" where
  "Validate t = validateField (FTable t)"

section \<open>Writing\<close>

fun writeField :: "field \<Rightarrow> wr"
  and writeFields :: "field list \<Rightarrow> wr"
  and writeEntries :: "table \<Rightarrow> wr" where
  "writeField (FBool v) = Inr [116, if v then 1 else 0]"
| "writeField (FByte v) = Inr [98, v]"
| "writeField (FInt16 v) = wseq (Inr [115]) (write_u16 v)"
| "writeField (FInt32 v) = wseq (Inr [73]) (write_u32 v)"
| "writeField (FInt64 v) = wseq (Inr [108]) (write_u64 v)"
| "writeField (FFloat32 v) = wseq (Inr [102]) (write_u32 v)"
| "writeField (FFloat64 v) = wseq (Inr [100]) (write_u64 v)"
| "writeField (FDecimal scale v) = wseq (Inr [68]) (wseq (write_u8 scale) (write_u32 v))"
| "writeField (FString s) = wseq (Inr [83]) (wseq (write_u32 (word_of_nat (length s))) (Inr s))"
| "writeField (FArray vs) =
     (case writeFields vs of
        Inl e \<Rightarrow> Inl e
      | Inr sec \<Rightarrow> wseq (Inr [65]) (wseq (write_u32 (word_of_nat (length sec))) (Inr sec)))"
| "writeField (FTime t) = wseq (Inr [84]) (write_u64 (unix_seconds t))"
| "writeField (FTable t) =
     wseq (Inr [70]) (case writeEntries t of Inl e \<Rightarrow> Inl e | Inr b \<Rightarrow> writeLongstr b)"
| "writeField (FBytes v) = wseq (Inr [120]) (wseq (write_u32 (word_of_nat (length v))) (Inr v))"
| "writeField FNil = Inr [86]"
| "writeField FOther = Inl ErrFieldType"
| "writeFields [] = Inr []"
| "writeFields (v # vs) = wseq (writeField v) (writeFields vs)"
| "writeEntries [] = Inr []"
| "writeEntries ((k, v) # t) = wseq (writeShortstr k) (wseq (writeField v) (writeEntries t))"

definition writeTable :: "table \<Rightarrow> wr" where
  "writeTable t = (case writeEntries t of Inl e \<Rightarrow> Inl e | Inr b \<Rightarrow> writeLongstr b)"

section \<open>Reading\<close>

definition readDecimal :: "bytes \<Rightarrow> field rd" where
  "readDecimal bs = rbind (read_u8 bs) (\<lambda>scale r. rbind (read_u32 r) (\<lambda>v. Ok (FDecimal scale v)))"

definition readFloat32 :: "bytes \<Rightarrow> field rd" where
  "readFloat32 bs = rbind (read_u32 bs) (\<lambda>v. Ok (FFloat32 v))"

definition readFloat64 :: "bytes \<Rightarrow> field rd" where
  "readFloat64 bs = rbind (read_u64 bs) (\<lambda>v. Ok (FFloat64 v))"

definition readTimestamp :: "bytes \<Rightarrow> go_time rd" where
  "readTimestamp bs = rbind (read_u64 bs) (\<lambda>s. Ok (UnixTime s 0))"

text \<open>
  \<open>readTable\<close> reads its entries from a buffer of their own, with the reader it is given; likewise
  \<open>readArray\<close> its elements through a limited reader over the next \<open>size\<close> bytes.
\<close>

definition readTable :: "(bytes \<Rightarrow> table rd) \<Rightarrow> bytes \<Rightarrow> table rd" where
  "readTable entries bs =
     rbind (readLongstr bs) (\<lambda>str r.
       case entries str of
         Ok t _ \<Rightarrow> Ok t r
       | Fail e _ \<Rightarrow> Fail e r
       | Crash p \<Rightarrow> Crash p)"

definition readArray :: "(bytes \<Rightarrow> field list rd) \<Rightarrow> bytes \<Rightarrow> field list rd" where
  "readArray elems bs =
     rbind (read_u32 bs) (\<lambda>size r.
       case elems (take (unat size) r) of
         Ok vs l \<Rightarrow> Ok vs (l @ drop (unat size) r)
       | Fail e l \<Rightarrow> Fail e (l @ drop (unat size) r)
       | Crash p \<Rightarrow> Crash p)"

text \<open>The \<open>x\<close> field reads its length as \<open>int32\<close>: \<open>make\<close> panics on a negative one.\<close>

definition readBytes :: "bytes \<Rightarrow> field rd" where
  "readBytes bs =
     rbind (read_u32 bs) (\<lambda>len r.
       if sint len < 0 then Crash MakeSliceLenOutOfRange
       else rbind (read_full (unat len) r) (\<lambda>v. Ok (FBytes v)))"

text \<open>
  \<open>readField\<close>, the loop of \<open>readTable\<close> and the loop of \<open>readArray\<close>, which ends as soon as some
  read of an element, however deep, ends in \<open>EOF\<close>.
\<close>

function readField :: "nat \<Rightarrow> bytes \<Rightarrow> field rd"
  and readEntries :: "nat \<Rightarrow> table \<Rightarrow> bytes \<Rightarrow> table rd"
  and readElems :: "nat \<Rightarrow> bytes \<Rightarrow> field list rd" where
  "readField 0 bs = Fail OutOfFuel bs"
| "readField (Suc k) bs =
     rbind (read_u8 bs) (\<lambda>typ r.
       if typ = 116 then rbind (read_u8 r) (\<lambda>v. Ok (FBool (v \<noteq> 0)))
       else if typ = 98 then rbind (read_full 1 r) (\<lambda>v. Ok (FByte (hd v)))
       else if typ = 115 then rbind (read_u16 r) (\<lambda>v. Ok (FInt16 v))
       else if typ = 73 then rbind (read_u32 r) (\<lambda>v. Ok (FInt32 v))
       else if typ = 108 then rbind (read_u64 r) (\<lambda>v. Ok (FInt64 v))
       else if typ = 102 then readFloat32 r
       else if typ = 100 then readFloat64 r
       else if typ = 68 then readDecimal r
       else if typ = 83 then rbind (readLongstr r) (\<lambda>s. Ok (FString s))
       else if typ = 65 then rbind (readArray (\<lambda>b. readElems k b) r) (\<lambda>vs. Ok (FArray vs))
       else if typ = 84 then rbind (readTimestamp r) (\<lambda>t. Ok (FTime t))
       else if typ = 70 then rbind (readTable (\<lambda>b. readEntries k [] b) r) (\<lambda>t. Ok (FTable t))
       else if typ = 120 then readBytes r
       else if typ = 86 then Ok FNil r
       else Fail ErrSyntax r)"
| "readEntries 0 acc bs = (if bs = [] then Ok acc [] else Fail OutOfFuel bs)"
| "readEntries (Suc k) acc bs =
     (if bs = [] then Ok acc []
      else rbind (readShortstr bs) (\<lambda>key r.
        rbind (readField k r) (\<lambda>v r1. readEntries k (AList.update key v acc) r1)))"
| "readElems 0 bs = Fail OutOfFuel bs"
| "readElems (Suc k) bs =
     (case readField k bs of
        Ok v r \<Rightarrow> rbind (readElems k r) (\<lambda>vs. Ok (v # vs))
      | Fail e r \<Rightarrow> if e = EOF then Ok [] r else Fail e r
      | Crash p \<Rightarrow> Crash p)"
  by pat_completeness auto
termination
  by (relation "measure (\<lambda>x. case x of Inl (k, bs) \<Rightarrow> k
      | Inr (Inl (k, acc, bs)) \<Rightarrow> k | Inr (Inr (k, bs)) \<Rightarrow> k)") auto

declare readField.simps(2) [simp del]

text \<open>The table reader of the methods and of the header frame.\<close>

definition read_table :: "bytes \<Rightarrow> table rd" where
  "read_table bs = readTable (readEntries (Suc (length bs)) []) bs"

section \<open>Values that survive the wire\<close>

text \<open>
  Lengths that fit their prefix, supported types, whole seconds, and distinct keys (which a Go
  map has).
\<close>

fun encoded_within :: "nat \<Rightarrow> wr \<Rightarrow> bool" where
  "encoded_within n (Inr b) = (length b < n)"
| "encoded_within n (Inl e) = False"

fun ok_field :: "field \<Rightarrow> bool"
  and ok_fields :: "field list \<Rightarrow> bool"
  and ok_entries :: "table \<Rightarrow> bool" where
  "ok_field (FString s) = (length s < 2 ^ 32)"
| "ok_field (FBytes s) = (length s < 2 ^ 31)"
| "ok_field (FArray vs) = (ok_fields vs \<and> encoded_within (2 ^ 32) (writeFields vs))"
| "ok_field (FTable t) =
     (ok_entries t \<and> distinct (map fst t) \<and> encoded_within (2 ^ 32) (writeEntries t))"
| "ok_field (FTime ZeroTime) = False"
| "ok_field (FTime (UnixTime s n)) = (n = 0)"
| "ok_field FOther = False"
| "ok_field _ = True"
| "ok_fields [] = True"
| "ok_fields (v # vs) = (ok_field v \<and> ok_fields vs)"
| "ok_entries [] = True"
| "ok_entries ((k, v) # t) = (length k < 256 \<and> ok_field v \<and> ok_entries t)"

definition ok_table :: "table \<Rightarrow> bool" where
  "ok_table t \<longleftrightarrow> ok_entries t \<and> distinct (map fst t) \<and> encoded_within (2 ^ 32) (writeEntries t)"

section \<open>The fuel is enough\<close>

text \<open>A reader that leaves at most \<open>n\<close> bytes and did not stop for lack of fuel.\<close>

fun sound :: "nat \<Rightarrow> 'a rd \<Rightarrow> bool" where
  "sound n (Ok x r) \<longleftrightarrow> length r \<le> n"
| "sound n (Fail e r) \<longleftrightarrow> length r \<le> n \<and> e \<noteq> OutOfFuel"
| "sound n (Crash p) \<longleftrightarrow> True"

lemma sound_mono: "sound m x \<Longrightarrow> m \<le> n \<Longrightarrow> sound n x"
  by (cases x) auto

lemma sound_rbind:
  assumes "sound m x" and "m \<le> n" and "\<And>v r. x = Ok v r \<Longrightarrow> length r \<le> m \<Longrightarrow> sound n (f v r)"
  shows "sound n (rbind x f)"
  using assms by (cases x) auto

lemma sound_read_full: "sound (length bs) (read_full n bs)"
  by (simp add: read_full_def)

lemma sound_reads [intro]:
  "length bs \<le> n \<Longrightarrow> sound n (read_full m bs)"
  "length bs \<le> n \<Longrightarrow> sound n (read_u8 bs)"
  "length bs \<le> n \<Longrightarrow> sound n (read_u16 bs)"
  "length bs \<le> n \<Longrightarrow> sound n (read_u32 bs)"
  "length bs \<le> n \<Longrightarrow> sound n (read_u64 bs)"
  unfolding read_u8_def read_u16_def read_u32_def read_u64_def
  by (auto intro!: sound_rbind[OF sound_read_full] intro: sound_mono[OF sound_read_full])

lemma sound_readLongstr [intro]: "length bs \<le> n \<Longrightarrow> sound n (readLongstr bs)"
  unfolding readLongstr_def by (rule sound_rbind[of n]) auto

lemma sound_leaves [intro]:
  "length bs \<le> n \<Longrightarrow> sound n (readDecimal bs)"
  "length bs \<le> n \<Longrightarrow> sound n (readFloat32 bs)"
  "length bs \<le> n \<Longrightarrow> sound n (readFloat64 bs)"
  "length bs \<le> n \<Longrightarrow> sound n (readTimestamp bs)"
  "length bs \<le> n \<Longrightarrow> sound n (readBytes bs)"
  unfolding readDecimal_def readFloat32_def readFloat64_def readTimestamp_def readBytes_def
  by (auto intro!: sound_rbind[of n])

lemma read_u8_cons [simp]: "read_u8 (b # r) = Ok b r"
  by (simp add: read_u8_def read_full_def)

lemma read_u8_nil [simp]: "read_u8 [] = Fail EOF []"
  by (simp add: read_u8_def read_full_def)

lemma read_u32_length: "read_u32 bs = Ok v r \<Longrightarrow> length bs = length r + 4"
  by (auto simp: read_u32_def rbind_Ok_iff read_full_def split: if_splits)

lemma read_full_length: "read_full n bs = Ok v r \<Longrightarrow> length bs = length r + n \<and> length v = n"
  by (auto simp: read_full_def split: if_splits)

lemma readLongstr_length: "readLongstr bs = Ok v r \<Longrightarrow> length bs = length r + length v + 4"
  by (auto simp: readLongstr_def rbind_Ok_iff dest!: read_u32_length read_full_length)

lemma readShortstr_length: "readShortstr bs = Ok v r \<Longrightarrow> length bs = length r + length v + 1"
  by (cases bs) (auto simp: readShortstr_def dest!: read_full_length)

lemma sound_readArray:
  assumes "length bs \<le> n" and "\<And>b. length b + 4 \<le> length bs \<Longrightarrow> sound (length b) (elems b)"
  shows "sound n (readArray elems bs)"
  unfolding readArray_def
proof (rule sound_rbind[of n])
  fix size r
  assume "read_u32 bs = Ok size r"
  note len = read_u32_length[OF this]
  have "sound (length (take (unat size) r)) (elems (take (unat size) r))"
    by (rule assms(2)) (simp add: len)
  then show "sound n (case elems (take (unat size) r) of
      Ok vs l \<Rightarrow> Ok vs (l @ drop (unat size) r)
    | Fail e l \<Rightarrow> Fail e (l @ drop (unat size) r) | Crash p \<Rightarrow> Crash p)"
    using assms(1) len by (cases "elems (take (unat size) r)") auto
qed (use assms(1) in auto)

lemma sound_readTable:
  assumes "length bs \<le> n" and "\<And>b. length b + 4 \<le> length bs \<Longrightarrow> sound (length b) (entries b)"
  shows "sound n (readTable entries bs)"
  unfolding readTable_def
proof (rule sound_rbind[of n])
  fix str r
  assume "readLongstr bs = Ok str r"
  note len = readLongstr_length[OF this]
  have "sound (length str) (entries str)" by (rule assms(2)) (simp add: len)
  then show "sound n (case entries str of Ok t _ \<Rightarrow> Ok t r | Fail e _ \<Rightarrow> Fail e r | Crash p \<Rightarrow> Crash p)"
    using assms(1) len by (cases "entries str") auto
qed (use assms(1) in auto)

lemma readField_nil [simp]: "readField (Suc k) [] = Fail EOF []"
  by (simp add: readField.simps(2))

lemma fuel_suffices:
  "length bs < k \<Longrightarrow> bs \<noteq> [] \<Longrightarrow> sound (length bs - 1) (readField k bs)"
  "length bs < k \<Longrightarrow> sound (length bs) (readEntries k acc bs)"
  "length bs + 1 < k \<Longrightarrow> sound (length bs) (readElems k bs)"
proof (induction k bs and k acc bs and k bs rule: readField_readEntries_readElems.induct)
  case (2 k bs)
  then obtain b r where bs: "bs = b # r" by (cases bs) auto
  have k: "length r < k" using 2(3) bs by simp
  have arr: "sound (length r) (readArray (readElems k) r)"
    by (rule sound_readArray) (use k in \<open>auto intro!: 2(1) simp: bs\<close>)
  have tab: "sound (length r) (readTable (readEntries k []) r)"
    by (rule sound_readTable) (use k in \<open>auto intro!: 2(2) simp: bs\<close>)
  show ?case
    unfolding bs readField.simps(2) read_u8_cons rbind.simps
    using arr tab by (auto intro!: sound_rbind[of "length r"])
next
  case (4 k acc bs)
  show ?case
  proof (cases "bs = []")
    case False
    have "sound (length bs) (readShortstr bs)"
      unfolding readShortstr_def by (rule sound_rbind[of "length bs"]) auto
    then have "sound (length bs) (rbind (readShortstr bs) (\<lambda>key r.
        rbind (readField k r) (\<lambda>v r1. readEntries k (AList.update key v acc) r1)))"
    proof (rule sound_rbind)
      fix key r
      assume key: "readShortstr bs = Ok key r"
      note len = readShortstr_length[OF key]
      show "sound (length bs) (rbind (readField k r) (\<lambda>v r1. readEntries k (AList.update key v acc) r1))"
      proof (cases "r = []")
        case True
        then show ?thesis using 4(3) len False by (cases k) auto
      next
        case r: False
        then have "sound (length r - 1) (readField k r)"
          using 4(1)[OF False] 4(3) len by auto
        then show ?thesis
        proof (rule sound_rbind)
          fix v r1
          assume v: "readField k r = Ok v r1" and "length r1 \<le> length r - 1"
          then have "length r1 < k" "length r1 \<le> length bs" using 4(3) len by auto
          then show "sound (length bs) (readEntries k (AList.update key v acc) r1)"
            using 4(2)[OF False] sound_mono by blast
        qed (use len in simp)
      qed
    qed simp
    with False show ?thesis by simp
  qed simp
next
  case (6 k bs)
  show ?case
  proof (cases "bs = []")
    case True
    then show ?thesis using 6(3) by (cases k) auto
  next
    case False
    have s: "sound (length bs - 1) (readField k bs)" using 6(1,3) False by simp
    show ?thesis
    proof (cases "readField k bs")
      case (Ok v r)
      then have "length r < length bs" using s False by (cases bs) auto
      then have "sound (length bs) (readElems k r)"
        using 6(2)[OF Ok] 6(3) sound_mono by fastforce
      with Ok show ?thesis by (auto intro!: sound_rbind[of "length bs"])
    qed (use s in auto)
  qed
qed simp_all

section \<open>What is written is read back\<close>

lemma read_write_u:
  "read_u16 (be_encode 2 (unat a) @ rest) = Ok a rest"
  "read_u32 (be_encode 4 (unat b) @ rest) = Ok b rest"
  "read_u64 (be_encode 8 (unat c) @ rest) = Ok c rest"
  using u16.dec_enc[OF TrueI, of a] u32.dec_enc[OF TrueI, of b] u64.dec_enc[OF TrueI, of c]
  by (simp_all add: write_u16_def write_u32_def write_u64_def)

lemmas write_u_defs = write_u8_def write_u16_def write_u32_def write_u64_def

text \<open>A length of at most 32 bits, written and read, is the length; below 31 bits it is not negative.\<close>

lemma unat_length32: "n < 2 ^ 32 \<Longrightarrow> unat (word_of_nat n :: 32 word) = n"
  by (simp add: unsigned_of_nat take_bit_eq_mod)

lemma read_length: "n < 2 ^ 32 \<Longrightarrow> read_u32 (be_encode 4 n @ rest) = Ok (word_of_nat n) rest"
  using read_write_u(2)[of "word_of_nat n" rest] by (simp only: unat_length32)

lemma sint_length: "n < 2 ^ 31 \<Longrightarrow> \<not> sint (word_of_nat n :: 32 word) < 0"
proof -
  assume n: "n < 2 ^ 31"
  then have "sint (word_of_nat n :: 32 word) = int n"
    by (simp add: signed_of_nat signed_take_bit_int_eq_self)
  then show ?thesis by simp
qed

lemma readTable_written:
  assumes "length b < 2 ^ 32" and "writeLongstr b = Inr c" and "entries b = Ok t l"
  shows "readTable entries (c @ rest) = Ok t rest"
  using longstr.dec_enc[OF assms(1,2), of rest] assms(3) by (simp add: readTable_def)

lemma readArray_written:
  assumes "length b < 2 ^ 32" and "elems b = Ok vs []"
  shows "readArray elems (be_encode 4 (length b) @ b @ rest) = Ok vs rest"
  using assms by (simp add: readArray_def read_length unat_length32)

lemma AList_update_new: "k \<notin> fst ` set acc \<Longrightarrow> AList.update k v acc = acc @ [(k, v)]"
  by (induction acc) auto

lemma encoded_withinE: "encoded_within n m \<Longrightarrow> m = Inr b \<Longrightarrow> length b < n"
  by simp

lemma all_above_Suc: "(\<forall>k>n. P k) \<longleftrightarrow> (\<forall>k\<ge>n. P (Suc k))"
  by (metis Suc_le_lessD Suc_pred' gr_implies_not0 le_imp_less_Suc less_Suc_eq_le neq0_conv)

lemma readEntries_nil [simp]: "readEntries k acc [] = Ok acc []"
  by (cases k) auto

lemma readField_written:
  "ok_field v \<Longrightarrow> \<exists>b. writeField v = Inr b \<and> b \<noteq> [] \<and>
     (\<forall>k rest. length b < k \<longrightarrow> readField k (b @ rest) = Ok v rest)"
  "ok_fields vs \<Longrightarrow> \<exists>b. writeFields vs = Inr b \<and>
     (\<forall>k. length b + 1 < k \<longrightarrow> readElems k b = Ok vs [])"
  "ok_entries t \<Longrightarrow> \<exists>b. writeEntries t = Inr b \<and>
     (\<forall>k acc. length b < k \<longrightarrow> distinct (map fst (acc @ t)) \<longrightarrow> readEntries k acc b = Ok (acc @ t) [])"
proof (induction v and vs and t rule: writeField_writeFields_writeEntries.induct)
  case (9 s)
  have "readField k (83 # be_encode 4 (length s) @ s @ rest) = Ok (FString s) rest"
    if "0 < k" for k rest
    using that 9 by (cases k) (simp_all add: readField.simps(2) readLongstr_def read_length unat_length32)
  then show ?case using 9 by (simp add: write_u_defs unat_length32)
next
  case (10 vs)
  then obtain b where b: "writeFields vs = Inr b" "\<forall>k. length b + 1 < k \<longrightarrow> readElems k b = Ok vs []"
    "length b < 2 ^ 32"
    by auto
  have "readField k (65 # be_encode 4 (length b) @ b @ rest) = Ok (FArray vs) rest"
    if "length b + 5 < k" for k rest
  proof (cases k)
    case (Suc k')
    then show ?thesis using b that by (simp add: readField.simps(2) readArray_written)
  qed (use that in simp)
  with b(1,3) show ?case by (simp add: write_u_defs unat_length32)
next
  case (11 t)
  then obtain s where t: "t = UnixTime s 0" by (cases t) auto
  have "readField k (84 # be_encode 8 (unat s) @ rest) = Ok (FTime t) rest" if "0 < k" for k rest
    using that t by (cases k) (simp_all add: readField.simps(2) readTimestamp_def read_write_u)
  then show ?case by (simp add: t write_u_defs)
next
  case (12 t)
  then obtain b where b: "writeEntries t = Inr b" "length b < 2 ^ 32" "distinct (map fst t)"
    "\<And>k. length b < k \<Longrightarrow> readEntries k [] b = Ok t []"
    by auto
  obtain c where c: "writeLongstr b = Inr c" using longstr.enc_returns[OF b(2)] by blast
  then have "length b \<le> length c" using b(2) by (auto simp: writeLongstr_long wseq_Inr_iff)
  have "readField k (70 # c @ rest) = Ok (FTable t) rest" if "length c + 1 < k" for k rest
  proof (cases k)
    case (Suc k')
    then have "readEntries k' [] b = Ok t []" using b(4) that \<open>length b \<le> length c\<close> by simp
    then show ?thesis using Suc b(2) c by (simp add: readField.simps(2) readTable_written)
  qed (use that in simp)
  with b(1) c show ?case by simp
next
  case (13 s)
  have "readField k (120 # be_encode 4 (length s) @ s @ rest) = Ok (FBytes s) rest"
    if "0 < k" for k rest
    using that 13 by (cases k) (simp_all add: readField.simps(2) readBytes_def read_length unat_length32 sint_length)
  then show ?case using 13 by (simp add: write_u_defs unat_length32)
next
  case 16
  have "readElems k [] = Ok [] []" if "1 < k" for k
    using that by (cases k rule: old.nat.exhaust; cases "k - 1") simp_all
  then show ?case by simp
next
  case (17 v vs)
  then obtain a b where a: "writeField v = Inr a" "a \<noteq> []"
      "\<forall>k rest. length a < k \<longrightarrow> readField k (a @ rest) = Ok v rest"
    and b: "writeFields vs = Inr b" "\<forall>k. length b + 1 < k \<longrightarrow> readElems k b = Ok vs []"
    by auto
  have "readElems k (a @ b) = Ok (v # vs) []" if "length (a @ b) + 1 < k" for k
  proof (cases k)
    case (Suc k')
    moreover have "length b + 1 < k'" using that Suc a(2) by (cases a) auto
    ultimately show ?thesis using a(3) b(2) that by simp
  qed (use that in simp)
  with a(1) b(1) show ?case by simp
next
  case (19 key v t)
  then obtain a b where a: "writeField v = Inr a" "a \<noteq> []"
      "\<forall>k rest. length a < k \<longrightarrow> readField k (a @ rest) = Ok v rest"
    and b: "writeEntries t = Inr b"
      "\<forall>k acc. length b < k \<longrightarrow> distinct (map fst (acc @ t)) \<longrightarrow> readEntries k acc b = Ok (acc @ t) []"
    by auto
  have len: "length key < 256" using 19(3) by simp
  obtain c where c: "writeShortstr key = Inr c" using shortstr.enc_returns[OF len] by blast
  note rc = shortstr.dec_enc[OF len c]
  have "c \<noteq> []" using c len by (auto simp: writeShortstr_short write_u8_def)
  have "readEntries k acc (c @ a @ b) = Ok (acc @ (key, v) # t) []"
    if "length (c @ a @ b) < k" and d: "distinct (map fst (acc @ (key, v) # t))" for k acc
  proof (cases k)
    case (Suc k')
    have "length a < k'" "length b < k'" using that(1) Suc \<open>c \<noteq> []\<close> by (cases c; simp)+
    moreover have "AList.update key v acc = acc @ [(key, v)]" using d by (intro AList_update_new) auto
    ultimately show ?thesis
      using a(3) b(2)[rule_format, of k' "acc @ [(key, v)]"] d rc \<open>c \<noteq> []\<close> Suc by simp
  qed (use that in simp)
  with a(1) b(1) c show ?case by (auto simp: wseq_Inr_iff)
qed (simp_all add: all_above_Suc write_u_defs readField.simps(2) read_write_u readFloat32_def
      readFloat64_def readDecimal_def read_full_def)

interpretation field_codec: codec writeField "\<lambda>bs. readField (Suc (length bs)) bs" ok_field
proof unfold_locales
  fix v
  assume "ok_field v"
  from readField_written(1)[OF this] show
    "\<exists>bs. writeField v = Inr bs \<and> (\<forall>rest. readField (Suc (length (bs @ rest))) (bs @ rest) = Ok v rest)"
    by (metis le_add1 le_imp_less_Suc length_append)
qed

interpretation table: codec writeTable read_table ok_table
proof unfold_locales
  fix t
  assume t: "ok_table t"
  then obtain b where b: "writeEntries t = Inr b" "length b < 2 ^ 32"
    "\<forall>k acc. length b < k \<longrightarrow> distinct (map fst (acc @ t)) \<longrightarrow> readEntries k acc b = Ok (acc @ t) []"
    using readField_written(3)[of t] unfolding ok_table_def by auto
  obtain c where c: "writeLongstr b = Inr c" using longstr.enc_returns[OF b(2)] by blast
  then have len: "length b \<le> length c" using b(2) by (auto simp: writeLongstr_long wseq_Inr_iff)
  have "read_table (c @ rest) = Ok t rest" for rest
  proof -
    have "readEntries (Suc (length (c @ rest))) [] b = Ok t []"
      using b(3)[rule_format, of "Suc (length (c @ rest))" "[]"] t len by (simp add: ok_table_def)
    then show ?thesis unfolding read_table_def by (rule readTable_written[OF b(2) c])
  qed
  with b(1) c show "\<exists>bs. writeTable t = Inr bs \<and> (\<forall>rest. read_table (bs @ rest) = Ok t rest)"
    by (simp add: writeTable_def)
qed

text \<open>Writing fails on a value of an unsupported type and on nothing else.\<close>

lemma writeLongstr_returns: "\<exists>c. writeLongstr b = Inr c"
  by (simp add: writeLongstr_def write_u32_def Let_def)

lemma writeShortstr_returns: "\<exists>c. writeShortstr b = Inr c"
  by (simp add: writeShortstr_def write_u8_def Let_def)

lemma string_writes [simp]: "writeLongstr b \<noteq> Inl e" "writeShortstr b \<noteq> Inl e"
  using writeLongstr_returns[of b] writeShortstr_returns[of b] by auto

lemma validate_iff_writes:
  "validateField v = None \<longleftrightarrow> (\<exists>b. writeField v = Inr b)"
  "validateFields vs = None \<longleftrightarrow> (\<exists>b. writeFields vs = Inr b)"
  "validateEntries t = None \<longleftrightarrow> (\<exists>b. writeEntries t = Inr b)"
proof (induction v and vs and t rule: writeField_writeFields_writeEntries.induct)
  case (12 t)
  then show ?case by (auto simp: wseq_Inr_iff split: sum.splits)
next
  case (17 v vs)
  then show ?case by (auto simp: wseq_Inr_iff split: option.splits)
next
  case (19 k v t)
  then show ?case using writeShortstr_returns[of k] by (auto simp: wseq_Inr_iff split: option.splits)
qed (auto simp: write_u_defs split: sum.splits)

section \<open>Properties\<close>

text \<open>C19: every field value that fits the wire, nested arrays and tables included, is read back as
  it was written, in whatever order the ranges over the tables wrote the entries and whatever
  bytes follow.\<close>

theorem field_roundtrip:
  assumes "ok_field v"
  shows "\<exists>bs. writeField v = Inr bs \<and> (\<forall>rest. readField (Suc (length (bs @ rest))) (bs @ rest) = Ok v rest)"
  using field_codec.round[OF assms] by blast

theorem field_roundtrip_witness:
  "\<exists>bs. writeField (FArray [FInt16 7, FTable [([107], FBytes [1, 2]), ([], FNil)]]) = Inr bs \<and>
     (\<forall>rest. readField (Suc (length (bs @ rest))) (bs @ rest) =
        Ok (FArray [FInt16 7, FTable [([107], FBytes [1, 2]), ([], FNil)]]) rest)"
proof (rule field_roundtrip)
  show "ok_field (FArray [FInt16 7, FTable [([107], FBytes [1, 2]), ([], FNil)]])"
    by (simp add: write_u_defs writeShortstr_def writeLongstr_def)
qed

text \<open>C21: \<open>Validate\<close> accepts a table exactly when \<open>writeTable\<close> writes it.\<close>

theorem Validate_iff_writeTable: "Validate t = None \<longleftrightarrow> (\<exists>bs. writeTable t = Inr bs)"
  using validate_iff_writes(3)[of t]
  by (auto simp: Validate_def writeTable_def writeLongstr_returns split: sum.splits)

text \<open> the readers of fields return, whatever the bytes: with one unit of fuel more than there are
  bytes no read stops for lack of fuel, and no read leaves more bytes than it was given.\<close>

theorem readField_terminates: "sound (length bs) (readField (Suc (length bs)) bs)"
proof (cases "bs = []")
  case False
  from fuel_suffices(1)[OF _ this, of "Suc (length bs)"] show ?thesis by (auto elim: sound_mono)
qed simp

text \<open> a byte-array field whose length has its top bit set makes the reader panic.\<close>

theorem negative_length_panics:
  assumes "128 \<le> b"
  shows "readField (Suc k) (120 # b # c # d # e # rest) = Crash MakeSliceLenOutOfRange"
proof -
  define n where "n = be_decode [b, c, d, e]"
  have "unat x < 256" for x :: "8 word"
    using unsigned_less[of x] by simp
  note byte = this
  have "128 \<le> unat b" using assms by (simp add: word_le_nat_alt)
  then have n: "2 ^ 31 \<le> n" "n < 2 ^ 32"
    using byte[of b] byte[of c] byte[of d] byte[of e] by (simp_all add: n_def be_decode_def)
  then have "int n div 2147483648 = 1"
    by (intro int_div_pos_eq[where r = "int n - 2147483648"]) simp_all
  with n have "sint (word_of_nat n :: 32 word) < 0"
    by (simp add: signed_of_nat signed_take_bit_eq_take_bit_minus take_bit_int_eq_self bit_iff_odd)
  then show ?thesis
    by (simp add: readField.simps(2) readBytes_def read_u32_def read_full_def n_def)
qed

theorem negative_length_panics_witness:
  "readField 6 [120, 255, 255, 255, 255] = Crash MakeSliceLenOutOfRange"
proof -
  have "readField (Suc 5) [120, 255, 255, 255, 255] = Crash MakeSliceLenOutOfRange"
    by (rule negative_length_panics) simp
  then show ?thesis by (simp add: eval_nat_numeral)
qed

text \<open> an array whose last element is cut off is accepted without that element: the end of the
  limited reader inside an element looks like the end of the array.\<close>

theorem truncated_array_accepted:
  "readField (Suc (length ([65, 0, 0, 0, 1, 115] @ rest))) ([65, 0, 0, 0, 1, 115] @ rest) =
     Ok (FArray []) rest"
proof -
  have "read_u32 ([0, 0, 0, 1, 115] @ rest) = Ok 1 (115 # rest)"
    by (simp add: read_u32_def read_full_def be_decode_def)
  then show ?thesis
    by (simp add: readField.simps(2) readArray_def read_u16_def read_full_def)
qed

end
