(* ===== verification/Amqp_Types.thy ===== *)
theory Amqp_Types
  imports Amqp_Fields
begin

unbundle bit_operations_syntax

text \<open>
  \<open>types.go\<close> of the vendored AMQP client: reply codes (also the constants of \<open>spec091.go\<close>), the
  error value, the content properties with their flags; and what the generated methods share:
  the bits packed into a byte, and \<open>conveys\<close>, the round trip of one value through one writer
  and one reader, with the rules that chain it over the fields of a method.
\<close>

section \<open>Constants and errors\<close>

definition frameMethod :: "8 word" where "frameMethod = 1"
definition frameHeader :: "8 word" where "frameHeader = 2"
definition frameBody :: "8 word" where "frameBody = 3"
definition frameHeartbeat :: "8 word" where "frameHeartbeat = 8"
definition frameEnd :: "8 word" where "frameEnd = 206"

definition ContentTooLarge :: int where "ContentTooLarge = 311"
definition NoRoute :: int where "NoRoute = 312"
definition NoConsumers :: int where "NoConsumers = 313"
definition AccessRefused :: int where "AccessRefused = 403"
definition NotFound :: int where "NotFound = 404"
definition ResourceLocked :: int where "ResourceLocked = 405"
definition PreconditionFailed :: int where "PreconditionFailed = 406"

definition isSoftExceptionCode :: "int \<Rightarrow> bool" where
  "isSoftExceptionCode code =
     (if code = 311 then True
      else if code = 312 then True
      else if code = 313 then True
      else if code = 403 then True
      else if code = 404 then True
      else if code = 405 then True
      else if code = 406 then True
      else False)"

text \<open>The exported \<open>Error\<close> of the package.\<close>

record exception =
  Code :: int
  Reason :: bytes
  Server :: bool
  Recover :: bool

definition newError :: "16 word \<Rightarrow> bytes \<Rightarrow> exception" where
  "newError code text =
     \<lparr>Code = int (unat code), Reason = text, Server = True,
      Recover = isSoftExceptionCode (int (unat code))\<rparr>"

section \<open>Content properties\<close>

record properties =
  ContentType :: bytes
  ContentEncoding :: bytes
  Headers :: table
  DeliveryMode :: "8 word"
  Priority :: "8 word"
  CorrelationId :: bytes
  ReplyTo :: bytes
  Expiration :: bytes
  MessageId :: bytes
  Timestamp :: go_time
  Type :: bytes
  UserId :: bytes
  AppId :: bytes
  reserved1 :: bytes

definition zero_properties :: properties where
  "zero_properties =
     \<lparr>ContentType = [], ContentEncoding = [], Headers = [], DeliveryMode = 0, Priority = 0,
      CorrelationId = [], ReplyTo = [], Expiration = [], MessageId = [], Timestamp = ZeroTime,
      Type = [], UserId = [], AppId = [], reserved1 = []\<rparr>"

definition flagContentType :: "16 word" where "flagContentType = 0x8000"
definition flagContentEncoding :: "16 word" where "flagContentEncoding = 0x4000"
definition flagHeaders :: "16 word" where "flagHeaders = 0x2000"
definition flagDeliveryMode :: "16 word" where "flagDeliveryMode = 0x1000"
definition flagPriority :: "16 word" where "flagPriority = 0x0800"
definition flagCorrelationId :: "16 word" where "flagCorrelationId = 0x0400"
definition flagReplyTo :: "16 word" where "flagReplyTo = 0x0200"
definition flagExpiration :: "16 word" where "flagExpiration = 0x0100"
definition flagMessageId :: "16 word" where "flagMessageId = 0x0080"
definition flagTimestamp :: "16 word" where "flagTimestamp = 0x0040"
definition flagType :: "16 word" where "flagType = 0x0020"
definition flagUserId :: "16 word" where "flagUserId = 0x0010"
definition flagAppId :: "16 word" where "flagAppId = 0x0008"
definition flagReserved1 :: "16 word" where "flagReserved1 = 0x0004"

text \<open>\<open>int(mask)&prop > 0\<close>\<close>

definition hasProperty :: "16 word \<Rightarrow> 16 word \<Rightarrow> bool" where
  "hasProperty msk prop \<longleftrightarrow> 0 < (msk AND prop)"

section \<open>Bits packed into a byte\<close>

text \<open>\<open>if b { bits |= 1 << n }\<close> and \<open>bits&(1<<n) > 0\<close>\<close>

definition or_bit :: "bool \<Rightarrow> nat \<Rightarrow> 8 word \<Rightarrow> 8 word" where
  "or_bit b n bits = (if b then bits OR push_bit n 1 else bits)"

definition has_bit :: "nat \<Rightarrow> 8 word \<Rightarrow> bool" where
  "has_bit n bits \<longleftrightarrow> 0 < (bits AND push_bit n 1)"

lemma and_bit_pos:
  fixes w :: "'a::len word"
  shows "0 < (w AND push_bit n 1) \<longleftrightarrow> bit w n"
proof -
  have "w AND push_bit n 1 = (if bit w n then push_bit n 1 else 0)"
    by (rule bit_word_eqI) (auto simp: bit_simps dest: bit_imp_le_length)
  moreover have "push_bit n 1 \<noteq> (0 :: 'a word)" if "bit w n"
  proof
    assume "push_bit n 1 = (0 :: 'a word)"
    moreover have "bit (push_bit n 1 :: 'a word) n"
      using bit_imp_le_length[OF that] by (simp add: bit_exp_iff)
    ultimately have "bit (0 :: 'a word) n" by (simp only:)
    then show False by simp
  qed
  ultimately show ?thesis by (auto simp: word_gt_0)
qed

lemma has_bit_iff: "has_bit n w \<longleftrightarrow> bit w n"
  unfolding has_bit_def by (rule and_bit_pos)

lemma has_or_bit [simp]:
  "n < 8 \<Longrightarrow> has_bit n (or_bit b m w) \<longleftrightarrow> (n = m \<and> b) \<or> has_bit n w"
  unfolding has_bit_iff or_bit_def by (auto simp: bit_or_iff bit_exp_iff)

lemma has_bit_0 [simp]: "\<not> has_bit n 0"
  by (simp add: has_bit_def)

section \<open>The round trip of one value\<close>

definition conveys :: "wr \<Rightarrow> (bytes \<Rightarrow> 'a rd) \<Rightarrow> 'a \<Rightarrow> bool" where
  "conveys w r x \<longleftrightarrow> (\<exists>bs. w = Inr bs \<and> (\<forall>rest. r (bs @ rest) = Ok x rest))"

named_theorems conveyed "round trips of the fields of a method"

lemma conveys_seq:
  assumes "conveys w1 r1 x" and "conveys w2 (r2 x) y"
  shows "conveys (wseq w1 w2) (\<lambda>bs. rbind (r1 bs) r2) y"
proof -
  obtain b1 b2 where "w1 = Inr b1" "\<forall>rest. r1 (b1 @ rest) = Ok x rest"
    "w2 = Inr b2" "\<forall>rest. r2 x (b2 @ rest) = Ok y rest"
    using assms by (auto simp: conveys_def)
  then show ?thesis by (auto simp: conveys_def)
qed

lemma conveys_done: "x = y \<Longrightarrow> conveys (Inr []) (Ok x) y"
  by (simp add: conveys_def)

lemma conveys_map: "conveys w r x \<Longrightarrow> f x = y \<Longrightarrow> conveys w (\<lambda>bs. rbind (r bs) (\<lambda>v. Ok (f v))) y"
  by (auto simp: conveys_def)

lemma conveys_leaves [conveyed]:
  "conveys (write_u8 a) read_u8 a"
  "conveys (write_u16 b) read_u16 b"
  "conveys (write_u32 c) read_u32 c"
  "conveys (write_u64 d) read_u64 d"
  "length s < 256 \<Longrightarrow> conveys (writeShortstr s) readShortstr s"
  "length s < 2 ^ 32 \<Longrightarrow> conveys (writeLongstr s) readLongstr s"
  "ok_table t \<Longrightarrow> conveys (writeTable t) read_table t"
  unfolding conveys_def
  using u8.round u16.round u32.round u64.round shortstr.round longstr.round table.round
  by blast+


section \<open>Readers that stop\<close>

lemma sound_rbind_same:
  "sound n x \<Longrightarrow> (\<And>v r. length r \<le> n \<Longrightarrow> sound n (f v r)) \<Longrightarrow> sound n (rbind x f)"
  by (rule sound_rbind[of n]) auto

lemma sound_done: "length r \<le> n \<Longrightarrow> sound n (Ok x r)"
  by simp

lemma sound_readShortstr: "length bs \<le> n \<Longrightarrow> sound n (readShortstr bs)"
  unfolding readShortstr_def by (rule sound_rbind_same) auto

lemma sound_read_table: "length bs \<le> n \<Longrightarrow> sound n (read_table bs)"
  unfolding read_table_def by (rule sound_readTable, assumption, rule fuel_suffices(2), linarith)

lemmas sound_uses = sound_reads(2-5) sound_readShortstr sound_readLongstr sound_read_table

end
