(* ===== verification/Amqp_Connection.thy ===== *)
theory Amqp_Connection
  imports Amqp_Types
begin

text \<open>
  The methods of class connection of the vendored AMQP client (\<open>spec091.go\<close>): one record per method (a
  struct without fields is \<open>unit\<close>), with its \<open>id\<close>, \<open>wait\<close>, \<open>write\<close> and \<open>read\<close>; the class as a
  datatype; and the round trip of every method whose strings and tables fit their prefixes.
\<close>

section \<open>Class connection\<close>

text \<open>\<open>connectionStart\<close>\<close>

record connectionStart =
  connectionStart_VersionMajor :: "8 word"
  connectionStart_VersionMinor :: "8 word"
  connectionStart_ServerProperties :: table
  connectionStart_Mechanisms :: bytes
  connectionStart_Locales :: bytes

definition connectionStart_zero :: connectionStart where
  "connectionStart_zero = \<lparr>connectionStart_VersionMajor = 0, connectionStart_VersionMinor = 0, connectionStart_ServerProperties = [], connectionStart_Mechanisms = [], connectionStart_Locales = []\<rparr>"

definition connectionStart_id :: "connectionStart \<Rightarrow> 16 word \<times> 16 word" where
  "connectionStart_id me = (10, 10)"

definition connectionStart_wait :: "connectionStart \<Rightarrow> bool" where
  "connectionStart_wait me = True"

definition connectionStart_write :: "connectionStart \<Rightarrow> wr" where
  "connectionStart_write me =
     wseq (write_u8 (connectionStart_VersionMajor me)) (
     wseq (write_u8 (connectionStart_VersionMinor me)) (
     wseq (writeTable (connectionStart_ServerProperties me)) (
     wseq (writeLongstr (connectionStart_Mechanisms me)) (
     wseq (writeLongstr (connectionStart_Locales me)) (Inr [])))))"

definition connectionStart_read :: "connectionStart \<Rightarrow> bytes \<Rightarrow> connectionStart rd" where
  "connectionStart_read me bs =
     rbind (read_u8 bs) (\<lambda>v0 r.
     rbind (read_u8 r) (\<lambda>v1 r.
     rbind (read_table r) (\<lambda>v2 r.
     rbind (readLongstr r) (\<lambda>v3 r.
     rbind (readLongstr r) (\<lambda>v4 r.
     Ok (me\<lparr>connectionStart_VersionMajor := v0, connectionStart_VersionMinor := v1, connectionStart_ServerProperties := v2, connectionStart_Mechanisms := v3, connectionStart_Locales := v4\<rparr>) r)))))"

definition connectionStart_fits :: "connectionStart \<Rightarrow> bool" where
  "connectionStart_fits m \<longleftrightarrow> ok_table (connectionStart_ServerProperties m) \<and> length (connectionStart_Mechanisms m) < 2 ^ 32 \<and> length (connectionStart_Locales m) < 2 ^ 32"

text \<open>\<open>connectionStartOk\<close>\<close>

record connectionStartOk =
  connectionStartOk_ClientProperties :: table
  connectionStartOk_Mechanism :: bytes
  connectionStartOk_Response :: bytes
  connectionStartOk_Locale :: bytes

definition connectionStartOk_zero :: connectionStartOk where
  "connectionStartOk_zero = \<lparr>connectionStartOk_ClientProperties = [], connectionStartOk_Mechanism = [], connectionStartOk_Response = [], connectionStartOk_Locale = []\<rparr>"

definition connectionStartOk_id :: "connectionStartOk \<Rightarrow> 16 word \<times> 16 word" where
  "connectionStartOk_id me = (10, 11)"

definition connectionStartOk_wait :: "connectionStartOk \<Rightarrow> bool" where
  "connectionStartOk_wait me = True"

definition connectionStartOk_write :: "connectionStartOk \<Rightarrow> wr" where
  "connectionStartOk_write me =
     wseq (writeTable (connectionStartOk_ClientProperties me)) (
     wseq (writeShortstr (connectionStartOk_Mechanism me)) (
     wseq (writeLongstr (connectionStartOk_Response me)) (
     wseq (writeShortstr (connectionStartOk_Locale me)) (Inr []))))"

definition connectionStartOk_read :: "connectionStartOk \<Rightarrow> bytes \<Rightarrow> connectionStartOk rd" where
  "connectionStartOk_read me bs =
     rbind (read_table bs) (\<lambda>v0 r.
     rbind (readShortstr r) (\<lambda>v1 r.
     rbind (readLongstr r) (\<lambda>v2 r.
     rbind (readShortstr r) (\<lambda>v3 r.
     Ok (me\<lparr>connectionStartOk_ClientProperties := v0, connectionStartOk_Mechanism := v1, connectionStartOk_Response := v2, connectionStartOk_Locale := v3\<rparr>) r))))"

definition connectionStartOk_fits :: "connectionStartOk \<Rightarrow> bool" where
  "connectionStartOk_fits m \<longleftrightarrow> ok_table (connectionStartOk_ClientProperties m) \<and> length (connectionStartOk_Mechanism m) < 256 \<and> length (connectionStartOk_Response m) < 2 ^ 32 \<and> length (connectionStartOk_Locale m) < 256"

text \<open>\<open>connectionSecure\<close>\<close>

record connectionSecure =
  connectionSecure_Challenge :: bytes

definition connectionSecure_zero :: connectionSecure where
  "connectionSecure_zero = \<lparr>connectionSecure_Challenge = []\<rparr>"

definition connectionSecure_id :: "connectionSecure \<Rightarrow> 16 word \<times> 16 word" where
  "connectionSecure_id me = (10, 20)"

definition connectionSecure_wait :: "connectionSecure \<Rightarrow> bool" where
  "connectionSecure_wait me = True"

definition connectionSecure_write :: "connectionSecure \<Rightarrow> wr" where
  "connectionSecure_write me =
     wseq (writeLongstr (connectionSecure_Challenge me)) (Inr [])"

definition connectionSecure_read :: "connectionSecure \<Rightarrow> bytes \<Rightarrow> connectionSecure rd" where
  "connectionSecure_read me bs =
     rbind (readLongstr bs) (\<lambda>v0 r.
     Ok (me\<lparr>connectionSecure_Challenge := v0\<rparr>) r)"

definition connectionSecure_fits :: "connectionSecure \<Rightarrow> bool" where
  "connectionSecure_fits m \<longleftrightarrow> length (connectionSecure_Challenge m) < 2 ^ 32"

text \<open>\<open>connectionSecureOk\<close>\<close>

record connectionSecureOk =
  connectionSecureOk_Response :: bytes

definition connectionSecureOk_zero :: connectionSecureOk where
  "connectionSecureOk_zero = \<lparr>connectionSecureOk_Response = []\<rparr>"

definition connectionSecureOk_id :: "connectionSecureOk \<Rightarrow> 16 word \<times> 16 word" where
  "connectionSecureOk_id me = (10, 21)"

definition connectionSecureOk_wait :: "connectionSecureOk \<Rightarrow> bool" where
  "connectionSecureOk_wait me = True"

definition connectionSecureOk_write :: "connectionSecureOk \<Rightarrow> wr" where
  "connectionSecureOk_write me =
     wseq (writeLongstr (connectionSecureOk_Response me)) (Inr [])"

definition connectionSecureOk_read :: "connectionSecureOk \<Rightarrow> bytes \<Rightarrow> connectionSecureOk rd" where
  "connectionSecureOk_read me bs =
     rbind (readLongstr bs) (\<lambda>v0 r.
     Ok (me\<lparr>connectionSecureOk_Response := v0\<rparr>) r)"

definition connectionSecureOk_fits :: "connectionSecureOk \<Rightarrow> bool" where
  "connectionSecureOk_fits m \<longleftrightarrow> length (connectionSecureOk_Response m) < 2 ^ 32"

text \<open>\<open>connectionTune\<close>\<close>

record connectionTune =
  connectionTune_ChannelMax :: "16 word"
  connectionTune_FrameMax :: "32 word"
  connectionTune_Heartbeat :: "16 word"

definition connectionTune_zero :: connectionTune where
  "connectionTune_zero = \<lparr>connectionTune_ChannelMax = 0, connectionTune_FrameMax = 0, connectionTune_Heartbeat = 0\<rparr>"

definition connectionTune_id :: "connectionTune \<Rightarrow> 16 word \<times> 16 word" where
  "connectionTune_id me = (10, 30)"

definition connectionTune_wait :: "connectionTune \<Rightarrow> bool" where
  "connectionTune_wait me = True"

definition connectionTune_write :: "connectionTune \<Rightarrow> wr" where
  "connectionTune_write me =
     wseq (write_u16 (connectionTune_ChannelMax me)) (
     wseq (write_u32 (connectionTune_FrameMax me)) (
     wseq (write_u16 (connectionTune_Heartbeat me)) (Inr [])))"

definition connectionTune_read :: "connectionTune \<Rightarrow> bytes \<Rightarrow> connectionTune rd" where
  "connectionTune_read me bs =
     rbind (read_u16 bs) (\<lambda>v0 r.
     rbind (read_u32 r) (\<lambda>v1 r.
     rbind (read_u16 r) (\<lambda>v2 r.
     Ok (me\<lparr>connectionTune_ChannelMax := v0, connectionTune_FrameMax := v1, connectionTune_Heartbeat := v2\<rparr>) r)))"

definition connectionTune_fits :: "connectionTune \<Rightarrow> bool" where
  "connectionTune_fits m \<longleftrightarrow> True"

text \<open>\<open>connectionTuneOk\<close>\<close>

record connectionTuneOk =
  connectionTuneOk_ChannelMax :: "16 word"
  connectionTuneOk_FrameMax :: "32 word"
  connectionTuneOk_Heartbeat :: "16 word"

definition connectionTuneOk_zero :: connectionTuneOk where
  "connectionTuneOk_zero = \<lparr>connectionTuneOk_ChannelMax = 0, connectionTuneOk_FrameMax = 0, connectionTuneOk_Heartbeat = 0\<rparr>"

definition connectionTuneOk_id :: "connectionTuneOk \<Rightarrow> 16 word \<times> 16 word" where
  "connectionTuneOk_id me = (10, 31)"

definition connectionTuneOk_wait :: "connectionTuneOk \<Rightarrow> bool" where
  "connectionTuneOk_wait me = True"

definition connectionTuneOk_write :: "connectionTuneOk \<Rightarrow> wr" where
  "connectionTuneOk_write me =
     wseq (write_u16 (connectionTuneOk_ChannelMax me)) (
     wseq (write_u32 (connectionTuneOk_FrameMax me)) (
     wseq (write_u16 (connectionTuneOk_Heartbeat me)) (Inr [])))"

definition connectionTuneOk_read :: "connectionTuneOk \<Rightarrow> bytes \<Rightarrow> connectionTuneOk rd" where
  "connectionTuneOk_read me bs =
     rbind (read_u16 bs) (\<lambda>v0 r.
     rbind (read_u32 r) (\<lambda>v1 r.
     rbind (read_u16 r) (\<lambda>v2 r.
     Ok (me\<lparr>connectionTuneOk_ChannelMax := v0, connectionTuneOk_FrameMax := v1, connectionTuneOk_Heartbeat := v2\<rparr>) r)))"

definition connectionTuneOk_fits :: "connectionTuneOk \<Rightarrow> bool" where
  "connectionTuneOk_fits m \<longleftrightarrow> True"

text \<open>\<open>connectionOpen\<close>\<close>

record connectionOpen =
  connectionOpen_VirtualHost :: bytes
  connectionOpen_reserved1 :: bytes
  connectionOpen_reserved2 :: bool

definition connectionOpen_zero :: connectionOpen where
  "connectionOpen_zero = \<lparr>connectionOpen_VirtualHost = [], connectionOpen_reserved1 = [], connectionOpen_reserved2 = False\<rparr>"

definition connectionOpen_id :: "connectionOpen \<Rightarrow> 16 word \<times> 16 word" where
  "connectionOpen_id me = (10, 40)"

definition connectionOpen_wait :: "connectionOpen \<Rightarrow> bool" where
  "connectionOpen_wait me = True"

definition connectionOpen_write :: "connectionOpen \<Rightarrow> wr" where
  "connectionOpen_write me =
     wseq (writeShortstr (connectionOpen_VirtualHost me)) (
     wseq (writeShortstr (connectionOpen_reserved1 me)) (
     wseq (write_u8 (or_bit (connectionOpen_reserved2 me) 0 0)) (Inr [])))"

definition connectionOpen_read :: "connectionOpen \<Rightarrow> bytes \<Rightarrow> connectionOpen rd" where
  "connectionOpen_read me bs =
     rbind (readShortstr bs) (\<lambda>v0 r.
     rbind (readShortstr r) (\<lambda>v1 r.
     rbind (read_u8 r) (\<lambda>v2 r.
     Ok (me\<lparr>connectionOpen_VirtualHost := v0, connectionOpen_reserved1 := v1, connectionOpen_reserved2 := has_bit 0 v2\<rparr>) r)))"

definition connectionOpen_fits :: "connectionOpen \<Rightarrow> bool" where
  "connectionOpen_fits m \<longleftrightarrow> length (connectionOpen_VirtualHost m) < 256 \<and> length (connectionOpen_reserved1 m) < 256"

text \<open>\<open>connectionOpenOk\<close>\<close>

record connectionOpenOk =
  connectionOpenOk_reserved1 :: bytes

definition connectionOpenOk_zero :: connectionOpenOk where
  "connectionOpenOk_zero = \<lparr>connectionOpenOk_reserved1 = []\<rparr>"

definition connectionOpenOk_id :: "connectionOpenOk \<Rightarrow> 16 word \<times> 16 word" where
  "connectionOpenOk_id me = (10, 41)"

definition connectionOpenOk_wait :: "connectionOpenOk \<Rightarrow> bool" where
  "connectionOpenOk_wait me = True"

definition connectionOpenOk_write :: "connectionOpenOk \<Rightarrow> wr" where
  "connectionOpenOk_write me =
     wseq (writeShortstr (connectionOpenOk_reserved1 me)) (Inr [])"

definition connectionOpenOk_read :: "connectionOpenOk \<Rightarrow> bytes \<Rightarrow> connectionOpenOk rd" where
  "connectionOpenOk_read me bs =
     rbind (readShortstr bs) (\<lambda>v0 r.
     Ok (me\<lparr>connectionOpenOk_reserved1 := v0\<rparr>) r)"

definition connectionOpenOk_fits :: "connectionOpenOk \<Rightarrow> bool" where
  "connectionOpenOk_fits m \<longleftrightarrow> length (connectionOpenOk_reserved1 m) < 256"

text \<open>\<open>connectionClose\<close>\<close>

record connectionClose =
  connectionClose_ReplyCode :: "16 word"
  connectionClose_ReplyText :: bytes
  connectionClose_ClassId :: "16 word"
  connectionClose_MethodId :: "16 word"

definition connectionClose_zero :: connectionClose where
  "connectionClose_zero = \<lparr>connectionClose_ReplyCode = 0, connectionClose_ReplyText = [], connectionClose_ClassId = 0, connectionClose_MethodId = 0\<rparr>"

definition connectionClose_id :: "connectionClose \<Rightarrow> 16 word \<times> 16 word" where
  "connectionClose_id me = (10, 50)"

definition connectionClose_wait :: "connectionClose \<Rightarrow> bool" where
  "connectionClose_wait me = True"

definition connectionClose_write :: "connectionClose \<Rightarrow> wr" where
  "connectionClose_write me =
     wseq (write_u16 (connectionClose_ReplyCode me)) (
     wseq (writeShortstr (connectionClose_ReplyText me)) (
     wseq (write_u16 (connectionClose_ClassId me)) (
     wseq (write_u16 (connectionClose_MethodId me)) (Inr []))))"

definition connectionClose_read :: "connectionClose \<Rightarrow> bytes \<Rightarrow> connectionClose rd" where
  "connectionClose_read me bs =
     rbind (read_u16 bs) (\<lambda>v0 r.
     rbind (readShortstr r) (\<lambda>v1 r.
     rbind (read_u16 r) (\<lambda>v2 r.
     rbind (read_u16 r) (\<lambda>v3 r.
     Ok (me\<lparr>connectionClose_ReplyCode := v0, connectionClose_ReplyText := v1, connectionClose_ClassId := v2, connectionClose_MethodId := v3\<rparr>) r))))"

definition connectionClose_fits :: "connectionClose \<Rightarrow> bool" where
  "connectionClose_fits m \<longleftrightarrow> length (connectionClose_ReplyText m) < 256"

text \<open>\<open>connectionCloseOk\<close>\<close>

datatype connectionCloseOk = connectionCloseOk

definition connectionCloseOk_zero :: connectionCloseOk where
  "connectionCloseOk_zero = connectionCloseOk"

definition connectionCloseOk_id :: "connectionCloseOk \<Rightarrow> 16 word \<times> 16 word" where
  "connectionCloseOk_id me = (10, 51)"

definition connectionCloseOk_wait :: "connectionCloseOk \<Rightarrow> bool" where
  "connectionCloseOk_wait me = True"

definition connectionCloseOk_write :: "connectionCloseOk \<Rightarrow> wr" where
  "connectionCloseOk_write me =
     Inr []"

definition connectionCloseOk_read :: "connectionCloseOk \<Rightarrow> bytes \<Rightarrow> connectionCloseOk rd" where
  "connectionCloseOk_read me bs =
     Ok me bs"

definition connectionCloseOk_fits :: "connectionCloseOk \<Rightarrow> bool" where
  "connectionCloseOk_fits m \<longleftrightarrow> True"

text \<open>\<open>connectionBlocked\<close>\<close>

record connectionBlocked =
  connectionBlocked_Reason :: bytes

definition connectionBlocked_zero :: connectionBlocked where
  "connectionBlocked_zero = \<lparr>connectionBlocked_Reason = []\<rparr>"

definition connectionBlocked_id :: "connectionBlocked \<Rightarrow> 16 word \<times> 16 word" where
  "connectionBlocked_id me = (10, 60)"

definition connectionBlocked_wait :: "connectionBlocked \<Rightarrow> bool" where
  "connectionBlocked_wait me = False"

definition connectionBlocked_write :: "connectionBlocked \<Rightarrow> wr" where
  "connectionBlocked_write me =
     wseq (writeShortstr (connectionBlocked_Reason me)) (Inr [])"

definition connectionBlocked_read :: "connectionBlocked \<Rightarrow> bytes \<Rightarrow> connectionBlocked rd" where
  "connectionBlocked_read me bs =
     rbind (readShortstr bs) (\<lambda>v0 r.
     Ok (me\<lparr>connectionBlocked_Reason := v0\<rparr>) r)"

definition connectionBlocked_fits :: "connectionBlocked \<Rightarrow> bool" where
  "connectionBlocked_fits m \<longleftrightarrow> length (connectionBlocked_Reason m) < 256"

text \<open>\<open>connectionUnblocked\<close>\<close>

datatype connectionUnblocked = connectionUnblocked

definition connectionUnblocked_zero :: connectionUnblocked where
  "connectionUnblocked_zero = connectionUnblocked"

definition connectionUnblocked_id :: "connectionUnblocked \<Rightarrow> 16 word \<times> 16 word" where
  "connectionUnblocked_id me = (10, 61)"

definition connectionUnblocked_wait :: "connectionUnblocked \<Rightarrow> bool" where
  "connectionUnblocked_wait me = False"

definition connectionUnblocked_write :: "connectionUnblocked \<Rightarrow> wr" where
  "connectionUnblocked_write me =
     Inr []"

definition connectionUnblocked_read :: "connectionUnblocked \<Rightarrow> bytes \<Rightarrow> connectionUnblocked rd" where
  "connectionUnblocked_read me bs =
     Ok me bs"

definition connectionUnblocked_fits :: "connectionUnblocked \<Rightarrow> bool" where
  "connectionUnblocked_fits m \<longleftrightarrow> True"

text \<open>The methods of the class, their \<open>id\<close>, \<open>wait\<close> and \<open>write\<close>, and their part of the
  switch of \<open>parseMethodFrame\<close>.\<close>

datatype connection_message =
    ConnectionStart connectionStart
  | ConnectionStartOk connectionStartOk
  | ConnectionSecure connectionSecure
  | ConnectionSecureOk connectionSecureOk
  | ConnectionTune connectionTune
  | ConnectionTuneOk connectionTuneOk
  | ConnectionOpen connectionOpen
  | ConnectionOpenOk connectionOpenOk
  | ConnectionClose connectionClose
  | ConnectionCloseOk connectionCloseOk
  | ConnectionBlocked connectionBlocked
  | ConnectionUnblocked connectionUnblocked

fun connection_id :: "connection_message \<Rightarrow> 16 word \<times> 16 word" where
  "connection_id (ConnectionStart m) = connectionStart_id m"
| "connection_id (ConnectionStartOk m) = connectionStartOk_id m"
| "connection_id (ConnectionSecure m) = connectionSecure_id m"
| "connection_id (ConnectionSecureOk m) = connectionSecureOk_id m"
| "connection_id (ConnectionTune m) = connectionTune_id m"
| "connection_id (ConnectionTuneOk m) = connectionTuneOk_id m"
| "connection_id (ConnectionOpen m) = connectionOpen_id m"
| "connection_id (ConnectionOpenOk m) = connectionOpenOk_id m"
| "connection_id (ConnectionClose m) = connectionClose_id m"
| "connection_id (ConnectionCloseOk m) = connectionCloseOk_id m"
| "connection_id (ConnectionBlocked m) = connectionBlocked_id m"
| "connection_id (ConnectionUnblocked m) = connectionUnblocked_id m"

fun connection_wait :: "connection_message \<Rightarrow> bool" where
  "connection_wait (ConnectionStart m) = connectionStart_wait m"
| "connection_wait (ConnectionStartOk m) = connectionStartOk_wait m"
| "connection_wait (ConnectionSecure m) = connectionSecure_wait m"
| "connection_wait (ConnectionSecureOk m) = connectionSecureOk_wait m"
| "connection_wait (ConnectionTune m) = connectionTune_wait m"
| "connection_wait (ConnectionTuneOk m) = connectionTuneOk_wait m"
| "connection_wait (ConnectionOpen m) = connectionOpen_wait m"
| "connection_wait (ConnectionOpenOk m) = connectionOpenOk_wait m"
| "connection_wait (ConnectionClose m) = connectionClose_wait m"
| "connection_wait (ConnectionCloseOk m) = connectionCloseOk_wait m"
| "connection_wait (ConnectionBlocked m) = connectionBlocked_wait m"
| "connection_wait (ConnectionUnblocked m) = connectionUnblocked_wait m"

fun connection_write :: "connection_message \<Rightarrow> wr" where
  "connection_write (ConnectionStart m) = connectionStart_write m"
| "connection_write (ConnectionStartOk m) = connectionStartOk_write m"
| "connection_write (ConnectionSecure m) = connectionSecure_write m"
| "connection_write (ConnectionSecureOk m) = connectionSecureOk_write m"
| "connection_write (ConnectionTune m) = connectionTune_write m"
| "connection_write (ConnectionTuneOk m) = connectionTuneOk_write m"
| "connection_write (ConnectionOpen m) = connectionOpen_write m"
| "connection_write (ConnectionOpenOk m) = connectionOpenOk_write m"
| "connection_write (ConnectionClose m) = connectionClose_write m"
| "connection_write (ConnectionCloseOk m) = connectionCloseOk_write m"
| "connection_write (ConnectionBlocked m) = connectionBlocked_write m"
| "connection_write (ConnectionUnblocked m) = connectionUnblocked_write m"

fun connection_fits :: "connection_message \<Rightarrow> bool" where
  "connection_fits (ConnectionStart m) = connectionStart_fits m"
| "connection_fits (ConnectionStartOk m) = connectionStartOk_fits m"
| "connection_fits (ConnectionSecure m) = connectionSecure_fits m"
| "connection_fits (ConnectionSecureOk m) = connectionSecureOk_fits m"
| "connection_fits (ConnectionTune m) = connectionTune_fits m"
| "connection_fits (ConnectionTuneOk m) = connectionTuneOk_fits m"
| "connection_fits (ConnectionOpen m) = connectionOpen_fits m"
| "connection_fits (ConnectionOpenOk m) = connectionOpenOk_fits m"
| "connection_fits (ConnectionClose m) = connectionClose_fits m"
| "connection_fits (ConnectionCloseOk m) = connectionCloseOk_fits m"
| "connection_fits (ConnectionBlocked m) = connectionBlocked_fits m"
| "connection_fits (ConnectionUnblocked m) = connectionUnblocked_fits m"

definition parse_connection :: "16 word \<Rightarrow> bytes \<Rightarrow> connection_message rd" where
  "parse_connection method bs =
    (if method = 10 then rbind (connectionStart_read connectionStart_zero bs) (\<lambda>m. Ok (ConnectionStart m))
     else if method = 11 then rbind (connectionStartOk_read connectionStartOk_zero bs) (\<lambda>m. Ok (ConnectionStartOk m))
     else if method = 20 then rbind (connectionSecure_read connectionSecure_zero bs) (\<lambda>m. Ok (ConnectionSecure m))
     else if method = 21 then rbind (connectionSecureOk_read connectionSecureOk_zero bs) (\<lambda>m. Ok (ConnectionSecureOk m))
     else if method = 30 then rbind (connectionTune_read connectionTune_zero bs) (\<lambda>m. Ok (ConnectionTune m))
     else if method = 31 then rbind (connectionTuneOk_read connectionTuneOk_zero bs) (\<lambda>m. Ok (ConnectionTuneOk m))
     else if method = 40 then rbind (connectionOpen_read connectionOpen_zero bs) (\<lambda>m. Ok (ConnectionOpen m))
     else if method = 41 then rbind (connectionOpenOk_read connectionOpenOk_zero bs) (\<lambda>m. Ok (ConnectionOpenOk m))
     else if method = 50 then rbind (connectionClose_read connectionClose_zero bs) (\<lambda>m. Ok (ConnectionClose m))
     else if method = 51 then rbind (connectionCloseOk_read connectionCloseOk_zero bs) (\<lambda>m. Ok (ConnectionCloseOk m))
     else if method = 60 then rbind (connectionBlocked_read connectionBlocked_zero bs) (\<lambda>m. Ok (ConnectionBlocked m))
     else if method = 61 then rbind (connectionUnblocked_read connectionUnblocked_zero bs) (\<lambda>m. Ok (ConnectionUnblocked m))
     else Fail (UnknownMethod method 10) bs)"

section \<open>Round trips of class connection\<close>

lemma connectionStart_sound [intro]: "length bs \<le> k \<Longrightarrow> sound k (connectionStart_read me bs)"
  unfolding connectionStart_read_def by ((rule sound_rbind_same sound_uses sound_done | assumption)+)

lemma connectionStart_conveyed [conveyed]:
  "connectionStart_fits m \<Longrightarrow> conveys (connectionStart_write m) (connectionStart_read connectionStart_zero) m"
  unfolding connectionStart_write_def connectionStart_read_def connectionStart_fits_def
  by ((elim conjE)?, (rule conveys_seq conveys_done conveyed | assumption)+, simp add: connectionStart_zero_def)

lemma connectionStartOk_sound [intro]: "length bs \<le> k \<Longrightarrow> sound k (connectionStartOk_read me bs)"
  unfolding connectionStartOk_read_def by ((rule sound_rbind_same sound_uses sound_done | assumption)+)

lemma connectionStartOk_conveyed [conveyed]:
  "connectionStartOk_fits m \<Longrightarrow> conveys (connectionStartOk_write m) (connectionStartOk_read connectionStartOk_zero) m"
  unfolding connectionStartOk_write_def connectionStartOk_read_def connectionStartOk_fits_def
  by ((elim conjE)?, (rule conveys_seq conveys_done conveyed | assumption)+, simp add: connectionStartOk_zero_def)

lemma connectionSecure_sound [intro]: "length bs \<le> k \<Longrightarrow> sound k (connectionSecure_read me bs)"
  unfolding connectionSecure_read_def by ((rule sound_rbind_same sound_uses sound_done | assumption)+)

lemma connectionSecure_conveyed [conveyed]:
  "connectionSecure_fits m \<Longrightarrow> conveys (connectionSecure_write m) (connectionSecure_read connectionSecure_zero) m"
  unfolding connectionSecure_write_def connectionSecure_read_def connectionSecure_fits_def
  by ((elim conjE)?, (rule conveys_seq conveys_done conveyed | assumption)+, simp add: connectionSecure_zero_def)

lemma connectionSecureOk_sound [intro]: "length bs \<le> k \<Longrightarrow> sound k (connectionSecureOk_read me bs)"
  unfolding connectionSecureOk_read_def by ((rule sound_rbind_same sound_uses sound_done | assumption)+)

lemma connectionSecureOk_conveyed [conveyed]:
  "connectionSecureOk_fits m \<Longrightarrow> conveys (connectionSecureOk_write m) (connectionSecureOk_read connectionSecureOk_zero) m"
  unfolding connectionSecureOk_write_def connectionSecureOk_read_def connectionSecureOk_fits_def
  by ((elim conjE)?, (rule conveys_seq conveys_done conveyed | assumption)+, simp add: connectionSecureOk_zero_def)

lemma connectionTune_sound [intro]: "length bs \<le> k \<Longrightarrow> sound k (connectionTune_read me bs)"
  unfolding connectionTune_read_def by ((rule sound_rbind_same sound_uses sound_done | assumption)+)

lemma connectionTune_conveyed [conveyed]:
  "connectionTune_fits m \<Longrightarrow> conveys (connectionTune_write m) (connectionTune_read connectionTune_zero) m"
  unfolding connectionTune_write_def connectionTune_read_def connectionTune_fits_def
  by ((elim conjE)?, (rule conveys_seq conveys_done conveyed | assumption)+, simp add: connectionTune_zero_def)

lemma connectionTuneOk_sound [intro]: "length bs \<le> k \<Longrightarrow> sound k (connectionTuneOk_read me bs)"
  unfolding connectionTuneOk_read_def by ((rule sound_rbind_same sound_uses sound_done | assumption)+)

lemma connectionTuneOk_conveyed [conveyed]:
  "connectionTuneOk_fits m \<Longrightarrow> conveys (connectionTuneOk_write m) (connectionTuneOk_read connectionTuneOk_zero) m"
  unfolding connectionTuneOk_write_def connectionTuneOk_read_def connectionTuneOk_fits_def
  by ((elim conjE)?, (rule conveys_seq conveys_done conveyed | assumption)+, simp add: connectionTuneOk_zero_def)

lemma connectionOpen_sound [intro]: "length bs \<le> k \<Longrightarrow> sound k (connectionOpen_read me bs)"
  unfolding connectionOpen_read_def by ((rule sound_rbind_same sound_uses sound_done | assumption)+)

lemma connectionOpen_conveyed [conveyed]:
  "connectionOpen_fits m \<Longrightarrow> conveys (connectionOpen_write m) (connectionOpen_read connectionOpen_zero) m"
  unfolding connectionOpen_write_def connectionOpen_read_def connectionOpen_fits_def
  by ((elim conjE)?, (rule conveys_seq conveys_done conveyed | assumption)+, simp add: connectionOpen_zero_def)

lemma connectionOpenOk_sound [intro]: "length bs \<le> k \<Longrightarrow> sound k (connectionOpenOk_read me bs)"
  unfolding connectionOpenOk_read_def by ((rule sound_rbind_same sound_uses sound_done | assumption)+)

lemma connectionOpenOk_conveyed [conveyed]:
  "connectionOpenOk_fits m \<Longrightarrow> conveys (connectionOpenOk_write m) (connectionOpenOk_read connectionOpenOk_zero) m"
  unfolding connectionOpenOk_write_def connectionOpenOk_read_def connectionOpenOk_fits_def
  by ((elim conjE)?, (rule conveys_seq conveys_done conveyed | assumption)+, simp add: connectionOpenOk_zero_def)

lemma connectionClose_sound [intro]: "length bs \<le> k \<Longrightarrow> sound k (connectionClose_read me bs)"
  unfolding connectionClose_read_def by ((rule sound_rbind_same sound_uses sound_done | assumption)+)

lemma connectionClose_conveyed [conveyed]:
  "connectionClose_fits m \<Longrightarrow> conveys (connectionClose_write m) (connectionClose_read connectionClose_zero) m"
  unfolding connectionClose_write_def connectionClose_read_def connectionClose_fits_def
  by ((elim conjE)?, (rule conveys_seq conveys_done conveyed | assumption)+, simp add: connectionClose_zero_def)

lemma connectionCloseOk_sound [intro]: "length bs \<le> k \<Longrightarrow> sound k (connectionCloseOk_read me bs)"
  unfolding connectionCloseOk_read_def by (rule sound_done)

lemma connectionCloseOk_conveyed [conveyed]: "conveys (connectionCloseOk_write m) (connectionCloseOk_read connectionCloseOk_zero) m"
  unfolding connectionCloseOk_write_def connectionCloseOk_read_def by (cases m) (simp add: conveys_def connectionCloseOk_zero_def)

lemma connectionBlocked_sound [intro]: "length bs \<le> k \<Longrightarrow> sound k (connectionBlocked_read me bs)"
  unfolding connectionBlocked_read_def by ((rule sound_rbind_same sound_uses sound_done | assumption)+)

lemma connectionBlocked_conveyed [conveyed]:
  "connectionBlocked_fits m \<Longrightarrow> conveys (connectionBlocked_write m) (connectionBlocked_read connectionBlocked_zero) m"
  unfolding connectionBlocked_write_def connectionBlocked_read_def connectionBlocked_fits_def
  by ((elim conjE)?, (rule conveys_seq conveys_done conveyed | assumption)+, simp add: connectionBlocked_zero_def)

lemma connectionUnblocked_sound [intro]: "length bs \<le> k \<Longrightarrow> sound k (connectionUnblocked_read me bs)"
  unfolding connectionUnblocked_read_def by (rule sound_done)

lemma connectionUnblocked_conveyed [conveyed]: "conveys (connectionUnblocked_write m) (connectionUnblocked_read connectionUnblocked_zero) m"
  unfolding connectionUnblocked_write_def connectionUnblocked_read_def by (cases m) (simp add: conveys_def connectionUnblocked_zero_def)

lemma connection_conveyed:
  "connection_fits m \<Longrightarrow> conveys (connection_write m) (parse_connection (snd (connection_id m))) m"
  unfolding parse_connection_def
  by (cases m) (auto simp: connectionStart_id_def connectionStartOk_id_def connectionSecure_id_def connectionSecureOk_id_def connectionTune_id_def connectionTuneOk_id_def connectionOpen_id_def connectionOpenOk_id_def connectionClose_id_def connectionCloseOk_id_def connectionBlocked_id_def connectionUnblocked_id_def intro!: conveys_map conveyed)

lemma connection_sound: "length bs \<le> k \<Longrightarrow> sound k (parse_connection i bs)"
  unfolding parse_connection_def by (auto intro!: sound_rbind_same sound_done)

lemma connection_class: "fst (connection_id m) = 10"
  by (cases m) (simp_all add: connectionStart_id_def connectionStartOk_id_def connectionSecure_id_def connectionSecureOk_id_def connectionTune_id_def connectionTuneOk_id_def connectionOpen_id_def connectionOpenOk_id_def connectionClose_id_def connectionCloseOk_id_def connectionBlocked_id_def connectionUnblocked_id_def)

end
