(* ===== verification/Amqp_Channel.thy ===== *)
theory Amqp_Channel
  imports Amqp_Types
begin

text \<open>
  The methods of classes channel and exchange of the vendored AMQP client (\<open>spec091.go\<close>): one record per method (a
  struct without fields is \<open>unit\<close>), with its \<open>id\<close>, \<open>wait\<close>, \<open>write\<close> and \<open>read\<close>; the class as a
  datatype; and the round trip of every method whose strings and tables fit their prefixes.
\<close>

section \<open>Class channel\<close>

text \<open>\<open>channelOpen\<close>\<close>

record channelOpen =
  channelOpen_reserved1 :: bytes

definition channelOpen_zero :: channelOpen where
  "channelOpen_zero = \<lparr>channelOpen_reserved1 = []\<rparr>"

definition channelOpen_id :: "channelOpen \<Rightarrow> 16 word \<times> 16 word" where
  "channelOpen_id me = (20, 10)"

definition channelOpen_wait :: "channelOpen \<Rightarrow> bool" where
  "channelOpen_wait me = True"

definition channelOpen_write :: "channelOpen \<Rightarrow> wr" where
  "channelOpen_write me =
     wseq (writeShortstr (channelOpen_reserved1 me)) (Inr [])"

definition channelOpen_read :: "channelOpen \<Rightarrow> bytes \<Rightarrow> channelOpen rd" where
  "channelOpen_read me bs =
     rbind (readShortstr bs) (\<lambda>v0 r.
     Ok (me\<lparr>channelOpen_reserved1 := v0\<rparr>) r)"

definition channelOpen_fits :: "channelOpen \<Rightarrow> bool" where
  "channelOpen_fits m \<longleftrightarrow> length (channelOpen_reserved1 m) < 256"

text \<open>\<open>channelOpenOk\<close>\<close>

record channelOpenOk =
  channelOpenOk_reserved1 :: bytes

definition channelOpenOk_zero :: channelOpenOk where
  "channelOpenOk_zero = \<lparr>channelOpenOk_reserved1 = []\<rparr>"

definition channelOpenOk_id :: "channelOpenOk \<Rightarrow> 16 word \<times> 16 word" where
  "channelOpenOk_id me = (20, 11)"

definition channelOpenOk_wait :: "channelOpenOk \<Rightarrow> bool" where
  "channelOpenOk_wait me = True"

definition channelOpenOk_write :: "channelOpenOk \<Rightarrow> wr" where
  "channelOpenOk_write me =
     wseq (writeLongstr (channelOpenOk_reserved1 me)) (Inr [])"

definition channelOpenOk_read :: "channelOpenOk \<Rightarrow> bytes \<Rightarrow> channelOpenOk rd" where
  "channelOpenOk_read me bs =
     rbind (readLongstr bs) (\<lambda>v0 r.
     Ok (me\<lparr>channelOpenOk_reserved1 := v0\<rparr>) r)"

definition channelOpenOk_fits :: "channelOpenOk \<Rightarrow> bool" where
  "channelOpenOk_fits m \<longleftrightarrow> length (channelOpenOk_reserved1 m) < 2 ^ 32"

text \<open>\<open>channelFlow\<close>\<close>

record channelFlow =
  channelFlow_Active :: bool

definition channelFlow_zero :: channelFlow where
  "channelFlow_zero = \<lparr>channelFlow_Active = False\<rparr>"

definition channelFlow_id :: "channelFlow \<Rightarrow> 16 word \<times> 16 word" where
  "channelFlow_id me = (20, 20)"

definition channelFlow_wait :: "channelFlow \<Rightarrow> bool" where
  "channelFlow_wait me = True"

definition channelFlow_write :: "channelFlow \<Rightarrow> wr" where
  "channelFlow_write me =
     wseq (write_u8 (or_bit (channelFlow_Active me) 0 0)) (Inr [])"

definition channelFlow_read :: "channelFlow \<Rightarrow> bytes \<Rightarrow> channelFlow rd" where
  "channelFlow_read me bs =
     rbind (read_u8 bs) (\<lambda>v0 r.
     Ok (me\<lparr>channelFlow_Active := has_bit 0 v0\<rparr>) r)"

definition channelFlow_fits :: "channelFlow \<Rightarrow> bool" where
  "channelFlow_fits m \<longleftrightarrow> True"

text \<open>\<open>channelFlowOk\<close>\<close>

record channelFlowOk =
  channelFlowOk_Active :: bool

definition channelFlowOk_zero :: channelFlowOk where
  "channelFlowOk_zero = \<lparr>channelFlowOk_Active = False\<rparr>"

definition channelFlowOk_id :: "channelFlowOk \<Rightarrow> 16 word \<times> 16 word" where
  "channelFlowOk_id me = (20, 21)"

definition channelFlowOk_wait :: "channelFlowOk \<Rightarrow> bool" where
  "channelFlowOk_wait me = False"

definition channelFlowOk_write :: "channelFlowOk \<Rightarrow> wr" where
  "channelFlowOk_write me =
     wseq (write_u8 (or_bit (channelFlowOk_Active me) 0 0)) (Inr [])"

definition channelFlowOk_read :: "channelFlowOk \<Rightarrow> bytes \<Rightarrow> channelFlowOk rd" where
  "channelFlowOk_read me bs =
     rbind (read_u8 bs) (\<lambda>v0 r.
     Ok (me\<lparr>channelFlowOk_Active := has_bit 0 v0\<rparr>) r)"

definition channelFlowOk_fits :: "channelFlowOk \<Rightarrow> bool" where
  "channelFlowOk_fits m \<longleftrightarrow> True"

text \<open>\<open>channelClose\<close>\<close>

record channelClose =
  channelClose_ReplyCode :: "16 word"
  channelClose_ReplyText :: bytes
  channelClose_ClassId :: "16 word"
  channelClose_MethodId :: "16 word"

definition channelClose_zero :: channelClose where
  "channelClose_zero = \<lparr>channelClose_ReplyCode = 0, channelClose_ReplyText = [], channelClose_ClassId = 0, channelClose_MethodId = 0\<rparr>"

definition channelClose_id :: "channelClose \<Rightarrow> 16 word \<times> 16 word" where
  "channelClose_id me = (20, 40)"

definition channelClose_wait :: "channelClose \<Rightarrow> bool" where
  "channelClose_wait me = True"

definition channelClose_write :: "channelClose \<Rightarrow> wr" where
  "channelClose_write me =
     wseq (write_u16 (channelClose_ReplyCode me)) (
     wseq (writeShortstr (channelClose_ReplyText me)) (
     wseq (write_u16 (channelClose_ClassId me)) (
     wseq (write_u16 (channelClose_MethodId me)) (Inr []))))"

definition channelClose_read :: "channelClose \<Rightarrow> bytes \<Rightarrow> channelClose rd" where
  "channelClose_read me bs =
     rbind (read_u16 bs) (\<lambda>v0 r.
     rbind (readShortstr r) (\<lambda>v1 r.
     rbind (read_u16 r) (\<lambda>v2 r.
     rbind (read_u16 r) (\<lambda>v3 r.
     Ok (me\<lparr>channelClose_ReplyCode := v0, channelClose_ReplyText := v1, channelClose_ClassId := v2, channelClose_MethodId := v3\<rparr>) r))))"

definition channelClose_fits :: "channelClose \<Rightarrow> bool" where
  "channelClose_fits m \<longleftrightarrow> length (channelClose_ReplyText m) < 256"

text \<open>\<open>channelCloseOk\<close>\<close>

datatype channelCloseOk = channelCloseOk

definition channelCloseOk_zero :: channelCloseOk where
  "channelCloseOk_zero = channelCloseOk"

definition channelCloseOk_id :: "channelCloseOk \<Rightarrow> 16 word \<times> 16 word" where
  "channelCloseOk_id me = (20, 41)"

definition channelCloseOk_wait :: "channelCloseOk \<Rightarrow> bool" where
  "channelCloseOk_wait me = True"

definition channelCloseOk_write :: "channelCloseOk \<Rightarrow> wr" where
  "channelCloseOk_write me =
     Inr []"

definition channelCloseOk_read :: "channelCloseOk \<Rightarrow> bytes \<Rightarrow> channelCloseOk rd" where
  "channelCloseOk_read me bs =
     Ok me bs"

definition channelCloseOk_fits :: "channelCloseOk \<Rightarrow> bool" where
  "channelCloseOk_fits m \<longleftrightarrow> True"

text \<open>The methods of the class, their \<open>id\<close>, \<open>wait\<close> and \<open>write\<close>, and their part of the
  switch of \<open>parseMethodFrame\<close>.\<close>

datatype channel_message =
    ChannelOpen channelOpen
  | ChannelOpenOk channelOpenOk
  | ChannelFlow channelFlow
  | ChannelFlowOk channelFlowOk
  | ChannelClose channelClose
  | ChannelCloseOk channelCloseOk

fun channel_id :: "channel_message \<Rightarrow> 16 word \<times> 16 word" where
  "channel_id (ChannelOpen m) = channelOpen_id m"
| "channel_id (ChannelOpenOk m) = channelOpenOk_id m"
| "channel_id (ChannelFlow m) = channelFlow_id m"
| "channel_id (ChannelFlowOk m) = channelFlowOk_id m"
| "channel_id (ChannelClose m) = channelClose_id m"
| "channel_id (ChannelCloseOk m) = channelCloseOk_id m"

fun channel_wait :: "channel_message \<Rightarrow> bool" where
  "channel_wait (ChannelOpen m) = channelOpen_wait m"
| "channel_wait (ChannelOpenOk m) = channelOpenOk_wait m"
| "channel_wait (ChannelFlow m) = channelFlow_wait m"
| "channel_wait (ChannelFlowOk m) = channelFlowOk_wait m"
| "channel_wait (ChannelClose m) = channelClose_wait m"
| "channel_wait (ChannelCloseOk m) = channelCloseOk_wait m"

fun channel_write :: "channel_message \<Rightarrow> wr" where
  "channel_write (ChannelOpen m) = channelOpen_write m"
| "channel_write (ChannelOpenOk m) = channelOpenOk_write m"
| "channel_write (ChannelFlow m) = channelFlow_write m"
| "channel_write (ChannelFlowOk m) = channelFlowOk_write m"
| "channel_write (ChannelClose m) = channelClose_write m"
| "channel_write (ChannelCloseOk m) = channelCloseOk_write m"

fun channel_fits :: "channel_message \<Rightarrow> bool" where
  "channel_fits (ChannelOpen m) = channelOpen_fits m"
| "channel_fits (ChannelOpenOk m) = channelOpenOk_fits m"
| "channel_fits (ChannelFlow m) = channelFlow_fits m"
| "channel_fits (ChannelFlowOk m) = channelFlowOk_fits m"
| "channel_fits (ChannelClose m) = channelClose_fits m"
| "channel_fits (ChannelCloseOk m) = channelCloseOk_fits m"

definition parse_channel :: "16 word \<Rightarrow> bytes \<Rightarrow> channel_message rd" where
  "parse_channel method bs =
    (if method = 10 then rbind (channelOpen_read channelOpen_zero bs) (\<lambda>m. Ok (ChannelOpen m))
     else if method = 11 then rbind (channelOpenOk_read channelOpenOk_zero bs) (\<lambda>m. Ok (ChannelOpenOk m))
     else if method = 20 then rbind (channelFlow_read channelFlow_zero bs) (\<lambda>m. Ok (ChannelFlow m))
     else if method = 21 then rbind (channelFlowOk_read channelFlowOk_zero bs) (\<lambda>m. Ok (ChannelFlowOk m))
     else if method = 40 then rbind (channelClose_read channelClose_zero bs) (\<lambda>m. Ok (ChannelClose m))
     else if method = 41 then rbind (channelCloseOk_read channelCloseOk_zero bs) (\<lambda>m. Ok (ChannelCloseOk m))
     else Fail (UnknownMethod method 20) bs)"

section \<open>Class exchange\<close>

text \<open>\<open>exchangeDeclare\<close>\<close>

record exchangeDeclare =
  exchangeDeclare_reserved1 :: "16 word"
  exchangeDeclare_Exchange :: bytes
  exchangeDeclare_Type :: bytes
  exchangeDeclare_Passive :: bool
  exchangeDeclare_Durable :: bool
  exchangeDeclare_AutoDelete :: bool
  exchangeDeclare_Internal :: bool
  exchangeDeclare_NoWait :: bool
  exchangeDeclare_Arguments :: table

definition exchangeDeclare_zero :: exchangeDeclare where
  "exchangeDeclare_zero = \<lparr>exchangeDeclare_reserved1 = 0, exchangeDeclare_Exchange = [], exchangeDeclare_Type = [], exchangeDeclare_Passive = False, exchangeDeclare_Durable = False, exchangeDeclare_AutoDelete = False, exchangeDeclare_Internal = False, exchangeDeclare_NoWait = False, exchangeDeclare_Arguments = []\<rparr>"

definition exchangeDeclare_id :: "exchangeDeclare \<Rightarrow> 16 word \<times> 16 word" where
  "exchangeDeclare_id me = (40, 10)"

definition exchangeDeclare_wait :: "exchangeDeclare \<Rightarrow> bool" where
  "exchangeDeclare_wait me = (\<not> exchangeDeclare_NoWait me)"

definition exchangeDeclare_write :: "exchangeDeclare \<Rightarrow> wr" where
  "exchangeDeclare_write me =
     wseq (write_u16 (exchangeDeclare_reserved1 me)) (
     wseq (writeShortstr (exchangeDeclare_Exchange me)) (
     wseq (writeShortstr (exchangeDeclare_Type me)) (
     wseq (write_u8 (or_bit (exchangeDeclare_NoWait me) 4 (or_bit (exchangeDeclare_Internal me) 3 (or_bit (exchangeDeclare_AutoDelete me) 2 (or_bit (exchangeDeclare_Durable me) 1 (or_bit (exchangeDeclare_Passive me) 0 0)))))) (
     wseq (writeTable (exchangeDeclare_Arguments me)) (Inr [])))))"

definition exchangeDeclare_read :: "exchangeDeclare \<Rightarrow> bytes \<Rightarrow> exchangeDeclare rd" where
  "exchangeDeclare_read me bs =
     rbind (read_u16 bs) (\<lambda>v0 r.
     rbind (readShortstr r) (\<lambda>v1 r.
     rbind (readShortstr r) (\<lambda>v2 r.
     rbind (read_u8 r) (\<lambda>v3 r.
     rbind (read_table r) (\<lambda>v4 r.
     Ok (me\<lparr>exchangeDeclare_reserved1 := v0, exchangeDeclare_Exchange := v1, exchangeDeclare_Type := v2, exchangeDeclare_Passive := has_bit 0 v3, exchangeDeclare_Durable := has_bit 1 v3, exchangeDeclare_AutoDelete := has_bit 2 v3, exchangeDeclare_Internal := has_bit 3 v3, exchangeDeclare_NoWait := has_bit 4 v3, exchangeDeclare_Arguments := v4\<rparr>) r)))))"

definition exchangeDeclare_fits :: "exchangeDeclare \<Rightarrow> bool" where
  "exchangeDeclare_fits m \<longleftrightarrow> length (exchangeDeclare_Exchange m) < 256 \<and> length (exchangeDeclare_Type m) < 256 \<and> ok_table (exchangeDeclare_Arguments m)"

text \<open>\<open>exchangeDeclareOk\<close>\<close>

datatype exchangeDeclareOk = exchangeDeclareOk

definition exchangeDeclareOk_zero :: exchangeDeclareOk where
  "exchangeDeclareOk_zero = exchangeDeclareOk"

definition exchangeDeclareOk_id :: "exchangeDeclareOk \<Rightarrow> 16 word \<times> 16 word" where
  "exchangeDeclareOk_id me = (40, 11)"

definition exchangeDeclareOk_wait :: "exchangeDeclareOk \<Rightarrow> bool" where
  "exchangeDeclareOk_wait me = True"

definition exchangeDeclareOk_write :: "exchangeDeclareOk \<Rightarrow> wr" where
  "exchangeDeclareOk_write me =
     Inr []"

definition exchangeDeclareOk_read :: "exchangeDeclareOk \<Rightarrow> bytes \<Rightarrow> exchangeDeclareOk rd" where
  "exchangeDeclareOk_read me bs =
     Ok me bs"

definition exchangeDeclareOk_fits :: "exchangeDeclareOk \<Rightarrow> bool" where
  "exchangeDeclareOk_fits m \<longleftrightarrow> True"

text \<open>\<open>exchangeDelete\<close>\<close>

record exchangeDelete =
  exchangeDelete_reserved1 :: "16 word"
  exchangeDelete_Exchange :: bytes
  exchangeDelete_IfUnused :: bool
  exchangeDelete_NoWait :: bool

definition exchangeDelete_zero :: exchangeDelete where
  "exchangeDelete_zero = \<lparr>exchangeDelete_reserved1 = 0, exchangeDelete_Exchange = [], exchangeDelete_IfUnused = False, exchangeDelete_NoWait = False\<rparr>"

definition exchangeDelete_id :: "exchangeDelete \<Rightarrow> 16 word \<times> 16 word" where
  "exchangeDelete_id me = (40, 20)"

definition exchangeDelete_wait :: "exchangeDelete \<Rightarrow> bool" where
  "exchangeDelete_wait me = (\<not> exchangeDelete_NoWait me)"

definition exchangeDelete_write :: "exchangeDelete \<Rightarrow> wr" where
  "exchangeDelete_write me =
     wseq (write_u16 (exchangeDelete_reserved1 me)) (
     wseq (writeShortstr (exchangeDelete_Exchange me)) (
     wseq (write_u8 (or_bit (exchangeDelete_NoWait me) 1 (or_bit (exchangeDelete_IfUnused me) 0 0))) (Inr [])))"

definition exchangeDelete_read :: "exchangeDelete \<Rightarrow> bytes \<Rightarrow> exchangeDelete rd" where
  "exchangeDelete_read me bs =
     rbind (read_u16 bs) (\<lambda>v0 r.
     rbind (readShortstr r) (\<lambda>v1 r.
     rbind (read_u8 r) (\<lambda>v2 r.
     Ok (me\<lparr>exchangeDelete_reserved1 := v0, exchangeDelete_Exchange := v1, exchangeDelete_IfUnused := has_bit 0 v2, exchangeDelete_NoWait := has_bit 1 v2\<rparr>) r)))"

definition exchangeDelete_fits :: "exchangeDelete \<Rightarrow> bool" where
  "exchangeDelete_fits m \<longleftrightarrow> length (exchangeDelete_Exchange m) < 256"

text \<open>\<open>exchangeDeleteOk\<close>\<close>

datatype exchangeDeleteOk = exchangeDeleteOk

definition exchangeDeleteOk_zero :: exchangeDeleteOk where
  "exchangeDeleteOk_zero = exchangeDeleteOk"

definition exchangeDeleteOk_id :: "exchangeDeleteOk \<Rightarrow> 16 word \<times> 16 word" where
  "exchangeDeleteOk_id me = (40, 21)"

definition exchangeDeleteOk_wait :: "exchangeDeleteOk \<Rightarrow> bool" where
  "exchangeDeleteOk_wait me = True"

definition exchangeDeleteOk_write :: "exchangeDeleteOk \<Rightarrow> wr" where
  "exchangeDeleteOk_write me =
     Inr []"

definition exchangeDeleteOk_read :: "exchangeDeleteOk \<Rightarrow> bytes \<Rightarrow> exchangeDeleteOk rd" where
  "exchangeDeleteOk_read me bs =
     Ok me bs"

definition exchangeDeleteOk_fits :: "exchangeDeleteOk \<Rightarrow> bool" where
  "exchangeDeleteOk_fits m \<longleftrightarrow> True"

text \<open>\<open>exchangeBind\<close>\<close>

record exchangeBind =
  exchangeBind_reserved1 :: "16 word"
  exchangeBind_Destination :: bytes
  exchangeBind_Source :: bytes
  exchangeBind_RoutingKey :: bytes
  exchangeBind_NoWait :: bool
  exchangeBind_Arguments :: table

definition exchangeBind_zero :: exchangeBind where
  "exchangeBind_zero = \<lparr>exchangeBind_reserved1 = 0, exchangeBind_Destination = [], exchangeBind_Source = [], exchangeBind_RoutingKey = [], exchangeBind_NoWait = False, exchangeBind_Arguments = []\<rparr>"

definition exchangeBind_id :: "exchangeBind \<Rightarrow> 16 word \<times> 16 word" where
  "exchangeBind_id me = (40, 30)"

definition exchangeBind_wait :: "exchangeBind \<Rightarrow> bool" where
  "exchangeBind_wait me = (\<not> exchangeBind_NoWait me)"

definition exchangeBind_write :: "exchangeBind \<Rightarrow> wr" where
  "exchangeBind_write me =
     wseq (write_u16 (exchangeBind_reserved1 me)) (
     wseq (writeShortstr (exchangeBind_Destination me)) (
     wseq (writeShortstr (exchangeBind_Source me)) (
     wseq (writeShortstr (exchangeBind_RoutingKey me)) (
     wseq (write_u8 (or_bit (exchangeBind_NoWait me) 0 0)) (
     wseq (writeTable (exchangeBind_Arguments me)) (Inr []))))))"

definition exchangeBind_read :: "exchangeBind \<Rightarrow> bytes \<Rightarrow> exchangeBind rd" where
  "exchangeBind_read me bs =
     rbind (read_u16 bs) (\<lambda>v0 r.
     rbind (readShortstr r) (\<lambda>v1 r.
     rbind (readShortstr r) (\<lambda>v2 r.
     rbind (readShortstr r) (\<lambda>v3 r.
     rbind (read_u8 r) (\<lambda>v4 r.
     rbind (read_table r) (\<lambda>v5 r.
     Ok (me\<lparr>exchangeBind_reserved1 := v0, exchangeBind_Destination := v1, exchangeBind_Source := v2, exchangeBind_RoutingKey := v3, exchangeBind_NoWait := has_bit 0 v4, exchangeBind_Arguments := v5\<rparr>) r))))))"

definition exchangeBind_fits :: "exchangeBind \<Rightarrow> bool" where
  "exchangeBind_fits m \<longleftrightarrow> length (exchangeBind_Destination m) < 256 \<and> length (exchangeBind_Source m) < 256 \<and> length (exchangeBind_RoutingKey m) < 256 \<and> ok_table (exchangeBind_Arguments m)"

text \<open>\<open>exchangeBindOk\<close>\<close>

datatype exchangeBindOk = exchangeBindOk

definition exchangeBindOk_zero :: exchangeBindOk where
  "exchangeBindOk_zero = exchangeBindOk"

definition exchangeBindOk_id :: "exchangeBindOk \<Rightarrow> 16 word \<times> 16 word" where
  "exchangeBindOk_id me = (40, 31)"

definition exchangeBindOk_wait :: "exchangeBindOk \<Rightarrow> bool" where
  "exchangeBindOk_wait me = True"

definition exchangeBindOk_write :: "exchangeBindOk \<Rightarrow> wr" where
  "exchangeBindOk_write me =
     Inr []"

definition exchangeBindOk_read :: "exchangeBindOk \<Rightarrow> bytes \<Rightarrow> exchangeBindOk rd" where
  "exchangeBindOk_read me bs =
     Ok me bs"

definition exchangeBindOk_fits :: "exchangeBindOk \<Rightarrow> bool" where
  "exchangeBindOk_fits m \<longleftrightarrow> True"

text \<open>\<open>exchangeUnbind\<close>\<close>

record exchangeUnbind =
  exchangeUnbind_reserved1 :: "16 word"
  exchangeUnbind_Destination :: bytes
  exchangeUnbind_Source :: bytes
  exchangeUnbind_RoutingKey :: bytes
  exchangeUnbind_NoWait :: bool
  exchangeUnbind_Arguments :: table

definition exchangeUnbind_zero :: exchangeUnbind where
  "exchangeUnbind_zero = \<lparr>exchangeUnbind_reserved1 = 0, exchangeUnbind_Destination = [], exchangeUnbind_Source = [], exchangeUnbind_RoutingKey = [], exchangeUnbind_NoWait = False, exchangeUnbind_Arguments = []\<rparr>"

definition exchangeUnbind_id :: "exchangeUnbind \<Rightarrow> 16 word \<times> 16 word" where
  "exchangeUnbind_id me = (40, 40)"

definition exchangeUnbind_wait :: "exchangeUnbind \<Rightarrow> bool" where
  "exchangeUnbind_wait me = (\<not> exchangeUnbind_NoWait me)"

definition exchangeUnbind_write :: "exchangeUnbind \<Rightarrow> wr" where
  "exchangeUnbind_write me =
     wseq (write_u16 (exchangeUnbind_reserved1 me)) (
     wseq (writeShortstr (exchangeUnbind_Destination me)) (
     wseq (writeShortstr (exchangeUnbind_Source me)) (
     wseq (writeShortstr (exchangeUnbind_RoutingKey me)) (
     wseq (write_u8 (or_bit (exchangeUnbind_NoWait me) 0 0)) (
     wseq (writeTable (exchangeUnbind_Arguments me)) (Inr []))))))"

definition exchangeUnbind_read :: "exchangeUnbind \<Rightarrow> bytes \<Rightarrow> exchangeUnbind rd" where
  "exchangeUnbind_read me bs =
     rbind (read_u16 bs) (\<lambda>v0 r.
     rbind (readShortstr r) (\<lambda>v1 r.
     rbind (readShortstr r) (\<lambda>v2 r.
     rbind (readShortstr r) (\<lambda>v3 r.
     rbind (read_u8 r) (\<lambda>v4 r.
     rbind (read_table r) (\<lambda>v5 r.
     Ok (me\<lparr>exchangeUnbind_reserved1 := v0, exchangeUnbind_Destination := v1, exchangeUnbind_Source := v2, exchangeUnbind_RoutingKey := v3, exchangeUnbind_NoWait := has_bit 0 v4, exchangeUnbind_Arguments := v5\<rparr>) r))))))"

definition exchangeUnbind_fits :: "exchangeUnbind \<Rightarrow> bool" where
  "exchangeUnbind_fits m \<longleftrightarrow> length (exchangeUnbind_Destination m) < 256 \<and> length (exchangeUnbind_Source m) < 256 \<and> length (exchangeUnbind_RoutingKey m) < 256 \<and> ok_table (exchangeUnbind_Arguments m)"

text \<open>\<open>exchangeUnbindOk\<close>\<close>

datatype exchangeUnbindOk = exchangeUnbindOk

definition exchangeUnbindOk_zero :: exchangeUnbindOk where
  "exchangeUnbindOk_zero = exchangeUnbindOk"

definition exchangeUnbindOk_id :: "exchangeUnbindOk \<Rightarrow> 16 word \<times> 16 word" where
  "exchangeUnbindOk_id me = (40, 51)"

definition exchangeUnbindOk_wait :: "exchangeUnbindOk \<Rightarrow> bool" where
  "exchangeUnbindOk_wait me = True"

definition exchangeUnbindOk_write :: "exchangeUnbindOk \<Rightarrow> wr" where
  "exchangeUnbindOk_write me =
     Inr []"

definition exchangeUnbindOk_read :: "exchangeUnbindOk \<Rightarrow> bytes \<Rightarrow> exchangeUnbindOk rd" where
  "exchangeUnbindOk_read me bs =
     Ok me bs"

definition exchangeUnbindOk_fits :: "exchangeUnbindOk \<Rightarrow> bool" where
  "exchangeUnbindOk_fits m \<longleftrightarrow> True"

text \<open>The methods of the class, their \<open>id\<close>, \<open>wait\<close> and \<open>write\<close>, and their part of the
  switch of \<open>parseMethodFrame\<close>.\<close>

datatype exchange_message =
    ExchangeDeclare exchangeDeclare
  | ExchangeDeclareOk exchangeDeclareOk
  | ExchangeDelete exchangeDelete
  | ExchangeDeleteOk exchangeDeleteOk
  | ExchangeBind exchangeBind
  | ExchangeBindOk exchangeBindOk
  | ExchangeUnbind exchangeUnbind
  | ExchangeUnbindOk exchangeUnbindOk

fun exchange_id :: "exchange_message \<Rightarrow> 16 word \<times> 16 word" where
  "exchange_id (ExchangeDeclare m) = exchangeDeclare_id m"
| "exchange_id (ExchangeDeclareOk m) = exchangeDeclareOk_id m"
| "exchange_id (ExchangeDelete m) = exchangeDelete_id m"
| "exchange_id (ExchangeDeleteOk m) = exchangeDeleteOk_id m"
| "exchange_id (ExchangeBind m) = exchangeBind_id m"
| "exchange_id (ExchangeBindOk m) = exchangeBindOk_id m"
| "exchange_id (ExchangeUnbind m) = exchangeUnbind_id m"
| "exchange_id (ExchangeUnbindOk m) = exchangeUnbindOk_id m"

fun exchange_wait :: "exchange_message \<Rightarrow> bool" where
  "exchange_wait (ExchangeDeclare m) = exchangeDeclare_wait m"
| "exchange_wait (ExchangeDeclareOk m) = exchangeDeclareOk_wait m"
| "exchange_wait (ExchangeDelete m) = exchangeDelete_wait m"
| "exchange_wait (ExchangeDeleteOk m) = exchangeDeleteOk_wait m"
| "exchange_wait (ExchangeBind m) = exchangeBind_wait m"
| "exchange_wait (ExchangeBindOk m) = exchangeBindOk_wait m"
| "exchange_wait (ExchangeUnbind m) = exchangeUnbind_wait m"
| "exchange_wait (ExchangeUnbindOk m) = exchangeUnbindOk_wait m"

fun exchange_write :: "exchange_message \<Rightarrow> wr" where
  "exchange_write (ExchangeDeclare m) = exchangeDeclare_write m"
| "exchange_write (ExchangeDeclareOk m) = exchangeDeclareOk_write m"
| "exchange_write (ExchangeDelete m) = exchangeDelete_write m"
| "exchange_write (ExchangeDeleteOk m) = exchangeDeleteOk_write m"
| "exchange_write (ExchangeBind m) = exchangeBind_write m"
| "exchange_write (ExchangeBindOk m) = exchangeBindOk_write m"
| "exchange_write (ExchangeUnbind m) = exchangeUnbind_write m"
| "exchange_write (ExchangeUnbindOk m) = exchangeUnbindOk_write m"

fun exchange_fits :: "exchange_message \<Rightarrow> bool" where
  "exchange_fits (ExchangeDeclare m) = exchangeDeclare_fits m"
| "exchange_fits (ExchangeDeclareOk m) = exchangeDeclareOk_fits m"
| "exchange_fits (ExchangeDelete m) = exchangeDelete_fits m"
| "exchange_fits (ExchangeDeleteOk m) = exchangeDeleteOk_fits m"
| "exchange_fits (ExchangeBind m) = exchangeBind_fits m"
| "exchange_fits (ExchangeBindOk m) = exchangeBindOk_fits m"
| "exchange_fits (ExchangeUnbind m) = exchangeUnbind_fits m"
| "exchange_fits (ExchangeUnbindOk m) = exchangeUnbindOk_fits m"

definition parse_exchange :: "16 word \<Rightarrow> bytes \<Rightarrow> exchange_message rd" where
  "parse_exchange method bs =
    (if method = 10 then rbind (exchangeDeclare_read exchangeDeclare_zero bs) (\<lambda>m. Ok (ExchangeDeclare m))
     else if method = 11 then rbind (exchangeDeclareOk_read exchangeDeclareOk_zero bs) (\<lambda>m. Ok (ExchangeDeclareOk m))
     else if method = 20 then rbind (exchangeDelete_read exchangeDelete_zero bs) (\<lambda>m. Ok (ExchangeDelete m))
     else if method = 21 then rbind (exchangeDeleteOk_read exchangeDeleteOk_zero bs) (\<lambda>m. Ok (ExchangeDeleteOk m))
     else if method = 30 then rbind (exchangeBind_read exchangeBind_zero bs) (\<lambda>m. Ok (ExchangeBind m))
     else if method = 31 then rbind (exchangeBindOk_read exchangeBindOk_zero bs) (\<lambda>m. Ok (ExchangeBindOk m))
     else if method = 40 then rbind (exchangeUnbind_read exchangeUnbind_zero bs) (\<lambda>m. Ok (ExchangeUnbind m))
     else if method = 51 then rbind (exchangeUnbindOk_read exchangeUnbindOk_zero bs) (\<lambda>m. Ok (ExchangeUnbindOk m))
     else Fail (UnknownMethod method 40) bs)"

section \<open>Round trips of class channel\<close>

lemma channelOpen_sound [intro]: "length bs \<le> k \<Longrightarrow> sound k (channelOpen_read me bs)"
  unfolding channelOpen_read_def by ((rule sound_rbind_same sound_uses sound_done | assumption)+)

lemma channelOpen_conveyed [conveyed]:
  "channelOpen_fits m \<Longrightarrow> conveys (channelOpen_write m) (channelOpen_read channelOpen_zero) m"
  unfolding channelOpen_write_def channelOpen_read_def channelOpen_fits_def
  by ((elim conjE)?, (rule conveys_seq conveys_done conveyed | assumption)+, simp add: channelOpen_zero_def)

lemma channelOpenOk_sound [intro]: "length bs \<le> k \<Longrightarrow> sound k (channelOpenOk_read me bs)"
  unfolding channelOpenOk_read_def by ((rule sound_rbind_same sound_uses sound_done | assumption)+)

lemma channelOpenOk_conveyed [conveyed]:
  "channelOpenOk_fits m \<Longrightarrow> conveys (channelOpenOk_write m) (channelOpenOk_read channelOpenOk_zero) m"
  unfolding channelOpenOk_write_def channelOpenOk_read_def channelOpenOk_fits_def
  by ((elim conjE)?, (rule conveys_seq conveys_done conveyed | assumption)+, simp add: channelOpenOk_zero_def)

lemma channelFlow_sound [intro]: "length bs \<le> k \<Longrightarrow> sound k (channelFlow_read me bs)"
  unfolding channelFlow_read_def by ((rule sound_rbind_same sound_uses sound_done | assumption)+)

lemma channelFlow_conveyed [conveyed]:
  "channelFlow_fits m \<Longrightarrow> conveys (channelFlow_write m) (channelFlow_read channelFlow_zero) m"
  unfolding channelFlow_write_def channelFlow_read_def channelFlow_fits_def
  by ((elim conjE)?, (rule conveys_seq conveys_done conveyed | assumption)+, simp add: channelFlow_zero_def)

lemma channelFlowOk_sound [intro]: "length bs \<le> k \<Longrightarrow> sound k (channelFlowOk_read me bs)"
  unfolding channelFlowOk_read_def by ((rule sound_rbind_same sound_uses sound_done | assumption)+)

lemma channelFlowOk_conveyed [conveyed]:
  "channelFlowOk_fits m \<Longrightarrow> conveys (channelFlowOk_write m) (channelFlowOk_read channelFlowOk_zero) m"
  unfolding channelFlowOk_write_def channelFlowOk_read_def channelFlowOk_fits_def
  by ((elim conjE)?, (rule conveys_seq conveys_done conveyed | assumption)+, simp add: channelFlowOk_zero_def)

lemma channelClose_sound [intro]: "length bs \<le> k \<Longrightarrow> sound k (channelClose_read me bs)"
  unfolding channelClose_read_def by ((rule sound_rbind_same sound_uses sound_done | assumption)+)

lemma channelClose_conveyed [conveyed]:
  "channelClose_fits m \<Longrightarrow> conveys (channelClose_write m) (channelClose_read channelClose_zero) m"
  unfolding channelClose_write_def channelClose_read_def channelClose_fits_def
  by ((elim conjE)?, (rule conveys_seq conveys_done conveyed | assumption)+, simp add: channelClose_zero_def)

lemma channelCloseOk_sound [intro]: "length bs \<le> k \<Longrightarrow> sound k (channelCloseOk_read me bs)"
  unfolding channelCloseOk_read_def by (rule sound_done)

lemma channelCloseOk_conveyed [conveyed]: "conveys (channelCloseOk_write m) (channelCloseOk_read channelCloseOk_zero) m"
  unfolding channelCloseOk_write_def channelCloseOk_read_def by (cases m) (simp add: conveys_def channelCloseOk_zero_def)

lemma channel_conveyed:
  "channel_fits m \<Longrightarrow> conveys (channel_write m) (parse_channel (snd (channel_id m))) m"
  unfolding parse_channel_def
  by (cases m) (auto simp: channelOpen_id_def channelOpenOk_id_def channelFlow_id_def channelFlowOk_id_def channelClose_id_def channelCloseOk_id_def intro!: conveys_map conveyed)

lemma channel_sound: "length bs \<le> k \<Longrightarrow> sound k (parse_channel i bs)"
  unfolding parse_channel_def by (auto intro!: sound_rbind_same sound_done)

lemma channel_class: "fst (channel_id m) = 20"
  by (cases m) (simp_all add: channelOpen_id_def channelOpenOk_id_def channelFlow_id_def channelFlowOk_id_def channelClose_id_def channelCloseOk_id_def)

section \<open>Round trips of class exchange\<close>

lemma exchangeDeclare_sound [intro]: "length bs \<le> k \<Longrightarrow> sound k (exchangeDeclare_read me bs)"
  unfolding exchangeDeclare_read_def by ((rule sound_rbind_same sound_uses sound_done | assumption)+)

lemma exchangeDeclare_conveyed [conveyed]:
  "exchangeDeclare_fits m \<Longrightarrow> conveys (exchangeDeclare_write m) (exchangeDeclare_read exchangeDeclare_zero) m"
  unfolding exchangeDeclare_write_def exchangeDeclare_read_def exchangeDeclare_fits_def
  by ((elim conjE)?, (rule conveys_seq conveys_done conveyed | assumption)+, simp add: exchangeDeclare_zero_def)

lemma exchangeDeclareOk_sound [intro]: "length bs \<le> k \<Longrightarrow> sound k (exchangeDeclareOk_read me bs)"
  unfolding exchangeDeclareOk_read_def by (rule sound_done)

lemma exchangeDeclareOk_conveyed [conveyed]: "conveys (exchangeDeclareOk_write m) (exchangeDeclareOk_read exchangeDeclareOk_zero) m"
  unfolding exchangeDeclareOk_write_def exchangeDeclareOk_read_def by (cases m) (simp add: conveys_def exchangeDeclareOk_zero_def)

lemma exchangeDelete_sound [intro]: "length bs \<le> k \<Longrightarrow> sound k (exchangeDelete_read me bs)"
  unfolding exchangeDelete_read_def by ((rule sound_rbind_same sound_uses sound_done | assumption)+)

lemma exchangeDelete_conveyed [conveyed]:
  "exchangeDelete_fits m \<Longrightarrow> conveys (exchangeDelete_write m) (exchangeDelete_read exchangeDelete_zero) m"
  unfolding exchangeDelete_write_def exchangeDelete_read_def exchangeDelete_fits_def
  by ((elim conjE)?, (rule conveys_seq conveys_done conveyed | assumption)+, simp add: exchangeDelete_zero_def)

lemma exchangeDeleteOk_sound [intro]: "length bs \<le> k \<Longrightarrow> sound k (exchangeDeleteOk_read me bs)"
  unfolding exchangeDeleteOk_read_def by (rule sound_done)

lemma exchangeDeleteOk_conveyed [conveyed]: "conveys (exchangeDeleteOk_write m) (exchangeDeleteOk_read exchangeDeleteOk_zero) m"
  unfolding exchangeDeleteOk_write_def exchangeDeleteOk_read_def by (cases m) (simp add: conveys_def exchangeDeleteOk_zero_def)

lemma exchangeBind_sound [intro]: "length bs \<le> k \<Longrightarrow> sound k (exchangeBind_read me bs)"
  unfolding exchangeBind_read_def by ((rule sound_rbind_same sound_uses sound_done | assumption)+)

lemma exchangeBind_conveyed [conveyed]:
  "exchangeBind_fits m \<Longrightarrow> conveys (exchangeBind_write m) (exchangeBind_read exchangeBind_zero) m"
  unfolding exchangeBind_write_def exchangeBind_read_def exchangeBind_fits_def
  by ((elim conjE)?, (rule conveys_seq conveys_done conveyed | assumption)+, simp add: exchangeBind_zero_def)

lemma exchangeBindOk_sound [intro]: "length bs \<le> k \<Longrightarrow> sound k (exchangeBindOk_read me bs)"
  unfolding exchangeBindOk_read_def by (rule sound_done)

lemma exchangeBindOk_conveyed [conveyed]: "conveys (exchangeBindOk_write m) (exchangeBindOk_read exchangeBindOk_zero) m"
  unfolding exchangeBindOk_write_def exchangeBindOk_read_def by (cases m) (simp add: conveys_def exchangeBindOk_zero_def)

lemma exchangeUnbind_sound [intro]: "length bs \<le> k \<Longrightarrow> sound k (exchangeUnbind_read me bs)"
  unfolding exchangeUnbind_read_def by ((rule sound_rbind_same sound_uses sound_done | assumption)+)

lemma exchangeUnbind_conveyed [conveyed]:
  "exchangeUnbind_fits m \<Longrightarrow> conveys (exchangeUnbind_write m) (exchangeUnbind_read exchangeUnbind_zero) m"
  unfolding exchangeUnbind_write_def exchangeUnbind_read_def exchangeUnbind_fits_def
  by ((elim conjE)?, (rule conveys_seq conveys_done conveyed | assumption)+, simp add: exchangeUnbind_zero_def)

lemma exchangeUnbindOk_sound [intro]: "length bs \<le> k \<Longrightarrow> sound k (exchangeUnbindOk_read me bs)"
  unfolding exchangeUnbindOk_read_def by (rule sound_done)

lemma exchangeUnbindOk_conveyed [conveyed]: "conveys (exchangeUnbindOk_write m) (exchangeUnbindOk_read exchangeUnbindOk_zero) m"
  unfolding exchangeUnbindOk_write_def exchangeUnbindOk_read_def by (cases m) (simp add: conveys_def exchangeUnbindOk_zero_def)

lemma exchange_conveyed:
  "exchange_fits m \<Longrightarrow> conveys (exchange_write m) (parse_exchange (snd (exchange_id m))) m"
  unfolding parse_exchange_def
  by (cases m) (auto simp: exchangeDeclare_id_def exchangeDeclareOk_id_def exchangeDelete_id_def exchangeDeleteOk_id_def exchangeBind_id_def exchangeBindOk_id_def exchangeUnbind_id_def exchangeUnbindOk_id_def intro!: conveys_map conveyed)

lemma exchange_sound: "length bs \<le> k \<Longrightarrow> sound k (parse_exchange i bs)"
  unfolding parse_exchange_def by (auto intro!: sound_rbind_same sound_done)

lemma exchange_class: "fst (exchange_id m) = 40"
  by (cases m) (simp_all add: exchangeDeclare_id_def exchangeDeclareOk_id_def exchangeDelete_id_def exchangeDeleteOk_id_def exchangeBind_id_def exchangeBindOk_id_def exchangeUnbind_id_def exchangeUnbindOk_id_def)

end
