(* ===== verification/Amqp_Queue.thy ===== *)
theory Amqp_Queue
  imports Amqp_Types
begin

text \<open>
  The methods of class queue of the vendored AMQP client (\<open>spec091.go\<close>): one record per method (a
  struct without fields is \<open>unit\<close>), with its \<open>id\<close>, \<open>wait\<close>, \<open>write\<close> and \<open>read\<close>; the class as a
  datatype; and the round trip of every method whose strings and tables fit their prefixes.
\<close>

section \<open>Class queue\<close>

text \<open>\<open>queueDeclare\<close>\<close>

record queueDeclare =
  queueDeclare_reserved1 :: "16 word"
  queueDeclare_Queue :: bytes
  queueDeclare_Passive :: bool
  queueDeclare_Durable :: bool
  queueDeclare_Exclusive :: bool
  queueDeclare_AutoDelete :: bool
  queueDeclare_NoWait :: bool
  queueDeclare_Arguments :: table

definition queueDeclare_zero :: queueDeclare where
  "queueDeclare_zero = \<lparr>queueDeclare_reserved1 = 0, queueDeclare_Queue = [], queueDeclare_Passive = False, queueDeclare_Durable = False, queueDeclare_Exclusive = False, queueDeclare_AutoDelete = False, queueDeclare_NoWait = False, queueDeclare_Arguments = []\<rparr>"

definition queueDeclare_id :: "queueDeclare \<Rightarrow> 16 word \<times> 16 word" where
  "queueDeclare_id me = (50, 10)"

definition queueDeclare_wait :: "queueDeclare \<Rightarrow> bool" where
  "queueDeclare_wait me = (\<not> queueDeclare_NoWait me)"

definition queueDeclare_write :: "queueDeclare \<Rightarrow> wr" where
  "queueDeclare_write me =
     wseq (write_u16 (queueDeclare_reserved1 me)) (
     wseq (writeShortstr (queueDeclare_Queue me)) (
     wseq (write_u8 (or_bit (queueDeclare_NoWait me) 4 (or_bit (queueDeclare_AutoDelete me) 3 (or_bit (queueDeclare_Exclusive me) 2 (or_bit (queueDeclare_Durable me) 1 (or_bit (queueDeclare_Passive me) 0 0)))))) (
     wseq (writeTable (queueDeclare_Arguments me)) (Inr []))))"

definition queueDeclare_read :: "queueDeclare \<Rightarrow> bytes \<Rightarrow> queueDeclare rd" where
  "queueDeclare_read me bs =
     rbind (read_u16 bs) (\<lambda>v0 r.
     rbind (readShortstr r) (\<lambda>v1 r.
     rbind (read_u8 r) (\<lambda>v2 r.
     rbind (read_table r) (\<lambda>v3 r.
     Ok (me\<lparr>queueDeclare_reserved1 := v0, queueDeclare_Queue := v1, queueDeclare_Passive := has_bit 0 v2, queueDeclare_Durable := has_bit 1 v2, queueDeclare_Exclusive := has_bit 2 v2, queueDeclare_AutoDelete := has_bit 3 v2, queueDeclare_NoWait := has_bit 4 v2, queueDeclare_Arguments := v3\<rparr>) r))))"

definition queueDeclare_fits :: "queueDeclare \<Rightarrow> bool" where
  "queueDeclare_fits m \<longleftrightarrow> length (queueDeclare_Queue m) < 256 \<and> ok_table (queueDeclare_Arguments m)"

text \<open>\<open>queueDeclareOk\<close>\<close>

record queueDeclareOk =
  queueDeclareOk_Queue :: bytes
  queueDeclareOk_MessageCount :: "32 word"
  queueDeclareOk_ConsumerCount :: "32 word"

definition queueDeclareOk_zero :: queueDeclareOk where
  "queueDeclareOk_zero = \<lparr>queueDeclareOk_Queue = [], queueDeclareOk_MessageCount = 0, queueDeclareOk_ConsumerCount = 0\<rparr>"

definition queueDeclareOk_id :: "queueDeclareOk \<Rightarrow> 16 word \<times> 16 word" where
  "queueDeclareOk_id me = (50, 11)"

definition queueDeclareOk_wait :: "queueDeclareOk \<Rightarrow> bool" where
  "queueDeclareOk_wait me = True"

definition queueDeclareOk_write :: "queueDeclareOk \<Rightarrow> wr" where
  "queueDeclareOk_write me =
     wseq (writeShortstr (queueDeclareOk_Queue me)) (
     wseq (write_u32 (queueDeclareOk_MessageCount me)) (
     wseq (write_u32 (queueDeclareOk_ConsumerCount me)) (Inr [])))"

definition queueDeclareOk_read :: "queueDeclareOk \<Rightarrow> bytes \<Rightarrow> queueDeclareOk rd" where
  "queueDeclareOk_read me bs =
     rbind (readShortstr bs) (\<lambda>v0 r.
     rbind (read_u32 r) (\<lambda>v1 r.
     rbind (read_u32 r) (\<lambda>v2 r.
     Ok (me\<lparr>queueDeclareOk_Queue := v0, queueDeclareOk_MessageCount := v1, queueDeclareOk_ConsumerCount := v2\<rparr>) r)))"

definition queueDeclareOk_fits :: "queueDeclareOk \<Rightarrow> bool" where
  "queueDeclareOk_fits m \<longleftrightarrow> length (queueDeclareOk_Queue m) < 256"

text \<open>\<open>queueBind\<close>\<close>

record queueBind =
  queueBind_reserved1 :: "16 word"
  queueBind_Queue :: bytes
  queueBind_Exchange :: bytes
  queueBind_RoutingKey :: bytes
  queueBind_NoWait :: bool
  queueBind_Arguments :: table

definition queueBind_zero :: queueBind where
  "queueBind_zero = \<lparr>queueBind_reserved1 = 0, queueBind_Queue = [], queueBind_Exchange = [], queueBind_RoutingKey = [], queueBind_NoWait = False, queueBind_Arguments = []\<rparr>"

definition queueBind_id :: "queueBind \<Rightarrow> 16 word \<times> 16 word" where
  "queueBind_id me = (50, 20)"

definition queueBind_wait :: "queueBind \<Rightarrow> bool" where
  "queueBind_wait me = (\<not> queueBind_NoWait me)"

definition queueBind_write :: "queueBind \<Rightarrow> wr" where
  "queueBind_write me =
     wseq (write_u16 (queueBind_reserved1 me)) (
     wseq (writeShortstr (queueBind_Queue me)) (
     wseq (writeShortstr (queueBind_Exchange me)) (
     wseq (writeShortstr (queueBind_RoutingKey me)) (
     wseq (write_u8 (or_bit (queueBind_NoWait me) 0 0)) (
     wseq (writeTable (queueBind_Arguments me)) (Inr []))))))"

definition queueBind_read :: "queueBind \<Rightarrow> bytes \<Rightarrow> queueBind rd" where
  "queueBind_read me bs =
     rbind (read_u16 bs) (\<lambda>v0 r.
     rbind (readShortstr r) (\<lambda>v1 r.
     rbind (readShortstr r) (\<lambda>v2 r.
     rbind (readShortstr r) (\<lambda>v3 r.
     rbind (read_u8 r) (\<lambda>v4 r.
     rbind (read_table r) (\<lambda>v5 r.
     Ok (me\<lparr>queueBind_reserved1 := v0, queueBind_Queue := v1, queueBind_Exchange := v2, queueBind_RoutingKey := v3, queueBind_NoWait := has_bit 0 v4, queueBind_Arguments := v5\<rparr>) r))))))"

definition queueBind_fits :: "queueBind \<Rightarrow> bool" where
  "queueBind_fits m \<longleftrightarrow> length (queueBind_Queue m) < 256 \<and> length (queueBind_Exchange m) < 256 \<and> length (queueBind_RoutingKey m) < 256 \<and> ok_table (queueBind_Arguments m)"

text \<open>\<open>queueBindOk\<close>\<close>

datatype queueBindOk = queueBindOk

definition queueBindOk_zero :: queueBindOk where
  "queueBindOk_zero = queueBindOk"

definition queueBindOk_id :: "queueBindOk \<Rightarrow> 16 word \<times> 16 word" where
  "queueBindOk_id me = (50, 21)"

definition queueBindOk_wait :: "queueBindOk \<Rightarrow> bool" where
  "queueBindOk_wait me = True"

definition queueBindOk_write :: "queueBindOk \<Rightarrow> wr" where
  "queueBindOk_write me =
     Inr []"

definition queueBindOk_read :: "queueBindOk \<Rightarrow> bytes \<Rightarrow> queueBindOk rd" where
  "queueBindOk_read me bs =
     Ok me bs"

definition queueBindOk_fits :: "queueBindOk \<Rightarrow> bool" where
  "queueBindOk_fits m \<longleftrightarrow> True"

text \<open>\<open>queueUnbind\<close>\<close>

record queueUnbind =
  queueUnbind_reserved1 :: "16 word"
  queueUnbind_Queue :: bytes
  queueUnbind_Exchange :: bytes
  queueUnbind_RoutingKey :: bytes
  queueUnbind_Arguments :: table

definition queueUnbind_zero :: queueUnbind where
  "queueUnbind_zero = \<lparr>queueUnbind_reserved1 = 0, queueUnbind_Queue = [], queueUnbind_Exchange = [], queueUnbind_RoutingKey = [], queueUnbind_Arguments = []\<rparr>"

definition queueUnbind_id :: "queueUnbind \<Rightarrow> 16 word \<times> 16 word" where
  "queueUnbind_id me = (50, 50)"

definition queueUnbind_wait :: "queueUnbind \<Rightarrow> bool" where
  "queueUnbind_wait me = True"

definition queueUnbind_write :: "queueUnbind \<Rightarrow> wr" where
  "queueUnbind_write me =
     wseq (write_u16 (queueUnbind_reserved1 me)) (
     wseq (writeShortstr (queueUnbind_Queue me)) (
     wseq (writeShortstr (queueUnbind_Exchange me)) (
     wseq (writeShortstr (queueUnbind_RoutingKey me)) (
     wseq (writeTable (queueUnbind_Arguments me)) (Inr [])))))"

definition queueUnbind_read :: "queueUnbind \<Rightarrow> bytes \<Rightarrow> queueUnbind rd" where
  "queueUnbind_read me bs =
     rbind (read_u16 bs) (\<lambda>v0 r.
     rbind (readShortstr r) (\<lambda>v1 r.
     rbind (readShortstr r) (\<lambda>v2 r.
     rbind (readShortstr r) (\<lambda>v3 r.
     rbind (read_table r) (\<lambda>v4 r.
     Ok (me\<lparr>queueUnbind_reserved1 := v0, queueUnbind_Queue := v1, queueUnbind_Exchange := v2, queueUnbind_RoutingKey := v3, queueUnbind_Arguments := v4\<rparr>) r)))))"

definition queueUnbind_fits :: "queueUnbind \<Rightarrow> bool" where
  "queueUnbind_fits m \<longleftrightarrow> length (queueUnbind_Queue m) < 256 \<and> length (queueUnbind_Exchange m) < 256 \<and> length (queueUnbind_RoutingKey m) < 256 \<and> ok_table (queueUnbind_Arguments m)"

text \<open>\<open>queueUnbindOk\<close>\<close>

datatype queueUnbindOk = queueUnbindOk

definition queueUnbindOk_zero :: queueUnbindOk where
  "queueUnbindOk_zero = queueUnbindOk"

definition queueUnbindOk_id :: "queueUnbindOk \<Rightarrow> 16 word \<times> 16 word" where
  "queueUnbindOk_id me = (50, 51)"

definition queueUnbindOk_wait :: "queueUnbindOk \<Rightarrow> bool" where
  "queueUnbindOk_wait me = True"

definition queueUnbindOk_write :: "queueUnbindOk \<Rightarrow> wr" where
  "queueUnbindOk_write me =
     Inr []"

definition queueUnbindOk_read :: "queueUnbindOk \<Rightarrow> bytes \<Rightarrow> queueUnbindOk rd" where
  "queueUnbindOk_read me bs =
     Ok me bs"

definition queueUnbindOk_fits :: "queueUnbindOk \<Rightarrow> bool" where
  "queueUnbindOk_fits m \<longleftrightarrow> True"

text \<open>\<open>queuePurge\<close>\<close>

record queuePurge =
  queuePurge_reserved1 :: "16 word"
  queuePurge_Queue :: bytes
  queuePurge_NoWait :: bool

definition queuePurge_zero :: queuePurge where
  "queuePurge_zero = \<lparr>queuePurge_reserved1 = 0, queuePurge_Queue = [], queuePurge_NoWait = False\<rparr>"

definition queuePurge_id :: "queuePurge \<Rightarrow> 16 word \<times> 16 word" where
  "queuePurge_id me = (50, 30)"

definition queuePurge_wait :: "queuePurge \<Rightarrow> bool" where
  "queuePurge_wait me = (\<not> queuePurge_NoWait me)"

definition queuePurge_write :: "queuePurge \<Rightarrow> wr" where
  "queuePurge_write me =
     wseq (write_u16 (queuePurge_reserved1 me)) (
     wseq (writeShortstr (queuePurge_Queue me)) (
     wseq (write_u8 (or_bit (queuePurge_NoWait me) 0 0)) (Inr [])))"

definition queuePurge_read :: "queuePurge \<Rightarrow> bytes \<Rightarrow> queuePurge rd" where
  "queuePurge_read me bs =
     rbind (read_u16 bs) (\<lambda>v0 r.
     rbind (readShortstr r) (\<lambda>v1 r.
     rbind (read_u8 r) (\<lambda>v2 r.
     Ok (me\<lparr>queuePurge_reserved1 := v0, queuePurge_Queue := v1, queuePurge_NoWait := has_bit 0 v2\<rparr>) r)))"

definition queuePurge_fits :: "queuePurge \<Rightarrow> bool" where
  "queuePurge_fits m \<longleftrightarrow> length (queuePurge_Queue m) < 256"

text \<open>\<open>queuePurgeOk\<close>\<close>

record queuePurgeOk =
  queuePurgeOk_MessageCount :: "32 word"

definition queuePurgeOk_zero :: queuePurgeOk where
  "queuePurgeOk_zero = \<lparr>queuePurgeOk_MessageCount = 0\<rparr>"

definition queuePurgeOk_id :: "queuePurgeOk \<Rightarrow> 16 word \<times> 16 word" where
  "queuePurgeOk_id me = (50, 31)"

definition queuePurgeOk_wait :: "queuePurgeOk \<Rightarrow> bool" where
  "queuePurgeOk_wait me = True"

definition queuePurgeOk_write :: "queuePurgeOk \<Rightarrow> wr" where
  "queuePurgeOk_write me =
     wseq (write_u32 (queuePurgeOk_MessageCount me)) (Inr [])"

definition queuePurgeOk_read :: "queuePurgeOk \<Rightarrow> bytes \<Rightarrow> queuePurgeOk rd" where
  "queuePurgeOk_read me bs =
     rbind (read_u32 bs) (\<lambda>v0 r.
     Ok (me\<lparr>queuePurgeOk_MessageCount := v0\<rparr>) r)"

definition queuePurgeOk_fits :: "queuePurgeOk \<Rightarrow> bool" where
  "queuePurgeOk_fits m \<longleftrightarrow> True"

text \<open>\<open>queueDelete\<close>\<close>

record queueDelete =
  queueDelete_reserved1 :: "16 word"
  queueDelete_Queue :: bytes
  queueDelete_IfUnused :: bool
  queueDelete_IfEmpty :: bool
  queueDelete_NoWait :: bool

definition queueDelete_zero :: queueDelete where
  "queueDelete_zero = \<lparr>queueDelete_reserved1 = 0, queueDelete_Queue = [], queueDelete_IfUnused = False, queueDelete_IfEmpty = False, queueDelete_NoWait = False\<rparr>"

definition queueDelete_id :: "queueDelete \<Rightarrow> 16 word \<times> 16 word" where
  "queueDelete_id me = (50, 40)"

definition queueDelete_wait :: "queueDelete \<Rightarrow> bool" where
  "queueDelete_wait me = (\<not> queueDelete_NoWait me)"

definition queueDelete_write :: "queueDelete \<Rightarrow> wr" where
  "queueDelete_write me =
     wseq (write_u16 (queueDelete_reserved1 me)) (
     wseq (writeShortstr (queueDelete_Queue me)) (
     wseq (write_u8 (or_bit (queueDelete_NoWait me) 2 (or_bit (queueDelete_IfEmpty me) 1 (or_bit (queueDelete_IfUnused me) 0 0)))) (Inr [])))"

definition queueDelete_read :: "queueDelete \<Rightarrow> bytes \<Rightarrow> queueDelete rd" where
  "queueDelete_read me bs =
     rbind (read_u16 bs) (\<lambda>v0 r.
     rbind (readShortstr r) (\<lambda>v1 r.
     rbind (read_u8 r) (\<lambda>v2 r.
     Ok (me\<lparr>queueDelete_reserved1 := v0, queueDelete_Queue := v1, queueDelete_IfUnused := has_bit 0 v2, queueDelete_IfEmpty := has_bit 1 v2, queueDelete_NoWait := has_bit 2 v2\<rparr>) r)))"

definition queueDelete_fits :: "queueDelete \<Rightarrow> bool" where
  "queueDelete_fits m \<longleftrightarrow> length (queueDelete_Queue m) < 256"

text \<open>\<open>queueDeleteOk\<close>\<close>

record queueDeleteOk =
  queueDeleteOk_MessageCount :: "32 word"

definition queueDeleteOk_zero :: queueDeleteOk where
  "queueDeleteOk_zero = \<lparr>queueDeleteOk_MessageCount = 0\<rparr>"

definition queueDeleteOk_id :: "queueDeleteOk \<Rightarrow> 16 word \<times> 16 word" where
  "queueDeleteOk_id me = (50, 41)"

definition queueDeleteOk_wait :: "queueDeleteOk \<Rightarrow> bool" where
  "queueDeleteOk_wait me = True"

definition queueDeleteOk_write :: "queueDeleteOk \<Rightarrow> wr" where
  "queueDeleteOk_write me =
     wseq (write_u32 (queueDeleteOk_MessageCount me)) (Inr [])"

definition queueDeleteOk_read :: "queueDeleteOk \<Rightarrow> bytes \<Rightarrow> queueDeleteOk rd" where
  "queueDeleteOk_read me bs =
     rbind (read_u32 bs) (\<lambda>v0 r.
     Ok (me\<lparr>queueDeleteOk_MessageCount := v0\<rparr>) r)"

definition queueDeleteOk_fits :: "queueDeleteOk \<Rightarrow> bool" where
  "queueDeleteOk_fits m \<longleftrightarrow> True"

text \<open>The methods of the class, their \<open>id\<close>, \<open>wait\<close> and \<open>write\<close>, and their part of the
  switch of \<open>parseMethodFrame\<close>.\<close>

datatype queue_message =
    QueueDeclare queueDeclare
  | QueueDeclareOk queueDeclareOk
  | QueueBind queueBind
  | QueueBindOk queueBindOk
  | QueueUnbind queueUnbind
  | QueueUnbindOk queueUnbindOk
  | QueuePurge queuePurge
  | QueuePurgeOk queuePurgeOk
  | QueueDelete queueDelete
  | QueueDeleteOk queueDeleteOk

fun queue_id :: "queue_message \<Rightarrow> 16 word \<times> 16 word" where
  "queue_id (QueueDeclare m) = queueDeclare_id m"
| "queue_id (QueueDeclareOk m) = queueDeclareOk_id m"
| "queue_id (QueueBind m) = queueBind_id m"
| "queue_id (QueueBindOk m) = queueBindOk_id m"
| "queue_id (QueueUnbind m) = queueUnbind_id m"
| "queue_id (QueueUnbindOk m) = queueUnbindOk_id m"
| "queue_id (QueuePurge m) = queuePurge_id m"
| "queue_id (QueuePurgeOk m) = queuePurgeOk_id m"
| "queue_id (QueueDelete m) = queueDelete_id m"
| "queue_id (QueueDeleteOk m) = queueDeleteOk_id m"

fun queue_wait :: "queue_message \<Rightarrow> bool" where
  "queue_wait (QueueDeclare m) = queueDeclare_wait m"
| "queue_wait (QueueDeclareOk m) = queueDeclareOk_wait m"
| "queue_wait (QueueBind m) = queueBind_wait m"
| "queue_wait (QueueBindOk m) = queueBindOk_wait m"
| "queue_wait (QueueUnbind m) = queueUnbind_wait m"
| "queue_wait (QueueUnbindOk m) = queueUnbindOk_wait m"
| "queue_wait (QueuePurge m) = queuePurge_wait m"
| "queue_wait (QueuePurgeOk m) = queuePurgeOk_wait m"
| "queue_wait (QueueDelete m) = queueDelete_wait m"
| "queue_wait (QueueDeleteOk m) = queueDeleteOk_wait m"

fun queue_write :: "queue_message \<Rightarrow> wr" where
  "queue_write (QueueDeclare m) = queueDeclare_write m"
| "queue_write (QueueDeclareOk m) = queueDeclareOk_write m"
| "queue_write (QueueBind m) = queueBind_write m"
| "queue_write (QueueBindOk m) = queueBindOk_write m"
| "queue_write (QueueUnbind m) = queueUnbind_write m"
| "queue_write (QueueUnbindOk m) = queueUnbindOk_write m"
| "queue_write (QueuePurge m) = queuePurge_write m"
| "queue_write (QueuePurgeOk m) = queuePurgeOk_write m"
| "queue_write (QueueDelete m) = queueDelete_write m"
| "queue_write (QueueDeleteOk m) = queueDeleteOk_write m"

fun queue_fits :: "queue_message \<Rightarrow> bool" where
  "queue_fits (QueueDeclare m) = queueDeclare_fits m"
| "queue_fits (QueueDeclareOk m) = queueDeclareOk_fits m"
| "queue_fits (QueueBind m) = queueBind_fits m"
| "queue_fits (QueueBindOk m) = queueBindOk_fits m"
| "queue_fits (QueueUnbind m) = queueUnbind_fits m"
| "queue_fits (QueueUnbindOk m) = queueUnbindOk_fits m"
| "queue_fits (QueuePurge m) = queuePurge_fits m"
| "queue_fits (QueuePurgeOk m) = queuePurgeOk_fits m"
| "queue_fits (QueueDelete m) = queueDelete_fits m"
| "queue_fits (QueueDeleteOk m) = queueDeleteOk_fits m"

definition parse_queue :: "16 word \<Rightarrow> bytes \<Rightarrow> queue_message rd" where
  "parse_queue method bs =
    (if method = 10 then rbind (queueDeclare_read queueDeclare_zero bs) (\<lambda>m. Ok (QueueDeclare m))
     else if method = 11 then rbind (queueDeclareOk_read queueDeclareOk_zero bs) (\<lambda>m. Ok (QueueDeclareOk m))
     else if method = 20 then rbind (queueBind_read queueBind_zero bs) (\<lambda>m. Ok (QueueBind m))
     else if method = 21 then rbind (queueBindOk_read queueBindOk_zero bs) (\<lambda>m. Ok (QueueBindOk m))
     else if method = 50 then rbind (queueUnbind_read queueUnbind_zero bs) (\<lambda>m. Ok (QueueUnbind m))
     else if method = 51 then rbind (queueUnbindOk_read queueUnbindOk_zero bs) (\<lambda>m. Ok (QueueUnbindOk m))
     else if method = 30 then rbind (queuePurge_read queuePurge_zero bs) (\<lambda>m. Ok (QueuePurge m))
     else if method = 31 then rbind (queuePurgeOk_read queuePurgeOk_zero bs) (\<lambda>m. Ok (QueuePurgeOk m))
     else if method = 40 then rbind (queueDelete_read queueDelete_zero bs) (\<lambda>m. Ok (QueueDelete m))
     else if method = 41 then rbind (queueDeleteOk_read queueDeleteOk_zero bs) (\<lambda>m. Ok (QueueDeleteOk m))
     else Fail (UnknownMethod method 50) bs)"

section \<open>Round trips of class queue\<close>

lemma queueDeclare_sound [intro]: "length bs \<le> k \<Longrightarrow> sound k (queueDeclare_read me bs)"
  unfolding queueDeclare_read_def by ((rule sound_rbind_same sound_uses sound_done | assumption)+)

lemma queueDeclare_conveyed [conveyed]:
  "queueDeclare_fits m \<Longrightarrow> conveys (queueDeclare_write m) (queueDeclare_read queueDeclare_zero) m"
  unfolding queueDeclare_write_def queueDeclare_read_def queueDeclare_fits_def
  by ((elim conjE)?, (rule conveys_seq conveys_done conveyed | assumption)+, simp add: queueDeclare_zero_def)

lemma queueDeclareOk_sound [intro]: "length bs \<le> k \<Longrightarrow> sound k (queueDeclareOk_read me bs)"
  unfolding queueDeclareOk_read_def by ((rule sound_rbind_same sound_uses sound_done | assumption)+)

lemma queueDeclareOk_conveyed [conveyed]:
  "queueDeclareOk_fits m \<Longrightarrow> conveys (queueDeclareOk_write m) (queueDeclareOk_read queueDeclareOk_zero) m"
  unfolding queueDeclareOk_write_def queueDeclareOk_read_def queueDeclareOk_fits_def
  by ((elim conjE)?, (rule conveys_seq conveys_done conveyed | assumption)+, simp add: queueDeclareOk_zero_def)

lemma queueBind_sound [intro]: "length bs \<le> k \<Longrightarrow> sound k (queueBind_read me bs)"
  unfolding queueBind_read_def by ((rule sound_rbind_same sound_uses sound_done | assumption)+)

lemma queueBind_conveyed [conveyed]:
  "queueBind_fits m \<Longrightarrow> conveys (queueBind_write m) (queueBind_read queueBind_zero) m"
  unfolding queueBind_write_def queueBind_read_def queueBind_fits_def
  by ((elim conjE)?, (rule conveys_seq conveys_done conveyed | assumption)+, simp add: queueBind_zero_def)

lemma queueBindOk_sound [intro]: "length bs \<le> k \<Longrightarrow> sound k (queueBindOk_read me bs)"
  unfolding queueBindOk_read_def by (rule sound_done)

lemma queueBindOk_conveyed [conveyed]: "conveys (queueBindOk_write m) (queueBindOk_read queueBindOk_zero) m"
  unfolding queueBindOk_write_def queueBindOk_read_def by (cases m) (simp add: conveys_def queueBindOk_zero_def)

lemma queueUnbind_sound [intro]: "length bs \<le> k \<Longrightarrow> sound k (queueUnbind_read me bs)"
  unfolding queueUnbind_read_def by ((rule sound_rbind_same sound_uses sound_done | assumption)+)

lemma queueUnbind_conveyed [conveyed]:
  "queueUnbind_fits m \<Longrightarrow> conveys (queueUnbind_write m) (queueUnbind_read queueUnbind_zero) m"
  unfolding queueUnbind_write_def queueUnbind_read_def queueUnbind_fits_def
  by ((elim conjE)?, (rule conveys_seq conveys_done conveyed | assumption)+, simp add: queueUnbind_zero_def)

lemma queueUnbindOk_sound [intro]: "length bs \<le> k \<Longrightarrow> sound k (queueUnbindOk_read me bs)"
  unfolding queueUnbindOk_read_def by (rule sound_done)

lemma queueUnbindOk_conveyed [conveyed]: "conveys (queueUnbindOk_write m) (queueUnbindOk_read queueUnbindOk_zero) m"
  unfolding queueUnbindOk_write_def queueUnbindOk_read_def by (cases m) (simp add: conveys_def queueUnbindOk_zero_def)

lemma queuePurge_sound [intro]: "length bs \<le> k \<Longrightarrow> sound k (queuePurge_read me bs)"
  unfolding queuePurge_read_def by ((rule sound_rbind_same sound_uses sound_done | assumption)+)

lemma queuePurge_conveyed [conveyed]:
  "queuePurge_fits m \<Longrightarrow> conveys (queuePurge_write m) (queuePurge_read queuePurge_zero) m"
  unfolding queuePurge_write_def queuePurge_read_def queuePurge_fits_def
  by ((elim conjE)?, (rule conveys_seq conveys_done conveyed | assumption)+, simp add: queuePurge_zero_def)

lemma queuePurgeOk_sound [intro]: "length bs \<le> k \<Longrightarrow> sound k (queuePurgeOk_read me bs)"
  unfolding queuePurgeOk_read_def by ((rule sound_rbind_same sound_uses sound_done | assumption)+)

lemma queuePurgeOk_conveyed [conveyed]:
  "queuePurgeOk_fits m \<Longrightarrow> conveys (queuePurgeOk_write m) (queuePurgeOk_read queuePurgeOk_zero) m"
  unfolding queuePurgeOk_write_def queuePurgeOk_read_def queuePurgeOk_fits_def
  by ((elim conjE)?, (rule conveys_seq conveys_done conveyed | assumption)+, simp add: queuePurgeOk_zero_def)

lemma queueDelete_sound [intro]: "length bs \<le> k \<Longrightarrow> sound k (queueDelete_read me bs)"
  unfolding queueDelete_read_def by ((rule sound_rbind_same sound_uses sound_done | assumption)+)

lemma queueDelete_conveyed [conveyed]:
  "queueDelete_fits m \<Longrightarrow> conveys (queueDelete_write m) (queueDelete_read queueDelete_zero) m"
  unfolding queueDelete_write_def queueDelete_read_def queueDelete_fits_def
  by ((elim conjE)?, (rule conveys_seq conveys_done conveyed | assumption)+, simp add: queueDelete_zero_def)

lemma queueDeleteOk_sound [intro]: "length bs \<le> k \<Longrightarrow> sound k (queueDeleteOk_read me bs)"
  unfolding queueDeleteOk_read_def by ((rule sound_rbind_same sound_uses sound_done | assumption)+)

lemma queueDeleteOk_conveyed [conveyed]:
  "queueDeleteOk_fits m \<Longrightarrow> conveys (queueDeleteOk_write m) (queueDeleteOk_read queueDeleteOk_zero) m"
  unfolding queueDeleteOk_write_def queueDeleteOk_read_def queueDeleteOk_fits_def
  by ((elim conjE)?, (rule conveys_seq conveys_done conveyed | assumption)+, simp add: queueDeleteOk_zero_def)

lemma queue_conveyed:
  "queue_fits m \<Longrightarrow> conveys (queue_write m) (parse_queue (snd (queue_id m))) m"
  unfolding parse_queue_def
  by (cases m) (auto simp: queueDeclare_id_def queueDeclareOk_id_def queueBind_id_def queueBindOk_id_def queueUnbind_id_def queueUnbindOk_id_def queuePurge_id_def queuePurgeOk_id_def queueDelete_id_def queueDeleteOk_id_def intro!: conveys_map conveyed)

lemma queue_sound: "length bs \<le> k \<Longrightarrow> sound k (parse_queue i bs)"
  unfolding parse_queue_def by (auto intro!: sound_rbind_same sound_done)

lemma queue_class: "fst (queue_id m) = 50"
  by (cases m) (simp_all add: queueDeclare_id_def queueDeclareOk_id_def queueBind_id_def queueBindOk_id_def queueUnbind_id_def queueUnbindOk_id_def queuePurge_id_def queuePurgeOk_id_def queueDelete_id_def queueDeleteOk_id_def)

end
