(* ===== verification/Amqp_Basic.thy ===== *)
theory Amqp_Basic
  imports Amqp_Types
begin

text \<open>
  The methods of class basic of the vendored AMQP client (\<open>spec091.go\<close>): one record per method (a
  struct without fields is \<open>unit\<close>), with its \<open>id\<close>, \<open>wait\<close>, \<open>write\<close> and \<open>read\<close>; the class as a
  datatype; and the round trip of every method whose strings and tables fit their prefixes.
\<close>

section \<open>Class basic\<close>

text \<open>\<open>basicQos\<close>\<close>

record basicQos =
  basicQos_PrefetchSize :: "32 word"
  basicQos_PrefetchCount :: "16 word"
  basicQos_Global :: bool

definition basicQos_zero :: basicQos where
  "basicQos_zero = \<lparr>basicQos_PrefetchSize = 0, basicQos_PrefetchCount = 0, basicQos_Global = False\<rparr>"

definition basicQos_id :: "basicQos \<Rightarrow> 16 word \<times> 16 word" where
  "basicQos_id me = (60, 10)"

definition basicQos_wait :: "basicQos \<Rightarrow> bool" where
  "basicQos_wait me = True"

definition basicQos_write :: "basicQos \<Rightarrow> wr" where
  "basicQos_write me =
     wseq (write_u32 (basicQos_PrefetchSize me)) (
     wseq (write_u16 (basicQos_PrefetchCount me)) (
     wseq (write_u8 (or_bit (basicQos_Global me) 0 0)) (Inr [])))"

definition basicQos_read :: "basicQos \<Rightarrow> bytes \<Rightarrow> basicQos rd" where
  "basicQos_read me bs =
     rbind (read_u32 bs) (\<lambda>v0 r.
     rbind (read_u16 r) (\<lambda>v1 r.
     rbind (read_u8 r) (\<lambda>v2 r.
     Ok (me\<lparr>basicQos_PrefetchSize := v0, basicQos_PrefetchCount := v1, basicQos_Global := has_bit 0 v2\<rparr>) r)))"

definition basicQos_fits :: "basicQos \<Rightarrow> bool" where
  "basicQos_fits m \<longleftrightarrow> True"

text \<open>\<open>basicQosOk\<close>\<close>

datatype basicQosOk = basicQosOk

definition basicQosOk_zero :: basicQosOk where
  "basicQosOk_zero = basicQosOk"

definition basicQosOk_id :: "basicQosOk \<Rightarrow> 16 word \<times> 16 word" where
  "basicQosOk_id me = (60, 11)"

definition basicQosOk_wait :: "basicQosOk \<Rightarrow> bool" where
  "basicQosOk_wait me = True"

definition basicQosOk_write :: "basicQosOk \<Rightarrow> wr" where
  "basicQosOk_write me =
     Inr []"

definition basicQosOk_read :: "basicQosOk \<Rightarrow> bytes \<Rightarrow> basicQosOk rd" where
  "basicQosOk_read me bs =
     Ok me bs"

definition basicQosOk_fits :: "basicQosOk \<Rightarrow> bool" where
  "basicQosOk_fits m \<longleftrightarrow> True"

text \<open>\<open>basicConsume\<close>\<close>

record basicConsume =
  basicConsume_reserved1 :: "16 word"
  basicConsume_Queue :: bytes
  basicConsume_ConsumerTag :: bytes
  basicConsume_NoLocal :: bool
  basicConsume_NoAck :: bool
  basicConsume_Exclusive :: bool
  basicConsume_NoWait :: bool
  basicConsume_Arguments :: table

definition basicConsume_zero :: basicConsume where
  "basicConsume_zero = \<lparr>basicConsume_reserved1 = 0, basicConsume_Queue = [], basicConsume_ConsumerTag = [], basicConsume_NoLocal = False, basicConsume_NoAck = False, basicConsume_Exclusive = False, basicConsume_NoWait = False, basicConsume_Arguments = []\<rparr>"

definition basicConsume_id :: "basicConsume \<Rightarrow> 16 word \<times> 16 word" where
  "basicConsume_id me = (60, 20)"

definition basicConsume_wait :: "basicConsume \<Rightarrow> bool" where
  "basicConsume_wait me = (\<not> basicConsume_NoWait me)"

definition basicConsume_write :: "basicConsume \<Rightarrow> wr" where
  "basicConsume_write me =
     wseq (write_u16 (basicConsume_reserved1 me)) (
     wseq (writeShortstr (basicConsume_Queue me)) (
     wseq (writeShortstr (basicConsume_ConsumerTag me)) (
     wseq (write_u8 (or_bit (basicConsume_NoWait me) 3 (or_bit (basicConsume_Exclusive me) 2 (or_bit (basicConsume_NoAck me) 1 (or_bit (basicConsume_NoLocal me) 0 0))))) (
     wseq (writeTable (basicConsume_Arguments me)) (Inr [])))))"

definition basicConsume_read :: "basicConsume \<Rightarrow> bytes \<Rightarrow> basicConsume rd" where
  "basicConsume_read me bs =
     rbind (read_u16 bs) (\<lambda>v0 r.
     rbind (readShortstr r) (\<lambda>v1 r.
     rbind (readShortstr r) (\<lambda>v2 r.
     rbind (read_u8 r) (\<lambda>v3 r.
     rbind (read_table r) (\<lambda>v4 r.
     Ok (me\<lparr>basicConsume_reserved1 := v0, basicConsume_Queue := v1, basicConsume_ConsumerTag := v2, basicConsume_NoLocal := has_bit 0 v3, basicConsume_NoAck := has_bit 1 v3, basicConsume_Exclusive := has_bit 2 v3, basicConsume_NoWait := has_bit 3 v3, basicConsume_Arguments := v4\<rparr>) r)))))"

definition basicConsume_fits :: "basicConsume \<Rightarrow> bool" where
  "basicConsume_fits m \<longleftrightarrow> length (basicConsume_Queue m) < 256 \<and> length (basicConsume_ConsumerTag m) < 256 \<and> ok_table (basicConsume_Arguments m)"

text \<open>\<open>basicConsumeOk\<close>\<close>

record basicConsumeOk =
  basicConsumeOk_ConsumerTag :: bytes

definition basicConsumeOk_zero :: basicConsumeOk where
  "basicConsumeOk_zero = \<lparr>basicConsumeOk_ConsumerTag = []\<rparr>"

definition basicConsumeOk_id :: "basicConsumeOk \<Rightarrow> 16 word \<times> 16 word" where
  "basicConsumeOk_id me = (60, 21)"

definition basicConsumeOk_wait :: "basicConsumeOk \<Rightarrow> bool" where
  "basicConsumeOk_wait me = True"

definition basicConsumeOk_write :: "basicConsumeOk \<Rightarrow> wr" where
  "basicConsumeOk_write me =
     wseq (writeShortstr (basicConsumeOk_ConsumerTag me)) (Inr [])"

definition basicConsumeOk_read :: "basicConsumeOk \<Rightarrow> bytes \<Rightarrow> basicConsumeOk rd" where
  "basicConsumeOk_read me bs =
     rbind (readShortstr bs) (\<lambda>v0 r.
     Ok (me\<lparr>basicConsumeOk_ConsumerTag := v0\<rparr>) r)"

definition basicConsumeOk_fits :: "basicConsumeOk \<Rightarrow> bool" where
  "basicConsumeOk_fits m \<longleftrightarrow> length (basicConsumeOk_ConsumerTag m) < 256"

text \<open>\<open>basicCancel\<close>\<close>

record basicCancel =
  basicCancel_ConsumerTag :: bytes
  basicCancel_NoWait :: bool

definition basicCancel_zero :: basicCancel where
  "basicCancel_zero = \<lparr>basicCancel_ConsumerTag = [], basicCancel_NoWait = False\<rparr>"

definition basicCancel_id :: "basicCancel \<Rightarrow> 16 word \<times> 16 word" where
  "basicCancel_id me = (60, 30)"

definition basicCancel_wait :: "basicCancel \<Rightarrow> bool" where
  "basicCancel_wait me = (\<not> basicCancel_NoWait me)"

definition basicCancel_write :: "basicCancel \<Rightarrow> wr" where
  "basicCancel_write me =
     wseq (writeShortstr (basicCancel_ConsumerTag me)) (
     wseq (write_u8 (or_bit (basicCancel_NoWait me) 0 0)) (Inr []))"

definition basicCancel_read :: "basicCancel \<Rightarrow> bytes \<Rightarrow> basicCancel rd" where
  "basicCancel_read me bs =
     rbind (readShortstr bs) (\<lambda>v0 r.
     rbind (read_u8 r) (\<lambda>v1 r.
     Ok (me\<lparr>basicCancel_ConsumerTag := v0, basicCancel_NoWait := has_bit 0 v1\<rparr>) r))"

definition basicCancel_fits :: "basicCancel \<Rightarrow> bool" where
  "basicCancel_fits m \<longleftrightarrow> length (basicCancel_ConsumerTag m) < 256"

text \<open>\<open>basicCancelOk\<close>\<close>

record basicCancelOk =
  basicCancelOk_ConsumerTag :: bytes

definition basicCancelOk_zero :: basicCancelOk where
  "basicCancelOk_zero = \<lparr>basicCancelOk_ConsumerTag = []\<rparr>"

definition basicCancelOk_id :: "basicCancelOk \<Rightarrow> 16 word \<times> 16 word" where
  "basicCancelOk_id me = (60, 31)"

definition basicCancelOk_wait :: "basicCancelOk \<Rightarrow> bool" where
  "basicCancelOk_wait me = True"

definition basicCancelOk_write :: "basicCancelOk \<Rightarrow> wr" where
  "basicCancelOk_write me =
     wseq (writeShortstr (basicCancelOk_ConsumerTag me)) (Inr [])"

definition basicCancelOk_read :: "basicCancelOk \<Rightarrow> bytes \<Rightarrow> basicCancelOk rd" where
  "basicCancelOk_read me bs =
     rbind (readShortstr bs) (\<lambda>v0 r.
     Ok (me\<lparr>basicCancelOk_ConsumerTag := v0\<rparr>) r)"

definition basicCancelOk_fits :: "basicCancelOk \<Rightarrow> bool" where
  "basicCancelOk_fits m \<longleftrightarrow> length (basicCancelOk_ConsumerTag m) < 256"

text \<open>\<open>basicPublish\<close>\<close>

record basicPublish =
  basicPublish_reserved1 :: "16 word"
  basicPublish_Exchange :: bytes
  basicPublish_RoutingKey :: bytes
  basicPublish_Mandatory :: bool
  basicPublish_Immediate :: bool
  basicPublish_Properties :: properties
  basicPublish_Body :: bytes

definition basicPublish_zero :: basicPublish where
  "basicPublish_zero = \<lparr>basicPublish_reserved1 = 0, basicPublish_Exchange = [], basicPublish_RoutingKey = [], basicPublish_Mandatory = False, basicPublish_Immediate = False, basicPublish_Properties = zero_properties, basicPublish_Body = []\<rparr>"

definition basicPublish_id :: "basicPublish \<Rightarrow> 16 word \<times> 16 word" where
  "basicPublish_id me = (60, 40)"

definition basicPublish_wait :: "basicPublish \<Rightarrow> bool" where
  "basicPublish_wait me = False"

definition basicPublish_getContent :: "basicPublish \<Rightarrow> properties \<times> bytes" where
  "basicPublish_getContent me = (basicPublish_Properties me, basicPublish_Body me)"

definition basicPublish_setContent :: "properties \<Rightarrow> bytes \<Rightarrow> basicPublish \<Rightarrow> basicPublish" where
  "basicPublish_setContent props body me = me\<lparr>basicPublish_Properties := props, basicPublish_Body := body\<rparr>"

definition basicPublish_write :: "basicPublish \<Rightarrow> wr" where
  "basicPublish_write me =
     wseq (write_u16 (basicPublish_reserved1 me)) (
     wseq (writeShortstr (basicPublish_Exchange me)) (
     wseq (writeShortstr (basicPublish_RoutingKey me)) (
     wseq (write_u8 (or_bit (basicPublish_Immediate me) 1 (or_bit (basicPublish_Mandatory me) 0 0))) (Inr []))))"

definition basicPublish_read :: "basicPublish \<Rightarrow> bytes \<Rightarrow> basicPublish rd" where
  "basicPublish_read me bs =
     rbind (read_u16 bs) (\<lambda>v0 r.
     rbind (readShortstr r) (\<lambda>v1 r.
     rbind (readShortstr r) (\<lambda>v2 r.
     rbind (read_u8 r) (\<lambda>v3 r.
     Ok (me\<lparr>basicPublish_reserved1 := v0, basicPublish_Exchange := v1, basicPublish_RoutingKey := v2, basicPublish_Mandatory := has_bit 0 v3, basicPublish_Immediate := has_bit 1 v3\<rparr>) r))))"

definition basicPublish_fits :: "basicPublish \<Rightarrow> bool" where
  "basicPublish_fits m \<longleftrightarrow> length (basicPublish_Exchange m) < 256 \<and> length (basicPublish_RoutingKey m) < 256 \<and> basicPublish_Properties m = zero_properties \<and> basicPublish_Body m = []"

text \<open>\<open>basicReturn\<close>\<close>

record basicReturn =
  basicReturn_ReplyCode :: "16 word"
  basicReturn_ReplyText :: bytes
  basicReturn_Exchange :: bytes
  basicReturn_RoutingKey :: bytes
  basicReturn_Properties :: properties
  basicReturn_Body :: bytes

definition basicReturn_zero :: basicReturn where
  "basicReturn_zero = \<lparr>basicReturn_ReplyCode = 0, basicReturn_ReplyText = [], basicReturn_Exchange = [], basicReturn_RoutingKey = [], basicReturn_Properties = zero_properties, basicReturn_Body = []\<rparr>"

definition basicReturn_id :: "basicReturn \<Rightarrow> 16 word \<times> 16 word" where
  "basicReturn_id me = (60, 50)"

definition basicReturn_wait :: "basicReturn \<Rightarrow> bool" where
  "basicReturn_wait me = False"

definition basicReturn_getContent :: "basicReturn \<Rightarrow> properties \<times> bytes" where
  "basicReturn_getContent me = (basicReturn_Properties me, basicReturn_Body me)"

definition basicReturn_setContent :: "properties \<Rightarrow> bytes \<Rightarrow> basicReturn \<Rightarrow> basicReturn" where
  "basicReturn_setContent props body me = me\<lparr>basicReturn_Properties := props, basicReturn_Body := body\<rparr>"

definition basicReturn_write :: "basicReturn \<Rightarrow> wr" where
  "basicReturn_write me =
     wseq (write_u16 (basicReturn_ReplyCode me)) (
     wseq (writeShortstr (basicReturn_ReplyText me)) (
     wseq (writeShortstr (basicReturn_Exchange me)) (
     wseq (writeShortstr (basicReturn_RoutingKey me)) (Inr []))))"

definition basicReturn_read :: "basicReturn \<Rightarrow> bytes \<Rightarrow> basicReturn rd" where
  "basicReturn_read me bs =
     rbind (read_u16 bs) (\<lambda>v0 r.
     rbind (readShortstr r) (\<lambda>v1 r.
     rbind (readShortstr r) (\<lambda>v2 r.
     rbind (readShortstr r) (\<lambda>v3 r.
     Ok (me\<lparr>basicReturn_ReplyCode := v0, basicReturn_ReplyText := v1, basicReturn_Exchange := v2, basicReturn_RoutingKey := v3\<rparr>) r))))"

definition basicReturn_fits :: "basicReturn \<Rightarrow> bool" where
  "basicReturn_fits m \<longleftrightarrow> length (basicReturn_ReplyText m) < 256 \<and> length (basicReturn_Exchange m) < 256 \<and> length (basicReturn_RoutingKey m) < 256 \<and> basicReturn_Properties m = zero_properties \<and> basicReturn_Body m = []"

text \<open>\<open>basicDeliver\<close>\<close>

record basicDeliver =
  basicDeliver_ConsumerTag :: bytes
  basicDeliver_DeliveryTag :: "64 word"
  basicDeliver_Redelivered :: bool
  basicDeliver_Exchange :: bytes
  basicDeliver_RoutingKey :: bytes
  basicDeliver_Properties :: properties
  basicDeliver_Body :: bytes

definition basicDeliver_zero :: basicDeliver where
  "basicDeliver_zero = \<lparr>basicDeliver_ConsumerTag = [], basicDeliver_DeliveryTag = 0, basicDeliver_Redelivered = False, basicDeliver_Exchange = [], basicDeliver_RoutingKey = [], basicDeliver_Properties = zero_properties, basicDeliver_Body = []\<rparr>"

definition basicDeliver_id :: "basicDeliver \<Rightarrow> 16 word \<times> 16 word" where
  "basicDeliver_id me = (60, 60)"

definition basicDeliver_wait :: "basicDeliver \<Rightarrow> bool" where
  "basicDeliver_wait me = False"

definition basicDeliver_getContent :: "basicDeliver \<Rightarrow> properties \<times> bytes" where
  "basicDeliver_getContent me = (basicDeliver_Properties me, basicDeliver_Body me)"

definition basicDeliver_setContent :: "properties \<Rightarrow> bytes \<Rightarrow> basicDeliver \<Rightarrow> basicDeliver" where
  "basicDeliver_setContent props body me = me\<lparr>basicDeliver_Properties := props, basicDeliver_Body := body\<rparr>"

definition basicDeliver_write :: "basicDeliver \<Rightarrow> wr" where
  "basicDeliver_write me =
     wseq (writeShortstr (basicDeliver_ConsumerTag me)) (
     wseq (write_u64 (basicDeliver_DeliveryTag me)) (
     wseq (write_u8 (or_bit (basicDeliver_Redelivered me) 0 0)) (
     wseq (writeShortstr (basicDeliver_Exchange me)) (
     wseq (writeShortstr (basicDeliver_RoutingKey me)) (Inr [])))))"

definition basicDeliver_read :: "basicDeliver \<Rightarrow> bytes \<Rightarrow> basicDeliver rd" where
  "basicDeliver_read me bs =
     rbind (readShortstr bs) (\<lambda>v0 r.
     rbind (read_u64 r) (\<lambda>v1 r.
     rbind (read_u8 r) (\<lambda>v2 r.
     rbind (readShortstr r) (\<lambda>v3 r.
     rbind (readShortstr r) (\<lambda>v4 r.
     Ok (me\<lparr>basicDeliver_ConsumerTag := v0, basicDeliver_DeliveryTag := v1, basicDeliver_Redelivered := has_bit 0 v2, basicDeliver_Exchange := v3, basicDeliver_RoutingKey := v4\<rparr>) r)))))"

definition basicDeliver_fits :: "basicDeliver \<Rightarrow> bool" where
  "basicDeliver_fits m \<longleftrightarrow> length (basicDeliver_ConsumerTag m) < 256 \<and> length (basicDeliver_Exchange m) < 256 \<and> length (basicDeliver_RoutingKey m) < 256 \<and> basicDeliver_Properties m = zero_properties \<and> basicDeliver_Body m = []"

text \<open>\<open>basicGet\<close>\<close>

record basicGet =
  basicGet_reserved1 :: "16 word"
  basicGet_Queue :: bytes
  basicGet_NoAck :: bool

definition basicGet_zero :: basicGet where
  "basicGet_zero = \<lparr>basicGet_reserved1 = 0, basicGet_Queue = [], basicGet_NoAck = False\<rparr>"

definition basicGet_id :: "basicGet \<Rightarrow> 16 word \<times> 16 word" where
  "basicGet_id me = (60, 70)"

definition basicGet_wait :: "basicGet \<Rightarrow> bool" where
  "basicGet_wait me = True"

definition basicGet_write :: "basicGet \<Rightarrow> wr" where
  "basicGet_write me =
     wseq (write_u16 (basicGet_reserved1 me)) (
     wseq (writeShortstr (basicGet_Queue me)) (
     wseq (write_u8 (or_bit (basicGet_NoAck me) 0 0)) (Inr [])))"

definition basicGet_read :: "basicGet \<Rightarrow> bytes \<Rightarrow> basicGet rd" where
  "basicGet_read me bs =
     rbind (read_u16 bs) (\<lambda>v0 r.
     rbind (readShortstr r) (\<lambda>v1 r.
     rbind (read_u8 r) (\<lambda>v2 r.
     Ok (me\<lparr>basicGet_reserved1 := v0, basicGet_Queue := v1, basicGet_NoAck := has_bit 0 v2\<rparr>) r)))"

definition basicGet_fits :: "basicGet \<Rightarrow> bool" where
  "basicGet_fits m \<longleftrightarrow> length (basicGet_Queue m) < 256"

text \<open>\<open>basicGetOk\<close>\<close>

record basicGetOk =
  basicGetOk_DeliveryTag :: "64 word"
  basicGetOk_Redelivered :: bool
  basicGetOk_Exchange :: bytes
  basicGetOk_RoutingKey :: bytes
  basicGetOk_MessageCount :: "32 word"
  basicGetOk_Properties :: properties
  basicGetOk_Body :: bytes

definition basicGetOk_zero :: basicGetOk where
  "basicGetOk_zero = \<lparr>basicGetOk_DeliveryTag = 0, basicGetOk_Redelivered = False, basicGetOk_Exchange = [], basicGetOk_RoutingKey = [], basicGetOk_MessageCount = 0, basicGetOk_Properties = zero_properties, basicGetOk_Body = []\<rparr>"

definition basicGetOk_id :: "basicGetOk \<Rightarrow> 16 word \<times> 16 word" where
  "basicGetOk_id me = (60, 71)"

definition basicGetOk_wait :: "basicGetOk \<Rightarrow> bool" where
  "basicGetOk_wait me = True"

definition basicGetOk_getContent :: "basicGetOk \<Rightarrow> properties \<times> bytes" where
  "basicGetOk_getContent me = (basicGetOk_Properties me, basicGetOk_Body me)"

definition basicGetOk_setContent :: "properties \<Rightarrow> bytes \<Rightarrow> basicGetOk \<Rightarrow> basicGetOk" where
  "basicGetOk_setContent props body me = me\<lparr>basicGetOk_Properties := props, basicGetOk_Body := body\<rparr>"

definition basicGetOk_write :: "basicGetOk \<Rightarrow> wr" where
  "basicGetOk_write me =
     wseq (write_u64 (basicGetOk_DeliveryTag me)) (
     wseq (write_u8 (or_bit (basicGetOk_Redelivered me) 0 0)) (
     wseq (writeShortstr (basicGetOk_Exchange me)) (
     wseq (writeShortstr (basicGetOk_RoutingKey me)) (
     wseq (write_u32 (basicGetOk_MessageCount me)) (Inr [])))))"

definition basicGetOk_read :: "basicGetOk \<Rightarrow> bytes \<Rightarrow> basicGetOk rd" where
  "basicGetOk_read me bs =
     rbind (read_u64 bs) (\<lambda>v0 r.
     rbind (read_u8 r) (\<lambda>v1 r.
     rbind (readShortstr r) (\<lambda>v2 r.
     rbind (readShortstr r) (\<lambda>v3 r.
     rbind (read_u32 r) (\<lambda>v4 r.
     Ok (me\<lparr>basicGetOk_DeliveryTag := v0, basicGetOk_Redelivered := has_bit 0 v1, basicGetOk_Exchange := v2, basicGetOk_RoutingKey := v3, basicGetOk_MessageCount := v4\<rparr>) r)))))"

definition basicGetOk_fits :: "basicGetOk \<Rightarrow> bool" where
  "basicGetOk_fits m \<longleftrightarrow> length (basicGetOk_Exchange m) < 256 \<and> length (basicGetOk_RoutingKey m) < 256 \<and> basicGetOk_Properties m = zero_properties \<and> basicGetOk_Body m = []"

text \<open>\<open>basicGetEmpty\<close>\<close>

record basicGetEmpty =
  basicGetEmpty_reserved1 :: bytes

definition basicGetEmpty_zero :: basicGetEmpty where
  "basicGetEmpty_zero = \<lparr>basicGetEmpty_reserved1 = []\<rparr>"

definition basicGetEmpty_id :: "basicGetEmpty \<Rightarrow> 16 word \<times> 16 word" where
  "basicGetEmpty_id me = (60, 72)"

definition basicGetEmpty_wait :: "basicGetEmpty \<Rightarrow> bool" where
  "basicGetEmpty_wait me = True"

definition basicGetEmpty_write :: "basicGetEmpty \<Rightarrow> wr" where
  "basicGetEmpty_write me =
     wseq (writeShortstr (basicGetEmpty_reserved1 me)) (Inr [])"

definition basicGetEmpty_read :: "basicGetEmpty \<Rightarrow> bytes \<Rightarrow> basicGetEmpty rd" where
  "basicGetEmpty_read me bs =
     rbind (readShortstr bs) (\<lambda>v0 r.
     Ok (me\<lparr>basicGetEmpty_reserved1 := v0\<rparr>) r)"

definition basicGetEmpty_fits :: "basicGetEmpty \<Rightarrow> bool" where
  "basicGetEmpty_fits m \<longleftrightarrow> length (basicGetEmpty_reserved1 m) < 256"

text \<open>\<open>basicAck\<close>\<close>

record basicAck =
  basicAck_DeliveryTag :: "64 word"
  basicAck_Multiple :: bool

definition basicAck_zero :: basicAck where
  "basicAck_zero = \<lparr>basicAck_DeliveryTag = 0, basicAck_Multiple = False\<rparr>"

definition basicAck_id :: "basicAck \<Rightarrow> 16 word \<times> 16 word" where
  "basicAck_id me = (60, 80)"

definition basicAck_wait :: "basicAck \<Rightarrow> bool" where
  "basicAck_wait me = False"

definition basicAck_write :: "basicAck \<Rightarrow> wr" where
  "basicAck_write me =
     wseq (write_u64 (basicAck_DeliveryTag me)) (
     wseq (write_u8 (or_bit (basicAck_Multiple me) 0 0)) (Inr []))"

definition basicAck_read :: "basicAck \<Rightarrow> bytes \<Rightarrow> basicAck rd" where
  "basicAck_read me bs =
     rbind (read_u64 bs) (\<lambda>v0 r.
     rbind (read_u8 r) (\<lambda>v1 r.
     Ok (me\<lparr>basicAck_DeliveryTag := v0, basicAck_Multiple := has_bit 0 v1\<rparr>) r))"

definition basicAck_fits :: "basicAck \<Rightarrow> bool" where
  "basicAck_fits m \<longleftrightarrow> True"

text \<open>\<open>basicReject\<close>\<close>

record basicReject =
  basicReject_DeliveryTag :: "64 word"
  basicReject_Requeue :: bool

definition basicReject_zero :: basicReject where
  "basicReject_zero = \<lparr>basicReject_DeliveryTag = 0, basicReject_Requeue = False\<rparr>"

definition basicReject_id :: "basicReject \<Rightarrow> 16 word \<times> 16 word" where
  "basicReject_id me = (60, 90)"

definition basicReject_wait :: "basicReject \<Rightarrow> bool" where
  "basicReject_wait me = False"

definition basicReject_write :: "basicReject \<Rightarrow> wr" where
  "basicReject_write me =
     wseq (write_u64 (basicReject_DeliveryTag me)) (
     wseq (write_u8 (or_bit (basicReject_Requeue me) 0 0)) (Inr []))"

definition basicReject_read :: "basicReject \<Rightarrow> bytes \<Rightarrow> basicReject rd" where
  "basicReject_read me bs =
     rbind (read_u64 bs) (\<lambda>v0 r.
     rbind (read_u8 r) (\<lambda>v1 r.
     Ok (me\<lparr>basicReject_DeliveryTag := v0, basicReject_Requeue := has_bit 0 v1\<rparr>) r))"

definition basicReject_fits :: "basicReject \<Rightarrow> bool" where
  "basicReject_fits m \<longleftrightarrow> True"

text \<open>\<open>basicRecoverAsync\<close>\<close>

record basicRecoverAsync =
  basicRecoverAsync_Requeue :: bool

definition basicRecoverAsync_zero :: basicRecoverAsync where
  "basicRecoverAsync_zero = \<lparr>basicRecoverAsync_Requeue = False\<rparr>"

definition basicRecoverAsync_id :: "basicRecoverAsync \<Rightarrow> 16 word \<times> 16 word" where
  "basicRecoverAsync_id me = (60, 100)"

definition basicRecoverAsync_wait :: "basicRecoverAsync \<Rightarrow> bool" where
  "basicRecoverAsync_wait me = False"

definition basicRecoverAsync_write :: "basicRecoverAsync \<Rightarrow> wr" where
  "basicRecoverAsync_write me =
     wseq (write_u8 (or_bit (basicRecoverAsync_Requeue me) 0 0)) (Inr [])"

definition basicRecoverAsync_read :: "basicRecoverAsync \<Rightarrow> bytes \<Rightarrow> basicRecoverAsync rd" where
  "basicRecoverAsync_read me bs =
     rbind (read_u8 bs) (\<lambda>v0 r.
     Ok (me\<lparr>basicRecoverAsync_Requeue := has_bit 0 v0\<rparr>) r)"

definition basicRecoverAsync_fits :: "basicRecoverAsync \<Rightarrow> bool" where
  "basicRecoverAsync_fits m \<longleftrightarrow> True"

text \<open>\<open>basicRecover\<close>\<close>

record basicRecover =
  basicRecover_Requeue :: bool

definition basicRecover_zero :: basicRecover where
  "basicRecover_zero = \<lparr>basicRecover_Requeue = False\<rparr>"

definition basicRecover_id :: "basicRecover \<Rightarrow> 16 word \<times> 16 word" where
  "basicRecover_id me = (60, 110)"

definition basicRecover_wait :: "basicRecover \<Rightarrow> bool" where
  "basicRecover_wait me = True"

definition basicRecover_write :: "basicRecover \<Rightarrow> wr" where
  "basicRecover_write me =
     wseq (write_u8 (or_bit (basicRecover_Requeue me) 0 0)) (Inr [])"

definition basicRecover_read :: "basicRecover \<Rightarrow> bytes \<Rightarrow> basicRecover rd" where
  "basicRecover_read me bs =
     rbind (read_u8 bs) (\<lambda>v0 r.
     Ok (me\<lparr>basicRecover_Requeue := has_bit 0 v0\<rparr>) r)"

definition basicRecover_fits :: "basicRecover \<Rightarrow> bool" where
  "basicRecover_fits m \<longleftrightarrow> True"

text \<open>\<open>basicRecoverOk\<close>\<close>

datatype basicRecoverOk = basicRecoverOk

definition basicRecoverOk_zero :: basicRecoverOk where
  "basicRecoverOk_zero = basicRecoverOk"

definition basicRecoverOk_id :: "basicRecoverOk \<Rightarrow> 16 word \<times> 16 word" where
  "basicRecoverOk_id me = (60, 111)"

definition basicRecoverOk_wait :: "basicRecoverOk \<Rightarrow> bool" where
  "basicRecoverOk_wait me = True"

definition basicRecoverOk_write :: "basicRecoverOk \<Rightarrow> wr" where
  "basicRecoverOk_write me =
     Inr []"

definition basicRecoverOk_read :: "basicRecoverOk \<Rightarrow> bytes \<Rightarrow> basicRecoverOk rd" where
  "basicRecoverOk_read me bs =
     Ok me bs"

definition basicRecoverOk_fits :: "basicRecoverOk \<Rightarrow> bool" where
  "basicRecoverOk_fits m \<longleftrightarrow> True"

text \<open>\<open>basicNack\<close>\<close>

record basicNack =
  basicNack_DeliveryTag :: "64 word"
  basicNack_Multiple :: bool
  basicNack_Requeue :: bool

definition basicNack_zero :: basicNack where
  "basicNack_zero = \<lparr>basicNack_DeliveryTag = 0, basicNack_Multiple = False, basicNack_Requeue = False\<rparr>"

definition basicNack_id :: "basicNack \<Rightarrow> 16 word \<times> 16 word" where
  "basicNack_id me = (60, 120)"

definition basicNack_wait :: "basicNack \<Rightarrow> bool" where
  "basicNack_wait me = False"

definition basicNack_write :: "basicNack \<Rightarrow> wr" where
  "basicNack_write me =
     wseq (write_u64 (basicNack_DeliveryTag me)) (
     wseq (write_u8 (or_bit (basicNack_Requeue me) 1 (or_bit (basicNack_Multiple me) 0 0))) (Inr []))"

definition basicNack_read :: "basicNack \<Rightarrow> bytes \<Rightarrow> basicNack rd" where
  "basicNack_read me bs =
     rbind (read_u64 bs) (\<lambda>v0 r.
     rbind (read_u8 r) (\<lambda>v1 r.
     Ok (me\<lparr>basicNack_DeliveryTag := v0, basicNack_Multiple := has_bit 0 v1, basicNack_Requeue := has_bit 1 v1\<rparr>) r))"

definition basicNack_fits :: "basicNack \<Rightarrow> bool" where
  "basicNack_fits m \<longleftrightarrow> True"

text \<open>The methods of the class, their \<open>id\<close>, \<open>wait\<close> and \<open>write\<close>, and their part of the
  switch of \<open>parseMethodFrame\<close>.\<close>

datatype basic_message =
    BasicQos basicQos
  | BasicQosOk basicQosOk
  | BasicConsume basicConsume
  | BasicConsumeOk basicConsumeOk
  | BasicCancel basicCancel
  | BasicCancelOk basicCancelOk
  | BasicPublish basicPublish
  | BasicReturn basicReturn
  | BasicDeliver basicDeliver
  | BasicGet basicGet
  | BasicGetOk basicGetOk
  | BasicGetEmpty basicGetEmpty
  | BasicAck basicAck
  | BasicReject basicReject
  | BasicRecoverAsync basicRecoverAsync
  | BasicRecover basicRecover
  | BasicRecoverOk basicRecoverOk
  | BasicNack basicNack

fun basic_id :: "basic_message \<Rightarrow> 16 word \<times> 16 word" where
  "basic_id (BasicQos m) = basicQos_id m"
| "basic_id (BasicQosOk m) = basicQosOk_id m"
| "basic_id (BasicConsume m) = basicConsume_id m"
| "basic_id (BasicConsumeOk m) = basicConsumeOk_id m"
| "basic_id (BasicCancel m) = basicCancel_id m"
| "basic_id (BasicCancelOk m) = basicCancelOk_id m"
| "basic_id (BasicPublish m) = basicPublish_id m"
| "basic_id (BasicReturn m) = basicReturn_id m"
| "basic_id (BasicDeliver m) = basicDeliver_id m"
| "basic_id (BasicGet m) = basicGet_id m"
| "basic_id (BasicGetOk m) = basicGetOk_id m"
| "basic_id (BasicGetEmpty m) = basicGetEmpty_id m"
| "basic_id (BasicAck m) = basicAck_id m"
| "basic_id (BasicReject m) = basicReject_id m"
| "basic_id (BasicRecoverAsync m) = basicRecoverAsync_id m"
| "basic_id (BasicRecover m) = basicRecover_id m"
| "basic_id (BasicRecoverOk m) = basicRecoverOk_id m"
| "basic_id (BasicNack m) = basicNack_id m"

fun basic_wait :: "basic_message \<Rightarrow> bool" where
  "basic_wait (BasicQos m) = basicQos_wait m"
| "basic_wait (BasicQosOk m) = basicQosOk_wait m"
| "basic_wait (BasicConsume m) = basicConsume_wait m"
| "basic_wait (BasicConsumeOk m) = basicConsumeOk_wait m"
| "basic_wait (BasicCancel m) = basicCancel_wait m"
| "basic_wait (BasicCancelOk m) = basicCancelOk_wait m"
| "basic_wait (BasicPublish m) = basicPublish_wait m"
| "basic_wait (BasicReturn m) = basicReturn_wait m"
| "basic_wait (BasicDeliver m) = basicDeliver_wait m"
| "basic_wait (BasicGet m) = basicGet_wait m"
| "basic_wait (BasicGetOk m) = basicGetOk_wait m"
| "basic_wait (BasicGetEmpty m) = basicGetEmpty_wait m"
| "basic_wait (BasicAck m) = basicAck_wait m"
| "basic_wait (BasicReject m) = basicReject_wait m"
| "basic_wait (BasicRecoverAsync m) = basicRecoverAsync_wait m"
| "basic_wait (BasicRecover m) = basicRecover_wait m"
| "basic_wait (BasicRecoverOk m) = basicRecoverOk_wait m"
| "basic_wait (BasicNack m) = basicNack_wait m"

fun basic_write :: "basic_message \<Rightarrow> wr" where
  "basic_write (BasicQos m) = basicQos_write m"
| "basic_write (BasicQosOk m) = basicQosOk_write m"
| "basic_write (BasicConsume m) = basicConsume_write m"
| "basic_write (BasicConsumeOk m) = basicConsumeOk_write m"
| "basic_write (BasicCancel m) = basicCancel_write m"
| "basic_write (BasicCancelOk m) = basicCancelOk_write m"
| "basic_write (BasicPublish m) = basicPublish_write m"
| "basic_write (BasicReturn m) = basicReturn_write m"
| "basic_write (BasicDeliver m) = basicDeliver_write m"
| "basic_write (BasicGet m) = basicGet_write m"
| "basic_write (BasicGetOk m) = basicGetOk_write m"
| "basic_write (BasicGetEmpty m) = basicGetEmpty_write m"
| "basic_write (BasicAck m) = basicAck_write m"
| "basic_write (BasicReject m) = basicReject_write m"
| "basic_write (BasicRecoverAsync m) = basicRecoverAsync_write m"
| "basic_write (BasicRecover m) = basicRecover_write m"
| "basic_write (BasicRecoverOk m) = basicRecoverOk_write m"
| "basic_write (BasicNack m) = basicNack_write m"

fun basic_fits :: "basic_message \<Rightarrow> bool" where
  "basic_fits (BasicQos m) = basicQos_fits m"
| "basic_fits (BasicQosOk m) = basicQosOk_fits m"
| "basic_fits (BasicConsume m) = basicConsume_fits m"
| "basic_fits (BasicConsumeOk m) = basicConsumeOk_fits m"
| "basic_fits (BasicCancel m) = basicCancel_fits m"
| "basic_fits (BasicCancelOk m) = basicCancelOk_fits m"
| "basic_fits (BasicPublish m) = basicPublish_fits m"
| "basic_fits (BasicReturn m) = basicReturn_fits m"
| "basic_fits (BasicDeliver m) = basicDeliver_fits m"
| "basic_fits (BasicGet m) = basicGet_fits m"
| "basic_fits (BasicGetOk m) = basicGetOk_fits m"
| "basic_fits (BasicGetEmpty m) = basicGetEmpty_fits m"
| "basic_fits (BasicAck m) = basicAck_fits m"
| "basic_fits (BasicReject m) = basicReject_fits m"
| "basic_fits (BasicRecoverAsync m) = basicRecoverAsync_fits m"
| "basic_fits (BasicRecover m) = basicRecover_fits m"
| "basic_fits (BasicRecoverOk m) = basicRecoverOk_fits m"
| "basic_fits (BasicNack m) = basicNack_fits m"

definition parse_basic :: "16 word \<Rightarrow> bytes \<Rightarrow> basic_message rd" where
  "parse_basic method bs =
    (if method = 10 then rbind (basicQos_read basicQos_zero bs) (\<lambda>m. Ok (BasicQos m))
     else if method = 11 then rbind (basicQosOk_read basicQosOk_zero bs) (\<lambda>m. Ok (BasicQosOk m))
     else if method = 20 then rbind (basicConsume_read basicConsume_zero bs) (\<lambda>m. Ok (BasicConsume m))
     else if method = 21 then rbind (basicConsumeOk_read basicConsumeOk_zero bs) (\<lambda>m. Ok (BasicConsumeOk m))
     else if method = 30 then rbind (basicCancel_read basicCancel_zero bs) (\<lambda>m. Ok (BasicCancel m))
     else if method = 31 then rbind (basicCancelOk_read basicCancelOk_zero bs) (\<lambda>m. Ok (BasicCancelOk m))
     else if method = 40 then rbind (basicPublish_read basicPublish_zero bs) (\<lambda>m. Ok (BasicPublish m))
     else if method = 50 then rbind (basicReturn_read basicReturn_zero bs) (\<lambda>m. Ok (BasicReturn m))
     else if method = 60 then rbind (basicDeliver_read basicDeliver_zero bs) (\<lambda>m. Ok (BasicDeliver m))
     else if method = 70 then rbind (basicGet_read basicGet_zero bs) (\<lambda>m. Ok (BasicGet m))
     else if method = 71 then rbind (basicGetOk_read basicGetOk_zero bs) (\<lambda>m. Ok (BasicGetOk m))
     else if method = 72 then rbind (basicGetEmpty_read basicGetEmpty_zero bs) (\<lambda>m. Ok (BasicGetEmpty m))
     else if method = 80 then rbind (basicAck_read basicAck_zero bs) (\<lambda>m. Ok (BasicAck m))
     else if method = 90 then rbind (basicReject_read basicReject_zero bs) (\<lambda>m. Ok (BasicReject m))
     else if method = 100 then rbind (basicRecoverAsync_read basicRecoverAsync_zero bs) (\<lambda>m. Ok (BasicRecoverAsync m))
     else if method = 110 then rbind (basicRecover_read basicRecover_zero bs) (\<lambda>m. Ok (BasicRecover m))
     else if method = 111 then rbind (basicRecoverOk_read basicRecoverOk_zero bs) (\<lambda>m. Ok (BasicRecoverOk m))
     else if method = 120 then rbind (basicNack_read basicNack_zero bs) (\<lambda>m. Ok (BasicNack m))
     else Fail (UnknownMethod method 60) bs)"

section \<open>Round trips of class basic\<close>

lemma basicQos_sound [intro]: "length bs \<le> k \<Longrightarrow> sound k (basicQos_read me bs)"
  unfolding basicQos_read_def by ((rule sound_rbind_same sound_uses sound_done | assumption)+)

lemma basicQos_conveyed [conveyed]:
  "basicQos_fits m \<Longrightarrow> conveys (basicQos_write m) (basicQos_read basicQos_zero) m"
  unfolding basicQos_write_def basicQos_read_def basicQos_fits_def
  by ((elim conjE)?, (rule conveys_seq conveys_done conveyed | assumption)+, simp add: basicQos_zero_def)

lemma basicQosOk_sound [intro]: "length bs \<le> k \<Longrightarrow> sound k (basicQosOk_read me bs)"
  unfolding basicQosOk_read_def by (rule sound_done)

lemma basicQosOk_conveyed [conveyed]: "conveys (basicQosOk_write m) (basicQosOk_read basicQosOk_zero) m"
  unfolding basicQosOk_write_def basicQosOk_read_def by (cases m) (simp add: conveys_def basicQosOk_zero_def)

lemma basicConsume_sound [intro]: "length bs \<le> k \<Longrightarrow> sound k (basicConsume_read me bs)"
  unfolding basicConsume_read_def by ((rule sound_rbind_same sound_uses sound_done | assumption)+)

lemma basicConsume_conveyed [conveyed]:
  "basicConsume_fits m \<Longrightarrow> conveys (basicConsume_write m) (basicConsume_read basicConsume_zero) m"
  unfolding basicConsume_write_def basicConsume_read_def basicConsume_fits_def
  by ((elim conjE)?, (rule conveys_seq conveys_done conveyed | assumption)+, simp add: basicConsume_zero_def)

lemma basicConsumeOk_sound [intro]: "length bs \<le> k \<Longrightarrow> sound k (basicConsumeOk_read me bs)"
  unfolding basicConsumeOk_read_def by ((rule sound_rbind_same sound_uses sound_done | assumption)+)

lemma basicConsumeOk_conveyed [conveyed]:
  "basicConsumeOk_fits m \<Longrightarrow> conveys (basicConsumeOk_write m) (basicConsumeOk_read basicConsumeOk_zero) m"
  unfolding basicConsumeOk_write_def basicConsumeOk_read_def basicConsumeOk_fits_def
  by ((elim conjE)?, (rule conveys_seq conveys_done conveyed | assumption)+, simp add: basicConsumeOk_zero_def)

lemma basicCancel_sound [intro]: "length bs \<le> k \<Longrightarrow> sound k (basicCancel_read me bs)"
  unfolding basicCancel_read_def by ((rule sound_rbind_same sound_uses sound_done | assumption)+)

lemma basicCancel_conveyed [conveyed]:
  "basicCancel_fits m \<Longrightarrow> conveys (basicCancel_write m) (basicCancel_read basicCancel_zero) m"
  unfolding basicCancel_write_def basicCancel_read_def basicCancel_fits_def
  by ((elim conjE)?, (rule conveys_seq conveys_done conveyed | assumption)+, simp add: basicCancel_zero_def)

lemma basicCancelOk_sound [intro]: "length bs \<le> k \<Longrightarrow> sound k (basicCancelOk_read me bs)"
  unfolding basicCancelOk_read_def by ((rule sound_rbind_same sound_uses sound_done | assumption)+)

lemma basicCancelOk_conveyed [conveyed]:
  "basicCancelOk_fits m \<Longrightarrow> conveys (basicCancelOk_write m) (basicCancelOk_read basicCancelOk_zero) m"
  unfolding basicCancelOk_write_def basicCancelOk_read_def basicCancelOk_fits_def
  by ((elim conjE)?, (rule conveys_seq conveys_done conveyed | assumption)+, simp add: basicCancelOk_zero_def)

lemma basicPublish_sound [intro]: "length bs \<le> k \<Longrightarrow> sound k (basicPublish_read me bs)"
  unfolding basicPublish_read_def by ((rule sound_rbind_same sound_uses sound_done | assumption)+)

lemma basicPublish_conveyed [conveyed]:
  "basicPublish_fits m \<Longrightarrow> conveys (basicPublish_write m) (basicPublish_read basicPublish_zero) m"
  unfolding basicPublish_write_def basicPublish_read_def basicPublish_fits_def
  by ((elim conjE)?, (rule conveys_seq conveys_done conveyed | assumption)+, simp add: basicPublish_zero_def)

lemma basicReturn_sound [intro]: "length bs \<le> k \<Longrightarrow> sound k (basicReturn_read me bs)"
  unfolding basicReturn_read_def by ((rule sound_rbind_same sound_uses sound_done | assumption)+)

lemma basicReturn_conveyed [conveyed]:
  "basicReturn_fits m \<Longrightarrow> conveys (basicReturn_write m) (basicReturn_read basicReturn_zero) m"
  unfolding basicReturn_write_def basicReturn_read_def basicReturn_fits_def
  by ((elim conjE)?, (rule conveys_seq conveys_done conveyed | assumption)+, simp add: basicReturn_zero_def)

lemma basicDeliver_sound [intro]: "length bs \<le> k \<Longrightarrow> sound k (basicDeliver_read me bs)"
  unfolding basicDeliver_read_def by ((rule sound_rbind_same sound_uses sound_done | assumption)+)

lemma basicDeliver_conveyed [conveyed]:
  "basicDeliver_fits m \<Longrightarrow> conveys (basicDeliver_write m) (basicDeliver_read basicDeliver_zero) m"
  unfolding basicDeliver_write_def basicDeliver_read_def basicDeliver_fits_def
  by ((elim conjE)?, (rule conveys_seq conveys_done conveyed | assumption)+, simp add: basicDeliver_zero_def)

lemma basicGet_sound [intro]: "length bs \<le> k \<Longrightarrow> sound k (basicGet_read me bs)"
  unfolding basicGet_read_def by ((rule sound_rbind_same sound_uses sound_done | assumption)+)

lemma basicGet_conveyed [conveyed]:
  "basicGet_fits m \<Longrightarrow> conveys (basicGet_write m) (basicGet_read basicGet_zero) m"
  unfolding basicGet_write_def basicGet_read_def basicGet_fits_def
  by ((elim conjE)?, (rule conveys_seq conveys_done conveyed | assumption)+, simp add: basicGet_zero_def)

lemma basicGetOk_sound [intro]: "length bs \<le> k \<Longrightarrow> sound k (basicGetOk_read me bs)"
  unfolding basicGetOk_read_def by ((rule sound_rbind_same sound_uses sound_done | assumption)+)

lemma basicGetOk_conveyed [conveyed]:
  "basicGetOk_fits m \<Longrightarrow> conveys (basicGetOk_write m) (basicGetOk_read basicGetOk_zero) m"
  unfolding basicGetOk_write_def basicGetOk_read_def basicGetOk_fits_def
  by ((elim conjE)?, (rule conveys_seq conveys_done conveyed | assumption)+, simp add: basicGetOk_zero_def)

lemma basicGetEmpty_sound [intro]: "length bs \<le> k \<Longrightarrow> sound k (basicGetEmpty_read me bs)"
  unfolding basicGetEmpty_read_def by ((rule sound_rbind_same sound_uses sound_done | assumption)+)

lemma basicGetEmpty_conveyed [conveyed]:
  "basicGetEmpty_fits m \<Longrightarrow> conveys (basicGetEmpty_write m) (basicGetEmpty_read basicGetEmpty_zero) m"
  unfolding basicGetEmpty_write_def basicGetEmpty_read_def basicGetEmpty_fits_def
  by ((elim conjE)?, (rule conveys_seq conveys_done conveyed | assumption)+, simp add: basicGetEmpty_zero_def)

lemma basicAck_sound [intro]: "length bs \<le> k \<Longrightarrow> sound k (basicAck_read me bs)"
  unfolding basicAck_read_def by ((rule sound_rbind_same sound_uses sound_done | assumption)+)

lemma basicAck_conveyed [conveyed]:
  "basicAck_fits m \<Longrightarrow> conveys (basicAck_write m) (basicAck_read basicAck_zero) m"
  unfolding basicAck_write_def basicAck_read_def basicAck_fits_def
  by ((elim conjE)?, (rule conveys_seq conveys_done conveyed | assumption)+, simp add: basicAck_zero_def)

lemma basicReject_sound [intro]: "length bs \<le> k \<Longrightarrow> sound k (basicReject_read me bs)"
  unfolding basicReject_read_def by ((rule sound_rbind_same sound_uses sound_done | assumption)+)

lemma basicReject_conveyed [conveyed]:
  "basicReject_fits m \<Longrightarrow> conveys (basicReject_write m) (basicReject_read basicReject_zero) m"
  unfolding basicReject_write_def basicReject_read_def basicReject_fits_def
  by ((elim conjE)?, (rule conveys_seq conveys_done conveyed | assumption)+, simp add: basicReject_zero_def)

lemma basicRecoverAsync_sound [intro]: "length bs \<le> k \<Longrightarrow> sound k (basicRecoverAsync_read me bs)"
  unfolding basicRecoverAsync_read_def by ((rule sound_rbind_same sound_uses sound_done | assumption)+)

lemma basicRecoverAsync_conveyed [conveyed]:
  "basicRecoverAsync_fits m \<Longrightarrow> conveys (basicRecoverAsync_write m) (basicRecoverAsync_read basicRecoverAsync_zero) m"
  unfolding basicRecoverAsync_write_def basicRecoverAsync_read_def basicRecoverAsync_fits_def
  by ((elim conjE)?, (rule conveys_seq conveys_done conveyed | assumption)+, simp add: basicRecoverAsync_zero_def)

lemma basicRecover_sound [intro]: "length bs \<le> k \<Longrightarrow> sound k (basicRecover_read me bs)"
  unfolding basicRecover_read_def by ((rule sound_rbind_same sound_uses sound_done | assumption)+)

lemma basicRecover_conveyed [conveyed]:
  "basicRecover_fits m \<Longrightarrow> conveys (basicRecover_write m) (basicRecover_read basicRecover_zero) m"
  unfolding basicRecover_write_def basicRecover_read_def basicRecover_fits_def
  by ((elim conjE)?, (rule conveys_seq conveys_done conveyed | assumption)+, simp add: basicRecover_zero_def)

lemma basicRecoverOk_sound [intro]: "length bs \<le> k \<Longrightarrow> sound k (basicRecoverOk_read me bs)"
  unfolding basicRecoverOk_read_def by (rule sound_done)

lemma basicRecoverOk_conveyed [conveyed]: "conveys (basicRecoverOk_write m) (basicRecoverOk_read basicRecoverOk_zero) m"
  unfolding basicRecoverOk_write_def basicRecoverOk_read_def by (cases m) (simp add: conveys_def basicRecoverOk_zero_def)

lemma basicNack_sound [intro]: "length bs \<le> k \<Longrightarrow> sound k (basicNack_read me bs)"
  unfolding basicNack_read_def by ((rule sound_rbind_same sound_uses sound_done | assumption)+)

lemma basicNack_conveyed [conveyed]:
  "basicNack_fits m \<Longrightarrow> conveys (basicNack_write m) (basicNack_read basicNack_zero) m"
  unfolding basicNack_write_def basicNack_read_def basicNack_fits_def
  by ((elim conjE)?, (rule conveys_seq conveys_done conveyed | assumption)+, simp add: basicNack_zero_def)

lemma basic_conveyed:
  "basic_fits m \<Longrightarrow> conveys (basic_write m) (parse_basic (snd (basic_id m))) m"
  unfolding parse_basic_def
  by (cases m) (auto simp: basicQos_id_def basicQosOk_id_def basicConsume_id_def basicConsumeOk_id_def basicCancel_id_def basicCancelOk_id_def basicPublish_id_def basicReturn_id_def basicDeliver_id_def basicGet_id_def basicGetOk_id_def basicGetEmpty_id_def basicAck_id_def basicReject_id_def basicRecoverAsync_id_def basicRecover_id_def basicRecoverOk_id_def basicNack_id_def intro!: conveys_map conveyed)

lemma basic_sound: "length bs \<le> k \<Longrightarrow> sound k (parse_basic i bs)"
  unfolding parse_basic_def by (auto intro!: sound_rbind_same sound_done)

lemma basic_class: "fst (basic_id m) = 60"
  by (cases m) (simp_all add: basicQos_id_def basicQosOk_id_def basicConsume_id_def basicConsumeOk_id_def basicCancel_id_def basicCancelOk_id_def basicPublish_id_def basicReturn_id_def basicDeliver_id_def basicGet_id_def basicGetOk_id_def basicGetEmpty_id_def basicAck_id_def basicReject_id_def basicRecoverAsync_id_def basicRecover_id_def basicRecoverOk_id_def basicNack_id_def)

end
