(* ===== verification/Amqp_Tx.thy ===== *)
theory Amqp_Tx
  imports Amqp_Types
begin

text \<open>
  The methods of classes tx and confirm of the vendored AMQP client (\<open>spec091.go\<close>): one record per method (a
  struct without fields is \<open>unit\<close>), with its \<open>id\<close>, \<open>wait\<close>, \<open>write\<close> and \<open>read\<close>; the class as a
  datatype; and the round trip of every method whose strings and tables fit their prefixes.
\<close>

section \<open>Class tx\<close>

text \<open>\<open>txSelect\<close>\<close>

datatype txSelect = txSelect

definition txSelect_zero :: txSelect where
  "txSelect_zero = txSelect"

definition txSelect_id :: "txSelect \<Rightarrow> 16 word \<times> 16 word" where
  "txSelect_id me = (90, 10)"

definition txSelect_wait :: "txSelect \<Rightarrow> bool" where
  "txSelect_wait me = True"

definition txSelect_write :: "txSelect \<Rightarrow> wr" where
  "txSelect_write me =
     Inr []"

definition txSelect_read :: "txSelect \<Rightarrow> bytes \<Rightarrow> txSelect rd" where
  "txSelect_read me bs =
     Ok me bs"

definition txSelect_fits :: "txSelect \<Rightarrow> bool" where
  "txSelect_fits m \<longleftrightarrow> True"

text \<open>\<open>txSelectOk\<close>\<close>

datatype txSelectOk = txSelectOk

definition txSelectOk_zero :: txSelectOk where
  "txSelectOk_zero = txSelectOk"

definition txSelectOk_id :: "txSelectOk \<Rightarrow> 16 word \<times> 16 word" where
  "txSelectOk_id me = (90, 11)"

definition txSelectOk_wait :: "txSelectOk \<Rightarrow> bool" where
  "txSelectOk_wait me = True"

definition txSelectOk_write :: "txSelectOk \<Rightarrow> wr" where
  "txSelectOk_write me =
     Inr []"

definition txSelectOk_read :: "txSelectOk \<Rightarrow> bytes \<Rightarrow> txSelectOk rd" where
  "txSelectOk_read me bs =
     Ok me bs"

definition txSelectOk_fits :: "txSelectOk \<Rightarrow> bool" where
  "txSelectOk_fits m \<longleftrightarrow> True"

text \<open>\<open>txCommit\<close>\<close>

datatype txCommit = txCommit

definition txCommit_zero :: txCommit where
  "txCommit_zero = txCommit"

definition txCommit_id :: "txCommit \<Rightarrow> 16 word \<times> 16 word" where
  "txCommit_id me = (90, 20)"

definition txCommit_wait :: "txCommit \<Rightarrow> bool" where
  "txCommit_wait me = True"

definition txCommit_write :: "txCommit \<Rightarrow> wr" where
  "txCommit_write me =
     Inr []"

definition txCommit_read :: "txCommit \<Rightarrow> bytes \<Rightarrow> txCommit rd" where
  "txCommit_read me bs =
     Ok me bs"

definition txCommit_fits :: "txCommit \<Rightarrow> bool" where
  "txCommit_fits m \<longleftrightarrow> True"

text \<open>\<open>txCommitOk\<close>\<close>

datatype txCommitOk = txCommitOk

definition txCommitOk_zero :: txCommitOk where
  "txCommitOk_zero = txCommitOk"

definition txCommitOk_id :: "txCommitOk \<Rightarrow> 16 word \<times> 16 word" where
  "txCommitOk_id me = (90, 21)"

definition txCommitOk_wait :: "txCommitOk \<Rightarrow> bool" where
  "txCommitOk_wait me = True"

definition txCommitOk_write :: "txCommitOk \<Rightarrow> wr" where
  "txCommitOk_write me =
     Inr []"

definition txCommitOk_read :: "txCommitOk \<Rightarrow> bytes \<Rightarrow> txCommitOk rd" where
  "txCommitOk_read me bs =
     Ok me bs"

definition txCommitOk_fits :: "txCommitOk \<Rightarrow> bool" where
  "txCommitOk_fits m \<longleftrightarrow> True"

text \<open>\<open>txRollback\<close>\<close>

datatype txRollback = txRollback

definition txRollback_zero :: txRollback where
  "txRollback_zero = txRollback"

definition txRollback_id :: "txRollback \<Rightarrow> 16 word \<times> 16 word" where
  "txRollback_id me = (90, 30)"

definition txRollback_wait :: "txRollback \<Rightarrow> bool" where
  "txRollback_wait me = True"

definition txRollback_write :: "txRollback \<Rightarrow> wr" where
  "txRollback_write me =
     Inr []"

definition txRollback_read :: "txRollback \<Rightarrow> bytes \<Rightarrow> txRollback rd" where
  "txRollback_read me bs =
     Ok me bs"

definition txRollback_fits :: "txRollback \<Rightarrow> bool" where
  "txRollback_fits m \<longleftrightarrow> True"

text \<open>\<open>txRollbackOk\<close>\<close>

datatype txRollbackOk = txRollbackOk

definition txRollbackOk_zero :: txRollbackOk where
  "txRollbackOk_zero = txRollbackOk"

definition txRollbackOk_id :: "txRollbackOk \<Rightarrow> 16 word \<times> 16 word" where
  "txRollbackOk_id me = (90, 31)"

definition txRollbackOk_wait :: "txRollbackOk \<Rightarrow> bool" where
  "txRollbackOk_wait me = True"

definition txRollbackOk_write :: "txRollbackOk \<Rightarrow> wr" where
  "txRollbackOk_write me =
     Inr []"

definition txRollbackOk_read :: "txRollbackOk \<Rightarrow> bytes \<Rightarrow> txRollbackOk rd" where
  "txRollbackOk_read me bs =
     Ok me bs"

definition txRollbackOk_fits :: "txRollbackOk \<Rightarrow> bool" where
  "txRollbackOk_fits m \<longleftrightarrow> True"

text \<open>The methods of the class, their \<open>id\<close>, \<open>wait\<close> and \<open>write\<close>, and their part of the
  switch of \<open>parseMethodFrame\<close>.\<close>

datatype tx_message =
    TxSelect txSelect
  | TxSelectOk txSelectOk
  | TxCommit txCommit
  | TxCommitOk txCommitOk
  | TxRollback txRollback
  | TxRollbackOk txRollbackOk

fun tx_id :: "tx_message \<Rightarrow> 16 word \<times> 16 word" where
  "tx_id (TxSelect m) = txSelect_id m"
| "tx_id (TxSelectOk m) = txSelectOk_id m"
| "tx_id (TxCommit m) = txCommit_id m"
| "tx_id (TxCommitOk m) = txCommitOk_id m"
| "tx_id (TxRollback m) = txRollback_id m"
| "tx_id (TxRollbackOk m) = txRollbackOk_id m"

fun tx_wait :: "tx_message \<Rightarrow> bool" where
  "tx_wait (TxSelect m) = txSelect_wait m"
| "tx_wait (TxSelectOk m) = txSelectOk_wait m"
| "tx_wait (TxCommit m) = txCommit_wait m"
| "tx_wait (TxCommitOk m) = txCommitOk_wait m"
| "tx_wait (TxRollback m) = txRollback_wait m"
| "tx_wait (TxRollbackOk m) = txRollbackOk_wait m"

fun tx_write :: "tx_message \<Rightarrow> wr" where
  "tx_write (TxSelect m) = txSelect_write m"
| "tx_write (TxSelectOk m) = txSelectOk_write m"
| "tx_write (TxCommit m) = txCommit_write m"
| "tx_write (TxCommitOk m) = txCommitOk_write m"
| "tx_write (TxRollback m) = txRollback_write m"
| "tx_write (TxRollbackOk m) = txRollbackOk_write m"

fun tx_fits :: "tx_message \<Rightarrow> bool" where
  "tx_fits (TxSelect m) = txSelect_fits m"
| "tx_fits (TxSelectOk m) = txSelectOk_fits m"
| "tx_fits (TxCommit m) = txCommit_fits m"
| "tx_fits (TxCommitOk m) = txCommitOk_fits m"
| "tx_fits (TxRollback m) = txRollback_fits m"
| "tx_fits (TxRollbackOk m) = txRollbackOk_fits m"

definition parse_tx :: "16 word \<Rightarrow> bytes \<Rightarrow> tx_message rd" where
  "parse_tx method bs =
    (if method = 10 then rbind (txSelect_read txSelect_zero bs) (\<lambda>m. Ok (TxSelect m))
     else if method = 11 then rbind (txSelectOk_read txSelectOk_zero bs) (\<lambda>m. Ok (TxSelectOk m))
     else if method = 20 then rbind (txCommit_read txCommit_zero bs) (\<lambda>m. Ok (TxCommit m))
     else if method = 21 then rbind (txCommitOk_read txCommitOk_zero bs) (\<lambda>m. Ok (TxCommitOk m))
     else if method = 30 then rbind (txRollback_read txRollback_zero bs) (\<lambda>m. Ok (TxRollback m))
     else if method = 31 then rbind (txRollbackOk_read txRollbackOk_zero bs) (\<lambda>m. Ok (TxRollbackOk m))
     else Fail (UnknownMethod method 90) bs)"

section \<open>Class confirm\<close>

text \<open>\<open>confirmSelect\<close>\<close>

record confirmSelect =
  confirmSelect_Nowait :: bool

definition confirmSelect_zero :: confirmSelect where
  "confirmSelect_zero = \<lparr>confirmSelect_Nowait = False\<rparr>"

definition confirmSelect_id :: "confirmSelect \<Rightarrow> 16 word \<times> 16 word" where
  "confirmSelect_id me = (85, 10)"

definition confirmSelect_wait :: "confirmSelect \<Rightarrow> bool" where
  "confirmSelect_wait me = True"

definition confirmSelect_write :: "confirmSelect \<Rightarrow> wr" where
  "confirmSelect_write me =
     wseq (write_u8 (or_bit (confirmSelect_Nowait me) 0 0)) (Inr [])"

definition confirmSelect_read :: "confirmSelect \<Rightarrow> bytes \<Rightarrow> confirmSelect rd" where
  "confirmSelect_read me bs =
     rbind (read_u8 bs) (\<lambda>v0 r.
     Ok (me\<lparr>confirmSelect_Nowait := has_bit 0 v0\<rparr>) r)"

definition confirmSelect_fits :: "confirmSelect \<Rightarrow> bool" where
  "confirmSelect_fits m \<longleftrightarrow> True"

text \<open>\<open>confirmSelectOk\<close>\<close>

datatype confirmSelectOk = confirmSelectOk

definition confirmSelectOk_zero :: confirmSelectOk where
  "confirmSelectOk_zero = confirmSelectOk"

definition confirmSelectOk_id :: "confirmSelectOk \<Rightarrow> 16 word \<times> 16 word" where
  "confirmSelectOk_id me = (85, 11)"

definition confirmSelectOk_wait :: "confirmSelectOk \<Rightarrow> bool" where
  "confirmSelectOk_wait me = True"

definition confirmSelectOk_write :: "confirmSelectOk \<Rightarrow> wr" where
  "confirmSelectOk_write me =
     Inr []"

definition confirmSelectOk_read :: "confirmSelectOk \<Rightarrow> bytes \<Rightarrow> confirmSelectOk rd" where
  "confirmSelectOk_read me bs =
     Ok me bs"

definition confirmSelectOk_fits :: "confirmSelectOk \<Rightarrow> bool" where
  "confirmSelectOk_fits m \<longleftrightarrow> True"

text \<open>The methods of the class, their \<open>id\<close>, \<open>wait\<close> and \<open>write\<close>, and their part of the
  switch of \<open>parseMethodFrame\<close>.\<close>

datatype confirm_message =
    ConfirmSelect confirmSelect
  | ConfirmSelectOk confirmSelectOk

fun confirm_id :: "confirm_message \<Rightarrow> 16 word \<times> 16 word" where
  "confirm_id (ConfirmSelect m) = confirmSelect_id m"
| "confirm_id (ConfirmSelectOk m) = confirmSelectOk_id m"

fun confirm_wait :: "confirm_message \<Rightarrow> bool" where
  "confirm_wait (ConfirmSelect m) = confirmSelect_wait m"
| "confirm_wait (ConfirmSelectOk m) = confirmSelectOk_wait m"

fun confirm_write :: "confirm_message \<Rightarrow> wr" where
  "confirm_write (ConfirmSelect m) = confirmSelect_write m"
| "confirm_write (ConfirmSelectOk m) = confirmSelectOk_write m"

fun confirm_fits :: "confirm_message \<Rightarrow> bool" where
  "confirm_fits (ConfirmSelect m) = confirmSelect_fits m"
| "confirm_fits (ConfirmSelectOk m) = confirmSelectOk_fits m"

definition parse_confirm :: "16 word \<Rightarrow> bytes \<Rightarrow> confirm_message rd" where
  "parse_confirm method bs =
    (if method = 10 then rbind (confirmSelect_read confirmSelect_zero bs) (\<lambda>m. Ok (ConfirmSelect m))
     else if method = 11 then rbind (confirmSelectOk_read confirmSelectOk_zero bs) (\<lambda>m. Ok (ConfirmSelectOk m))
     else Fail (UnknownMethod method 85) bs)"

section \<open>Round trips of class tx\<close>

lemma txSelect_sound [intro]: "length bs \<le> k \<Longrightarrow> sound k (txSelect_read me bs)"
  unfolding txSelect_read_def by (rule sound_done)

lemma txSelect_conveyed [conveyed]: "conveys (txSelect_write m) (txSelect_read txSelect_zero) m"
  unfolding txSelect_write_def txSelect_read_def by (cases m) (simp add: conveys_def txSelect_zero_def)

lemma txSelectOk_sound [intro]: "length bs \<le> k \<Longrightarrow> sound k (txSelectOk_read me bs)"
  unfolding txSelectOk_read_def by (rule sound_done)

lemma txSelectOk_conveyed [conveyed]: "conveys (txSelectOk_write m) (txSelectOk_read txSelectOk_zero) m"
  unfolding txSelectOk_write_def txSelectOk_read_def by (cases m) (simp add: conveys_def txSelectOk_zero_def)

lemma txCommit_sound [intro]: "length bs \<le> k \<Longrightarrow> sound k (txCommit_read me bs)"
  unfolding txCommit_read_def by (rule sound_done)

lemma txCommit_conveyed [conveyed]: "conveys (txCommit_write m) (txCommit_read txCommit_zero) m"
  unfolding txCommit_write_def txCommit_read_def by (cases m) (simp add: conveys_def txCommit_zero_def)

lemma txCommitOk_sound [intro]: "length bs \<le> k \<Longrightarrow> sound k (txCommitOk_read me bs)"
  unfolding txCommitOk_read_def by (rule sound_done)

lemma txCommitOk_conveyed [conveyed]: "conveys (txCommitOk_write m) (txCommitOk_read txCommitOk_zero) m"
  unfolding txCommitOk_write_def txCommitOk_read_def by (cases m) (simp add: conveys_def txCommitOk_zero_def)

lemma txRollback_sound [intro]: "length bs \<le> k \<Longrightarrow> sound k (txRollback_read me bs)"
  unfolding txRollback_read_def by (rule sound_done)

lemma txRollback_conveyed [conveyed]: "conveys (txRollback_write m) (txRollback_read txRollback_zero) m"
  unfolding txRollback_write_def txRollback_read_def by (cases m) (simp add: conveys_def txRollback_zero_def)

lemma txRollbackOk_sound [intro]: "length bs \<le> k \<Longrightarrow> sound k (txRollbackOk_read me bs)"
  unfolding txRollbackOk_read_def by (rule sound_done)

lemma txRollbackOk_conveyed [conveyed]: "conveys (txRollbackOk_write m) (txRollbackOk_read txRollbackOk_zero) m"
  unfolding txRollbackOk_write_def txRollbackOk_read_def by (cases m) (simp add: conveys_def txRollbackOk_zero_def)

lemma tx_conveyed:
  "tx_fits m \<Longrightarrow> conveys (tx_write m) (parse_tx (snd (tx_id m))) m"
  unfolding parse_tx_def
  by (cases m) (auto simp: txSelect_id_def txSelectOk_id_def txCommit_id_def txCommitOk_id_def txRollback_id_def txRollbackOk_id_def intro!: conveys_map conveyed)

lemma tx_sound: "length bs \<le> k \<Longrightarrow> sound k (parse_tx i bs)"
  unfolding parse_tx_def by (auto intro!: sound_rbind_same sound_done)

lemma tx_class: "fst (tx_id m) = 90"
  by (cases m) (simp_all add: txSelect_id_def txSelectOk_id_def txCommit_id_def txCommitOk_id_def txRollback_id_def txRollbackOk_id_def)

section \<open>Round trips of class confirm\<close>

lemma confirmSelect_sound [intro]: "length bs \<le> k \<Longrightarrow> sound k (confirmSelect_read me bs)"
  unfolding confirmSelect_read_def by ((rule sound_rbind_same sound_uses sound_done | assumption)+)

lemma confirmSelect_conveyed [conveyed]:
  "confirmSelect_fits m \<Longrightarrow> conveys (confirmSelect_write m) (confirmSelect_read confirmSelect_zero) m"
  unfolding confirmSelect_write_def confirmSelect_read_def confirmSelect_fits_def
  by ((elim conjE)?, (rule conveys_seq conveys_done conveyed | assumption)+, simp add: confirmSelect_zero_def)

lemma confirmSelectOk_sound [intro]: "length bs \<le> k \<Longrightarrow> sound k (confirmSelectOk_read me bs)"
  unfolding confirmSelectOk_read_def by (rule sound_done)

lemma confirmSelectOk_conveyed [conveyed]: "conveys (confirmSelectOk_write m) (confirmSelectOk_read confirmSelectOk_zero) m"
  unfolding confirmSelectOk_write_def confirmSelectOk_read_def by (cases m) (simp add: conveys_def confirmSelectOk_zero_def)

lemma confirm_conveyed:
  "confirm_fits m \<Longrightarrow> conveys (confirm_write m) (parse_confirm (snd (confirm_id m))) m"
  unfolding parse_confirm_def
  by (cases m) (auto simp: confirmSelect_id_def confirmSelectOk_id_def intro!: conveys_map conveyed)

lemma confirm_sound: "length bs \<le> k \<Longrightarrow> sound k (parse_confirm i bs)"
  unfolding parse_confirm_def by (auto intro!: sound_rbind_same sound_done)

lemma confirm_class: "fst (confirm_id m) = 85"
  by (cases m) (simp_all add: confirmSelect_id_def confirmSelectOk_id_def)

end
