(* ===== verification/Amqp_Frames.thy ===== *)
theory Amqp_Frames
  imports Amqp_Connection Amqp_Channel Amqp_Queue Amqp_Basic Amqp_Tx
begin

text \<open>
  The frames of the vendored AMQP client: the \<open>frame\<close> interface and its implementations
  (\<open>types.go\<close>), \<open>writeFrame\<close> and the \<open>write\<close> of each kind (\<open>write.go\<close>), \<open>parseMethodFrame\<close>
  (\<open>spec091.go\<close>), \<open>parseHeaderFrame\<close>, \<open>parseBodyFrame\<close>, \<open>parseHeartbeatFrame\<close> and \<open>ReadFrame\<close>
  (\<open>read.go\<close>).  The socket below takes every byte; its errors belong to the connection.
\<close>

section \<open>Methods of all classes\<close>

datatype message =
    Connection_Message connection_message
  | Channel_Message channel_message
  | Exchange_Message exchange_message
  | Queue_Message queue_message
  | Basic_Message basic_message
  | Tx_Message tx_message
  | Confirm_Message confirm_message

fun message_id :: "message \<Rightarrow> 16 word \<times> 16 word" where
  "message_id (Connection_Message m) = connection_id m"
| "message_id (Channel_Message m) = channel_id m"
| "message_id (Exchange_Message m) = exchange_id m"
| "message_id (Queue_Message m) = queue_id m"
| "message_id (Basic_Message m) = basic_id m"
| "message_id (Tx_Message m) = tx_id m"
| "message_id (Confirm_Message m) = confirm_id m"

fun message_wait :: "message \<Rightarrow> bool" where
  "message_wait (Connection_Message m) = connection_wait m"
| "message_wait (Channel_Message m) = channel_wait m"
| "message_wait (Exchange_Message m) = exchange_wait m"
| "message_wait (Queue_Message m) = queue_wait m"
| "message_wait (Basic_Message m) = basic_wait m"
| "message_wait (Tx_Message m) = tx_wait m"
| "message_wait (Confirm_Message m) = confirm_wait m"

fun message_write :: "message \<Rightarrow> wr" where
  "message_write (Connection_Message m) = connection_write m"
| "message_write (Channel_Message m) = channel_write m"
| "message_write (Exchange_Message m) = exchange_write m"
| "message_write (Queue_Message m) = queue_write m"
| "message_write (Basic_Message m) = basic_write m"
| "message_write (Tx_Message m) = tx_write m"
| "message_write (Confirm_Message m) = confirm_write m"

fun message_fits :: "message \<Rightarrow> bool" where
  "message_fits (Connection_Message m) = connection_fits m"
| "message_fits (Channel_Message m) = channel_fits m"
| "message_fits (Exchange_Message m) = exchange_fits m"
| "message_fits (Queue_Message m) = queue_fits m"
| "message_fits (Basic_Message m) = basic_fits m"
| "message_fits (Tx_Message m) = tx_fits m"
| "message_fits (Confirm_Message m) = confirm_fits m"

section \<open>Frames\<close>

record methodFrame =
  mf_ChannelId :: "16 word"
  mf_ClassId :: "16 word"
  mf_MethodId :: "16 word"
  mf_Method :: "message option"

record heartbeatFrame =
  hb_ChannelId :: "16 word"

record headerFrame =
  hf_ChannelId :: "16 word"
  hf_ClassId :: "16 word"
  hf_weight :: "16 word"
  hf_Size :: "64 word"
  hf_Properties :: properties

record bodyFrame =
  bf_ChannelId :: "16 word"
  bf_Body :: bytes

datatype frame =
    Method_Frame methodFrame
  | Heartbeat_Frame heartbeatFrame
  | Header_Frame headerFrame
  | Body_Frame bodyFrame
  | Protocol_Header

text \<open>\<open>channel()\<close>, which panics on the protocol header.\<close>

fun frame_channel :: "frame \<Rightarrow> (16 word) option" where
  "frame_channel (Method_Frame me) = Some (mf_ChannelId me)"
| "frame_channel (Heartbeat_Frame me) = Some (hb_ChannelId me)"
| "frame_channel (Header_Frame me) = Some (hf_ChannelId me)"
| "frame_channel (Body_Frame me) = Some (bf_ChannelId me)"
| "frame_channel Protocol_Header = None"

section \<open>Writing frames\<close>

definition writeFrame :: "8 word \<Rightarrow> 16 word \<Rightarrow> bytes \<Rightarrow> wr" where
  "writeFrame typ channel payload =
    (let sz = (word_of_nat (length payload) :: 64 word) in
     wseq (Inr
       [typ,
        ucast (drop_bit 8 (channel AND 0xff00)),
        ucast (drop_bit 0 (channel AND 0x00ff)),
        ucast (drop_bit 24 (sz AND 0xff000000)),
        ucast (drop_bit 16 (sz AND 0x00ff0000)),
        ucast (drop_bit 8 (sz AND 0x0000ff00)),
        ucast (drop_bit 0 (sz AND 0x000000ff))])
     (wseq (Inr payload) (Inr [frameEnd])))"

text \<open>The payload is buffered first: an error in it leaves nothing on the wire.\<close>

definition with_payload :: "wr \<Rightarrow> (bytes \<Rightarrow> wr) \<Rightarrow> wr" where
  "with_payload w f = (case w of Inl e \<Rightarrow> Inl e | Inr b \<Rightarrow> f b)"

definition methodFrame_write :: "methodFrame \<Rightarrow> wr" where
  "methodFrame_write me =
    (case mf_Method me of
       None \<Rightarrow> Inl MissingMethod
     | Some m \<Rightarrow>
         (let (class_no, method_no) = message_id m in
          with_payload (wseq (write_u16 class_no) (wseq (write_u16 method_no) (message_write m)))
            (writeFrame frameMethod (mf_ChannelId me))))"

definition heartbeatFrame_write :: "heartbeatFrame \<Rightarrow> wr" where
  "heartbeatFrame_write me = writeFrame frameHeartbeat (hb_ChannelId me) []"

definition bodyFrame_write :: "bodyFrame \<Rightarrow> wr" where
  "bodyFrame_write me = writeFrame frameBody (bf_ChannelId me) (bf_Body me)"

definition protocolHeader_write :: wr where
  "protocolHeader_write = Inr [65, 77, 81, 80, 0, 0, 9, 1]"

text \<open>The first pass of the header frame builds the mask of the properties that are present.\<close>

definition set_flag :: "bool \<Rightarrow> 16 word \<Rightarrow> 16 word \<Rightarrow> 16 word" where
  "set_flag b flag msk = (if b then msk OR flag else msk)"

definition property_mask :: "properties \<Rightarrow> 16 word" where
  "property_mask p =
     set_flag (0 < length (AppId p)) flagAppId
    (set_flag (0 < length (UserId p)) flagUserId
    (set_flag (0 < length (Type p)) flagType
    (set_flag (Timestamp p \<noteq> ZeroTime) flagTimestamp
    (set_flag (0 < length (MessageId p)) flagMessageId
    (set_flag (0 < length (Expiration p)) flagExpiration
    (set_flag (0 < length (ReplyTo p)) flagReplyTo
    (set_flag (0 < length (CorrelationId p)) flagCorrelationId
    (set_flag (0 < Priority p) flagPriority
    (set_flag (0 < DeliveryMode p) flagDeliveryMode
    (set_flag (0 < length (Headers p)) flagHeaders
    (set_flag (0 < length (ContentEncoding p)) flagContentEncoding
    (set_flag (0 < length (ContentType p)) flagContentType 0))))))))))))"

text \<open>The second pass writes the properties of the mask.\<close>

definition write_if :: "bool \<Rightarrow> wr \<Rightarrow> wr" where
  "write_if b w = (if b then w else Inr [])"

definition properties_write :: "16 word \<Rightarrow> properties \<Rightarrow> wr" where
  "properties_write msk p =
     wseq (write_if (hasProperty msk flagContentType) (writeShortstr (ContentType p)))
    (wseq (write_if (hasProperty msk flagContentEncoding) (writeShortstr (ContentEncoding p)))
    (wseq (write_if (hasProperty msk flagHeaders) (writeTable (Headers p)))
    (wseq (write_if (hasProperty msk flagDeliveryMode) (write_u8 (DeliveryMode p)))
    (wseq (write_if (hasProperty msk flagPriority) (write_u8 (Priority p)))
    (wseq (write_if (hasProperty msk flagCorrelationId) (writeShortstr (CorrelationId p)))
    (wseq (write_if (hasProperty msk flagReplyTo) (writeShortstr (ReplyTo p)))
    (wseq (write_if (hasProperty msk flagExpiration) (writeShortstr (Expiration p)))
    (wseq (write_if (hasProperty msk flagMessageId) (writeShortstr (MessageId p)))
    (wseq (write_if (hasProperty msk flagTimestamp) (write_u64 (unix_seconds (Timestamp p))))
    (wseq (write_if (hasProperty msk flagType) (writeShortstr (Type p)))
    (wseq (write_if (hasProperty msk flagUserId) (writeShortstr (UserId p)))
    (wseq (write_if (hasProperty msk flagAppId) (writeShortstr (AppId p)))
    (Inr [])))))))))))))"

definition headerFrame_write :: "headerFrame \<Rightarrow> wr" where
  "headerFrame_write me =
    (let msk = property_mask (hf_Properties me) in
     with_payload
       (wseq (write_u16 (hf_ClassId me))
       (wseq (write_u16 (hf_weight me))
       (wseq (write_u64 (hf_Size me))
       (wseq (write_u16 msk)
         (properties_write msk (hf_Properties me))))))
       (writeFrame frameHeader (hf_ChannelId me)))"

fun frame_write :: "frame \<Rightarrow> wr" where
  "frame_write (Method_Frame me) = methodFrame_write me"
| "frame_write (Heartbeat_Frame me) = heartbeatFrame_write me"
| "frame_write (Header_Frame me) = headerFrame_write me"
| "frame_write (Body_Frame me) = bodyFrame_write me"
| "frame_write Protocol_Header = protocolHeader_write"

section \<open>Reading frames\<close>

definition parse_message :: "16 word \<Rightarrow> 16 word \<Rightarrow> bytes \<Rightarrow> message rd" where
  "parse_message class_no method_no bs =
    (if class_no = 10 then rbind (parse_connection method_no bs) (\<lambda>m. Ok (Connection_Message m))
     else if class_no = 20 then rbind (parse_channel method_no bs) (\<lambda>m. Ok (Channel_Message m))
     else if class_no = 40 then rbind (parse_exchange method_no bs) (\<lambda>m. Ok (Exchange_Message m))
     else if class_no = 50 then rbind (parse_queue method_no bs) (\<lambda>m. Ok (Queue_Message m))
     else if class_no = 60 then rbind (parse_basic method_no bs) (\<lambda>m. Ok (Basic_Message m))
     else if class_no = 90 then rbind (parse_tx method_no bs) (\<lambda>m. Ok (Tx_Message m))
     else if class_no = 85 then rbind (parse_confirm method_no bs) (\<lambda>m. Ok (Confirm_Message m))
     else Fail (UnknownClass class_no) bs)"

text \<open>The size of the frame header is not used: a method reads what its fields need.\<close>

definition parseMethodFrame :: "16 word \<Rightarrow> 32 word \<Rightarrow> bytes \<Rightarrow> frame rd" where
  "parseMethodFrame channel sz bs =
     rbind (read_u16 bs) (\<lambda>class_no r.
     rbind (read_u16 r) (\<lambda>method_no r.
     rbind (parse_message class_no method_no r) (\<lambda>m.
       Ok (Method_Frame
         \<lparr>mf_ChannelId = channel, mf_ClassId = class_no, mf_MethodId = method_no,
          mf_Method = Some m\<rparr>))))"

definition read_if :: "bool \<Rightarrow> (bytes \<Rightarrow> 'a rd) \<Rightarrow> 'a \<Rightarrow> bytes \<Rightarrow> 'a rd" where
  "read_if b f d bs = (if b then f bs else Ok d bs)"

definition properties_read :: "16 word \<Rightarrow> bytes \<Rightarrow> properties rd" where
  "properties_read flags bs =
     rbind (read_if (hasProperty flags flagContentType) readShortstr [] bs) (\<lambda>contentType r.
     rbind (read_if (hasProperty flags flagContentEncoding) readShortstr [] r) (\<lambda>contentEncoding r.
     rbind (read_if (hasProperty flags flagHeaders) read_table [] r) (\<lambda>headers r.
     rbind (read_if (hasProperty flags flagDeliveryMode) read_u8 0 r) (\<lambda>deliveryMode r.
     rbind (read_if (hasProperty flags flagPriority) read_u8 0 r) (\<lambda>priority r.
     rbind (read_if (hasProperty flags flagCorrelationId) readShortstr [] r) (\<lambda>correlationId r.
     rbind (read_if (hasProperty flags flagReplyTo) readShortstr [] r) (\<lambda>replyTo r.
     rbind (read_if (hasProperty flags flagExpiration) readShortstr [] r) (\<lambda>expiration r.
     rbind (read_if (hasProperty flags flagMessageId) readShortstr [] r) (\<lambda>messageId r.
     rbind (read_if (hasProperty flags flagTimestamp) readTimestamp ZeroTime r) (\<lambda>timestamp r.
     rbind (read_if (hasProperty flags flagType) readShortstr [] r) (\<lambda>typ r.
     rbind (read_if (hasProperty flags flagUserId) readShortstr [] r) (\<lambda>userId r.
     rbind (read_if (hasProperty flags flagAppId) readShortstr [] r) (\<lambda>appId r.
     rbind (read_if (hasProperty flags flagReserved1) readShortstr [] r) (\<lambda>reserved.
       Ok \<lparr>ContentType = contentType, ContentEncoding = contentEncoding, Headers = headers,
          DeliveryMode = deliveryMode, Priority = priority, CorrelationId = correlationId,
          ReplyTo = replyTo, Expiration = expiration, MessageId = messageId,
          Timestamp = timestamp, Type = typ, UserId = userId, AppId = appId,
          reserved1 = reserved\<rparr>))))))))))))))"

definition parseHeaderFrame :: "16 word \<Rightarrow> 32 word \<Rightarrow> bytes \<Rightarrow> frame rd" where
  "parseHeaderFrame channel sz bs =
     rbind (read_u16 bs) (\<lambda>class_no r.
     rbind (read_u16 r) (\<lambda>weight r.
     rbind (read_u64 r) (\<lambda>body_size r.
     rbind (read_u16 r) (\<lambda>flags r.
     rbind (properties_read flags r) (\<lambda>props.
       Ok (Header_Frame
         \<lparr>hf_ChannelId = channel, hf_ClassId = class_no, hf_weight = weight, hf_Size = body_size,
          hf_Properties = props\<rparr>))))))"

definition parseBodyFrame :: "16 word \<Rightarrow> 32 word \<Rightarrow> bytes \<Rightarrow> frame rd" where
  "parseBodyFrame channel sz bs =
     rbind (read_full (unat sz) bs) (\<lambda>body.
       Ok (Body_Frame \<lparr>bf_ChannelId = channel, bf_Body = body\<rparr>))"

definition parseHeartbeatFrame :: "16 word \<Rightarrow> 32 word \<Rightarrow> bytes \<Rightarrow> frame rd" where
  "parseHeartbeatFrame channel sz bs =
     (if 0 < sz then Crash (UserPanic ''Heartbeats should not have a payload'')
      else Ok (Heartbeat_Frame \<lparr>hb_ChannelId = channel\<rparr>) bs)"

definition parse_payload :: "8 word \<Rightarrow> 16 word \<Rightarrow> 32 word \<Rightarrow> bytes \<Rightarrow> frame rd" where
  "parse_payload typ channel sz bs =
     (if typ = frameMethod then parseMethodFrame channel sz bs
      else if typ = frameHeader then parseHeaderFrame channel sz bs
      else if typ = frameBody then parseBodyFrame channel sz bs
      else if typ = frameHeartbeat then parseHeartbeatFrame channel sz bs
      else Fail ErrFrame bs)"

definition read_end :: "frame \<Rightarrow> bytes \<Rightarrow> frame rd" where
  "read_end frame bs =
     rbind (read_full 1 bs) (\<lambda>e r. if hd e \<noteq> frameEnd then Fail ErrFrame r else Ok frame r)"

definition ReadFrame :: "bytes \<Rightarrow> frame rd" where
  "ReadFrame bs =
     rbind (read_full 7 bs) (\<lambda>scratch r.
       let typ = scratch ! 0;
           channel = (word_of_nat (be_decode (take 2 (drop 1 scratch))) :: 16 word);
           sz = (word_of_nat (be_decode (take 4 (drop 3 scratch))) :: 32 word) in
       rbind (parse_payload typ channel sz r) read_end)"

section \<open>The bytes of a frame\<close>

lemma byte_of_nat:
  assumes "8 * k + 8 \<le> LENGTH('a::len)"
  shows "ucast (drop_bit (8 * k) (word_of_nat n :: 'a word)) = (word_of_nat (n div 256 ^ k) :: 8 word)"
proof -
  have "256 ^ k = (2 :: nat) ^ (8 * k)" by (simp add: power_mult)
  then have "n div 256 ^ k = drop_bit (8 * k) n" by (simp only: drop_bit_eq_div)
  then show ?thesis
    using assms by (auto intro!: bit_word_eqI simp: bit_simps bit_of_nat_iff)
qed

lemma header_bytes:
  "ucast (drop_bit 8 (channel AND 0xff00 :: 16 word)) = (ucast (drop_bit 8 channel) :: 8 word)"
  "ucast (drop_bit 0 (channel AND 0x00ff :: 16 word)) = (ucast channel :: 8 word)"
  "ucast (drop_bit 24 (n AND 0xff000000 :: 64 word)) = (ucast (drop_bit 24 n) :: 8 word)"
  "ucast (drop_bit 16 (n AND 0x00ff0000 :: 64 word)) = (ucast (drop_bit 16 n) :: 8 word)"
  "ucast (drop_bit 8 (n AND 0x0000ff00 :: 64 word)) = (ucast (drop_bit 8 n) :: 8 word)"
  "ucast (drop_bit 0 (n AND 0x000000ff :: 64 word)) = (ucast n :: 8 word)"
proof -
  have m: "(0xff00 :: 16 word) = push_bit 8 (mask 8)" "(0x00ff :: 16 word) = mask 8"
    "(0xff000000 :: 64 word) = push_bit 24 (mask 8)" "(0x00ff0000 :: 64 word) = push_bit 16 (mask 8)"
    "(0x0000ff00 :: 64 word) = push_bit 8 (mask 8)" "(0x000000ff :: 64 word) = mask 8"
    by (simp_all add: mask_eq_exp_minus_1 push_bit_eq_mult)
  show "ucast (drop_bit 8 (channel AND 0xff00 :: 16 word)) = (ucast (drop_bit 8 channel) :: 8 word)"
    "ucast (drop_bit 0 (channel AND 0x00ff :: 16 word)) = (ucast channel :: 8 word)"
    "ucast (drop_bit 24 (n AND 0xff000000 :: 64 word)) = (ucast (drop_bit 24 n) :: 8 word)"
    "ucast (drop_bit 16 (n AND 0x00ff0000 :: 64 word)) = (ucast (drop_bit 16 n) :: 8 word)"
    "ucast (drop_bit 8 (n AND 0x0000ff00 :: 64 word)) = (ucast (drop_bit 8 n) :: 8 word)"
    "ucast (drop_bit 0 (n AND 0x000000ff :: 64 word)) = (ucast n :: 8 word)"
    unfolding m by (rule bit_word_eqI; auto simp: bit_simps)+
qed

lemma be_encode_2: "be_encode 2 x = [word_of_nat (x div 256 mod 256), word_of_nat (x mod 256)]"
  by (simp add: numeral_2_eq_2)

lemma be_encode_4:
  "be_encode 4 x =
     [word_of_nat (x div 256 ^ 3 mod 256), word_of_nat (x div 256 ^ 2 mod 256),
      word_of_nat (x div 256 mod 256), word_of_nat (x mod 256)]"
proof -
  have "(4 :: nat) = Suc (Suc (Suc (Suc 0)))" by simp
  then show ?thesis by (simp only: be_encode.simps append.simps) (simp add: div_mult2_eq[symmetric])
qed

lemma byte_mod: "(word_of_nat (x mod 256) :: 8 word) = word_of_nat x"
  by (simp add: word_of_nat_eq_iff take_bit_eq_mod)

text \<open>The header is the type, the channel and the length of the payload modulo \<open>2\<^sup>3\<^sup>2\<close>.\<close>

lemma writeFrame_eq:
  "writeFrame typ channel payload =
     Inr (typ # be_encode 2 (unat channel) @ be_encode 4 (length payload) @ payload @ [frameEnd])"
proof -
  have "channel = word_of_nat (unat channel)" by simp
  then show ?thesis
    using byte_of_nat[where 'a = 16, of 1 "unat channel"] byte_of_nat[where 'a = 16, of 0 "unat channel"]
      byte_of_nat[where 'a = 64, of 3 "length payload"] byte_of_nat[where 'a = 64, of 2 "length payload"]
      byte_of_nat[where 'a = 64, of 1 "length payload"] byte_of_nat[where 'a = 64, of 0 "length payload"]
    unfolding writeFrame_def Let_def header_bytes be_encode_2 be_encode_4 byte_mod
    by simp
qed

section \<open>Round trips\<close>

lemma hasProperty_bit: "hasProperty m (push_bit k 1) \<longleftrightarrow> bit m k"
  unfolding hasProperty_def by (rule and_bit_pos)

lemma bit_set_flag:
  "k < 16 \<Longrightarrow> bit (set_flag b (push_bit k 1) m) n \<longleftrightarrow> (b \<and> n = k) \<or> bit m n"
  by (auto simp: set_flag_def bit_or_iff bit_exp_iff)

lemma flag_bits:
  "flagContentType = push_bit 15 1" "flagContentEncoding = push_bit 14 1"
  "flagHeaders = push_bit 13 1" "flagDeliveryMode = push_bit 12 1" "flagPriority = push_bit 11 1"
  "flagCorrelationId = push_bit 10 1" "flagReplyTo = push_bit 9 1" "flagExpiration = push_bit 8 1"
  "flagMessageId = push_bit 7 1" "flagTimestamp = push_bit 6 1" "flagType = push_bit 5 1"
  "flagUserId = push_bit 4 1" "flagAppId = push_bit 3 1" "flagReserved1 = push_bit 2 1"
  unfolding flagContentType_def flagContentEncoding_def flagHeaders_def flagDeliveryMode_def
    flagPriority_def flagCorrelationId_def flagReplyTo_def flagExpiration_def flagMessageId_def
    flagTimestamp_def flagType_def flagUserId_def flagAppId_def flagReserved1_def
  by (simp_all add: push_bit_of_1)

text \<open>The mask has exactly the flags of the properties that are not zero.\<close>

lemma has_property_mask:
  "hasProperty (property_mask p) flagContentType \<longleftrightarrow> ContentType p \<noteq> []"
  "hasProperty (property_mask p) flagContentEncoding \<longleftrightarrow> ContentEncoding p \<noteq> []"
  "hasProperty (property_mask p) flagHeaders \<longleftrightarrow> Headers p \<noteq> []"
  "hasProperty (property_mask p) flagDeliveryMode \<longleftrightarrow> DeliveryMode p \<noteq> 0"
  "hasProperty (property_mask p) flagPriority \<longleftrightarrow> Priority p \<noteq> 0"
  "hasProperty (property_mask p) flagCorrelationId \<longleftrightarrow> CorrelationId p \<noteq> []"
  "hasProperty (property_mask p) flagReplyTo \<longleftrightarrow> ReplyTo p \<noteq> []"
  "hasProperty (property_mask p) flagExpiration \<longleftrightarrow> Expiration p \<noteq> []"
  "hasProperty (property_mask p) flagMessageId \<longleftrightarrow> MessageId p \<noteq> []"
  "hasProperty (property_mask p) flagTimestamp \<longleftrightarrow> Timestamp p \<noteq> ZeroTime"
  "hasProperty (property_mask p) flagType \<longleftrightarrow> Type p \<noteq> []"
  "hasProperty (property_mask p) flagUserId \<longleftrightarrow> UserId p \<noteq> []"
  "hasProperty (property_mask p) flagAppId \<longleftrightarrow> AppId p \<noteq> []"
  "\<not> hasProperty (property_mask p) flagReserved1"
  unfolding property_mask_def flag_bits hasProperty_bit
  by (simp_all only: bit_set_flag bit_0_eq numeral_eq_iff num.distinct num.inject simp_thms
      length_greater_0_conv word_gt_0 HOL.conj_disj_distribL
      rel_simps zero_less_numeral bot_fun_def bot_bool_def) auto

text \<open>Properties that survive the wire: the reserved one is read but never written.\<close>

fun timestamp_fits :: "go_time \<Rightarrow> bool" where
  "timestamp_fits ZeroTime = True"
| "timestamp_fits (UnixTime s n) = (n = 0)"

definition properties_fits :: "properties \<Rightarrow> bool" where
  "properties_fits p \<longleftrightarrow>
     length (ContentType p) < 256 \<and> length (ContentEncoding p) < 256 \<and> ok_table (Headers p) \<and>
     length (CorrelationId p) < 256 \<and> length (ReplyTo p) < 256 \<and> length (Expiration p) < 256 \<and>
     length (MessageId p) < 256 \<and> timestamp_fits (Timestamp p) \<and> length (Type p) < 256 \<and>
     length (UserId p) < 256 \<and> length (AppId p) < 256 \<and> reserved1 p = []"

lemma conveys_if:
  "(x \<noteq> d \<Longrightarrow> conveys w r x) \<Longrightarrow> conveys (write_if (x \<noteq> d) w) (read_if (x \<noteq> d) r d) x"
  by (cases "x = d") (auto simp: write_if_def read_if_def conveys_def)

lemma conveys_timestamp:
  "timestamp_fits t \<Longrightarrow> t \<noteq> ZeroTime \<Longrightarrow> conveys (write_u64 (unix_seconds t)) readTimestamp t"
  using u64.round by (cases t) (fastforce simp: conveys_def readTimestamp_def)+

lemma read_if_False [simp]: "read_if False r d = Ok d"
  by (simp add: read_if_def fun_eq_iff)

lemma properties_conveyed [conveyed]:
  assumes "properties_fits p"
  shows "conveys (properties_write (property_mask p) p) (properties_read (property_mask p)) p"
  using assms
  unfolding properties_write_def properties_read_def has_property_mask(1-13) properties_fits_def
  by (elim conjE)
    ((rule conveys_seq conveys_if conveys_timestamp conveyed | assumption)+,
     cases p, simp add: has_property_mask conveys_def)

lemma message_conveyed [conveyed]:
  assumes "message_fits m" and "message_id m = (c, i)"
  shows "conveys (message_write m) (parse_message c i) m"
proof -
  have "fst (message_id m) = c" "i = snd (message_id m)" using assms(2) by auto
  then show ?thesis using assms(1)
    unfolding parse_message_def
    by (cases m)
      (auto simp: connection_class channel_class exchange_class queue_class basic_class tx_class
        confirm_class intro!: conveys_map connection_conveyed channel_conveyed exchange_conveyed
        queue_conveyed basic_conveyed tx_conveyed confirm_conveyed)
qed

text \<open>What \<open>ReadFrame\<close> does with the bytes of a frame.\<close>

lemma ReadFrame_header:
  "ReadFrame (typ # be_encode 2 (unat channel) @ be_encode 4 n @ bs) =
     rbind (parse_payload typ channel (word_of_nat n) bs) read_end"
proof -
  let ?h = "typ # be_encode 2 (unat channel) @ be_encode 4 n"
  have full: "read_full 7 (?h @ bs) = Ok ?h bs" by (rule read_full_append) simp
  have c: "take 2 (drop 1 ?h) = be_encode 2 (unat channel)"
    and s: "take 4 (drop 3 ?h) = be_encode 4 n" by simp_all
  have n: "(word_of_nat (be_decode (be_encode 4 n)) :: 32 word) = word_of_nat n"
    by (simp add: be_decode_encode word_of_nat_eq_iff take_bit_eq_mod)
  have ch: "word_of_nat (unat channel) = channel" by simp
  show ?thesis
    using full unfolding ReadFrame_def
    by (simp only: append_Cons append_assoc rbind.simps Let_def c s n ch be_roundtrip nth_Cons_0)
qed

lemma read_end_frameEnd [simp]: "read_end f (frameEnd # rest) = Ok f rest"
  by (simp add: read_end_def read_full_def)

lemma framed:
  assumes "conveys w r f" and "\<And>n bs. parse_payload typ channel n bs = r bs"
  shows "conveys (with_payload w (writeFrame typ channel)) ReadFrame f"
proof -
  obtain b where b: "w = Inr b" "\<And>rest. r (b @ rest) = Ok f rest"
    using assms(1) by (auto simp: conveys_def)
  show ?thesis
    unfolding conveys_def with_payload_def b(1) sum.case writeFrame_eq
    by (rule exI, rule conjI, rule refl)
      (simp only: append_Cons append_assoc append_Nil ReadFrame_header assms(2) b(2) rbind.simps
        read_end_frameEnd simp_thms)
qed

section \<open>Frames that survive the wire\<close>

fun frame_fits :: "frame \<Rightarrow> bool" where
  "frame_fits (Method_Frame me) =
     (case mf_Method me of
        None \<Rightarrow> False
      | Some m \<Rightarrow> message_fits m \<and> message_id m = (mf_ClassId me, mf_MethodId me))"
| "frame_fits (Heartbeat_Frame me) = True"
| "frame_fits (Header_Frame me) = properties_fits (hf_Properties me)"
| "frame_fits (Body_Frame me) = (length (bf_Body me) < 2 ^ 32)"
| "frame_fits Protocol_Header = False"

lemmas frame_types = frameMethod_def frameHeader_def frameBody_def frameHeartbeat_def

lemma method_frame_conveyed:
  assumes "frame_fits (Method_Frame me)"
  shows "conveys (methodFrame_write me) ReadFrame (Method_Frame me)"
proof -
  obtain m where m: "mf_Method me = Some m" "message_fits m"
    "message_id m = (mf_ClassId me, mf_MethodId me)"
    using assms by (auto split: option.splits)
  have "conveys (with_payload
      (wseq (write_u16 (mf_ClassId me)) (wseq (write_u16 (mf_MethodId me)) (message_write m)))
      (writeFrame frameMethod (mf_ChannelId me))) ReadFrame (Method_Frame me)"
    by (rule framed[where r = "\<lambda>bs. parseMethodFrame (mf_ChannelId me) 0 bs"], 
        unfold parseMethodFrame_def,
        (rule conveys_seq conveys_leaves conveys_map message_conveyed m)+)
      (simp_all add: m parse_payload_def parseMethodFrame_def)
  then show ?thesis by (simp add: methodFrame_write_def m)
qed

lemma header_frame_conveyed:
  assumes "properties_fits (hf_Properties me)"
  shows "conveys (headerFrame_write me) ReadFrame (Header_Frame me)"
  unfolding headerFrame_write_def Let_def
  by (rule framed[where r = "\<lambda>bs. parseHeaderFrame (hf_ChannelId me) 0 bs"],
      unfold parseHeaderFrame_def,
      (rule conveys_seq conveys_leaves conveys_map properties_conveyed assms)+)
    (simp_all add: parse_payload_def parseHeaderFrame_def frame_types)

lemma body_frame_conveyed:
  assumes "length (bf_Body me) < 2 ^ 32"
  shows "conveys (bodyFrame_write me) ReadFrame (Body_Frame me)"
  unfolding bodyFrame_write_def writeFrame_eq conveys_def
  apply (rule exI, rule conjI, rule refl)
  using assms unat_length
  by (simp add: ReadFrame_header[simplified] parse_payload_def parseBodyFrame_def frame_types unat_length)

lemma heartbeat_frame_conveyed:
  "conveys (heartbeatFrame_write me) ReadFrame (Heartbeat_Frame me)"
  unfolding heartbeatFrame_write_def writeFrame_eq conveys_def
  by (rule exI, rule conjI, rule refl)
     (simp add: ReadFrame_header[simplified] parse_payload_def parseHeartbeatFrame_def frame_types)

lemma frame_conveyed: "frame_fits f \<Longrightarrow> conveys (frame_write f) ReadFrame f"
  by (cases f)
    (auto simp del: frame_fits.simps(1) simp: method_frame_conveyed header_frame_conveyed body_frame_conveyed heartbeat_frame_conveyed)

interpretation frame: codec frame_write ReadFrame frame_fits
  using frame_conveyed unfolding conveys_def by unfold_locales


section \<open>Reading stops\<close>

lemma sound_read_if: "(b \<Longrightarrow> sound n (r bs)) \<Longrightarrow> length bs \<le> n \<Longrightarrow> sound n (read_if b r d bs)"
  by (simp add: read_if_def)

lemma sound_readTimestamp: "length bs \<le> n \<Longrightarrow> sound n (readTimestamp bs)"
  unfolding readTimestamp_def by (rule sound_rbind_same sound_uses sound_done | assumption)+

lemma properties_sound: "length bs \<le> n \<Longrightarrow> sound n (properties_read flags bs)"
  unfolding properties_read_def
  by (rule sound_rbind_same sound_read_if sound_uses sound_readTimestamp sound_done | assumption)+

lemma message_sound: "length bs \<le> n \<Longrightarrow> sound n (parse_message c i bs)"
  unfolding parse_message_def
  by (auto intro!: sound_rbind_same sound_done connection_sound channel_sound exchange_sound
      queue_sound basic_sound tx_sound confirm_sound)

lemma payload_sound: "length bs \<le> n \<Longrightarrow> sound n (parse_payload typ channel sz bs)"
  unfolding parse_payload_def parseMethodFrame_def parseHeaderFrame_def parseBodyFrame_def
    parseHeartbeatFrame_def
  by (auto intro!: sound_rbind_same sound_uses sound_reads(1) sound_done message_sound
      properties_sound)

lemma read_end_sound: "length bs \<le> n \<Longrightarrow> sound n (read_end f bs)"
  unfolding read_end_def by (rule sound_rbind_same) auto

lemma ReadFrame_sound: "sound (length bs - 7) (ReadFrame bs)"
proof (cases "7 \<le> length bs")
  case True
  then show ?thesis
    unfolding ReadFrame_def read_full_def Let_def
    by (auto intro!: sound_rbind_same payload_sound read_end_sound)
qed (simp add: ReadFrame_def read_full_def)

section \<open>Properties\<close>

text \<open>C18: a frame whose strings and tables fit their prefixes is written, and \<open>ReadFrame\<close> reads
  exactly it back from the front of whatever stream it is written to.\<close>

theorem frame_roundtrip:
  "frame_fits f \<Longrightarrow> \<exists>bs. frame_write f = Inr bs \<and> (\<forall>rest. ReadFrame (bs @ rest) = Ok f rest)"
  by (rule frame.round)

definition sample_frame :: frame where
  "sample_frame =
     Header_Frame \<lparr>hf_ChannelId = 1, hf_ClassId = 60, hf_weight = 0, hf_Size = 300,
       hf_Properties = zero_properties\<lparr>ContentType := [116], Headers := [([107], FInt32 7)],
         Priority := 5, Timestamp := UnixTime 1400000000 0\<rparr>\<rparr>"

theorem frame_roundtrip_witness:
  "\<exists>bs. frame_write sample_frame = Inr bs \<and> (\<forall>rest. ReadFrame (bs @ rest) = Ok sample_frame rest)"
proof (rule frame_roundtrip)
  show "frame_fits sample_frame"
    by (simp add: sample_frame_def properties_fits_def zero_properties_def ok_table_def
        writeShortstr_def write_u8_def write_u32_def)
qed

text \<open> a short string of any length is written as its first length modulo 256 bytes, and that is
  what the other side reads: from 256 bytes on the rest is lost without an error.\<close>

theorem shortstr_truncated:
  "\<exists>bs. writeShortstr s = Inr bs \<and>
     (\<forall>rest. readShortstr (bs @ rest) = Ok (take (length s mod 256) s) rest)"
proof -
  let ?t = "take (length s mod 256) s"
  have len: "(word_of_nat (length s) :: 8 word) = word_of_nat (length ?t)"
    by (simp add: byte_mod min_def)
  then have "writeShortstr s = writeShortstr ?t"
    by (simp add: writeShortstr_def Let_def unsigned_of_nat take_bit_eq_mod)
  then show ?thesis using shortstr.round[of ?t] by simp
qed


text \<open> a heartbeat that carries a payload makes the reader panic, and a frame of a type that does
  not exist is refused.\<close>

theorem bad_frame_headers:
  assumes "typ = frameHeartbeat \<and> n \<noteq> 0 \<or> typ \<notin> {frameMethod, frameHeader, frameBody, frameHeartbeat}"
  shows "ReadFrame (typ # be_encode 2 (unat (channel :: 16 word)) @ be_encode 4 (unat (n :: 32 word)) @ bs) =
     (if typ = frameHeartbeat \<and> n \<noteq> 0
      then Crash (UserPanic ''Heartbeats should not have a payload'') else Fail ErrFrame bs)"
  using assms unfolding ReadFrame_header
  by (auto simp: parse_payload_def parseHeartbeatFrame_def word_gt_0 frame_types)

theorem bad_frame_headers_witness:
  "ReadFrame [8, 0, 0, 0, 0, 0, 1, 0, 206] =
     Crash (UserPanic ''Heartbeats should not have a payload'')"
  using bad_frame_headers[of 8 1 0 "[0, 206]"]
  by (simp add: frameHeartbeat_def be_encode_2 be_encode_4)

end
