(* ===== verification/Amqp_TagSet.thy ===== *)
theory Amqp_TagSet
  imports Auction_Prelude "HOL-Library.Word"
begin

text \<open>
  The delivery tags that wait for a confirmation: \<open>tagSet\<close> of the AMQP client's \<open>types.go\<close>, a
  slice under \<open>container/heap\<close>.  The sifting is written out; \<open>heap_Push\<close> and \<open>heap_Pop\<close> keep the
  heap and are a priority queue on the multiset of the tags.
\<close>

section \<open>container/heap over a slice\<close>

definition Swap :: "nat \<Rightarrow> nat \<Rightarrow> 'a list \<Rightarrow> 'a list" where
  "Swap i j h = h[i := h ! j, j := h ! i]"

function heap_up :: "nat \<Rightarrow> 'a::linorder list \<Rightarrow> 'a list" where
  "heap_up j h =
     (let i = (j - 1) div 2 in
      if i = j \<or> \<not> h ! j < h ! i then h else heap_up i (Swap i j h))"
  by pat_completeness auto
termination by (relation "measure fst") auto

function heap_down :: "nat \<Rightarrow> nat \<Rightarrow> 'a::linorder list \<Rightarrow> 'a list" where
  "heap_down i n h =
     (let j1 = 2 * i + 1 in
      if n \<le> j1 then h
      else let j = (if j1 + 1 < n \<and> \<not> h ! j1 < h ! (j1 + 1) then j1 + 1 else j1) in
           if \<not> h ! j < h ! i then h else heap_down j n (Swap i j h))"
  by pat_completeness auto
termination by (relation "measure (\<lambda>(i, n, h). n - i)") (auto simp: Let_def)

declare heap_up.simps [simp del] heap_down.simps [simp del]

definition heap_Push :: "'a::linorder \<Rightarrow> 'a list \<Rightarrow> 'a list" where
  "heap_Push x h = heap_up (length h) (h @ [x])"

text \<open>On an empty heap the swap of 0 and -1 is out of range.\<close>

definition heap_Pop :: "'a::linorder list \<Rightarrow> ('a \<times> 'a list) outcome" where
  "heap_Pop h =
     (if h = [] then Panic IndexOutOfRange
      else let n = length h - 1; h1 = heap_down 0 n (Swap 0 n h) in Ret (h1 ! n, take n h1))"

section \<open>The heap\<close>

definition parent :: "nat \<Rightarrow> nat" where "parent k = (k - 1) div 2"

text \<open>The first \<open>n\<close> elements are a heap.\<close>

definition heap_to :: "nat \<Rightarrow> 'a::linorder list \<Rightarrow> bool" where
  "heap_to n h \<longleftrightarrow> (\<forall>k. 0 < k \<and> k < n \<longrightarrow> h ! parent k \<le> h ! k)"

abbreviation is_heap :: "'a::linorder list \<Rightarrow> bool" where
  "is_heap h \<equiv> heap_to (length h) h"

text \<open>A heap but for the element at \<open>j\<close>, which may be smaller than its parent; or larger than its
  children.\<close>

definition heap_above :: "nat \<Rightarrow> nat \<Rightarrow> 'a::linorder list \<Rightarrow> bool" where
  "heap_above j n h \<longleftrightarrow>
     (\<forall>k. 0 < k \<and> k < n \<and> k \<noteq> j \<longrightarrow> h ! parent k \<le> h ! k) \<and>
     (\<forall>k. 0 < j \<and> 0 < k \<and> k < n \<and> parent k = j \<longrightarrow> h ! parent j \<le> h ! k)"

definition heap_below :: "nat \<Rightarrow> nat \<Rightarrow> 'a::linorder list \<Rightarrow> bool" where
  "heap_below i n h \<longleftrightarrow>
     (\<forall>k. 0 < k \<and> k < n \<and> parent k \<noteq> i \<longrightarrow> h ! parent k \<le> h ! k) \<and>
     (\<forall>k. 0 < i \<and> 0 < k \<and> k < n \<and> parent k = i \<longrightarrow> h ! parent i \<le> h ! k)"

lemma length_Swap [simp]: "length (Swap i j h) = length h"
  by (simp add: Swap_def)

lemma nth_Swap:
  "i < length h \<Longrightarrow> j < length h \<Longrightarrow>
    Swap i j h ! k = (if k = i then h ! j else if k = j then h ! i else h ! k)"
  by (auto simp: Swap_def nth_list_update)

lemma mset_Swap: "i < length h \<Longrightarrow> j < length h \<Longrightarrow> mset (Swap i j h) = mset h"
  unfolding Swap_def by (metis list_update_swap mset_swap)

lemma parent_less: "0 < k \<Longrightarrow> parent k < k"
  by (simp add: parent_def)

lemma parent_eq_iff: "0 < k \<Longrightarrow> parent k = i \<longleftrightarrow> k = 2 * i + 1 \<or> k = 2 * i + 2"
  by (auto simp: parent_def)

lemma heap_up_mset: "j < length h \<Longrightarrow> mset (heap_up j h) = mset h \<and> length (heap_up j h) = length h"
proof (induction j h rule: heap_up.induct)
  case (1 j h)
  let ?i = "(j - 1) div 2"
  have "?i \<le> j" by linarith
  then show ?case
    using 1 by (subst (1 2) heap_up.simps) (auto simp: Let_def mset_Swap)
qed

lemma heap_up_heap: "j < length h \<Longrightarrow> heap_above j (length h) h \<Longrightarrow> is_heap (heap_up j h)"
proof (induction j h rule: heap_up.induct)
  case (1 j h)
  define i where "i = parent j"
  show ?case
  proof (cases "i = j \<or> \<not> h ! j < h ! i")
    case True
    then have "heap_up j h = h" by (subst heap_up.simps) (auto simp: i_def parent_def)
    moreover have "h ! parent k \<le> h ! k" if k: "0 < k" "k < length h" for k
    proof (cases "k = j")
      case True
      with k \<open>i = j \<or> _\<close> parent_less[of j] show ?thesis by (auto simp: i_def)
    next
      case False
      with k 1(3) show ?thesis by (simp add: heap_above_def)
    qed
    ultimately show ?thesis by (simp add: heap_to_def)
  next
    case False
    then have lt: "h ! j < h ! i" and "i \<noteq> j" by auto
    then have j0: "0 < j" by (cases j) (simp_all add: i_def parent_def)
    then have ij: "i < j" by (simp add: i_def parent_less)
    have up: "heap_up j h = heap_up i (Swap i j h)"
      using False by (subst heap_up.simps) (auto simp: i_def parent_def Let_def)
    have nth: "Swap i j h ! k = (if k = i then h ! j else if k = j then h ! i else h ! k)" for k
      using ij 1(2) by (simp add: nth_Swap)
    have A: "h ! parent k \<le> h ! k" if "0 < k" "k < length h" "k \<noteq> j" for k
      using 1(3) that by (simp add: heap_above_def)
    have B: "h ! i \<le> h ! k" if "0 < k" "k < length h" "parent k = j" for k
      using 1(3) that j0 by (simp add: heap_above_def i_def)
    have "heap_above i (length (Swap i j h)) (Swap i j h)"
      unfolding heap_above_def length_Swap
    proof (intro conjI allI impI)
      fix k assume k: "0 < k \<and> k < length h \<and> k \<noteq> i"
      show "Swap i j h ! parent k \<le> Swap i j h ! k"
      proof (cases "k = j")
        case True
        then show ?thesis using lt ij by (simp add: nth i_def[symmetric])
      next
        case kj: False
        have pk: "h ! parent k \<le> h ! k" using A k kj by simp
        consider "parent k = j" | "parent k = i" | "parent k \<noteq> j" "parent k \<noteq> i" by blast
        then show ?thesis
        proof cases
          case 1
          with B k kj ij show ?thesis by (simp add: nth)
        next
          case 2
          with pk lt k kj ij show ?thesis by (simp add: nth)
        next
          case 3
          with pk k kj show ?thesis by (simp add: nth)
        qed
      qed
    next
      fix k assume k: "0 < i \<and> 0 < k \<and> k < length h \<and> parent k = i"
      have pi: "parent i < i" using k by (simp add: parent_less)
      have ii: "h ! parent i \<le> h ! i" using A[of i] k ij 1(2) by simp
      show "Swap i j h ! parent i \<le> Swap i j h ! k"
      proof (cases "k = j")
        case True
        then show ?thesis using ii pi ij by (simp add: nth)
      next
        case False
        then have "h ! i \<le> h ! k" using A[of k] k by simp
        moreover have "k \<noteq> i" using k parent_less[of k] by auto
        ultimately show ?thesis using ii pi ij False by (simp add: nth)
      qed
    qed
    then show ?thesis
      unfolding up using 1(1)[of i] 1(2) False ij by (auto simp: i_def parent_def)
  qed
qed

lemma heap_down_mset:
  "n \<le> length h \<Longrightarrow> mset (heap_down i n h) = mset h \<and> length (heap_down i n h) = length h \<and>
    (\<forall>k. n \<le> k \<longrightarrow> heap_down i n h ! k = h ! k)"
proof (induction i n h rule: heap_down.induct)
  case (1 i n h)
  define j where "j = (if 2 * i + 1 + 1 < n \<and> \<not> h ! (2 * i + 1) < h ! (2 * i + 1 + 1)
    then 2 * i + 1 + 1 else 2 * i + 1)"
  show ?case
  proof (cases "n \<le> 2 * i + 1 \<or> \<not> h ! j < h ! i")
    case True
    then show ?thesis by (subst (1 2 3) heap_down.simps) (auto simp: Let_def j_def)
  next
    case False
    then have step: "heap_down i n h = heap_down j n (Swap i j h)"
      by (subst heap_down.simps) (auto simp: Let_def j_def)
    have j: "i < j" "j < n" using False by (auto simp: j_def)
    have "mset (heap_down j n (Swap i j h)) = mset (Swap i j h) \<and>
        length (heap_down j n (Swap i j h)) = length (Swap i j h) \<and>
        (\<forall>k. n \<le> k \<longrightarrow> heap_down j n (Swap i j h) ! k = Swap i j h ! k)"
      using 1 False by (intro 1(1)[of "2 * i + 1" j]) (auto simp: j_def)
    then show ?thesis using j 1(2) by (simp add: step mset_Swap nth_Swap)
  qed
qed

lemma heap_down_heap: "n \<le> length h \<Longrightarrow> heap_below i n h \<Longrightarrow> heap_to n (heap_down i n h)"
proof (induction i n h rule: heap_down.induct)
  case (1 i n h)
  define j where "j = (if 2 * i + 1 + 1 < n \<and> \<not> h ! (2 * i + 1) < h ! (2 * i + 1 + 1)
    then 2 * i + 1 + 1 else 2 * i + 1)"
  have A: "h ! parent k \<le> h ! k" if "0 < k" "k < n" "parent k \<noteq> i" for k
    using 1(3) that by (simp add: heap_below_def)
  have least: "h ! j \<le> h ! k" if "0 < k" "k < n" "parent k = i" for k
    using that by (auto simp: parent_eq_iff j_def not_less)
  show ?case
  proof (cases "n \<le> 2 * i + 1 \<or> \<not> h ! j < h ! i")
    case True
    then have "heap_down i n h = h" by (subst heap_down.simps) (auto simp: Let_def j_def)
    moreover have "h ! parent k \<le> h ! k" if k: "0 < k" "k < n" for k
    proof (cases "parent k = i")
      case True
      then have "\<not> n \<le> 2 * i + 1" using k by (auto simp: parent_eq_iff)
      with \<open>n \<le> 2 * i + 1 \<or> \<not> h ! j < h ! i\<close> least[OF k True] True show ?thesis by auto
    qed (use A k in simp)
    ultimately show ?thesis by (simp add: heap_to_def)
  next
    case False
    then have step: "heap_down i n h = heap_down j n (Swap i j h)"
      by (subst heap_down.simps) (auto simp: Let_def j_def)
    have j: "i < j" "j < n" "parent j = i" using False by (auto simp: j_def parent_def)
    have nth: "Swap i j h ! k = (if k = i then h ! j else if k = j then h ! i else h ! k)" for k
      using j 1(2) by (simp add: nth_Swap)
    have B: "h ! parent i \<le> h ! k" if "0 < i" "0 < k" "k < n" "parent k = i" for k
      using 1(3) that by (simp add: heap_below_def)
    have "heap_below j n (Swap i j h)"
      unfolding heap_below_def
    proof (intro conjI allI impI)
      fix k assume k: "0 < k \<and> k < n \<and> parent k \<noteq> j"
      consider "k = i" | "parent k = i" | "k \<noteq> i" "parent k \<noteq> i" by blast
      then show "Swap i j h ! parent k \<le> Swap i j h ! k"
      proof cases
        case 1
        then have "parent k \<noteq> i" using k parent_less[of k] by auto
        with 1 k B[of j] j show ?thesis by (simp add: nth)
      next
        case 2
        with k have "k \<noteq> i" using parent_less[of k] by auto
        with 2 k least[of k] False show ?thesis by (auto simp: nth)
      next
        case 3
        moreover have "k \<noteq> j" using 3 j by auto
        ultimately show ?thesis using A[of k] k by (simp add: nth)
      qed
    next
      fix k assume k: "0 < j \<and> 0 < k \<and> k < n \<and> parent k = j"
      then have "k \<noteq> i" "k \<noteq> j" using j parent_less[of k] by auto
      with A[of k] k j show "Swap i j h ! parent j \<le> Swap i j h ! k" by (simp add: nth)
    qed
    then have "heap_to n (heap_down j n (Swap i j h))"
      using 1(2) False by (intro 1(1)[of "2 * i + 1" j]) (auto simp: j_def)
    then show ?thesis by (simp add: step)
  qed
qed

section \<open>A priority queue\<close>

lemma is_heap_append: "is_heap h \<Longrightarrow> heap_above (length h) (length (h @ [x])) (h @ [x])"
  unfolding heap_above_def
proof (intro conjI allI impI)
  fix k assume h: "is_heap h"
  show "(h @ [x]) ! parent k \<le> (h @ [x]) ! k"
    if "0 < k \<and> k < length (h @ [x]) \<and> k \<noteq> length h"
    using that h parent_less[of k] by (auto simp: heap_to_def nth_append)
  show "(h @ [x]) ! parent (length h) \<le> (h @ [x]) ! k"
    if "0 < length h \<and> 0 < k \<and> k < length (h @ [x]) \<and> parent k = length h"
    using that parent_less[of k] by auto
qed

lemma heap_Push_queue:
  assumes "is_heap h"
  shows "is_heap (heap_Push x h)" and "mset (heap_Push x h) = add_mset x (mset h)"
  using heap_up_heap[of "length h" "h @ [x]"] is_heap_append[OF assms] heap_up_mset[of "length h" "h @ [x]"]
  by (simp_all add: heap_Push_def)

lemma is_heap_least:
  assumes "is_heap h" and "k < length h"
  shows "h ! 0 \<le> h ! k"
  using assms(2)
proof (induction k rule: less_induct)
  case (less k)
  show ?case
  proof (cases "k = 0")
    case False
    then have "h ! parent k \<le> h ! k" using assms(1) less(2) by (simp add: heap_to_def)
    moreover have "h ! 0 \<le> h ! parent k"
      using False less parent_less[of k] by (intro less.IH) auto
    ultimately show ?thesis by simp
  qed simp
qed

lemma heap_Pop_queue:
  assumes "is_heap h" and "h \<noteq> []"
  obtains x h' where "heap_Pop h = Ret (x, h')" "is_heap h'" "mset h = add_mset x (mset h')"
    "\<And>y. y \<in> set h \<Longrightarrow> x \<le> y"
proof -
  define n h1 where "n = length h - 1" and "h1 = heap_down 0 n (Swap 0 n h)"
  have n: "n < length h" "length h = Suc n" using assms(2) by (simp_all add: n_def)
  have m: "mset h1 = mset h" "length h1 = length h" "h1 ! n = h ! 0"
    using heap_down_mset[of n "Swap 0 n h" 0] n assms(2) by (auto simp: h1_def mset_Swap nth_Swap)
  have "Swap 0 n h ! parent k \<le> Swap 0 n h ! k" if "0 < k" "k < n" "parent k \<noteq> 0" for k
    using that assms(1) n parent_less[of k] by (auto simp: heap_to_def nth_Swap)
  then have "heap_below 0 n (Swap 0 n h)" by (simp add: heap_below_def)
  then have "heap_to n h1" using heap_down_heap[of n "Swap 0 n h" 0] n by (simp add: h1_def)
  then have heap: "is_heap (take n h1)"
    using m(2) n parent_less by (auto simp: heap_to_def) (metis less_trans nth_take)
  have pop: "heap_Pop h = Ret (h ! 0, take n h1)"
    using assms(2) m(3) by (simp add: heap_Pop_def Let_def n_def h1_def)
  have "h1 = take n h1 @ [h1 ! n]"
    using m(2) n by (metis lessI take_Suc_conv_app_nth take_all_iff order_refl)
  then have "mset h = add_mset (h ! 0) (mset (take n h1))"
    using m by (metis add_mset_add_single mset.simps mset_append union_commute add_mset_commute)
  moreover have "h ! 0 \<le> y" if "y \<in> set h" for y
    using that is_heap_least[OF assms(1)] by (metis in_set_conv_nth)
  ultimately show thesis by (rule that[OF pop heap])
qed

lemma heap_Pop_empty [simp]: "heap_Pop [] = Panic IndexOutOfRange"
  by (simp add: heap_Pop_def)

lemma is_heap_Nil [simp]: "is_heap []"
  by (simp add: heap_to_def)

end
