(* ===== verification/Amqp_State.thy ===== *)
theory Amqp_State
  imports Amqp_Frames Amqp_TagSet
begin

text \<open>
  The state of the AMQP client: \<open>Connection\<close> (\<open>connection.go\<close>) with the channels it has made, each
  a \<open>Channel\<close> (\<open>channel.go\<close>) behind a pointer, and its registry (\<open>registry.go\<close>).  What goes out,
  frames to the socket and values to the Go channels of listeners and consumers, is a log in the
  order it happens.  Listeners receive what is sent to them.

  The reader goroutine and the application take turns: the reader processes the frames of
  \<open>incoming\<close> while a call of the application waits.  A run is \<open>None\<close> when it never returns.
\<close>

section \<open>Errors of the package\<close>

definition ascii :: "string \<Rightarrow> bytes" where
  "ascii s = map (\<lambda>c. word_of_nat (of_char c)) s"

definition FrameError :: int where "FrameError = 501"
definition SyntaxError :: int where "SyntaxError = 502"
definition CommandInvalid :: int where "CommandInvalid = 503"
definition ChannelError :: int where "ChannelError = 504"
definition UnexpectedFrame :: int where "UnexpectedFrame = 505"

definition local_error :: "int \<Rightarrow> string \<Rightarrow> exception" where
  "local_error code text = \<lparr>Code = code, Reason = ascii text, Server = False, Recover = False\<rparr>"

definition ErrClosed :: exception where
  "ErrClosed = local_error ChannelError ''channel/connection is not open''"
definition ErrSASL :: exception where
  "ErrSASL = local_error AccessRefused ''SASL could not negotiate a shared mechanism''"
definition ErrCredentials :: exception where
  "ErrCredentials = local_error AccessRefused ''username or password not allowed''"
definition ErrVhost :: exception where
  "ErrVhost = local_error AccessRefused ''no access to this vhost''"
definition ErrCommandInvalid :: exception where
  "ErrCommandInvalid = local_error CommandInvalid ''unexpected command received''"
definition ErrUnexpectedFrame :: exception where
  "ErrUnexpectedFrame = local_error UnexpectedFrame ''unexpected frame received''"

text \<open>An \<open>error\<close> of the package: an exception, what a writer returned, or what \<open>Validate\<close> did.\<close>

datatype client_error =
    Exception exception
  | Write_Error amqp_error
  | Socket_Error bytes
  | Bad_Table field_error

section \<open>Deliveries and returns\<close>

record delivery =
  dl_Acknowledger :: nat
  dl_Headers :: table
  dl_ContentType :: bytes
  dl_ContentEncoding :: bytes
  dl_DeliveryMode :: "8 word"
  dl_Priority :: "8 word"
  dl_CorrelationId :: bytes
  dl_ReplyTo :: bytes
  dl_Expiration :: bytes
  dl_MessageId :: bytes
  dl_Timestamp :: go_time
  dl_Type :: bytes
  dl_UserId :: bytes
  dl_AppId :: bytes
  dl_ConsumerTag :: bytes
  dl_MessageCount :: "32 word"
  dl_DeliveryTag :: "64 word"
  dl_Redelivered :: bool
  dl_Exchange :: bytes
  dl_RoutingKey :: bytes
  dl_Body :: bytes

record returned_message =
  rt_ReplyCode :: "16 word"
  rt_ReplyText :: bytes
  rt_Exchange :: bytes
  rt_RoutingKey :: bytes
  rt_ContentType :: bytes
  rt_ContentEncoding :: bytes
  rt_Headers :: table
  rt_DeliveryMode :: "8 word"
  rt_Priority :: "8 word"
  rt_CorrelationId :: bytes
  rt_ReplyTo :: bytes
  rt_Expiration :: bytes
  rt_MessageId :: bytes
  rt_Timestamp :: go_time
  rt_Type :: bytes
  rt_UserId :: bytes
  rt_AppId :: bytes
  rt_Body :: bytes

section \<open>Listeners and the log\<close>

text \<open>The Go channels of the application, by kind and number, and the buffers of consumers.\<close>

datatype listener =
    Error_Listener nat
  | Flow_Listener nat
  | Return_Listener nat
  | Cancel_Listener nat
  | Tag_Listener nat
  | Blocking_Listener nat
  | Consumer_Buffer nat

datatype event =
    Wrote frame
  | Sent_Error listener exception
  | Sent_Flow listener bool
  | Sent_Return listener returned_message
  | Sent_Cancel listener bytes
  | Sent_Tag listener "64 word"
  | Sent_Blocking listener bool bytes
  | Sent_Delivery listener delivery
  | Closed listener
  | Socket_Closed

section \<open>State\<close>

datatype receiver = Recv_Method | Recv_Header | Recv_Content

text \<open>
  \<open>ch_open\<close>: \<open>send\<close> is \<open>sendOpen\<close>, not yet \<open>sendClosed\<close>.  \<open>ch_destroyed\<close>: the \<open>destructor\<close> ran.
  \<open>ch_locked\<close>: a call of the application holds the mutex \<open>m\<close>.
\<close>

record channel =
  ch_id :: "16 word"
  ch_destroyed :: bool
  ch_locked :: bool
  ch_noNotify :: bool
  ch_open :: bool
  ch_closes :: "nat list"
  ch_flows :: "nat list"
  ch_returns :: "nat list"
  ch_cancels :: "nat list"
  ch_acks :: "nat list"
  ch_nacks :: "nat list"
  ch_confirms :: "64 word list option"
  ch_publishCounter :: "64 word"
  ch_errors :: "exception option"
  ch_consumers :: "(bytes \<times> nat) list"
  ch_recv :: receiver
  ch_message :: "message option"
  ch_header :: "headerFrame option"
  ch_body :: bytes

text \<open>
  What the reader goroutine is doing: it reads; it waits for a call on a channel, or on the
  connection, to take a message; it waits in \<open>closeWith\<close>; or it has returned.
\<close>

datatype reader =
    Reading
  | Handing_Over nat "message option"
  | Handing_Over_Connection "message option"
  | Awaiting_Close exception
  | Reader_Returned

datatype input = Frame_In frame | Read_Error bytes

record connection =
  channels :: "nat \<Rightarrow> channel"
  channels_made :: nat
  registry :: "(16 word \<times> nat) list"
  sequence :: "16 word"
  cn_destroyed :: bool
  cn_noNotify :: bool
  cn_closes :: "nat list"
  cn_blocks :: "nat list"
  cn_errors :: "exception option"
  cn_Channels :: int
  cn_FrameSize :: int
  cn_Heartbeat :: int
  cn_Vhost :: bytes
  cn_Mechanism :: bytes
  cn_Major :: int
  cn_Minor :: int
  cn_Properties :: table
  reader_state :: reader
  incoming :: "input list"
  events :: "event list"
  write_error :: "nat \<Rightarrow> bytes option"
  writes :: nat
  failures :: "client_error list"
  buffers_made :: nat
  consumerSeq :: "64 word"

type_synonym 'a run = "('a \<times> connection) outcome option"

definition ret :: "'a \<Rightarrow> connection \<Rightarrow> 'a run" where
  "ret x c = Some (Ret (x, c))"

definition panics :: "go_panic \<Rightarrow> 'a run" where
  "panics p = Some (Panic p)"

fun and_then :: "'a run \<Rightarrow> ('a \<Rightarrow> connection \<Rightarrow> 'b run) \<Rightarrow> 'b run" where
  "and_then None f = None"
| "and_then (Some (Panic p)) f = Some (Panic p)"
| "and_then (Some (Ret (x, c))) f = f x c"

fun for_each :: "('a \<Rightarrow> connection \<Rightarrow> unit run) \<Rightarrow> 'a list \<Rightarrow> connection \<Rightarrow> unit run" where
  "for_each f [] c = ret () c"
| "for_each f (x # xs) c = and_then (f x c) (\<lambda>_. for_each f xs)"

definition set_channel :: "nat \<Rightarrow> (channel \<Rightarrow> channel) \<Rightarrow> connection \<Rightarrow> connection" where
  "set_channel p f c = c\<lparr>channels := (channels c)(p := f (channels c p))\<rparr>"

definition emit :: "event \<Rightarrow> connection \<Rightarrow> connection" where
  "emit e c = c\<lparr>events := events c @ [e]\<rparr>"

text \<open>A send to, and the close of, a Go channel; both panic when it is closed.\<close>

definition send_to :: "listener \<Rightarrow> event \<Rightarrow> connection \<Rightarrow> unit run" where
  "send_to l e c =
     (if Closed l \<in> set (events c) then panics (UserPanic ''send on closed channel'')
      else ret () (emit e c))"

definition close_chan :: "listener \<Rightarrow> connection \<Rightarrow> unit run" where
  "close_chan l c =
     (if Closed l \<in> set (events c) then panics (UserPanic ''close of closed channel'')
      else ret () (emit (Closed l) c))"

lemma and_then_ret [simp]: "and_then (ret x c) f = f x c"
  by (simp add: ret_def)

lemma and_then_panics [simp]: "and_then (panics p) f = panics p"
  by (simp add: panics_def)

lemma ret_inject [simp]: "ret x c = ret y d \<longleftrightarrow> x = y \<and> c = d"
  by (simp add: ret_def)

lemma ret_not_panics [simp]: "ret x c \<noteq> panics p" "panics p \<noteq> ret x c" "ret x c \<noteq> None" "panics p \<noteq> None"
  by (simp_all add: ret_def panics_def)

lemma and_then_unit [simp]: "and_then m ret = m"
  by (cases "(m, ret :: _ \<Rightarrow> _ \<Rightarrow> 'a run)" rule: and_then.cases) (auto simp: ret_def)

lemma and_then_assoc: "and_then (and_then m f) g = and_then m (\<lambda>x c. and_then (f x c) g)"
  by (cases "(m, f)" rule: and_then.cases) auto

lemma and_then_ret_iff:
  "and_then m f = ret y c' \<longleftrightarrow> (\<exists>x c. m = ret x c \<and> f x c = ret y c')"
  by (cases "(m, f)" rule: and_then.cases) (auto simp: ret_def)

end
