(* ===== verification/Amqp_Send.thy ===== *)
theory Amqp_Send
  imports Amqp_State
begin

text \<open>
  What leaves the AMQP client: \<open>Connection.send\<close>, \<open>Channel.sendOpen\<close> with the content split into
  body frames, \<open>sendClosed\<close>; the listeners, the consumers (\<open>consumers.go\<close>), deliveries and returns
  (\<open>delivery.go\<close>, \<open>return.go\<close>); and the shutdown of channels and connections.
\<close>

section \<open>Sending\<close>

text \<open>
  \<open>Connection.send\<close>.  After an error a goroutine shuts the connection down; it is noted under
  \<open>failures\<close>.
\<close>

definition conn_send :: "frame \<Rightarrow> connection \<Rightarrow> client_error option \<times> connection" where
  "conn_send f c =
     (case frame_write f of
        Inl e \<Rightarrow> (Some (Write_Error e), c\<lparr>failures := failures c @ [Write_Error e]\<rparr>)
      | Inr _ \<Rightarrow>
          (case write_error c (writes c) of
             Some e \<Rightarrow> (Some (Socket_Error e),
               c\<lparr>writes := Suc (writes c), failures := failures c @ [Socket_Error e]\<rparr>)
           | None \<Rightarrow> (None, emit (Wrote f) (c\<lparr>writes := Suc (writes c)\<rparr>))))"

definition method_frame :: "16 word \<Rightarrow> message \<Rightarrow> frame" where
  "method_frame i m =
     Method_Frame \<lparr>mf_ChannelId = i, mf_ClassId = 0, mf_MethodId = 0, mf_Method = Some m\<rparr>"

text \<open>The methods that carry content.\<close>

fun get_content :: "message \<Rightarrow> (properties \<times> bytes) option" where
  "get_content (Basic_Message (BasicPublish m)) = Some (basicPublish_getContent m)"
| "get_content (Basic_Message (BasicReturn m)) = Some (basicReturn_getContent m)"
| "get_content (Basic_Message (BasicDeliver m)) = Some (basicDeliver_getContent m)"
| "get_content (Basic_Message (BasicGetOk m)) = Some (basicGetOk_getContent m)"
| "get_content _ = None"

fun set_content :: "properties \<Rightarrow> bytes \<Rightarrow> message \<Rightarrow> message" where
  "set_content ps b (Basic_Message (BasicPublish m)) = Basic_Message (BasicPublish (basicPublish_setContent ps b m))"
| "set_content ps b (Basic_Message (BasicReturn m)) = Basic_Message (BasicReturn (basicReturn_setContent ps b m))"
| "set_content ps b (Basic_Message (BasicDeliver m)) = Basic_Message (BasicDeliver (basicDeliver_setContent ps b m))"
| "set_content ps b (Basic_Message (BasicGetOk m)) = Basic_Message (BasicGetOk (basicGetOk_setContent ps b m))"
| "set_content ps b m = m"

definition frameHeaderSize :: int where "frameHeaderSize = 1 + 2 + 4 + 1"

text \<open>
  The loop over the body, \<open>for i, j := 0, size; i < len(body); i, j = j, j+size\<close>: it slices the
  body out of bounds when \<open>size\<close> is negative and never ends when it is zero.
\<close>

definition body_frame :: "16 word \<Rightarrow> bytes \<Rightarrow> frame" where
  "body_frame i b = Body_Frame \<lparr>bf_ChannelId = i, bf_Body = b\<rparr>"

partial_function (option) send_body ::
    "16 word \<Rightarrow> int \<Rightarrow> bytes \<Rightarrow> int \<Rightarrow> int \<Rightarrow> connection \<Rightarrow> client_error option run" where
  "send_body ch sz body i j c =
     (if i < int (length body) then
        (if (if int (length body) < j then int (length body) else j) < i
         then panics SliceBoundsOutOfRange
         else (case conn_send (body_frame ch (take (nat ((if int (length body) < j then int (length body) else j) - i))
                   (drop (nat i) body))) c of
             (Some e, c1) \<Rightarrow> ret (Some e) c1
           | (None, c1) \<Rightarrow>
               send_body ch sz body (if int (length body) < j then int (length body) else j)
                 ((if int (length body) < j then int (length body) else j) + sz) c1))
      else ret None c)"

definition header_frame :: "16 word \<Rightarrow> message \<Rightarrow> properties \<Rightarrow> bytes \<Rightarrow> frame" where
  "header_frame i m props body =
     Header_Frame \<lparr>hf_ChannelId = i, hf_ClassId = fst (message_id m), hf_weight = 0,
       hf_Size = word_of_nat (length body), hf_Properties = props\<rparr>"

definition sendOpen :: "nat \<Rightarrow> message \<Rightarrow> connection \<Rightarrow> client_error option run" where
  "sendOpen p msg c =
     (let i = ch_id (channels c p) in
      case get_content msg of
        Some (props, body) \<Rightarrow>
          (let sz = cn_FrameSize c - frameHeaderSize in
           case conn_send (method_frame i msg) c of
             (Some e, c1) \<Rightarrow> ret (Some e) c1
           | (None, c1) \<Rightarrow>
               (case conn_send (header_frame i msg props body) c1 of
                  (Some e, c2) \<Rightarrow> ret (Some e) c2
                | (None, c2) \<Rightarrow> send_body i sz body 0 sz c2))
      | None \<Rightarrow> (let (err, c1) = conn_send (method_frame i msg) c in ret err c1))"

definition sendClosed :: "nat \<Rightarrow> message \<Rightarrow> connection \<Rightarrow> client_error option run" where
  "sendClosed p msg c =
     (case msg of
        Channel_Message (ChannelCloseOk _) \<Rightarrow>
          (let (err, c1) = conn_send (method_frame (ch_id (channels c p)) msg) c in ret err c1)
      | _ \<Rightarrow> ret (Some (Exception ErrClosed)) c)"

definition ch_send :: "nat \<Rightarrow> message \<Rightarrow> connection \<Rightarrow> client_error option run" where
  "ch_send p msg c = (if ch_open (channels c p) then sendOpen p msg c else sendClosed p msg c)"

section \<open>delivery.go and return.go\<close>

definition newDelivery :: "nat \<Rightarrow> message \<Rightarrow> delivery" where
  "newDelivery p msg =
     (let (props, body) = the (get_content msg);
          d = \<lparr>dl_Acknowledger = p, dl_Headers = Headers props, dl_ContentType = ContentType props,
               dl_ContentEncoding = ContentEncoding props, dl_DeliveryMode = DeliveryMode props,
               dl_Priority = Priority props, dl_CorrelationId = CorrelationId props,
               dl_ReplyTo = ReplyTo props, dl_Expiration = Expiration props,
               dl_MessageId = MessageId props, dl_Timestamp = Timestamp props, dl_Type = Type props,
               dl_UserId = UserId props, dl_AppId = AppId props, dl_ConsumerTag = [],
               dl_MessageCount = 0, dl_DeliveryTag = 0, dl_Redelivered = False, dl_Exchange = [],
               dl_RoutingKey = [], dl_Body = body\<rparr>
      in case msg of
           Basic_Message (BasicDeliver m) \<Rightarrow>
             d\<lparr>dl_ConsumerTag := basicDeliver_ConsumerTag m, dl_DeliveryTag := basicDeliver_DeliveryTag m,
               dl_Redelivered := basicDeliver_Redelivered m, dl_Exchange := basicDeliver_Exchange m,
               dl_RoutingKey := basicDeliver_RoutingKey m\<rparr>
         | Basic_Message (BasicGetOk m) \<Rightarrow>
             d\<lparr>dl_MessageCount := basicGetOk_MessageCount m, dl_DeliveryTag := basicGetOk_DeliveryTag m,
               dl_Redelivered := basicGetOk_Redelivered m, dl_Exchange := basicGetOk_Exchange m,
               dl_RoutingKey := basicGetOk_RoutingKey m\<rparr>
         | _ \<Rightarrow> d)"

definition newReturn :: "basicReturn \<Rightarrow> returned_message" where
  "newReturn msg =
     (let (props, body) = basicReturn_getContent msg in
      \<lparr>rt_ReplyCode = basicReturn_ReplyCode msg, rt_ReplyText = basicReturn_ReplyText msg,
       rt_Exchange = basicReturn_Exchange msg, rt_RoutingKey = basicReturn_RoutingKey msg,
       rt_ContentType = ContentType props, rt_ContentEncoding = ContentEncoding props,
       rt_Headers = Headers props, rt_DeliveryMode = DeliveryMode props, rt_Priority = Priority props,
       rt_CorrelationId = CorrelationId props, rt_ReplyTo = ReplyTo props,
       rt_Expiration = Expiration props, rt_MessageId = MessageId props,
       rt_Timestamp = Timestamp props, rt_Type = Type props, rt_UserId = UserId props,
       rt_AppId = AppId props, rt_Body = body\<rparr>)"

section \<open>consumers.go\<close>

definition consumers_add :: "nat \<Rightarrow> bytes \<Rightarrow> connection \<Rightarrow> unit run" where
  "consumers_add p tag c =
     and_then
       (case map_of (ch_consumers (channels c p)) tag of
          Some prev \<Rightarrow> close_chan (Consumer_Buffer prev) c
        | None \<Rightarrow> ret () c)
       (\<lambda>_ c1. ret () (set_channel p (\<lambda>ch. ch\<lparr>ch_consumers := AList.update tag (buffers_made c1) (ch_consumers ch)\<rparr>)
          (c1\<lparr>buffers_made := Suc (buffers_made c1)\<rparr>)))"

definition consumers_close :: "nat \<Rightarrow> bytes \<Rightarrow> connection \<Rightarrow> bool run" where
  "consumers_close p tag c =
     (case map_of (ch_consumers (channels c p)) tag of
        None \<Rightarrow> ret False c
      | Some ch \<Rightarrow>
          and_then
            (close_chan (Consumer_Buffer ch)
              (set_channel p (\<lambda>chn. chn\<lparr>ch_consumers := AList.delete tag (ch_consumers chn)\<rparr>) c))
            (\<lambda>_. ret True))"

definition consumers_closeAll :: "nat \<Rightarrow> connection \<Rightarrow> unit run" where
  "consumers_closeAll p c =
     and_then (for_each (\<lambda>(tag, ch). close_chan (Consumer_Buffer ch)) (ch_consumers (channels c p)) c)
       (\<lambda>_ c1. ret () (set_channel p (\<lambda>ch. ch\<lparr>ch_consumers := []\<rparr>) c1))"

definition consumers_send :: "nat \<Rightarrow> bytes \<Rightarrow> delivery \<Rightarrow> connection \<Rightarrow> bool run" where
  "consumers_send p tag msg c =
     (case map_of (ch_consumers (channels c p)) tag of
        None \<Rightarrow> ret False c
      | Some buffer \<Rightarrow>
          and_then (send_to (Consumer_Buffer buffer) (Sent_Delivery (Consumer_Buffer buffer) msg) c)
            (\<lambda>_. ret True))"

section \<open>registry.go\<close>

definition registry_add :: "16 word \<Rightarrow> nat \<Rightarrow> connection \<Rightarrow> connection" where
  "registry_add i p c = c\<lparr>registry := AList.update i p (registry c)\<rparr>"

definition registry_get :: "16 word \<Rightarrow> connection \<Rightarrow> nat option" where
  "registry_get i c = map_of (registry c) i"

definition registry_remove :: "16 word \<Rightarrow> connection \<Rightarrow> connection" where
  "registry_remove i c = c\<lparr>registry := AList.delete i (registry c)\<rparr>"

definition registry_next :: "connection \<Rightarrow> 16 word \<times> connection" where
  "registry_next c = (sequence c + 1, c\<lparr>sequence := sequence c + 1\<rparr>)"

definition registry_removeAll :: "connection \<Rightarrow> nat list \<times> connection" where
  "registry_removeAll c = (map snd (registry c), c\<lparr>registry := []\<rparr>)"

section \<open>Listeners\<close>

text \<open>Registering a listener: it is closed at once when nothing will be sent any more.\<close>

definition Channel_NotifyClose :: "nat \<Rightarrow> nat \<Rightarrow> connection \<Rightarrow> unit run" where
  "Channel_NotifyClose p l c =
     (if ch_noNotify (channels c p) then close_chan (Error_Listener l) c
      else ret () (set_channel p (\<lambda>ch. ch\<lparr>ch_closes := ch_closes ch @ [l]\<rparr>) c))"

definition Channel_NotifyFlow :: "nat \<Rightarrow> nat \<Rightarrow> connection \<Rightarrow> unit run" where
  "Channel_NotifyFlow p l c =
     (if ch_noNotify (channels c p) then close_chan (Flow_Listener l) c
      else ret () (set_channel p (\<lambda>ch. ch\<lparr>ch_flows := ch_flows ch @ [l]\<rparr>) c))"

definition Channel_NotifyReturn :: "nat \<Rightarrow> nat \<Rightarrow> connection \<Rightarrow> unit run" where
  "Channel_NotifyReturn p l c =
     (if ch_noNotify (channels c p) then close_chan (Return_Listener l) c
      else ret () (set_channel p (\<lambda>ch. ch\<lparr>ch_returns := ch_returns ch @ [l]\<rparr>) c))"

definition Channel_NotifyCancel :: "nat \<Rightarrow> nat \<Rightarrow> connection \<Rightarrow> unit run" where
  "Channel_NotifyCancel p l c =
     (if ch_noNotify (channels c p) then close_chan (Cancel_Listener l) c
      else ret () (set_channel p (\<lambda>ch. ch\<lparr>ch_cancels := ch_cancels ch @ [l]\<rparr>) c))"

definition Channel_NotifyConfirm :: "nat \<Rightarrow> nat \<Rightarrow> nat \<Rightarrow> connection \<Rightarrow> unit run" where
  "Channel_NotifyConfirm p ack nack c =
     (if ch_noNotify (channels c p)
      then and_then (close_chan (Tag_Listener ack) c) (\<lambda>_. close_chan (Tag_Listener nack))
      else ret () (set_channel p (\<lambda>ch. ch\<lparr>ch_acks := ch_acks ch @ [ack], ch_nacks := ch_nacks ch @ [nack]\<rparr>) c))"

definition Connection_NotifyClose :: "nat \<Rightarrow> connection \<Rightarrow> unit run" where
  "Connection_NotifyClose l c =
     (if cn_noNotify c then close_chan (Error_Listener l) c
      else ret () (c\<lparr>cn_closes := cn_closes c @ [l]\<rparr>))"

definition Connection_NotifyBlocked :: "nat \<Rightarrow> connection \<Rightarrow> unit run" where
  "Connection_NotifyBlocked l c =
     (if cn_noNotify c then close_chan (Blocking_Listener l) c
      else ret () (c\<lparr>cn_blocks := cn_blocks c @ [l]\<rparr>))"

section \<open>Shutting down\<close>

text \<open>Acks and nacks may be the same Go channel: \<open>seen\<close> keeps it from being closed twice.\<close>

fun close_tags :: "nat list \<Rightarrow> nat list \<Rightarrow> connection \<Rightarrow> unit run" where
  "close_tags seen [] c = ret () c"
| "close_tags seen (l # ls) c =
     (if l \<in> set seen then close_tags seen ls c
      else and_then (close_chan (Tag_Listener l) c) (\<lambda>_. close_tags (l # seen) ls))"

definition send_closes :: "exception option \<Rightarrow> nat list \<Rightarrow> connection \<Rightarrow> unit run" where
  "send_closes e ls =
     (case e of
        None \<Rightarrow> ret ()
      | Some ex \<Rightarrow> for_each (\<lambda>l. send_to (Error_Listener l) (Sent_Error (Error_Listener l) ex)) ls)"

text \<open>A shutdown waits for ever when a call of the application holds the channel's mutex.\<close>

definition ch_shutdown :: "nat \<Rightarrow> exception option \<Rightarrow> connection \<Rightarrow> unit run" where
  "ch_shutdown p e c =
     (let ch = channels c p in
      if ch_destroyed ch then ret () c
      else if ch_locked ch then None
      else
        and_then (send_closes e (ch_closes ch) (set_channel p (\<lambda>ch. ch\<lparr>ch_destroyed := True\<rparr>) c)) (\<lambda>_ c1.
        and_then (consumers_closeAll p
            (set_channel p (\<lambda>ch. ch\<lparr>ch_open := False, ch_errors := if e = None then ch_errors ch else e\<rparr>) c1)) (\<lambda>_ c2.
        and_then (for_each (\<lambda>l. close_chan (Error_Listener l)) (ch_closes ch) c2) (\<lambda>_ c3.
        and_then (for_each (\<lambda>l. close_chan (Flow_Listener l)) (ch_flows ch) c3) (\<lambda>_ c4.
        and_then (for_each (\<lambda>l. close_chan (Return_Listener l)) (ch_returns ch) c4) (\<lambda>_ c5.
        and_then (for_each (\<lambda>l. close_chan (Cancel_Listener l)) (ch_cancels ch) c5) (\<lambda>_ c6.
        and_then (close_tags [] (ch_acks ch @ ch_nacks ch) c6) (\<lambda>_ c7.
          ret () (registry_remove (ch_id ch) (set_channel p (\<lambda>ch. ch\<lparr>ch_noNotify := True\<rparr>) c7))))))))))"

definition conn_shutdown :: "exception option \<Rightarrow> connection \<Rightarrow> unit run" where
  "conn_shutdown e c =
     (if cn_destroyed c then ret () c
      else
        and_then (send_closes e (cn_closes c) (c\<lparr>cn_destroyed := True\<rparr>)) (\<lambda>_ c1.
        let (removed, c2) = registry_removeAll c1 in
        and_then (for_each (\<lambda>p. ch_shutdown p e) removed c2) (\<lambda>_ c3.
        and_then (for_each (\<lambda>l. close_chan (Error_Listener l)) (cn_closes c3)
            (emit Socket_Closed (c3\<lparr>cn_errors := if e = None then cn_errors c3 else e\<rparr>))) (\<lambda>_ c4.
        and_then (for_each (\<lambda>l. close_chan (Blocking_Listener l)) (cn_blocks c4) c4) (\<lambda>_ c5.
          ret () (c5\<lparr>cn_noNotify := True\<rparr>))))))"

end
