(* ===== verification/Amqp_Receive.thy ===== *)
theory Amqp_Receive
  imports Amqp_Send
begin

text \<open>
  What the reader goroutine of the AMQP client does with a frame: the demultiplexing of
  \<open>connection.go\<close>; of \<open>channel.go\<close> the state machine that puts methods and their content together
  again (\<open>recvMethod\<close>, \<open>recvHeader\<close>, \<open>recvContent\<close>), the dispatch of a method, and the confirmations
  of publishings.
\<close>

section \<open>Confirmations\<close>

lemma heap_Pop_length: "heap_Pop h = Ret (x, h1) \<Longrightarrow> length h1 < length h"
  by (cases h) (auto simp: heap_Pop_def Let_def min_def split: if_splits)

text \<open>The loop of \<open>confimOne\<close>: the tags popped before the one asked for, and the heap after it.\<close>

function pop_until :: "64 word \<Rightarrow> 64 word list \<Rightarrow> (64 word list \<times> 64 word list) outcome" where
  "pop_until tag h =
     (case heap_Pop h of
        Panic e \<Rightarrow> Panic e
      | Ret (nxt, h1) \<Rightarrow>
          if nxt \<noteq> tag then obind (pop_until tag h1) (\<lambda>(unacked, h2). Ret (nxt # unacked, h2))
          else Ret ([], h1))"
  by pat_completeness auto
termination by (relation "measure (\<lambda>(tag, h). length h)") (auto dest: heap_Pop_length)

definition confimOne :: "nat \<Rightarrow> 64 word \<Rightarrow> nat list \<Rightarrow> connection \<Rightarrow> unit run" where
  "confimOne p tag ls c =
     (if ch_locked (channels c p) then None
      else case ch_confirms (channels c p) of
        None \<Rightarrow> ret () c
      | Some h \<Rightarrow>
          (case pop_until tag h of
             Panic e \<Rightarrow> panics e
           | Ret (unacked, h1) \<Rightarrow>
               and_then (for_each (\<lambda>l. send_to (Tag_Listener l) (Sent_Tag (Tag_Listener l) tag)) ls c) (\<lambda>_ c1.
                 ret () (set_channel p (\<lambda>ch. ch\<lparr>ch_confirms := Some (fold heap_Push unacked h1)\<rparr>) c1))))"

text \<open>The loop of \<open>confimMultiple\<close> confirms every tag it pops.\<close>

function confirm_through ::
    "64 word \<Rightarrow> nat list \<Rightarrow> 64 word list \<Rightarrow> connection \<Rightarrow> 64 word list run" where
  "confirm_through tag ls h c =
     (case heap_Pop h of
        Panic e \<Rightarrow> panics e
      | Ret (nxt, h1) \<Rightarrow>
          and_then (for_each (\<lambda>l. send_to (Tag_Listener l) (Sent_Tag (Tag_Listener l) nxt)) ls c) (\<lambda>_ c1.
            if nxt = tag then ret h1 c1 else confirm_through tag ls h1 c1))"
  by pat_completeness auto
termination by (relation "measure (\<lambda>(tag, ls, h, c). length h)") (auto dest: heap_Pop_length)

declare pop_until.simps [simp del] confirm_through.simps [simp del]

definition confimMultiple :: "nat \<Rightarrow> 64 word \<Rightarrow> nat list \<Rightarrow> connection \<Rightarrow> unit run" where
  "confimMultiple p tag ls c =
     (if ch_locked (channels c p) then None
      else case ch_confirms (channels c p) of
        None \<Rightarrow> ret () c
      | Some h \<Rightarrow>
          and_then (confirm_through tag ls h c) (\<lambda>h1 c1.
            ret () (set_channel p (\<lambda>ch. ch\<lparr>ch_confirms := Some h1\<rparr>) c1)))"

section \<open>Dispatching a method\<close>

text \<open>\<open>me.rpc <- msg\<close>: the reader waits until a call takes the message.\<close>

definition hand_over :: "nat \<Rightarrow> message option \<Rightarrow> connection \<Rightarrow> unit run" where
  "hand_over p msg c = ret () (c\<lparr>reader_state := Handing_Over p msg\<rparr>)"

fun ch_dispatch :: "nat \<Rightarrow> message option \<Rightarrow> connection \<Rightarrow> unit run" where
  "ch_dispatch p (Some (Channel_Message (ChannelClose m))) c =
     and_then (ch_shutdown p (Some (newError (channelClose_ReplyCode m) (channelClose_ReplyText m))) c) (\<lambda>_ c1.
     and_then (ch_send p (Channel_Message (ChannelCloseOk channelCloseOk_zero)) c1) (\<lambda>_. ret ()))"
| "ch_dispatch p (Some (Channel_Message (ChannelFlow m))) c =
     and_then (for_each (\<lambda>l. send_to (Flow_Listener l) (Sent_Flow (Flow_Listener l) (channelFlow_Active m)))
       (ch_flows (channels c p)) c) (\<lambda>_ c1.
     and_then (ch_send p (Channel_Message (ChannelFlowOk (channelFlowOk_zero
       \<lparr>channelFlowOk_Active := channelFlow_Active m\<rparr>))) c1) (\<lambda>_. ret ()))"
| "ch_dispatch p (Some (Basic_Message (BasicCancel m))) c =
     and_then (for_each (\<lambda>l. send_to (Cancel_Listener l) (Sent_Cancel (Cancel_Listener l) (basicCancel_ConsumerTag m)))
       (ch_cancels (channels c p)) c) (\<lambda>_ c1.
     and_then (ch_send p (Basic_Message (BasicCancelOk (basicCancelOk_zero
       \<lparr>basicCancelOk_ConsumerTag := basicCancel_ConsumerTag m\<rparr>))) c1) (\<lambda>_. ret ()))"
| "ch_dispatch p (Some (Basic_Message (BasicReturn m))) c =
     for_each (\<lambda>l. send_to (Return_Listener l) (Sent_Return (Return_Listener l) (newReturn m)))
       (ch_returns (channels c p)) c"
| "ch_dispatch p (Some (Basic_Message (BasicAck m))) c =
     (if basicAck_Multiple m then confimMultiple p (basicAck_DeliveryTag m) (ch_acks (channels c p)) c
      else confimOne p (basicAck_DeliveryTag m) (ch_acks (channels c p)) c)"
| "ch_dispatch p (Some (Basic_Message (BasicNack m))) c =
     (if basicNack_Multiple m then confimMultiple p (basicNack_DeliveryTag m) (ch_nacks (channels c p)) c
      else confimOne p (basicNack_DeliveryTag m) (ch_nacks (channels c p)) c)"
| "ch_dispatch p (Some (Basic_Message (BasicDeliver m))) c =
     and_then (consumers_send p (basicDeliver_ConsumerTag m)
       (newDelivery p (Basic_Message (BasicDeliver m))) c) (\<lambda>_. ret ())"
| "ch_dispatch p msg c = hand_over p msg c"

section \<open>Putting content together\<close>

definition transition :: "nat \<Rightarrow> receiver \<Rightarrow> connection \<Rightarrow> unit run" where
  "transition p r c = ret () (set_channel p (\<lambda>ch. ch\<lparr>ch_recv := r\<rparr>) c)"

definition recvMethod :: "nat \<Rightarrow> frame \<Rightarrow> connection \<Rightarrow> unit run" where
  "recvMethod p f c =
     (case f of
        Method_Frame fr \<Rightarrow>
          (case mf_Method fr of
             Some msg \<Rightarrow>
               if get_content msg \<noteq> None
               then transition p Recv_Header (set_channel p (\<lambda>ch. ch\<lparr>ch_body := [], ch_message := Some msg\<rparr>) c)
               else and_then (ch_dispatch p (Some msg) c) (\<lambda>_. transition p Recv_Method)
           | None \<Rightarrow> and_then (ch_dispatch p None c) (\<lambda>_. transition p Recv_Method))
      | Header_Frame _ \<Rightarrow> transition p Recv_Method c
      | Body_Frame _ \<Rightarrow> transition p Recv_Method c
      | _ \<Rightarrow> panics (UserPanic ''unexpected frame type''))"

text \<open>The content is complete: the message gets it and is dispatched.\<close>

definition complete_content :: "nat \<Rightarrow> properties \<Rightarrow> bytes \<Rightarrow> connection \<Rightarrow> unit run" where
  "complete_content p props body c =
     (case ch_message (channels c p) of
        None \<Rightarrow> panics NilPointer
      | Some msg \<Rightarrow>
          (let msg1 = set_content props body msg in
           and_then (ch_dispatch p (Some msg1) (set_channel p (\<lambda>ch. ch\<lparr>ch_message := Some msg1\<rparr>) c))
             (\<lambda>_. transition p Recv_Method)))"

definition recvHeader :: "nat \<Rightarrow> frame \<Rightarrow> connection \<Rightarrow> unit run" where
  "recvHeader p f c =
     (case f of
        Method_Frame _ \<Rightarrow> recvMethod p f c
      | Header_Frame fr \<Rightarrow>
          (let c1 = set_channel p (\<lambda>ch. ch\<lparr>ch_header := Some fr\<rparr>) c in
           if hf_Size fr = 0 then complete_content p (hf_Properties fr) (ch_body (channels c1 p)) c1
           else transition p Recv_Content c1)
      | Body_Frame _ \<Rightarrow> transition p Recv_Method c
      | _ \<Rightarrow> panics (UserPanic ''unexpected frame type''))"

definition recvContent :: "nat \<Rightarrow> frame \<Rightarrow> connection \<Rightarrow> unit run" where
  "recvContent p f c =
     (case f of
        Method_Frame _ \<Rightarrow> recvMethod p f c
      | Header_Frame _ \<Rightarrow> transition p Recv_Method c
      | Body_Frame fr \<Rightarrow>
          (let body = ch_body (channels c p) @ bf_Body fr;
               c1 = set_channel p (\<lambda>ch. ch\<lparr>ch_body := body\<rparr>) c in
           case ch_header (channels c p) of
             None \<Rightarrow> panics NilPointer
           | Some hdr \<Rightarrow>
               if hf_Size hdr \<le> word_of_nat (length body) then complete_content p (hf_Properties hdr) body c1
               else transition p Recv_Content c1)
      | _ \<Rightarrow> panics (UserPanic ''unexpected frame type''))"

definition ch_receive :: "nat \<Rightarrow> frame \<Rightarrow> connection \<Rightarrow> unit run" where
  "ch_receive p f c =
     (case ch_recv (channels c p) of
        Recv_Method \<Rightarrow> recvMethod p f c
      | Recv_Header \<Rightarrow> recvHeader p f c
      | Recv_Content \<Rightarrow> recvContent p f c)"

section \<open>connection.go: the reader\<close>

text \<open>
  \<open>closeWith\<close> on the reader goroutine: it sends \<open>connection.close\<close> and waits for the reply, which
  nobody but the reader could hand to it.
\<close>

definition closeWith :: "exception \<Rightarrow> connection \<Rightarrow> unit run" where
  "closeWith err c =
     (case conn_send (method_frame 0 (Connection_Message (ConnectionClose (connectionClose_zero
           \<lparr>connectionClose_ReplyCode := word_of_int (Code err), connectionClose_ReplyText := Reason err\<rparr>)))) c of
        (Some _, c1) \<Rightarrow> conn_shutdown (Some err) c1
      | (None, c1) \<Rightarrow> ret () (c1\<lparr>reader_state := Awaiting_Close err\<rparr>))"

definition dispatch0 :: "frame \<Rightarrow> connection \<Rightarrow> unit run" where
  "dispatch0 f c =
     (case f of
        Method_Frame mf \<Rightarrow>
          (case mf_Method mf of
             Some (Connection_Message (ConnectionClose m)) \<Rightarrow>
               (let (_, c1) = conn_send (method_frame 0 (Connection_Message (ConnectionCloseOk connectionCloseOk_zero))) c
                in conn_shutdown (Some (newError (connectionClose_ReplyCode m) (connectionClose_ReplyText m))) c1)
           | Some (Connection_Message (ConnectionBlocked m)) \<Rightarrow>
               for_each (\<lambda>l. send_to (Blocking_Listener l)
                 (Sent_Blocking (Blocking_Listener l) True (connectionBlocked_Reason m))) (cn_blocks c) c
           | Some (Connection_Message (ConnectionUnblocked m)) \<Rightarrow>
               for_each (\<lambda>l. send_to (Blocking_Listener l) (Sent_Blocking (Blocking_Listener l) False []))
                 (cn_blocks c) c
           | msg \<Rightarrow> ret () (c\<lparr>reader_state := Handing_Over_Connection msg\<rparr>))
      | Heartbeat_Frame _ \<Rightarrow> ret () c
      | _ \<Rightarrow> closeWith ErrUnexpectedFrame c)"

definition dispatchClosed :: "16 word \<Rightarrow> frame \<Rightarrow> connection \<Rightarrow> unit run" where
  "dispatchClosed i f c =
     (case f of
        Method_Frame mf \<Rightarrow>
          (case mf_Method mf of
             Some (Channel_Message (ChannelClose _)) \<Rightarrow>
               ret () (snd (conn_send (method_frame i (Channel_Message (ChannelCloseOk channelCloseOk_zero))) c))
           | Some (Channel_Message (ChannelCloseOk _)) \<Rightarrow> ret () c
           | _ \<Rightarrow> closeWith ErrClosed c)
      | _ \<Rightarrow> ret () c)"

definition dispatchN :: "16 word \<Rightarrow> frame \<Rightarrow> connection \<Rightarrow> unit run" where
  "dispatchN i f c =
     (case registry_get i c of
        Some p \<Rightarrow> ch_receive p f c
      | None \<Rightarrow> dispatchClosed i f c)"

definition demux :: "frame \<Rightarrow> connection \<Rightarrow> unit run" where
  "demux f c =
     (case frame_channel f of
        None \<Rightarrow> panics (UserPanic ''only valid as initial handshake'')
      | Some i \<Rightarrow> if i = 0 then dispatch0 f c else dispatchN i f c)"

text \<open>One turn of the loop of \<open>reader\<close>; it is stuck while the reader waits.\<close>

definition read_input :: "input \<Rightarrow> connection \<Rightarrow> unit run" where
  "read_input x c =
     (if reader_state c \<noteq> Reading then None
      else case x of
        Frame_In f \<Rightarrow> demux f c
      | Read_Error e \<Rightarrow>
          and_then (conn_shutdown (Some \<lparr>Code = FrameError, Reason = e, Server = False, Recover = False\<rparr>) c)
            (\<lambda>_ c1. ret () (c1\<lparr>reader_state := Reader_Returned\<rparr>)))"

end
