(* ===== verification/Amqp_Calls.thy ===== *)
theory Amqp_Calls
  imports Amqp_Receive Util
begin

text \<open>
  The calls of the application on a channel of the AMQP client (\<open>channel.go\<close>) and the opening of
  channels (\<open>connection.go\<close>).  While a call waits, the reader processes the frames that come in;
  \<open>await\<close> returns \<open>None\<close> when nothing more comes that would end the wait, or when the reader is
  stuck.
\<close>

section \<open>Waiting for a reply\<close>

text \<open>What a wait ends with: an exception, or the message the reader hands over.\<close>

type_synonym answer = "exception + message option"

fun await ::
    "(connection \<Rightarrow> (answer \<times> connection) option) \<Rightarrow> input list \<Rightarrow> connection \<Rightarrow> answer run" where
  "await ready [] c =
     (case ready c of Some (a, c1) \<Rightarrow> ret a (c1\<lparr>incoming := []\<rparr>) | None \<Rightarrow> None)"
| "await ready (x # xs) c =
     (case ready c of
        Some (a, c1) \<Rightarrow> ret a (c1\<lparr>incoming := x # xs\<rparr>)
      | None \<Rightarrow> and_then (read_input x c) (\<lambda>_. await ready xs))"

definition ch_ready :: "nat \<Rightarrow> connection \<Rightarrow> (answer \<times> connection) option" where
  "ch_ready p c =
     (case ch_errors (channels c p) of
        Some e \<Rightarrow> Some (Inl e, set_channel p (\<lambda>ch. ch\<lparr>ch_errors := None\<rparr>) c)
      | None \<Rightarrow>
          (case reader_state c of
             Handing_Over q msg \<Rightarrow>
               if q = p then Some (Inr msg, c\<lparr>reader_state := Reading\<rparr>) else None
           | _ \<Rightarrow> None))"

text \<open>The reply has the type of one of \<open>tries\<close>; the types of messages are told by their ids.\<close>

definition ch_reply :: "message list \<Rightarrow> answer \<Rightarrow> client_error option \<times> message option" where
  "ch_reply tries a =
     (case a of
        Inl e \<Rightarrow> (Some (Exception e), None)
      | Inr None \<Rightarrow> (Some (Exception ErrClosed), None)
      | Inr (Some msg) \<Rightarrow>
          if message_id msg \<in> message_id ` set tries then (None, Some msg)
          else (Some (Exception ErrCommandInvalid), None))"

definition ch_call ::
    "nat \<Rightarrow> message \<Rightarrow> message list \<Rightarrow> connection \<Rightarrow> (client_error option \<times> message option) run" where
  "ch_call p req tries c =
     and_then (ch_send p req c) (\<lambda>err c1.
       case err of
         Some e \<Rightarrow> ret (Some e, None) c1
       | None \<Rightarrow>
           if message_wait req
           then and_then (await (ch_ready p) (incoming c1) c1) (\<lambda>a c2. ret (ch_reply tries a) c2)
           else ret (None, None) c1)"

text \<open>A call whose reply is not looked at.\<close>

definition ch_do :: "nat \<Rightarrow> message \<Rightarrow> message list \<Rightarrow> connection \<Rightarrow> client_error option run" where
  "ch_do p req tries c = and_then (ch_call p req tries c) (\<lambda>(err, _). ret err)"

text \<open>\<open>if err := args.Validate(); err != nil { return err }\<close>\<close>

definition with_valid :: "table \<Rightarrow> (client_error \<Rightarrow> 'a) \<Rightarrow> (connection \<Rightarrow> 'a run) \<Rightarrow> connection \<Rightarrow> 'a run" where
  "with_valid args fail m c = (case Validate args of Some e \<Rightarrow> ret (fail (Bad_Table e)) c | None \<Rightarrow> m c)"

section \<open>Opening and closing\<close>

definition newChannel :: "16 word \<Rightarrow> channel" where
  "newChannel i =
     \<lparr>ch_id = i, ch_destroyed = False, ch_locked = False, ch_noNotify = False, ch_open = True,
      ch_closes = [], ch_flows = [], ch_returns = [], ch_cancels = [], ch_acks = [], ch_nacks = [],
      ch_confirms = None, ch_publishCounter = 0, ch_errors = None, ch_consumers = [],
      ch_recv = Recv_Method, ch_message = None, ch_header = None, ch_body = []\<rparr>"

definition ch_open_call :: "nat \<Rightarrow> connection \<Rightarrow> client_error option run" where
  "ch_open_call p =
     ch_do p (Channel_Message (ChannelOpen channelOpen_zero)) [Channel_Message (ChannelOpenOk channelOpenOk_zero)]"

definition Connection_Channel :: "connection \<Rightarrow> (nat \<times> client_error option) run" where
  "Connection_Channel c =
     (let (i, c1) = registry_next c;
          p = channels_made c1;
          c2 = registry_add i p (set_channel p (\<lambda>_. newChannel i) (c1\<lparr>channels_made := Suc p\<rparr>)) in
      and_then (ch_open_call p c2) (\<lambda>err. ret (p, err)))"

definition Channel_Close :: "nat \<Rightarrow> connection \<Rightarrow> client_error option run" where
  "Channel_Close p c =
     and_then
       (ch_do p (Channel_Message (ChannelClose (channelClose_zero\<lparr>channelClose_ReplyCode := 200\<rparr>)))
         [Channel_Message (ChannelCloseOk channelCloseOk_zero)] c)
       (\<lambda>err c1. and_then (ch_shutdown p None c1) (\<lambda>_. ret err))"

section \<open>Queues\<close>

definition Channel_Qos :: "nat \<Rightarrow> int \<Rightarrow> int \<Rightarrow> bool \<Rightarrow> connection \<Rightarrow> client_error option run" where
  "Channel_Qos p prefetchCount prefetchSize global =
     ch_do p (Basic_Message (BasicQos (basicQos_zero
         \<lparr>basicQos_PrefetchCount := word_of_int prefetchCount, basicQos_PrefetchSize := word_of_int prefetchSize,
          basicQos_Global := global\<rparr>)))
       [Basic_Message (BasicQosOk basicQosOk_zero)]"

definition Channel_Cancel :: "nat \<Rightarrow> bytes \<Rightarrow> bool \<Rightarrow> connection \<Rightarrow> client_error option run" where
  "Channel_Cancel p consumer noWait c =
     (let req = Basic_Message (BasicCancel (basicCancel_zero
         \<lparr>basicCancel_ConsumerTag := consumer, basicCancel_NoWait := noWait\<rparr>)) in
      and_then (ch_call p req [Basic_Message (BasicCancelOk basicCancelOk_zero)] c) (\<lambda>(err, res) c1.
        case err of
          Some e \<Rightarrow> ret (Some e) c1
        | None \<Rightarrow>
            and_then
              (if message_wait req
               then consumers_close p
                 (case res of Some (Basic_Message (BasicCancelOk m)) \<Rightarrow> basicCancelOk_ConsumerTag m | _ \<Rightarrow> []) c1
               else consumers_close p consumer c1)
              (\<lambda>_. ret None)))"

record queue =
  Name :: bytes
  Messages :: int
  Consumers :: int

definition zero_queue :: queue where
  "zero_queue = \<lparr>Name = [], Messages = 0, Consumers = 0\<rparr>"

fun declared :: "message option \<Rightarrow> queue" where
  "declared (Some (Queue_Message (QueueDeclareOk m))) =
     \<lparr>Name = queueDeclareOk_Queue m, Messages = int (unat (queueDeclareOk_MessageCount m)),
      Consumers = int (unat (queueDeclareOk_ConsumerCount m))\<rparr>"
| "declared _ = zero_queue"

definition declare_queue ::
    "bool \<Rightarrow> nat \<Rightarrow> bytes \<Rightarrow> bool \<Rightarrow> bool \<Rightarrow> bool \<Rightarrow> bool \<Rightarrow> table \<Rightarrow> connection
     \<Rightarrow> (queue \<times> client_error option) run" where
  "declare_queue passive p nm durable autoDelete exclusive noWait args =
     with_valid args (\<lambda>e. (zero_queue, Some e)) (\<lambda>c.
       let req = Queue_Message (QueueDeclare (queueDeclare_zero
         \<lparr>queueDeclare_Queue := nm, queueDeclare_Passive := passive, queueDeclare_Durable := durable,
          queueDeclare_AutoDelete := autoDelete, queueDeclare_Exclusive := exclusive,
          queueDeclare_NoWait := noWait, queueDeclare_Arguments := args\<rparr>)) in
       and_then (ch_call p req [Queue_Message (QueueDeclareOk queueDeclareOk_zero)] c) (\<lambda>(err, res) c1.
         case err of
           Some e \<Rightarrow> ret (zero_queue, Some e) c1
         | None \<Rightarrow> ret (if message_wait req then declared res else zero_queue\<lparr>Name := nm\<rparr>, None) c1))"

definition Channel_QueueDeclare where "Channel_QueueDeclare = declare_queue False"
definition Channel_QueueDeclarePassive where "Channel_QueueDeclarePassive = declare_queue True"

definition Channel_QueueInspect :: "nat \<Rightarrow> bytes \<Rightarrow> connection \<Rightarrow> (queue \<times> client_error option) run" where
  "Channel_QueueInspect p nm c =
     and_then
       (ch_call p (Queue_Message (QueueDeclare (queueDeclare_zero
           \<lparr>queueDeclare_Queue := nm, queueDeclare_Passive := True\<rparr>)))
         [Queue_Message (QueueDeclareOk queueDeclareOk_zero)] c)
       (\<lambda>(err, res) c1. ret ((declared res)\<lparr>Name := nm\<rparr>, err) c1)"

definition Channel_QueueBind ::
    "nat \<Rightarrow> bytes \<Rightarrow> bytes \<Rightarrow> bytes \<Rightarrow> bool \<Rightarrow> table \<Rightarrow> connection \<Rightarrow> client_error option run" where
  "Channel_QueueBind p nm key exchange noWait args =
     with_valid args Some (ch_do p (Queue_Message (QueueBind (queueBind_zero
         \<lparr>queueBind_Queue := nm, queueBind_Exchange := exchange, queueBind_RoutingKey := key,
          queueBind_NoWait := noWait, queueBind_Arguments := args\<rparr>)))
       [Queue_Message (QueueBindOk queueBindOk_zero)])"

definition Channel_QueueUnbind ::
    "nat \<Rightarrow> bytes \<Rightarrow> bytes \<Rightarrow> bytes \<Rightarrow> table \<Rightarrow> connection \<Rightarrow> client_error option run" where
  "Channel_QueueUnbind p nm key exchange args =
     with_valid args Some (ch_do p (Queue_Message (QueueUnbind (queueUnbind_zero
         \<lparr>queueUnbind_Queue := nm, queueUnbind_Exchange := exchange, queueUnbind_RoutingKey := key,
          queueUnbind_Arguments := args\<rparr>)))
       [Queue_Message (QueueUnbindOk queueUnbindOk_zero)])"

definition Channel_QueuePurge ::
    "nat \<Rightarrow> bytes \<Rightarrow> bool \<Rightarrow> connection \<Rightarrow> (int \<times> client_error option) run" where
  "Channel_QueuePurge p nm noWait c =
     and_then
       (ch_call p (Queue_Message (QueuePurge (queuePurge_zero
           \<lparr>queuePurge_Queue := nm, queuePurge_NoWait := noWait\<rparr>)))
         [Queue_Message (QueuePurgeOk queuePurgeOk_zero)] c)
       (\<lambda>(err, res).
         ret (case res of
             Some (Queue_Message (QueuePurgeOk m)) \<Rightarrow> int (unat (queuePurgeOk_MessageCount m))
           | _ \<Rightarrow> 0, err))"

definition Channel_QueueDelete ::
    "nat \<Rightarrow> bytes \<Rightarrow> bool \<Rightarrow> bool \<Rightarrow> bool \<Rightarrow> connection \<Rightarrow> (int \<times> client_error option) run" where
  "Channel_QueueDelete p nm ifUnused ifEmpty noWait c =
     and_then
       (ch_call p (Queue_Message (QueueDelete (queueDelete_zero
           \<lparr>queueDelete_Queue := nm, queueDelete_IfUnused := ifUnused, queueDelete_IfEmpty := ifEmpty,
            queueDelete_NoWait := noWait\<rparr>)))
         [Queue_Message (QueueDeleteOk queueDeleteOk_zero)] c)
       (\<lambda>(err, res).
         ret (case res of
             Some (Queue_Message (QueueDeleteOk m)) \<Rightarrow> int (unat (queueDeleteOk_MessageCount m))
           | _ \<Rightarrow> 0, err))"

section \<open>Consuming\<close>

text \<open>\<open>arg0\<close> is the name of the program, \<open>os.Args[0]\<close>.\<close>

definition uniqueConsumerTag :: "bytes \<Rightarrow> connection \<Rightarrow> bytes \<times> connection" where
  "uniqueConsumerTag arg0 c =
     (let n = consumerSeq c + 1 in
      (ascii ''ctag-'' @ arg0 @ ascii ''-'' @ ascii (print_int (int (unat n))), c\<lparr>consumerSeq := n\<rparr>))"

text \<open>The result is the number of the buffer whose deliveries the Go channel receives.\<close>

definition Channel_Consume ::
    "bytes \<Rightarrow> nat \<Rightarrow> bytes \<Rightarrow> bytes \<Rightarrow> bool \<Rightarrow> bool \<Rightarrow> bool \<Rightarrow> bool \<Rightarrow> table \<Rightarrow> connection
     \<Rightarrow> (nat option \<times> client_error option) run" where
  "Channel_Consume arg0 p que consumer autoAck exclusive noLocal noWait args =
     with_valid args (\<lambda>e. (None, Some e)) (\<lambda>c.
       let (tag, c1) = (if consumer = [] then uniqueConsumerTag arg0 c else (consumer, c));
           req = Basic_Message (BasicConsume (basicConsume_zero
             \<lparr>basicConsume_Queue := que, basicConsume_ConsumerTag := tag, basicConsume_NoLocal := noLocal,
              basicConsume_NoAck := autoAck, basicConsume_Exclusive := exclusive,
              basicConsume_NoWait := noWait, basicConsume_Arguments := args\<rparr>)) in
       and_then (consumers_add p tag c1) (\<lambda>_ c2.
       and_then (ch_call p req [Basic_Message (BasicConsumeOk basicConsumeOk_zero)] c2) (\<lambda>(err, _) c3.
         case err of
           Some e \<Rightarrow> and_then (consumers_close p tag c3) (\<lambda>_. ret (None, Some e))
         | None \<Rightarrow> ret (Some (buffers_made c1), None) c3)))"

section \<open>Exchanges\<close>

definition declare_exchange ::
    "bool \<Rightarrow> nat \<Rightarrow> bytes \<Rightarrow> bytes \<Rightarrow> bool \<Rightarrow> bool \<Rightarrow> bool \<Rightarrow> bool \<Rightarrow> table \<Rightarrow> connection
     \<Rightarrow> client_error option run" where
  "declare_exchange passive p nm kind durable autoDelete internal noWait args =
     with_valid args Some (ch_do p (Exchange_Message (ExchangeDeclare (exchangeDeclare_zero
         \<lparr>exchangeDeclare_Exchange := nm, exchangeDeclare_Type := kind, exchangeDeclare_Passive := passive,
          exchangeDeclare_Durable := durable, exchangeDeclare_AutoDelete := autoDelete,
          exchangeDeclare_Internal := internal, exchangeDeclare_NoWait := noWait,
          exchangeDeclare_Arguments := args\<rparr>)))
       [Exchange_Message (ExchangeDeclareOk exchangeDeclareOk_zero)])"

definition Channel_ExchangeDeclare where "Channel_ExchangeDeclare = declare_exchange False"
definition Channel_ExchangeDeclarePassive where "Channel_ExchangeDeclarePassive = declare_exchange True"

definition Channel_ExchangeDelete :: "nat \<Rightarrow> bytes \<Rightarrow> bool \<Rightarrow> bool \<Rightarrow> connection \<Rightarrow> client_error option run" where
  "Channel_ExchangeDelete p nm ifUnused noWait =
     ch_do p (Exchange_Message (ExchangeDelete (exchangeDelete_zero
         \<lparr>exchangeDelete_Exchange := nm, exchangeDelete_IfUnused := ifUnused, exchangeDelete_NoWait := noWait\<rparr>)))
       [Exchange_Message (ExchangeDeleteOk exchangeDeleteOk_zero)]"

definition Channel_ExchangeBind ::
    "nat \<Rightarrow> bytes \<Rightarrow> bytes \<Rightarrow> bytes \<Rightarrow> bool \<Rightarrow> table \<Rightarrow> connection \<Rightarrow> client_error option run" where
  "Channel_ExchangeBind p destination key source noWait args =
     with_valid args Some (ch_do p (Exchange_Message (ExchangeBind (exchangeBind_zero
         \<lparr>exchangeBind_Destination := destination, exchangeBind_Source := source,
          exchangeBind_RoutingKey := key, exchangeBind_NoWait := noWait, exchangeBind_Arguments := args\<rparr>)))
       [Exchange_Message (ExchangeBindOk exchangeBindOk_zero)])"

definition Channel_ExchangeUnbind ::
    "nat \<Rightarrow> bytes \<Rightarrow> bytes \<Rightarrow> bytes \<Rightarrow> bool \<Rightarrow> table \<Rightarrow> connection \<Rightarrow> client_error option run" where
  "Channel_ExchangeUnbind p destination key source noWait args =
     with_valid args Some (ch_do p (Exchange_Message (ExchangeUnbind (exchangeUnbind_zero
         \<lparr>exchangeUnbind_Destination := destination, exchangeUnbind_Source := source,
          exchangeUnbind_RoutingKey := key, exchangeUnbind_NoWait := noWait, exchangeUnbind_Arguments := args\<rparr>)))
       [Exchange_Message (ExchangeUnbindOk exchangeUnbindOk_zero)])"

section \<open>Publishing and getting\<close>

record publishing =
  pb_Headers :: table
  pb_ContentType :: bytes
  pb_ContentEncoding :: bytes
  pb_DeliveryMode :: "8 word"
  pb_Priority :: "8 word"
  pb_CorrelationId :: bytes
  pb_ReplyTo :: bytes
  pb_Expiration :: bytes
  pb_MessageId :: bytes
  pb_Timestamp :: go_time
  pb_Type :: bytes
  pb_UserId :: bytes
  pb_AppId :: bytes
  pb_Body :: bytes

definition publish_message :: "bytes \<Rightarrow> bytes \<Rightarrow> bool \<Rightarrow> bool \<Rightarrow> publishing \<Rightarrow> message" where
  "publish_message exchange key mandatory immediate msg =
     Basic_Message (BasicPublish (basicPublish_zero
       \<lparr>basicPublish_Exchange := exchange, basicPublish_RoutingKey := key,
        basicPublish_Mandatory := mandatory, basicPublish_Immediate := immediate,
        basicPublish_Body := pb_Body msg,
        basicPublish_Properties := zero_properties
          \<lparr>Headers := pb_Headers msg, ContentType := pb_ContentType msg,
           ContentEncoding := pb_ContentEncoding msg, DeliveryMode := pb_DeliveryMode msg,
           Priority := pb_Priority msg, CorrelationId := pb_CorrelationId msg, ReplyTo := pb_ReplyTo msg,
           Expiration := pb_Expiration msg, MessageId := pb_MessageId msg, Timestamp := pb_Timestamp msg,
           Type := pb_Type msg, UserId := pb_UserId msg, AppId := pb_AppId msg\<rparr>\<rparr>))"

text \<open>The counter counts publishings from the opening of the channel, not from \<open>Confirm\<close>.\<close>

definition count_published :: "channel \<Rightarrow> channel" where
  "count_published ch =
     (let n = ch_publishCounter ch + 1 in
      ch\<lparr>ch_publishCounter := n, ch_confirms := map_option (heap_Push n) (ch_confirms ch)\<rparr>)"

definition Channel_Publish ::
    "nat \<Rightarrow> bytes \<Rightarrow> bytes \<Rightarrow> bool \<Rightarrow> bool \<Rightarrow> publishing \<Rightarrow> connection \<Rightarrow> client_error option run" where
  "Channel_Publish p exchange key mandatory immediate msg =
     with_valid (pb_Headers msg) Some (\<lambda>c.
       and_then (ch_send p (publish_message exchange key mandatory immediate msg) c) (\<lambda>err c1.
         case err of
           Some e \<Rightarrow> ret (Some e) c1
         | None \<Rightarrow> ret None (set_channel p count_published c1)))"

definition Channel_Get ::
    "nat \<Rightarrow> bytes \<Rightarrow> bool \<Rightarrow> connection \<Rightarrow> (delivery option \<times> client_error option) run" where
  "Channel_Get p que autoAck c =
     and_then
       (ch_call p (Basic_Message (BasicGet (basicGet_zero\<lparr>basicGet_Queue := que, basicGet_NoAck := autoAck\<rparr>)))
         [Basic_Message (BasicGetOk basicGetOk_zero), Basic_Message (BasicGetEmpty basicGetEmpty_zero)] c)
       (\<lambda>(err, res). ret
         (case (err, res) of
            (None, Some (Basic_Message (BasicGetOk m))) \<Rightarrow>
              if 0 < basicGetOk_DeliveryTag m then Some (newDelivery p (Basic_Message (BasicGetOk m))) else None
          | _ \<Rightarrow> None, err))"

section \<open>Transactions, flow, confirmations, acknowledgements\<close>

definition Channel_Tx :: "nat \<Rightarrow> connection \<Rightarrow> client_error option run" where
  "Channel_Tx p = ch_do p (Tx_Message (TxSelect txSelect_zero)) [Tx_Message (TxSelectOk txSelectOk_zero)]"

definition Channel_TxCommit :: "nat \<Rightarrow> connection \<Rightarrow> client_error option run" where
  "Channel_TxCommit p = ch_do p (Tx_Message (TxCommit txCommit_zero)) [Tx_Message (TxCommitOk txCommitOk_zero)]"

definition Channel_TxRollback :: "nat \<Rightarrow> connection \<Rightarrow> client_error option run" where
  "Channel_TxRollback p =
     ch_do p (Tx_Message (TxRollback txRollback_zero)) [Tx_Message (TxRollbackOk txRollbackOk_zero)]"

definition Channel_Flow :: "nat \<Rightarrow> bool \<Rightarrow> connection \<Rightarrow> client_error option run" where
  "Channel_Flow p active =
     ch_do p (Channel_Message (ChannelFlow (channelFlow_zero\<lparr>channelFlow_Active := active\<rparr>)))
       [Channel_Message (ChannelFlowOk channelFlowOk_zero)]"

definition set_locked :: "nat \<Rightarrow> bool \<Rightarrow> connection \<Rightarrow> connection" where
  "set_locked p b = set_channel p (\<lambda>ch. ch\<lparr>ch_locked := b\<rparr>)"

definition Channel_Confirm :: "nat \<Rightarrow> bool \<Rightarrow> connection \<Rightarrow> client_error option run" where
  "Channel_Confirm p noWait c =
     and_then
       (ch_do p (Confirm_Message (ConfirmSelect (confirmSelect_zero\<lparr>confirmSelect_Nowait := noWait\<rparr>)))
         [Confirm_Message (ConfirmSelectOk confirmSelectOk_zero)] (set_locked p True c))
       (\<lambda>err c1.
         let c2 = set_locked p False c1 in
         case err of
           Some e \<Rightarrow> ret (Some e) c2
         | None \<Rightarrow> ret None (set_channel p (\<lambda>ch. ch\<lparr>ch_confirms := Some []\<rparr>) c2))"

definition Channel_Recover :: "nat \<Rightarrow> bool \<Rightarrow> connection \<Rightarrow> client_error option run" where
  "Channel_Recover p requeue =
     ch_do p (Basic_Message (BasicRecover (basicRecover_zero\<lparr>basicRecover_Requeue := requeue\<rparr>)))
       [Basic_Message (BasicRecoverOk basicRecoverOk_zero)]"

definition Channel_Ack :: "nat \<Rightarrow> 64 word \<Rightarrow> bool \<Rightarrow> connection \<Rightarrow> client_error option run" where
  "Channel_Ack p tag multiple =
     ch_send p (Basic_Message (BasicAck (basicAck_zero
       \<lparr>basicAck_DeliveryTag := tag, basicAck_Multiple := multiple\<rparr>)))"

definition Channel_Nack :: "nat \<Rightarrow> 64 word \<Rightarrow> bool \<Rightarrow> bool \<Rightarrow> connection \<Rightarrow> client_error option run" where
  "Channel_Nack p tag multiple requeue =
     ch_send p (Basic_Message (BasicNack (basicNack_zero
       \<lparr>basicNack_DeliveryTag := tag, basicNack_Multiple := multiple, basicNack_Requeue := requeue\<rparr>)))"

definition Channel_Reject :: "nat \<Rightarrow> 64 word \<Rightarrow> bool \<Rightarrow> connection \<Rightarrow> client_error option run" where
  "Channel_Reject p tag requeue =
     ch_send p (Basic_Message (BasicReject (basicReject_zero
       \<lparr>basicReject_DeliveryTag := tag, basicReject_Requeue := requeue\<rparr>)))"

definition Delivery_Ack :: "delivery \<Rightarrow> bool \<Rightarrow> connection \<Rightarrow> client_error option run" where
  "Delivery_Ack d multiple = Channel_Ack (dl_Acknowledger d) (dl_DeliveryTag d) multiple"

definition Delivery_Reject :: "delivery \<Rightarrow> bool \<Rightarrow> connection \<Rightarrow> client_error option run" where
  "Delivery_Reject d requeue = Channel_Reject (dl_Acknowledger d) (dl_DeliveryTag d) requeue"

definition Delivery_Nack :: "delivery \<Rightarrow> bool \<Rightarrow> bool \<Rightarrow> connection \<Rightarrow> client_error option run" where
  "Delivery_Nack d multiple requeue = Channel_Nack (dl_Acknowledger d) (dl_DeliveryTag d) multiple requeue"

end
