(* ===== verification/Amqp_Handshake.thy ===== *)
theory Amqp_Handshake
  imports Amqp_Calls
begin

text \<open>
  Opening and closing a connection of the AMQP client (\<open>connection.go\<close>, \<open>auth.go\<close>): the handshake
  \<open>open\<close>, \<open>openStart\<close>, \<open>openTune\<close>, \<open>openVhost\<close> with the negotiation of limits.  An
  authentication is its mechanism and its response.  The goroutine of the heartbeat listens for
  errors as listener 0; the application numbers its listeners from 1.
\<close>

section \<open>auth.go\<close>

type_synonym authentication = "bytes \<times> bytes"

definition PlainAuth :: "bytes \<Rightarrow> bytes \<Rightarrow> authentication" where
  "PlainAuth username password = (ascii ''PLAIN'', [0] @ username @ [0] @ password)"

fun pickSASLMechanism :: "authentication list \<Rightarrow> bytes list \<Rightarrow> authentication option" where
  "pickSASLMechanism [] serverMechanisms = None"
| "pickSASLMechanism (auth # client) serverMechanisms =
     (if fst auth \<in> set serverMechanisms then Some auth else pickSASLMechanism client serverMechanisms)"

text \<open>\<open>strings.Split(s, " ")\<close>\<close>

fun split_spaces :: "bytes \<Rightarrow> bytes list" where
  "split_spaces [] = [[]]"
| "split_spaces (b # bs) =
     (if b = 32 then [] # split_spaces bs
      else (case split_spaces bs of [] \<Rightarrow> [[b]] | w # ws \<Rightarrow> (b # w) # ws))"

section \<open>Calls on channel 0\<close>

definition conn_ready :: "connection \<Rightarrow> (answer \<times> connection) option" where
  "conn_ready c =
     (case cn_errors c of
        Some e \<Rightarrow> Some (Inl e, c\<lparr>cn_errors := None\<rparr>)
      | None \<Rightarrow>
          (case reader_state c of
             Handing_Over_Connection msg \<Rightarrow> Some (Inr msg, c\<lparr>reader_state := Reading\<rparr>)
           | _ \<Rightarrow> None))"

definition conn_reply :: "message list \<Rightarrow> answer \<Rightarrow> client_error option \<times> message option" where
  "conn_reply tries a =
     (case a of
        Inl e \<Rightarrow> (Some (Exception e), None)
      | Inr (Some msg) \<Rightarrow>
          if message_id msg \<in> message_id ` set tries then (None, Some msg)
          else (Some (Exception ErrCommandInvalid), None)
      | Inr None \<Rightarrow> (Some (Exception ErrCommandInvalid), None))"

definition conn_call ::
    "message option \<Rightarrow> message list \<Rightarrow> connection \<Rightarrow> (client_error option \<times> message option) run" where
  "conn_call req tries c =
     (let (err, c1) = (case req of None \<Rightarrow> (None, c) | Some m \<Rightarrow> conn_send (method_frame 0 m) c) in
      case err of
        Some e \<Rightarrow> ret (Some e, None) c1
      | None \<Rightarrow> and_then (await conn_ready (incoming c1) c1) (\<lambda>a. ret (conn_reply tries a)))"

definition Connection_Close :: "connection \<Rightarrow> client_error option run" where
  "Connection_Close c =
     and_then
       (conn_call (Some (Connection_Message (ConnectionClose (connectionClose_zero
           \<lparr>connectionClose_ReplyCode := 200, connectionClose_ReplyText := ascii ''kthxbai''\<rparr>))))
         [Connection_Message (ConnectionCloseOk connectionCloseOk_zero)] c)
       (\<lambda>(err, _) c1. and_then (conn_shutdown None c1) (\<lambda>_. ret err))"

section \<open>The handshake\<close>

definition pick :: "int \<Rightarrow> int \<Rightarrow> int" where
  "pick client server =
     (if client = 0 \<or> server = 0 then (if client > server then client else server)
      else (if client > server then server else client))"

record config =
  cf_SASL :: "authentication list"
  cf_Vhost :: bytes
  cf_Channels :: int
  cf_FrameSize :: int
  cf_Heartbeat :: int
  cf_Properties :: table

text \<open>A duration is in nanoseconds; its division truncates.\<close>

definition second :: int where "second = 1000000000"

definition in_seconds :: "int \<Rightarrow> int" where
  "in_seconds d = (if d < 0 then - (- d div second) else d div second)"

definition client_properties :: "table \<Rightarrow> table" where
  "client_properties t =
     AList.update (ascii ''capabilities'')
       (FTable [(ascii ''connection.blocked'', FBool True), (ascii ''consumer_cancel_notify'', FBool True)])
       (if t = [] then [(ascii ''product'', FString (ascii ''https://github.com/streadway/amqp'')),
                        (ascii ''version'', FString [206, 178])]
        else t)"

definition openVhost :: "config \<Rightarrow> connection \<Rightarrow> client_error option run" where
  "openVhost config c =
     and_then
       (conn_call (Some (Connection_Message (ConnectionOpen (connectionOpen_zero
           \<lparr>connectionOpen_VirtualHost := cf_Vhost config\<rparr>))))
         [Connection_Message (ConnectionOpenOk connectionOpenOk_zero)] c)
       (\<lambda>(err, _) c1.
         if err \<noteq> None then ret (Some (Exception ErrVhost)) c1
         else ret None (c1\<lparr>cn_Vhost := cf_Vhost config\<rparr>))"

definition openTune :: "config \<Rightarrow> authentication \<Rightarrow> connection \<Rightarrow> client_error option run" where
  "openTune config auth c =
     and_then
       (conn_call (Some (Connection_Message (ConnectionStartOk (connectionStartOk_zero
           \<lparr>connectionStartOk_Mechanism := fst auth, connectionStartOk_Response := snd auth,
            connectionStartOk_ClientProperties := client_properties (cf_Properties config)\<rparr>))))
         [Connection_Message (ConnectionTune connectionTune_zero)] c)
       (\<lambda>(err, res) c1.
         case res of
           Some (Connection_Message (ConnectionTune tune)) \<Rightarrow>
             (let c2 = c1\<lparr>cn_Channels := pick (cf_Channels config) (int (unat (connectionTune_ChannelMax tune))),
                    cn_FrameSize := pick (cf_FrameSize config) (int (unat (connectionTune_FrameMax tune))),
                    cn_Heartbeat := second * pick (in_seconds (cf_Heartbeat config))
                      (int (unat (connectionTune_Heartbeat tune)))\<rparr> in
              and_then (Connection_NotifyClose 0 c2) (\<lambda>_ c3.
                case conn_send (method_frame 0 (Connection_Message (ConnectionTuneOk (connectionTuneOk_zero
                    \<lparr>connectionTuneOk_ChannelMax := word_of_int (cn_Channels c3),
                     connectionTuneOk_FrameMax := word_of_int (cn_FrameSize c3),
                     connectionTuneOk_Heartbeat := word_of_int (in_seconds (cn_Heartbeat c3))\<rparr>)))) c3 of
                  (Some e, c4) \<Rightarrow> ret (Some e) c4
                | (None, c4) \<Rightarrow> openVhost config c4))
         | _ \<Rightarrow> ret (Some (Exception ErrCredentials)) c1)"

definition openStart :: "config \<Rightarrow> connection \<Rightarrow> client_error option run" where
  "openStart config c =
     and_then (conn_call None [Connection_Message (ConnectionStart connectionStart_zero)] c) (\<lambda>(err, res) c1.
       case res of
         Some (Connection_Message (ConnectionStart start)) \<Rightarrow>
           (let c2 = c1\<lparr>cn_Major := int (unat (connectionStart_VersionMajor start)),
                  cn_Minor := int (unat (connectionStart_VersionMinor start)),
                  cn_Properties := connectionStart_ServerProperties start\<rparr> in
            case pickSASLMechanism (cf_SASL config) (split_spaces (connectionStart_Mechanisms start)) of
              None \<Rightarrow> ret (Some (Exception ErrSASL)) c2
            | Some auth \<Rightarrow> openTune config auth (c2\<lparr>cn_Mechanism := fst auth\<rparr>))
       | _ \<Rightarrow> ret err c1)"

definition conn_open :: "config \<Rightarrow> connection \<Rightarrow> client_error option run" where
  "conn_open config c =
     (case conn_send Protocol_Header c of
        (Some e, c1) \<Rightarrow> ret (Some e) c1
      | (None, c1) \<Rightarrow> openStart config c1)"

text \<open>\<open>Open\<close>: what will come in, and which writes will fail, is up to the peer.\<close>

definition new_connection :: "input list \<Rightarrow> (nat \<Rightarrow> bytes option) \<Rightarrow> connection" where
  "new_connection inputs fails =
     \<lparr>channels = (\<lambda>_. newChannel 0), channels_made = 0, registry = [], sequence = 0,
      cn_destroyed = False, cn_noNotify = False, cn_closes = [], cn_blocks = [], cn_errors = None,
      cn_Channels = 0, cn_FrameSize = 0, cn_Heartbeat = 0, cn_Vhost = [], cn_Mechanism = [],
      cn_Major = 0, cn_Minor = 0, cn_Properties = [], reader_state = Reading, incoming = inputs,
      events = [], write_error = fails, writes = 0, failures = [], buffers_made = 0, consumerSeq = 0\<rparr>"

definition Open :: "config \<Rightarrow> input list \<Rightarrow> (nat \<Rightarrow> bytes option) \<Rightarrow> client_error option run" where
  "Open config inputs fails = conn_open config (new_connection inputs fails)"

definition isCapable :: "connection \<Rightarrow> bytes \<Rightarrow> bool" where
  "isCapable c featureName =
     (case map_of (cn_Properties c) (ascii ''capabilities'') of
        Some (FTable capabilities) \<Rightarrow> map_of capabilities featureName = Some (FBool True)
      | _ \<Rightarrow> False)"

end
