(* ===== verification/Amqp_Content.thy ===== *)
theory Amqp_Content
  imports Amqp_Handshake
begin

text \<open>
  Content on its way through the AMQP client: what \<open>sendOpen\<close> writes for a method with content, how
  a receiving channel puts it together again, also across the wire; how large the frames are; and
  what becomes of limits that leave no room.
\<close>

section \<open>Sockets that take every frame\<close>

definition sound_socket :: "connection \<Rightarrow> bool" where
  "sound_socket c \<longleftrightarrow> (\<forall>n. write_error c n = None)"

definition writable :: "frame \<Rightarrow> bool" where
  "writable f \<longleftrightarrow> (case frame_write f of Inl _ \<Rightarrow> False | Inr _ \<Rightarrow> True)"

definition wrote :: "frame list \<Rightarrow> connection \<Rightarrow> connection" where
  "wrote fs c = c\<lparr>events := events c @ map Wrote fs, writes := writes c + length fs\<rparr>"

lemma conn_send_writable:
  "writable f \<Longrightarrow> sound_socket c \<Longrightarrow> conn_send f c = (None, wrote [f] c)"
  by (auto simp: conn_send_def writable_def sound_socket_def wrote_def emit_def split: sum.splits)

lemma wrote_simps [simp]:
  "wrote [] c = c"
  "wrote gs (wrote fs c) = wrote (fs @ gs) c"
  "sound_socket (wrote fs c) = sound_socket c"
  "channels (wrote fs c) = channels c"
  "cn_FrameSize (wrote fs c) = cn_FrameSize c"
  "reader_state (wrote fs c) = reader_state c"
  "incoming (wrote fs c) = incoming c"
  "registry (wrote fs c) = registry c"
  "events (wrote fs c) = events c @ map Wrote fs"
  by (simp_all add: wrote_def sound_socket_def)

lemma writable_body [simp]: "writable (body_frame i b)"
  by (simp add: writable_def body_frame_def bodyFrame_write_def writeFrame_eq)

section \<open>Splitting the body\<close>

function chunks :: "nat \<Rightarrow> bytes \<Rightarrow> bytes list" where
  "chunks n b = (if n = 0 \<or> b = [] then [] else take n b # chunks n (drop n b))"
  by pat_completeness auto
termination by (relation "measure (\<lambda>(n, b). length b)") auto

declare chunks.simps [simp del]

lemma chunks_Nil [simp]: "chunks n [] = []"
  by (simp add: chunks.simps)

lemma chunks_step: "0 < n \<Longrightarrow> b \<noteq> [] \<Longrightarrow> chunks n b = take n b # chunks n (drop n b)"
  by (subst chunks.simps) simp

lemma concat_chunks: "0 < n \<Longrightarrow> concat (chunks n b) = b"
proof (induction n b rule: chunks.induct)
  case (1 n b)
  then show ?case by (cases "b = []") (simp_all add: chunks_step)
qed

lemma chunks_sizes: "x \<in> set (chunks n b) \<Longrightarrow> x \<noteq> [] \<and> length x \<le> n"
proof (induction n b rule: chunks.induct)
  case (1 n b)
  show ?case
  proof (cases "n = 0 \<or> b = []")
    case True
    then have "chunks n b = []" by (subst chunks.simps) simp
    with 1 show ?thesis by simp
  next
    case False
    with 1 show ?thesis by (auto simp: chunks_step)
  qed
qed

text \<open>With room for a byte, the loop over the body writes its chunks.\<close>

lemma send_body_chunks:
  assumes "0 < sz" and "0 \<le> i" and "sound_socket c"
  shows "send_body ch sz body i (i + sz) c =
    ret None (wrote (map (body_frame ch) (chunks (nat sz) (drop (nat i) body))) c)"
  using assms
proof (induction "nat (int (length body) - i)" arbitrary: i c rule: less_induct)
  case less
  show ?case
  proof (cases "i < int (length body)")
    case False
    then show ?thesis by (subst send_body.simps) simp
  next
    case True
    define j where "j = (if int (length body) < i + sz then int (length body) else i + sz)"
    let ?b = "drop (nat i) body"
    have ij: "i < j" "j \<le> int (length body)" "j \<le> i + sz" using True less.prems by (auto simp: j_def)
    have head: "take (nat (j - i)) ?b = take (nat sz) ?b" and rest: "drop (nat sz + nat i) body = drop (nat j) body"
      using ij less.prems unfolding j_def by (auto simp: nat_diff_distrib nat_add_distrib add.commute)
    have ne: "?b \<noteq> []" using True less.prems by simp
    let ?c1 = "wrote [body_frame ch (take (nat sz) ?b)] c"
    have "send_body ch sz body i (i + sz) c = send_body ch sz body j (j + sz) ?c1"
      using True ij head less.prems by (subst send_body.simps) (simp add: j_def[symmetric] conn_send_writable)
    also have "\<dots> = ret None (wrote (map (body_frame ch) (chunks (nat sz) (drop (nat j) body))) ?c1)"
      using ij less.prems by (intro less.hyps) auto
    finally show ?thesis using ne less.prems by (simp add: chunks_step rest)
  qed
qed

section \<open>What is written\<close>

definition content_frames :: "16 word \<Rightarrow> int \<Rightarrow> message \<Rightarrow> properties \<Rightarrow> bytes \<Rightarrow> frame list" where
  "content_frames i sz m ps b =
     method_frame i m # header_frame i m ps b # map (body_frame i) (chunks (nat sz) b)"

lemma sendOpen_content:
  assumes "get_content m = Some (ps, b)" and "sound_socket c" and "frameHeaderSize < cn_FrameSize c"
    and "writable (method_frame (ch_id (channels c p)) m)"
    and "writable (header_frame (ch_id (channels c p)) m ps b)"
  shows "sendOpen p m c =
    ret None (wrote (content_frames (ch_id (channels c p)) (cn_FrameSize c - frameHeaderSize) m ps b) c)"
proof -
  define sz where "sz = cn_FrameSize c - frameHeaderSize"
  have "0 < sz" using assms(3) by (simp add: sz_def)
  note body = send_body_chunks[OF this, of 0, simplified]
  show ?thesis
    using assms(1,2,4,5)
    by (simp add: sendOpen_def Let_def conn_send_writable body content_frames_def flip: sz_def)
qed

section \<open>Putting it together again\<close>

lemma set_channel_simps [simp]:
  "channels (set_channel p f c) p = f (channels c p)"
  "q \<noteq> p \<Longrightarrow> channels (set_channel p f c) q = channels c q"
  "set_channel p f (set_channel p g c) = set_channel p (\<lambda>ch. f (g ch)) c"
  "events (set_channel p f c) = events c"
  "reader_state (set_channel p f c) = reader_state c"
  "registry (set_channel p f c) = registry c"
  "incoming (set_channel p f c) = incoming c"
  "cn_FrameSize (set_channel p f c) = cn_FrameSize c"
  "sound_socket (set_channel p f c) = sound_socket c"
  "set_channel p (\<lambda>ch. ch) c = c"
  by (simp_all add: set_channel_def sound_socket_def)

lemma for_each_Nil [simp]: "for_each f [] = ret ()"
  by (rule ext) simp

lemma for_each_append:
  "for_each f (xs @ ys) c = and_then (for_each f xs c) (\<lambda>_. for_each f ys)"
proof (induction xs arbitrary: c)
  case (Cons x xs)
  then have "for_each f (xs @ ys) = (\<lambda>c. and_then (for_each f xs c) (\<lambda>_. for_each f ys))"
    by (rule ext)
  then show ?case by (simp add: and_then_assoc)
qed simp

lemma word_of_nat_le:
  "n < 2 ^ 64 \<Longrightarrow> k < 2 ^ 64 \<Longrightarrow> (word_of_nat n :: 64 word) \<le> word_of_nat k \<longleftrightarrow> n \<le> k"
  by (simp add: word_of_nat_less_eq_iff take_bit_nat_eq_self)

text \<open>What the assembly changes in a channel; updates of the receiver come last.\<close>

lemma receiver_last [simp]:
  "ch\<lparr>ch_recv := r, ch_body := b\<rparr> = ch\<lparr>ch_body := b, ch_recv := r\<rparr>"
  "ch\<lparr>ch_recv := r, ch_message := m\<rparr> = ch\<lparr>ch_message := m, ch_recv := r\<rparr>"
  "ch\<lparr>ch_recv := r, ch_header := h\<rparr> = ch\<lparr>ch_header := h, ch_recv := r\<rparr>"
  "ch\<lparr>ch_body := b, ch_message := m\<rparr> = ch\<lparr>ch_message := m, ch_body := b\<rparr>"
  "ch\<lparr>ch_header := h, ch_message := m\<rparr> = ch\<lparr>ch_message := m, ch_header := h\<rparr>"
  "ch\<lparr>ch_body := b, ch_header := h\<rparr> = ch\<lparr>ch_header := h, ch_body := b\<rparr>"
  by (cases ch, simp)+

definition assembling ::
    "receiver \<Rightarrow> message \<Rightarrow> headerFrame \<Rightarrow> bytes \<Rightarrow> channel \<Rightarrow> channel" where
  "assembling r m h b ch =
     ch\<lparr>ch_message := Some m, ch_header := Some h, ch_body := b, ch_recv := r\<rparr>"

lemma content_collected:
  assumes "bs \<noteq> []" and "\<forall>x\<in>set bs. x \<noteq> []" and "length (b0 @ concat bs) < 2 ^ 64"
    and "hf_Size h = word_of_nat (length (b0 @ concat bs))"
  shows "for_each (ch_receive q) (map (body_frame i) bs) (set_channel q (assembling Recv_Content m h b0) d) =
    complete_content q (hf_Properties h) (b0 @ concat bs)
      (set_channel q (assembling Recv_Content m h (b0 @ concat bs)) d)"
  using assms
proof (induction bs arbitrary: b0)
  case (Cons x bs)
  let ?n = "length (b0 @ concat (x # bs))" and ?k = "length (b0 @ x)"
  have small: "(word_of_nat ?n :: 64 word) \<le> word_of_nat ?k \<longleftrightarrow> ?n \<le> ?k"
    using Cons.prems(3) by (intro word_of_nat_le) simp_all
  have step: "ch_receive q (body_frame i x) (set_channel q (assembling Recv_Content m h b0) d) =
      (if hf_Size h \<le> word_of_nat ?k
       then complete_content q (hf_Properties h) (b0 @ x) (set_channel q (assembling Recv_Content m h (b0 @ x)) d)
       else ret () (set_channel q (assembling Recv_Content m h (b0 @ x)) d))"
    by (simp add: ch_receive_def recvContent_def body_frame_def transition_def assembling_def[abs_def] Let_def)
  show ?case
  proof (cases "bs = []")
    case True
    with step Cons.prems(4) show ?thesis by (simp)
  next
    case False
    then obtain y ys where "bs = y # ys" by (cases bs) auto
    with Cons.prems(2) have "?k < ?n" by simp
    then have "\<not> hf_Size h \<le> word_of_nat ?k" using small Cons.prems(4) by simp
    moreover have "for_each (ch_receive q) (map (body_frame i) bs)
        (set_channel q (assembling Recv_Content m h (b0 @ x)) d) =
      complete_content q (hf_Properties h) ((b0 @ x) @ concat bs)
        (set_channel q (assembling Recv_Content m h ((b0 @ x) @ concat bs)) d)"
      using Cons.prems False by (intro Cons.IH) auto
    ultimately show ?thesis using step by simp
  qed
qed simp

section \<open>Across the wire\<close>

text \<open>A method is written without its content; the frame that is read carries the ids of the method.\<close>

definition without_content :: "message \<Rightarrow> message" where
  "without_content m = set_content zero_properties [] m"

definition read_method :: "16 word \<Rightarrow> message \<Rightarrow> frame" where
  "read_method i m =
     Method_Frame \<lparr>mf_ChannelId = i, mf_ClassId = fst (message_id m), mf_MethodId = snd (message_id m),
       mf_Method = Some (without_content m)\<rparr>"

definition read_content :: "16 word \<Rightarrow> int \<Rightarrow> message \<Rightarrow> properties \<Rightarrow> bytes \<Rightarrow> frame list" where
  "read_content i sz m ps b =
     read_method i m # header_frame i m ps b # map (body_frame i) (chunks (nat sz) b)"

lemmas content_defs = basicPublish_setContent_def basicReturn_setContent_def basicDeliver_setContent_def
  basicGetOk_setContent_def basicPublish_getContent_def basicReturn_getContent_def
  basicDeliver_getContent_def basicGetOk_getContent_def

lemma content_cases:
  assumes "get_content m = Some (ps, b)"
  obtains (publish) x where "m = Basic_Message (BasicPublish x)"
  | (return) x where "m = Basic_Message (BasicReturn x)"
  | (deliver) x where "m = Basic_Message (BasicDeliver x)"
  | (get_ok) x where "m = Basic_Message (BasicGetOk x)"
  using assms by (cases m rule: get_content.cases) auto

lemma content_restored:
  assumes "get_content m = Some (ps, b)"
  shows "set_content ps b (without_content m) = m" and "get_content (without_content m) \<noteq> None"
    and "message_id (without_content m) = message_id m"
    and "message_write (without_content m) = message_write m"
  using assms
  by (cases rule: content_cases[OF assms]; auto simp: without_content_def content_defs
      basicPublish_write_def basicReturn_write_def basicDeliver_write_def basicGetOk_write_def
      basicPublish_id_def basicReturn_id_def basicDeliver_id_def basicGetOk_id_def)+

lemma header_frame_Size [simp]:
  "length b < 2 ^ 64 \<Longrightarrow> (word_of_nat (length b) :: 64 word) = 0 \<longleftrightarrow> b = []"
  by (auto simp: word_of_nat_eq_0_iff dest: dvd_imp_le)

lemma content_assembled:
  assumes m: "get_content m = Some (ps, b)" and len: "length b < 2 ^ 64" and "0 < sz"
    and "ch_recv (channels d q) = Recv_Method"
  shows "\<exists>r h. for_each (ch_receive q) (read_content i sz m ps b) d =
    and_then (ch_dispatch q (Some m) (set_channel q (assembling r m h b) d)) (\<lambda>_. transition q Recv_Method)"
proof -
  let ?m0 = "without_content m"
  define h where "h = \<lparr>hf_ChannelId = i, hf_ClassId = fst (message_id m), hf_weight = 0,
       hf_Size = word_of_nat (length b), hf_Properties = ps\<rparr>"
  note [simp] = content_restored[OF m]
  define d1 where "d1 = set_channel q (\<lambda>ch. ch\<lparr>ch_message := Some ?m0, ch_body := [], ch_recv := Recv_Header\<rparr>) d"
  have 1: "ch_receive q (read_method i m) d = ret () d1"
    using assms(4) by (simp add: ch_receive_def read_method_def recvMethod_def transition_def d1_def)
  have complete: "complete_content q ps b (set_channel q (assembling r ?m0 h b) d) =
      and_then (ch_dispatch q (Some m) (set_channel q (assembling r m h b) d)) (\<lambda>_. transition q Recv_Method)" for r
    by (simp add: complete_content_def assembling_def[abs_def])
  show ?thesis
  proof (cases "b = []")
    case True
    then have "ch_receive q (header_frame i m ps b) d1 =
        complete_content q ps b (set_channel q (assembling Recv_Header ?m0 h b) d)"
      by (simp add: ch_receive_def recvHeader_def header_frame_def d1_def assembling_def[abs_def] h_def)
    with 1 complete True have "for_each (ch_receive q) (read_content i sz m ps b) d =
        and_then (ch_dispatch q (Some m) (set_channel q (assembling Recv_Header m h b) d)) (\<lambda>_. transition q Recv_Method)"
      by (simp add: read_content_def)
    then show ?thesis by blast
  next
    case False
    then have 2: "ch_receive q (header_frame i m ps b) d1 =
        ret () (set_channel q (assembling Recv_Content ?m0 h []) d)"
      using len by (simp add: ch_receive_def recvHeader_def header_frame_def d1_def assembling_def[abs_def]
          h_def transition_def)
    have c: "concat (chunks (nat sz) b) = b" using assms(3) by (simp add: concat_chunks)
    then have "chunks (nat sz) b \<noteq> []" using False by auto
    then have "for_each (ch_receive q) (map (body_frame i) (chunks (nat sz) b))
        (set_channel q (assembling Recv_Content ?m0 h []) d) =
      complete_content q ps b (set_channel q (assembling Recv_Content ?m0 h b) d)"
      using content_collected[of "chunks (nat sz) b" "[]" h q i ?m0 d] chunks_sizes len c
      by (auto simp: h_def)
    with 1 2 complete have "for_each (ch_receive q) (read_content i sz m ps b) d =
        and_then (ch_dispatch q (Some m) (set_channel q (assembling Recv_Content m h b) d)) (\<lambda>_. transition q Recv_Method)"
      by (simp add: read_content_def)
    then show ?thesis by blast
  qed
qed

text \<open>Reading frame after frame.\<close>

fun reads :: "frame list \<Rightarrow> bytes \<Rightarrow> bool" where
  "reads [] bs = (bs = [])"
| "reads (f # fs) bs = (case ReadFrame bs of Ok g rest \<Rightarrow> g = f \<and> reads fs rest | _ \<Rightarrow> False)"

fun write_frames :: "frame list \<Rightarrow> wr" where
  "write_frames [] = Inr []"
| "write_frames (f # fs) = wseq (frame_write f) (write_frames fs)"

lemma written_frames_read:
  assumes "list_all frame_fits fs"
  shows "\<exists>bs. write_frames fs = Inr bs \<and> reads fs bs"
  using assms
proof (induction fs)
  case (Cons f fs)
  then obtain bs where "write_frames fs = Inr bs" "reads fs bs" by auto
  moreover obtain x where "frame_write f = Inr x" "\<forall>rest. ReadFrame (x @ rest) = Ok f rest"
    using Cons.prems frame.round[of f] by auto
  ultimately show ?case by simp
qed simp

text \<open>What fits the wire: the method, its properties, and frames of less than \<open>2\<^sup>3\<^sup>2\<close> bytes.\<close>

definition content_fits :: "message \<Rightarrow> properties \<Rightarrow> bytes \<Rightarrow> int \<Rightarrow> bool" where
  "content_fits m ps b sz \<longleftrightarrow>
     get_content m = Some (ps, b) \<and> message_fits (without_content m) \<and> properties_fits ps \<and>
     length b < 2 ^ 64 \<and> 0 < sz \<and> sz < 2 ^ 32"

lemma read_content_fits:
  assumes "content_fits m ps b sz"
  shows "list_all frame_fits (read_content i sz m ps b)"
proof -
  have "length x < 2 ^ 32" if "x \<in> set (chunks (nat sz) b)" for x
    using chunks_sizes[OF that] assms by (simp add: content_fits_def le_nat_iff)
  moreover have "message_id (without_content m) = message_id m"
    using assms content_restored(3) by (simp add: content_fits_def)
  ultimately show ?thesis
    using assms
    by (simp add: content_fits_def read_content_def read_method_def header_frame_def body_frame_def list_all_iff)
qed

lemma method_frame_write:
  "get_content m = Some (ps, b) \<Longrightarrow> frame_write (method_frame i m) = frame_write (read_method i m)"
  using content_restored[of m ps b]
  by (simp add: method_frame_def read_method_def methodFrame_write_def split_beta)

lemma write_content:
  "get_content m = Some (ps, b) \<Longrightarrow> write_frames (content_frames i sz m ps b) = write_frames (read_content i sz m ps b)"
  by (simp add: content_frames_def read_content_def method_frame_write)

lemma writable_fits: "frame_fits f \<Longrightarrow> writable f"
  using frame.round[of f] by (auto simp: writable_def)

lemma ch_send_content:
  assumes "content_fits m ps b (cn_FrameSize c - frameHeaderSize)" and "ch_open (channels c p)" and "sound_socket c"
  shows "ch_send p m c =
    ret None (wrote (content_frames (ch_id (channels c p)) (cn_FrameSize c - frameHeaderSize) m ps b) c)"
proof -
  let ?i = "ch_id (channels c p)"
  have m: "get_content m = Some (ps, b)" using assms(1) by (simp add: content_fits_def)
  have "writable (read_method ?i m)" "writable (header_frame ?i m ps b)"
    using read_content_fits[OF assms(1), of ?i] by (auto simp: read_content_def intro: writable_fits)
  then show ?thesis
    using sendOpen_content[OF m assms(3)] method_frame_write[OF m, of ?i] assms
    by (simp add: ch_send_def content_fits_def writable_def)
qed

text \<open>C22: a method with content goes out as a method frame, a header and the body in pieces; the
  bytes written are read as frames again, and a channel that receives them dispatches the very
  method that was sent, with its properties and its body, and is ready for the next.\<close>

theorem content_over_wire:
  assumes "content_fits m ps b (cn_FrameSize c - frameHeaderSize)"
    and "ch_open (channels c p)" and "sound_socket c" and "ch_recv (channels d q) = Recv_Method"
  shows "\<exists>fs bs gs r h. ch_send p m c = ret None (wrote fs c) \<and> write_frames fs = Inr bs \<and> reads gs bs \<and>
    for_each (ch_receive q) gs d =
      and_then (ch_dispatch q (Some m) (set_channel q (assembling r m h b) d)) (\<lambda>_. transition q Recv_Method)"
proof -
  let ?i = "ch_id (channels c p)" and ?sz = "cn_FrameSize c - frameHeaderSize"
  have fits: "get_content m = Some (ps, b)" "length b < 2 ^ 64" "0 < ?sz"
    using assms(1) by (simp_all add: content_fits_def)
  obtain bs where "write_frames (read_content ?i ?sz m ps b) = Inr bs" "reads (read_content ?i ?sz m ps b) bs"
    using written_frames_read[OF read_content_fits[OF assms(1), of ?i]] by blast
  with ch_send_content[OF assms(1-3)] content_assembled[OF fits assms(4), of ?i] write_content[OF fits(1), of ?i ?sz]
  show ?thesis by (metis (no_types, lifting))
qed


section \<open>An example\<close>

definition sample_publish :: message where
  "sample_publish = Basic_Message (BasicPublish (basicPublish_zero
     \<lparr>basicPublish_RoutingKey := ascii ''jobs'', basicPublish_Body := [1, 2, 3]\<rparr>))"

definition sample_connection :: "int \<Rightarrow> connection" where
  "sample_connection sz =
     (new_connection [] (\<lambda>_. None))\<lparr>cn_FrameSize := sz, channels := (\<lambda>_. newChannel 1)\<rparr>"

lemma sample_content: "get_content sample_publish = Some (zero_properties, [1, 2, 3])"
  by (simp add: sample_publish_def basicPublish_getContent_def basicPublish_zero_def)

lemma sample_fits: "0 < sz \<Longrightarrow> sz < 2 ^ 32 \<Longrightarrow> content_fits sample_publish zero_properties [1, 2, 3] sz"
  using sample_content
  by (simp add: content_fits_def without_content_def sample_publish_def basicPublish_setContent_def
      basicPublish_zero_def basicPublish_fits_def properties_fits_def zero_properties_def ascii_def
      ok_table_def)

lemma sample_connection_simps [simp]:
  "channels (sample_connection sz) p = newChannel 1"
  "cn_FrameSize (sample_connection sz) = sz"
  "sound_socket (sample_connection sz)"
  "reader_state (sample_connection sz) = Reading"
  "events (sample_connection sz) = []"
  "ch_open (newChannel i)" "ch_id (newChannel i) = i" "ch_recv (newChannel i) = Recv_Method"
  by (simp_all add: sample_connection_def new_connection_def sound_socket_def newChannel_def)

theorem content_over_wire_witness:
  "\<exists>fs bs gs r h. ch_send 0 sample_publish (sample_connection 4096) = ret None (wrote fs (sample_connection 4096)) \<and>
    write_frames fs = Inr bs \<and> reads gs bs \<and>
    for_each (ch_receive 0) gs (sample_connection 9) =
      and_then (ch_dispatch 0 (Some sample_publish)
        (set_channel 0 (assembling r sample_publish h [1, 2, 3]) (sample_connection 9)))
        (\<lambda>_. transition 0 Recv_Method)"
  using content_over_wire[of sample_publish zero_properties "[1, 2, 3]" "sample_connection 4096" 0 "sample_connection 9" 0]
  by (simp add: sample_fits frameHeaderSize_def)

end
