(* ===== verification/Amqp_Limits.thy ===== *)
theory Amqp_Limits
  imports Amqp_Content
begin

text \<open>
  Limits of the AMQP client: the frames of a content against the frame size that was negotiated,
  also when there is no room for a body; the negotiation itself; and the ids of channels.
\<close>

section \<open>The size of frames\<close>

lemma conn_send_unwritable:
  "\<not> writable f \<Longrightarrow> \<exists>e. conn_send f c = (Some (Write_Error e), c\<lparr>failures := failures c @ [Write_Error e]\<rparr>)"
  by (auto simp: conn_send_def writable_def split: sum.splits)

text \<open>A method or a header that cannot be written leaves no body frame.\<close>

lemma sendOpen_unwritable:
  assumes "get_content m = Some (ps, b)" and "sound_socket c" and "sendOpen p m c = ret e c'"
    and "\<not> (writable (method_frame (ch_id (channels c p)) m) \<and>
      writable (header_frame (ch_id (channels c p)) m ps b))"
  shows "events c' = events c \<or> events c' = events c @ [Wrote (method_frame (ch_id (channels c p)) m)]"
proof (cases "writable (method_frame (ch_id (channels c p)) m)")
  case False
  with assms(1,3) conn_send_unwritable[of "method_frame (ch_id (channels c p)) m" c] show ?thesis
    by (auto simp: sendOpen_def Let_def)
next
  case True
  with assms conn_send_unwritable[of "header_frame (ch_id (channels c p)) m ps b"
      "wrote [method_frame (ch_id (channels c p)) m] c"] show ?thesis
    by (auto simp: sendOpen_def Let_def conn_send_writable)
qed

text \<open>C26: with a frame size of more than eight bytes, no body frame that a method with content is
  split into is larger than the frame size, and there is none without a byte of the body.\<close>

theorem body_frames_within_limit:
  assumes "get_content m = Some (ps, b)" and "sound_socket c" and "8 < cn_FrameSize c"
    and "ch_open (channels c p)" and "ch_send p m c = ret None c'"
    and "Wrote (Body_Frame f) \<in> set (drop (length (events c)) (events c'))"
  shows "bf_Body f \<noteq> [] \<and> (\<exists>bs. bodyFrame_write f = Inr bs \<and> int (length bs) \<le> cn_FrameSize c)"
proof -
  let ?i = "ch_id (channels c p)" and ?sz = "cn_FrameSize c - frameHeaderSize"
  have "writable (method_frame ?i m) \<and> writable (header_frame ?i m ps b)"
  proof (rule ccontr)
    assume bad: "\<not> ?thesis"
    have "sendOpen p m c = ret None c'" using assms(4,5) by (simp add: ch_send_def)
    from sendOpen_unwritable[OF assms(1,2) this bad] assms(6) show False
      by (auto simp: method_frame_def)
  qed
  then have w: "writable (method_frame ?i m)" "writable (header_frame ?i m ps b)" by simp_all
  have "ch_send p m c = ret None (wrote (content_frames ?i ?sz m ps b) c)"
    using sendOpen_content[OF assms(1,2) _ w] assms(3,4) by (simp add: ch_send_def frameHeaderSize_def)
  with assms(5) have "c' = wrote (content_frames ?i ?sz m ps b) c" by (metis ret_inject)
  then have "events c' = events c @ map Wrote (content_frames ?i ?sz m ps b)" by simp
  with assms(6) have "Body_Frame f \<in> set (content_frames ?i ?sz m ps b)" by auto
  then obtain x where x: "f = \<lparr>bf_ChannelId = ?i, bf_Body = x\<rparr>" "x \<in> set (chunks (nat ?sz) b)"
    by (auto simp: content_frames_def method_frame_def header_frame_def body_frame_def)
  then show ?thesis
    using chunks_sizes[OF x(2)] assms(3)
    by (auto simp: bodyFrame_write_def writeFrame_eq be_encode_2 be_encode_4 frameHeaderSize_def)
qed

section \<open>No room for a body\<close>

lemma send_body_forever:
  assumes "sound_socket c" and "body \<noteq> []"
  shows "send_body ch 0 body 0 0 c = None"
proof (rule ccontr)
  assume "send_body ch 0 body 0 0 c \<noteq> None"
  then obtain y where "send_body ch 0 body 0 0 c = Some y" by blast
  moreover have "\<not> (sz = 0 \<and> i = 0 \<and> j = 0 \<and> b \<noteq> [] \<and> sound_socket d)"
    if "send_body h sz b i j d = Some y" for h sz b i j d y
  proof (rule send_body.raw_induct[where P = "\<lambda>h sz b i j d y.
      \<not> (sz = 0 \<and> i = 0 \<and> j = 0 \<and> b \<noteq> [] \<and> sound_socket d)", OF _ that], rule notI)
    fix f h sz b i j d y
    assume IH: "\<And>h sz b i j d y. f h sz b i j d = Some y \<Longrightarrow>
        \<not> (sz = 0 \<and> i = 0 \<and> j = 0 \<and> b \<noteq> [] \<and> sound_socket d)"
      and step: "(if i < int (length b)
          then if (if int (length b) < j then int (length b) else j) < i then panics SliceBoundsOutOfRange
          else case conn_send (body_frame h (take (nat ((if int (length b) < j then int (length b) else j) - i))
              (drop (nat i) b))) d of
              (None, c1) \<Rightarrow> f h sz b (if int (length b) < j then int (length b) else j)
                ((if int (length b) < j then int (length b) else j) + sz) c1
            | (Some e, c1) \<Rightarrow> ret (Some e) c1
          else ret None d) = Some y"
      and a: "sz = 0 \<and> i = 0 \<and> j = 0 \<and> b \<noteq> [] \<and> sound_socket d"
    from a step have "f h 0 b 0 0 (wrote [body_frame h []] d) = Some y"
      by (simp add: conn_send_writable)
    from IH[OF this] a show False by simp
  qed
  ultimately show False using assms by blast
qed

text \<open> a frame size of less than eight bytes, also the zero that stands for no limit, makes every
  send of a body panic; one of exactly eight bytes makes it write empty frames for ever.\<close>

theorem no_room_for_body:
  assumes "content_fits m ps b 1" and "b \<noteq> []" and "sound_socket c" and "ch_open (channels c p)"
  shows "(cn_FrameSize c < 8 \<longrightarrow> ch_send p m c = panics SliceBoundsOutOfRange) \<and>
    (cn_FrameSize c = 8 \<longrightarrow> ch_send p m c = None)"
proof -
  let ?i = "ch_id (channels c p)"
  have m: "get_content m = Some (ps, b)" using assms(1) by (simp add: content_fits_def)
  have "writable (read_method ?i m)" "writable (header_frame ?i m ps b)"
    using read_content_fits[OF assms(1), of ?i] by (auto simp: read_content_def intro: writable_fits)
  then have "writable (method_frame ?i m)" "writable (header_frame ?i m ps b)"
    using method_frame_write[OF m] by (simp_all add: writable_def)
  then have "ch_send p m c = send_body ?i (cn_FrameSize c - 8) b 0 (cn_FrameSize c - 8)
      (wrote [method_frame ?i m, header_frame ?i m ps b] c)"
    using m assms(3,4) by (simp add: ch_send_def sendOpen_def Let_def conn_send_writable frameHeaderSize_def)
  moreover have "send_body ?i sz b 0 sz d = panics SliceBoundsOutOfRange" if "sz < 0" for sz d
    using that assms(2) by (subst send_body.simps) simp
  ultimately show ?thesis using send_body_forever[of _ b] assms(2,3) by simp
qed

section \<open>Negotiation\<close>

text \<open> what is negotiated is the smaller of the two limits, where zero is no limit.\<close>

theorem pick_limit:
  assumes "0 \<le> client" and "0 \<le> server"
  shows "pick client server =
      (if client = 0 then server else if server = 0 then client else min client server)"
  using assms by (auto simp: pick_def)

theorem pick_limit_witness: "pick 0 131072 = 131072 \<and> pick 4096 131072 = 4096"
  using pick_limit[of 0 131072] pick_limit[of 4096 131072] by simp

section \<open>Channel ids\<close>

fun channel_ids :: "nat \<Rightarrow> connection \<Rightarrow> (16 word) list" where
  "channel_ids 0 c = []"
| "channel_ids (Suc n) c = (let (i, c1) = registry_next c in i # channel_ids n c1)"

lemma channel_ids_eq: "channel_ids n c = map (\<lambda>k. sequence c + word_of_nat (Suc k)) [0..<n]"
proof (induction n arbitrary: c)
  case (Suc n)
  have "channel_ids (Suc n) c = (sequence c + 1) # map (\<lambda>k. sequence c + 1 + word_of_nat (Suc k)) [0..<n]"
    by (simp add: registry_next_def Suc)
  also have "\<dots> = map (\<lambda>k. sequence c + word_of_nat (Suc k)) (0 # map Suc [0..<n])"
    by (simp add: add.assoc)
  also have "0 # map Suc [0..<n] = [0..<Suc n]"
    by (metis map_Suc_upt upt_conv_Cons zero_less_Suc)
  finally show ?case .
qed simp

text \<open>The channel after that: its frames are the connection's own, so its reply is never found.\<close>

definition opened :: "16 word \<Rightarrow> frame" where
  "opened i = method_frame i (Channel_Message (ChannelOpenOk channelOpenOk_zero))"

lemma channelOpen_writable: "writable (method_frame i (Channel_Message (ChannelOpen channelOpen_zero)))"
  by (simp add: writable_def method_frame_def methodFrame_write_def channelOpen_zero_def channelOpen_id_def
      channelOpen_write_def write_u16_def writeFrame_eq with_payload_def writeShortstr_def write_u8_def)



section \<open>The limits at concrete inputs\<close>

lemma sample_chunks: "chunks (Suc 0) [1, 2, 3] = [[1], [2], [3 :: 8 word]]"
  by (simp add: chunks.simps)

lemma sample_written:
  "ch_send p sample_publish (sample_connection 9) =
    ret None (wrote (content_frames 1 1 sample_publish zero_properties [1, 2, 3]) (sample_connection 9))"
proof -
  have "writable (read_method 1 sample_publish)" "writable (header_frame 1 sample_publish zero_properties [1, 2, 3])"
    using read_content_fits[OF sample_fits[of 1], of 1] by (auto simp: read_content_def intro: writable_fits)
  then show ?thesis
    using sendOpen_content[OF sample_content, of "sample_connection 9" p] method_frame_write[OF sample_content]
    by (simp add: ch_send_def frameHeaderSize_def writable_def)
qed

theorem body_frames_within_limit_witness:
  "bf_Body \<lparr>bf_ChannelId = 1, bf_Body = [2]\<rparr> \<noteq> [] \<and>
    (\<exists>bs. bodyFrame_write \<lparr>bf_ChannelId = 1, bf_Body = [2]\<rparr> = Inr bs \<and> int (length bs) \<le> 9)"
  using body_frames_within_limit[OF sample_content, of "sample_connection 9" 0, OF _ _ _ sample_written,
      of "\<lparr>bf_ChannelId = 1, bf_Body = [2]\<rparr>"]
  by (simp add: content_frames_def sample_chunks body_frame_def)

theorem no_room_for_body_witness:
  "ch_send 0 sample_publish (sample_connection 0) = panics SliceBoundsOutOfRange \<and>
    ch_send 0 sample_publish (sample_connection 8) = None"
  using no_room_for_body[OF sample_fits[of 1], of "sample_connection 0" 0]
    no_room_for_body[OF sample_fits[of 1], of "sample_connection 8" 0]
  by simp


end
