(* ===== verification/Amqp_Confirms.thy ===== *)
theory Amqp_Confirms
  imports Amqp_Content
begin

text \<open>
  Confirmations of publishings in the AMQP client: the tags that wait for one are a priority queue,
  and a channel in confirm mode is refined from an abstract one that keeps a counter and the set of
  the tags that wait.
\<close>

section \<open>A priority queue\<close>

text \<open>What \<open>confimOne\<close> and \<open>confimMultiple\<close> rely on: the contract of \<open>container/heap\<close>.\<close>

locale tag_queue =
  fixes push :: "'a::linorder \<Rightarrow> 'q \<Rightarrow> 'q"
    and pop :: "'q \<Rightarrow> ('a \<times> 'q) outcome"
    and tags :: "'q \<Rightarrow> 'a multiset"
    and wf :: "'q \<Rightarrow> bool"
  assumes push_wf: "wf q \<Longrightarrow> wf (push x q)"
    and push_tags: "wf q \<Longrightarrow> tags (push x q) = add_mset x (tags q)"
    and pop_empty: "wf q \<Longrightarrow> tags q = {#} \<Longrightarrow> pop q = Panic IndexOutOfRange"
    and pop_least: "wf q \<Longrightarrow> tags q \<noteq> {#} \<Longrightarrow>
      \<exists>x q'. pop q = Ret (x, q') \<and> wf q' \<and> tags q = add_mset x (tags q') \<and> (\<forall>y\<in>#tags q. x \<le> y)"
begin

lemma push_all: "wf q \<Longrightarrow> wf (fold push xs q) \<and> tags (fold push xs q) = tags q + mset xs"
  by (induction xs arbitrary: q) (simp_all add: push_wf push_tags)

lemma pop_member:
  assumes "wf q" and "t \<in># tags q"
  obtains x q' where "pop q = Ret (x, q')" "wf q'" "tags q = add_mset x (tags q')" "x \<le> t"
    "x \<noteq> t \<Longrightarrow> t \<in># tags q'"
proof -
  have "tags q \<noteq> {#}" using assms(2) by auto
  from pop_least[OF assms(1) this] obtain x q' where q': "pop q = Ret (x, q')" "wf q'"
    "tags q = add_mset x (tags q')" "\<forall>y\<in>#tags q. x \<le> y" by blast
  with assms(2) show thesis by (intro that[of x q']) auto
qed

lemma pop_other:
  assumes "wf q" and "t \<notin># tags q" and "pop q = Ret (x, q')"
  shows "wf q'" and "t \<notin># tags q'" and "x \<noteq> t"
proof -
  have "tags q \<noteq> {#}" using pop_empty[OF assms(1)] assms(3) by auto
  from pop_least[OF assms(1) this] assms(2,3) show "wf q'" "t \<notin># tags q'" "x \<noteq> t" by auto
qed

end

interpretation heap: tag_queue heap_Push heap_Pop mset is_heap
proof
  fix h :: "'a::linorder list" and x
  assume h: "is_heap h"
  show "is_heap (heap_Push x h)" "mset (heap_Push x h) = add_mset x (mset h)"
    by (fact heap_Push_queue[OF h])+
  show "heap_Pop h = Panic IndexOutOfRange" if "mset h = {#}" using that by simp
  show "\<exists>x q'. heap_Pop h = Ret (x, q') \<and> is_heap q' \<and> mset h = add_mset x (mset q') \<and> (\<forall>y\<in>#mset h. x \<le> y)"
    if "mset h \<noteq> {#}"
    using heap_Pop_queue[OF h] that by (metis mset_zero_iff set_mset_mset)
qed

section \<open>The loops\<close>

lemma pop_until_member:
  "is_heap h \<Longrightarrow> tag \<in> set h \<Longrightarrow>
    \<exists>unacked h1. pop_until tag h = Ret (unacked, h1) \<and> is_heap h1 \<and> mset h = add_mset tag (mset unacked + mset h1)"
proof (induction tag h rule: pop_until.induct)
  case (1 tag h)
  then have "tag \<in># mset h" by simp
  then obtain x h1 where x: "heap_Pop h = Ret (x, h1)" "is_heap h1" "mset h = add_mset x (mset h1)"
    "x \<le> tag" "x \<noteq> tag \<Longrightarrow> tag \<in># mset h1"
    using heap.pop_member[OF 1(2)] by metis
  show ?case
  proof (cases "x = tag")
    case True
    with x show ?thesis by (subst pop_until.simps) simp
  next
    case False
    then obtain un h2 where "pop_until tag h1 = Ret (un, h2)" "is_heap h2"
      "mset h1 = add_mset tag (mset un + mset h2)"
      using 1(1)[OF x(1) refl False x(2)] x(5) by auto
    with x False show ?thesis by (subst pop_until.simps) simp
  qed
qed

lemma pop_until_unknown: "is_heap h \<Longrightarrow> tag \<notin> set h \<Longrightarrow> pop_until tag h = Panic IndexOutOfRange"
proof (induction tag h rule: pop_until.induct)
  case (1 tag h)
  show ?case
  proof (cases "h = []")
    case True
    then show ?thesis by (subst pop_until.simps) simp
  next
    case False
    then obtain x h1 where x: "heap_Pop h = Ret (x, h1)" using heap_Pop_queue[OF 1(2)] by metis
    with heap.pop_other[OF 1(2) _ x, of tag] 1 have "pop_until tag h1 = Panic IndexOutOfRange" "x \<noteq> tag"
      by simp_all
    with x show ?thesis by (subst pop_until.simps) simp
  qed
qed


text \<open>What the listeners are sent for tags that are confirmed, when none of them is closed.\<close>

definition tell :: "nat list \<Rightarrow> 64 word list \<Rightarrow> event list" where
  "tell ls ts = concat (map (\<lambda>t. map (\<lambda>l. Sent_Tag (Tag_Listener l) t) ls) ts)"

definition tags_open :: "nat list \<Rightarrow> connection \<Rightarrow> bool" where
  "tags_open ls c \<longleftrightarrow> (\<forall>l\<in>set ls. Closed (Tag_Listener l) \<notin> set (events c))"

definition told :: "event list \<Rightarrow> connection \<Rightarrow> connection" where
  "told es c = c\<lparr>events := events c @ es\<rparr>"

lemma told_simps [simp]:
  "told [] c = c" "told gs (told fs c) = told (fs @ gs) c" "channels (told es c) = channels c"
  "sound_socket (told es c) = sound_socket c" "cn_FrameSize (told es c) = cn_FrameSize c"
  "events (told es c) = events c @ es"
  by (simp_all add: told_def sound_socket_def)

lemma tell_simps [simp]:
  "tell ls [] = []" "tell ls (t # ts) = map (\<lambda>l. Sent_Tag (Tag_Listener l) t) ls @ tell ls ts"
  by (simp_all add: tell_def)

lemma tags_open_tell: "tags_open ls c \<Longrightarrow> tags_open ls (told (tell gs ts) c)"
  by (auto simp: tags_open_def tell_def)

lemma tell_each:
  "tags_open ls c \<Longrightarrow>
    for_each (\<lambda>l. send_to (Tag_Listener l) (Sent_Tag (Tag_Listener l) t)) ls c = ret () (told (tell ls [t]) c)"
proof (induction ls arbitrary: c)
  case (Cons l ls)
  then have "tags_open ls (told [Sent_Tag (Tag_Listener l) t] c)" by (auto simp: tags_open_def)
  from Cons.IH[OF this] Cons.prems show ?case
    by (simp add: send_to_def tags_open_def emit_def flip: told_def)
qed simp

lemma sorted_list_of_set_least:
  assumes "finite A" and "\<forall>y\<in>A. x < y"
  shows "sorted_list_of_set (insert x A) = x # sorted_list_of_set A"
proof -
  have "x \<notin> A" using assms(2) by auto
  moreover have "insort x (sorted_list_of_set A) = x # sorted_list_of_set A"
    using assms by (intro insort_is_Cons) auto
  ultimately show ?thesis using assms(1) by (simp add: sorted_list_of_set_insert_remove)
qed

lemma confirm_through_member:
  "is_heap h \<Longrightarrow> distinct h \<Longrightarrow> tag \<in> set h \<Longrightarrow> tags_open ls c \<Longrightarrow>
    \<exists>h1. confirm_through tag ls h c =
        ret h1 (told (tell ls (sorted_list_of_set {t \<in> set h. t \<le> tag})) c) \<and>
      is_heap h1 \<and> distinct h1 \<and> set h1 = {t \<in> set h. tag < t}"
proof (induction tag ls h c rule: confirm_through.induct)
  case (1 tag ls h c)
  then have "h \<noteq> []" by auto
  from heap_Pop_queue[OF 1(2) this] obtain x h1 where x: "heap_Pop h = Ret (x, h1)" "is_heap h1"
    "mset h = add_mset x (mset h1)" "\<And>y. y \<in> set h \<Longrightarrow> x \<le> y" by metis
  have "mset h = mset (x # h1)" using x(3) by simp
  from mset_eq_imp_distinct_iff[OF this] mset_eq_setD[OF this] 1(3)
  have "distinct (x # h1)" "set h = insert x (set h1)" by simp_all
  then have h: "x \<notin> set h1" "distinct h1" "set h = insert x (set h1)" "\<forall>y\<in>set h1. x < y"
    using x(4) by (auto simp: order_less_le)
  note each = tell_each[OF 1(5)]
  show ?case
  proof (cases "x = tag")
    case True
    with h have "{t \<in> set h. t \<le> tag} = {tag}" "{t \<in> set h. tag < t} = set h1" by auto
    with x h True show ?thesis by (subst confirm_through.simps) (simp add: each)
  next
    case False
    then have "tag \<in> set h1" "x \<le> tag" using 1(4) h x(4) by auto
    moreover have "{t \<in> set h. t \<le> tag} = insert x {t \<in> set h1. t \<le> tag}"
      "{t \<in> set h. tag < t} = {t \<in> set h1. tag < t}" using h \<open>x \<le> tag\<close> by auto
    moreover have "sorted_list_of_set (insert x {t \<in> set h1. t \<le> tag}) = x # sorted_list_of_set {t \<in> set h1. t \<le> tag}"
      using h by (intro sorted_list_of_set_least) auto
    ultimately show ?thesis
      using 1(1)[OF x(1) refl, of "told (tell ls [x]) c"] x(1,2) h(2) False tags_open_tell[OF 1(5), of ls "[x]"]
      by (subst confirm_through.simps) (simp add: each)
  qed
qed

lemma confirm_through_unknown:
  "is_heap h \<Longrightarrow> tag \<notin> set h \<Longrightarrow> tags_open ls c \<Longrightarrow> confirm_through tag ls h c = panics IndexOutOfRange"
proof (induction tag ls h c rule: confirm_through.induct)
  case (1 tag ls h c)
  show ?case
  proof (cases "h = []")
    case True
    then show ?thesis by (subst confirm_through.simps) simp
  next
    case False
    then obtain x h1 where x: "heap_Pop h = Ret (x, h1)" using heap_Pop_queue[OF 1(2)] by metis
    with heap.pop_other[OF 1(2) _ x, of tag] 1(3) have n: "is_heap h1" "tag \<notin> set h1" "x \<noteq> tag" by simp_all
    from 1(1)[OF x refl n(3,1,2) tags_open_tell[OF 1(4), of ls "[x]"]] n(3) x show ?thesis
      by (subst confirm_through.simps) (simp add: tell_each[OF 1(4)])
  qed
qed


section \<open>A channel in confirm mode\<close>

text \<open>What happens to it: a publishing by the application, a confirmation by the server.\<close>

datatype confirm_step =
    Published bytes bytes bool bool publishing
  | Confirmed bool "64 word" bool

fun client_step :: "nat \<Rightarrow> confirm_step \<Rightarrow> connection \<Rightarrow> unit run" where
  "client_step p (Published exchange key mandatory immediate msg) c =
     and_then (Channel_Publish p exchange key mandatory immediate msg c) (\<lambda>_. ret ())"
| "client_step p (Confirmed ack tag multiple) c =
     ch_dispatch p (Some (Basic_Message
       (if ack then BasicAck \<lparr>basicAck_DeliveryTag = tag, basicAck_Multiple = multiple\<rparr>
        else BasicNack \<lparr>basicNack_DeliveryTag = tag, basicNack_Multiple = multiple, basicNack_Requeue = False\<rparr>))) c"

text \<open>The abstract channel: how many were published, which tags wait, and what the listeners hear of,
  an ack or a nack of a tag.  A confirmation of a tag that does not wait has no meaning.\<close>

fun confirm_spec ::
    "confirm_step \<Rightarrow> 64 word \<times> 64 word set \<Rightarrow> ((bool \<times> 64 word) list \<times> 64 word \<times> 64 word set) option" where
  "confirm_spec (Published _ _ _ _ _) (n, W) = Some ([], n + 1, insert (n + 1) W)"
| "confirm_spec (Confirmed ack tag multiple) (n, W) =
     (if tag \<notin> W then None
      else if multiple
      then Some (map (Pair ack) (sorted_list_of_set {t \<in> W. t \<le> tag}), n, {t \<in> W. tag < t})
      else Some ([(ack, tag)], n, W - {tag}))"

fun confirms_spec ::
    "confirm_step list \<Rightarrow> 64 word \<times> 64 word set \<Rightarrow> ((bool \<times> 64 word) list \<times> 64 word \<times> 64 word set) option" where
  "confirms_spec [] s = Some ([], s)"
| "confirms_spec (x # xs) s =
     (case confirm_spec x s of
        None \<Rightarrow> None
      | Some (heard, s1) \<Rightarrow> map_option (\<lambda>(hs, s2). (heard @ hs, s2)) (confirms_spec xs s1))"

text \<open>The concrete channel: its heap holds the tags that wait.\<close>

definition confirming :: "nat \<Rightarrow> connection \<Rightarrow> 64 word \<times> 64 word set \<Rightarrow> bool" where
  "confirming p c s \<longleftrightarrow>
     (\<exists>h. ch_confirms (channels c p) = Some h \<and> is_heap h \<and> distinct h \<and> set h = snd s) \<and>
     ch_publishCounter (channels c p) = fst s \<and> (\<forall>t\<in>snd s. t \<le> fst s) \<and>
     ch_open (channels c p) \<and> \<not> ch_locked (channels c p) \<and> sound_socket c \<and>
     tags_open (ch_acks (channels c p) @ ch_nacks (channels c p)) c"

definition same_listeners :: "nat \<Rightarrow> connection \<Rightarrow> connection \<Rightarrow> bool" where
  "same_listeners p c c' \<longleftrightarrow> ch_acks (channels c' p) = ch_acks (channels c p) \<and>
     ch_nacks (channels c' p) = ch_nacks (channels c p) \<and> cn_FrameSize c' = cn_FrameSize c"

definition heard_by :: "channel \<Rightarrow> (bool \<times> 64 word) list \<Rightarrow> event list" where
  "heard_by ch hs = concat (map (\<lambda>(ack, t). tell (if ack then ch_acks ch else ch_nacks ch) [t]) hs)"

fun is_tag :: "event \<Rightarrow> bool" where
  "is_tag (Sent_Tag _ _) = True"
| "is_tag _ = False"

definition heard :: "connection \<Rightarrow> event list" where
  "heard c = filter is_tag (events c)"

text \<open>A publishing that can be sent.\<close>

fun sendable :: "int \<Rightarrow> confirm_step \<Rightarrow> bool" where
  "sendable sz (Published exchange key mandatory immediate msg) \<longleftrightarrow>
     Validate (pb_Headers msg) = None \<and>
     (\<exists>ps b. content_fits (publish_message exchange key mandatory immediate msg) ps b (sz - frameHeaderSize))"
| "sendable sz (Confirmed _ _ _) \<longleftrightarrow> True"

lemma is_tag_tell [simp]: "filter is_tag (tell ls ts) = tell ls ts"
  by (induction ts) (auto simp: filter_map o_def)

lemma heard_told [simp]: "heard (told (tell ls ts) c) = heard c @ tell ls ts"
  by (simp add: heard_def)

lemma heard_wrote [simp]: "heard (wrote fs c) = heard c"
  by (simp add: heard_def filter_map o_def)

lemma heard_set_channel [simp]: "heard (set_channel p f c) = heard c"
  by (simp add: heard_def)

lemma heard_by_Pair: "heard_by ch (map (Pair ack) ts) = tell (if ack then ch_acks ch else ch_nacks ch) ts"
  by (induction ts) (simp_all add: heard_by_def)


lemma count_published_confirming:
  assumes "confirming p c (n, W)" and "n \<noteq> - 1"
  shows "confirming p (set_channel p count_published (wrote fs c)) (n + 1, insert (n + 1) W)"
proof -
  obtain h where h: "ch_confirms (channels c p) = Some h" "is_heap h" "distinct h" "set h = W"
    using assms(1) by (auto simp: confirming_def)
  have "1 + n \<noteq> 0" using assms(2) by (metis add.commute eq_neg_iff_add_eq_0)
  from unatSuc[OF this] have "n < n + 1" by (simp add: word_less_nat_alt add.commute)
  moreover have le: "\<forall>t\<in>W. t \<le> n" using assms(1) by (simp add: confirming_def)
  ultimately have new: "n + 1 \<notin> W" "\<forall>t\<in>W. t \<le> n + 1" by force+
  have "mset (heap_Push (n + 1) h) = mset ((n + 1) # h)" using heap_Push_queue(2)[OF h(2)] by simp
  from mset_eq_imp_distinct_iff[OF this] mset_eq_setD[OF this]
  have "distinct (heap_Push (n + 1) h)" "set (heap_Push (n + 1) h) = insert (n + 1) W"
    using h new by simp_all
  with h new assms(1) heap_Push_queue(1)[OF h(2), of "n + 1"] show ?thesis
    by (auto simp: confirming_def count_published_def Let_def tags_open_def sound_socket_def
        set_channel_def wrote_def)
qed

lemma confirmed_confirming:
  assumes "confirming p c (n, W)" and "is_heap h" and "distinct h" and "set h \<subseteq> W"
  shows "confirming p (set_channel p (\<lambda>ch. ch\<lparr>ch_confirms := Some h\<rparr>) (told (tell ls ts) c)) (n, set h)"
  using assms tags_open_tell[of "ch_acks (channels c p) @ ch_nacks (channels c p)" c ls ts]
  by (auto simp: confirming_def tags_open_def sound_socket_def set_channel_def told_def)

lemma confimOne_refines:
  assumes "confirming p c (n, W)" and "ls = ch_acks (channels c p) \<or> ls = ch_nacks (channels c p)"
  shows "if tag \<in> W
    then \<exists>h. confimOne p tag ls c = ret () (set_channel p (\<lambda>ch. ch\<lparr>ch_confirms := Some h\<rparr>) (told (tell ls [tag]) c)) \<and>
      is_heap h \<and> distinct h \<and> set h = W - {tag}
    else confimOne p tag ls c = panics IndexOutOfRange"
proof -
  obtain h where h: "ch_confirms (channels c p) = Some h" "is_heap h" "distinct h" "set h = W"
    and l: "\<not> ch_locked (channels c p)" and o: "tags_open ls c"
    using assms by (auto simp: confirming_def tags_open_def)
  show ?thesis
  proof (cases "tag \<in> W")
    case False
    with h l pop_until_unknown[OF h(2), of tag] show ?thesis by (simp add: confimOne_def)
  next
    case True
    then obtain un h1 where u: "pop_until tag h = Ret (un, h1)" "is_heap h1"
      "mset h = add_mset tag (mset un + mset h1)"
      using pop_until_member[OF h(2), of tag] h(4) by blast
    let ?h = "fold heap_Push un h1"
    have f: "is_heap ?h" "mset ?h = mset h1 + mset un" using heap.push_all[OF u(2), of un] by simp_all
    then have "mset h = mset (tag # ?h)" using u(3) by simp
    from mset_eq_imp_distinct_iff[OF this] mset_eq_setD[OF this] h
    have "distinct ?h" "set ?h = W - {tag}" by auto
    with f(1) h u l True show ?thesis by (auto simp: confimOne_def tell_each[OF o])
  qed
qed

lemma confimMultiple_refines:
  assumes "confirming p c (n, W)" and "ls = ch_acks (channels c p) \<or> ls = ch_nacks (channels c p)"
  shows "if tag \<in> W
    then \<exists>h. confimMultiple p tag ls c = ret () (set_channel p (\<lambda>ch. ch\<lparr>ch_confirms := Some h\<rparr>)
        (told (tell ls (sorted_list_of_set {t \<in> W. t \<le> tag})) c)) \<and>
      is_heap h \<and> distinct h \<and> set h = {t \<in> W. tag < t}
    else confimMultiple p tag ls c = panics IndexOutOfRange"
proof -
  obtain h where h: "ch_confirms (channels c p) = Some h" "is_heap h" "distinct h" "set h = W"
    and l: "\<not> ch_locked (channels c p)" and o: "tags_open ls c"
    using assms by (auto simp: confirming_def tags_open_def)
  show ?thesis
  proof (cases "tag \<in> W")
    case False
    with h l confirm_through_unknown[OF h(2) _ o, of tag] show ?thesis by (simp add: confimMultiple_def)
  next
    case True
    then obtain h1 where "confirm_through tag ls h c =
        ret h1 (told (tell ls (sorted_list_of_set {t \<in> W. t \<le> tag})) c)"
      "is_heap h1" "distinct h1" "set h1 = {t \<in> W. tag < t}"
      using confirm_through_member[OF h(2,3) _ o] h(4) by auto
    with h l True show ?thesis by (auto simp: confimMultiple_def)
  qed
qed


section \<open>Refinement\<close>

lemma step_refines:
  assumes "confirming p c s" and "sendable (cn_FrameSize c) x" and "fst s \<noteq> - 1"
  shows "case confirm_spec x s of
      None \<Rightarrow> client_step p x c = panics IndexOutOfRange
    | Some (hs, s') \<Rightarrow> \<exists>c'. client_step p x c = ret () c' \<and> confirming p c' s' \<and>
        same_listeners p c c' \<and> heard c' = heard c @ heard_by (channels c p) hs"
proof (cases x)
  case (Published exchange key mandatory immediate msg)
  obtain n W where s: "s = (n, W)" by (cases s)
  let ?m = "publish_message exchange key mandatory immediate msg"
  obtain ps b where v: "Validate (pb_Headers msg) = None"
    and "content_fits ?m ps b (cn_FrameSize c - frameHeaderSize)"
    using assms(2) Published by auto
  then obtain fs where "ch_send p ?m c = ret None (wrote fs c)"
    using ch_send_content assms(1) by (auto simp: confirming_def)
  with v have "client_step p x c = ret () (set_channel p count_published (wrote fs c))"
    by (simp add: Published Channel_Publish_def with_valid_def)
  moreover have "confirming p (set_channel p count_published (wrote fs c)) (n + 1, insert (n + 1) W)"
    using count_published_confirming assms(1,3) s by simp
  ultimately show ?thesis
    by (simp add: s Published same_listeners_def heard_by_def count_published_def Let_def)
next
  case (Confirmed ack tag multiple)
  obtain n W where s: "s = (n, W)" by (cases s)
  define ls where "ls = (if ack then ch_acks (channels c p) else ch_nacks (channels c p))"
  have ls: "ls = ch_acks (channels c p) \<or> ls = ch_nacks (channels c p)" by (simp add: ls_def)
  have step: "client_step p x c = (if multiple then confimMultiple p tag ls c else confimOne p tag ls c)"
    by (simp add: Confirmed ls_def)
  have told: "\<exists>c'. client_step p x c = ret () c' \<and> confirming p c' (n, W') \<and>
      same_listeners p c c' \<and> heard c' = heard c @ tell ls ts"
    if "client_step p x c = ret () (set_channel p (\<lambda>ch. ch\<lparr>ch_confirms := Some h\<rparr>) (told (tell ls ts) c))"
      "is_heap h" "distinct h" "set h = W'" "W' \<subseteq> W" for h ts W'
    using confirmed_confirming[OF assms(1)[unfolded s] that(2,3), of ls ts] that
    by (auto simp: same_listeners_def)
  have hb: "heard_by (channels c p) (map (Pair ack) ts) = tell ls ts" for ts
    by (simp add: heard_by_Pair ls_def)
  show ?thesis
  proof (cases "tag \<in> W")
    case False
    with step confimOne_refines[OF assms(1)[unfolded s] ls, of tag]
      confimMultiple_refines[OF assms(1)[unfolded s] ls, of tag] show ?thesis
      by (simp add: s Confirmed)
  next
    case True
    show ?thesis
    proof (cases multiple)
      case True
      with step \<open>tag \<in> W\<close> confimMultiple_refines[OF assms(1)[unfolded s] ls, of tag]
        told[of _ "sorted_list_of_set {t \<in> W. t \<le> tag}" "{t \<in> W. tag < t}"] show ?thesis
        by (auto simp: s Confirmed hb)
    next
      case False
      with step \<open>tag \<in> W\<close> confimOne_refines[OF assms(1)[unfolded s] ls, of tag]
        told[of _ "[tag]" "W - {tag}"] hb[of "[tag]"] show ?thesis
        by (auto simp: s Confirmed)
    qed
  qed
qed


lemma steps_refine:
  "confirming p c s \<Longrightarrow> list_all (sendable (cn_FrameSize c)) xs \<Longrightarrow> unat (fst s) + length xs < 2 ^ 64 \<Longrightarrow>
    case confirms_spec xs s of
      None \<Rightarrow> for_each (client_step p) xs c = panics IndexOutOfRange
    | Some (hs, s') \<Rightarrow> \<exists>c'. for_each (client_step p) xs c = ret () c' \<and> confirming p c' s' \<and>
        same_listeners p c c' \<and> heard c' = heard c @ heard_by (channels c p) hs"
proof (induction xs arbitrary: c s)
  case Nil
  then show ?case by (simp add: same_listeners_def heard_by_def)
next
  case (Cons x xs)
  have "fst s \<noteq> - 1" using Cons.prems(3) by (auto simp: unsigned_minus_1_eq_mask mask_eq_exp_minus_1)
  note step = step_refines[OF Cons.prems(1) _ this, of x]
  show ?case
  proof (cases "confirm_spec x s")
    case None
    with step Cons.prems(2) show ?thesis by simp
  next
    case (Some r)
    then obtain hs s1 where x: "confirm_spec x s = Some (hs, s1)" by (cases r) auto
    with step Cons.prems(2) obtain c1 where c1: "client_step p x c = ret () c1" "confirming p c1 s1"
      "same_listeners p c c1" "heard c1 = heard c @ heard_by (channels c p) hs" by auto
    have n: "unat (fst s1) \<le> Suc (unat (fst s))"
      using x by (cases x; cases s) (auto split: if_splits simp: unat_plus_if')
    have same: "heard_by (channels c1 p) = heard_by (channels c p)" "cn_FrameSize c1 = cn_FrameSize c"
      using c1(3) by (auto simp: same_listeners_def heard_by_def[abs_def] cong: if_cong)
    note IH = Cons.IH[OF c1(2)]
    show ?thesis
    proof (cases "confirms_spec xs s1")
      case None
      with IH Cons.prems(2,3) n same x c1(1) show ?thesis by simp
    next
      case (Some r)
      then obtain hs2 s2 where xs: "confirms_spec xs s1 = Some (hs2, s2)" by (cases r) auto
      with IH Cons.prems(2,3) n same obtain c2 where "for_each (client_step p) xs c1 = ret () c2"
        "confirming p c2 s2" "same_listeners p c1 c2" "heard c2 = heard c1 @ heard_by (channels c p) hs2"
        by auto
      with c1 x xs show ?thesis by (auto simp: same_listeners_def heard_by_def)
    qed
  qed
qed

text \<open>C23: a channel in confirm mode refines the abstract one: every confirmation of a tag that waits is
  heard at once by every listener, in the order in which the server confirms, a multiple one as
  the tags up to its own in ascending order; one of any other tag panics.\<close>

theorem confirms_refine:
  assumes "confirming p c s" and "list_all (sendable (cn_FrameSize c)) xs" and "unat (fst s) + length xs < 2 ^ 64"
  shows "case confirms_spec xs s of
      None \<Rightarrow> for_each (client_step p) xs c = panics IndexOutOfRange
    | Some (hs, s') \<Rightarrow> \<exists>c'. for_each (client_step p) xs c = ret () c' \<and> confirming p c' s' \<and>
        same_listeners p c c' \<and> heard c' = heard c @ heard_by (channels c p) hs"
  using assms by (rule steps_refine)


definition sample_publishing :: publishing where
  "sample_publishing =
     \<lparr>pb_Headers = [], pb_ContentType = [], pb_ContentEncoding = [], pb_DeliveryMode = 0, pb_Priority = 0,
      pb_CorrelationId = [], pb_ReplyTo = [], pb_Expiration = [], pb_MessageId = [],
      pb_Timestamp = ZeroTime, pb_Type = [], pb_UserId = [], pb_AppId = [], pb_Body = [1, 2, 3]\<rparr>"

abbreviation publishes :: confirm_step where
  "publishes \<equiv> Published [] (ascii ''jobs'') False False sample_publishing"

lemma sample_publishing_sendable: "8 < sz \<Longrightarrow> sz < 2 ^ 32 \<Longrightarrow> sendable sz publishes"
proof -
  assume sz: "8 < sz" "sz < 2 ^ 32"
  have "publish_message [] (ascii ''jobs'') False False sample_publishing = sample_publish"
    by (simp add: publish_message_def sample_publishing_def sample_publish_def basicPublish_zero_def
        zero_properties_def)
  with sz sample_fits[of "sz - frameHeaderSize"] show ?thesis
    by (auto simp: frameHeaderSize_def sample_publishing_def Validate_def)
qed

definition sample_confirming :: "64 word \<Rightarrow> connection" where
  "sample_confirming n = (sample_connection 4096)
     \<lparr>channels := (\<lambda>_. (newChannel 1)\<lparr>ch_confirms := Some [], ch_publishCounter := n, ch_acks := [1], ch_nacks := [2]\<rparr>)\<rparr>"

lemma sample_confirming_simps [simp]:
  "confirming p (sample_confirming n) (n, {})" "cn_FrameSize (sample_confirming n) = 4096"
  "heard (sample_confirming n) = []" "ch_acks (channels (sample_confirming n) p) = [1]"
  "ch_nacks (channels (sample_confirming n) p) = [2]"
  by (simp_all add: confirming_def sample_confirming_def sample_connection_def new_connection_def newChannel_def
      sound_socket_def tags_open_def heard_def heap_to_def)

text \<open>The second publishing is confirmed before the first, and is heard of before the first.\<close>

theorem confirms_refine_witness:
  "\<exists>c'. for_each (client_step 0) [publishes, publishes, Confirmed True 2 False, Confirmed False 1 False]
      (sample_confirming 0) = ret () c' \<and>
    confirming 0 c' (2, {}) \<and> same_listeners 0 (sample_confirming 0) c' \<and>
    heard c' = [Sent_Tag (Tag_Listener 1) 2, Sent_Tag (Tag_Listener 2) 1]"
proof -
  have "heard_by (channels (sample_confirming 0) 0) [(True, 2), (False, 1)] =
      [Sent_Tag (Tag_Listener 1) 2, Sent_Tag (Tag_Listener 2) 1]"
    by (simp add: heard_by_def)
  moreover have "({2, 1} - {2} - {1} :: 64 word set) = {}" by auto
  ultimately show ?thesis
    using confirms_refine[of 0 "sample_confirming 0" "(0, {})"
        "[publishes, publishes, Confirmed True 2 False, Confirmed False 1 False]"]
    by (simp add: sample_publishing_sendable del: sendable.simps(1) for_each.simps)
qed

end
