(* ===== verification/Amqp_Replies.thy ===== *)
theory Amqp_Replies
  imports Amqp_Confirms
begin

text \<open>
  Calls on a channel of the AMQP client and what ends them: the reply, an exception, or nothing; the
  shutdown of a channel and what its listeners see of it; and the calls that never return.
\<close>

section \<open>A channel the reader serves\<close>

definition listening :: "nat \<Rightarrow> connection \<Rightarrow> bool" where
  "listening p c \<longleftrightarrow> ch_open (channels c p) \<and> \<not> ch_destroyed (channels c p) \<and> ch_errors (channels c p) = None \<and>
     ch_recv (channels c p) = Recv_Method \<and> ch_id (channels c p) \<noteq> 0 \<and>
     registry_get (ch_id (channels c p)) c = Some p \<and> reader_state c = Reading \<and> sound_socket c"

text \<open>Messages that the server sends unasked.\<close>

fun unasked :: "message \<Rightarrow> bool" where
  "unasked (Channel_Message (ChannelClose m)) = True"
| "unasked (Channel_Message (ChannelFlow m)) = True"
| "unasked (Basic_Message (BasicCancel m)) = True"
| "unasked (Basic_Message (BasicReturn m)) = True"
| "unasked (Basic_Message (BasicAck m)) = True"
| "unasked (Basic_Message (BasicNack m)) = True"
| "unasked (Basic_Message (BasicDeliver m)) = True"
| "unasked m = False"

lemma ch_dispatch_reply: "\<not> unasked r \<Longrightarrow> ch_dispatch p (Some r) c = hand_over p (Some r) c"
  by (cases r rule: unasked.cases) simp_all

lemma registry_get_wrote [simp]: "registry_get i (wrote fs c) = registry_get i c"
  by (simp add: registry_get_def)

lemma listening_wrote [simp]: "listening p (wrote fs c) = listening p c"
  by (simp add: listening_def)

lemma ch_send_plain:
  assumes "listening p c" and "get_content req = None" and "writable (method_frame (ch_id (channels c p)) req)"
  shows "ch_send p req c = ret None (wrote [method_frame (ch_id (channels c p)) req] c)"
  using assms by (simp add: ch_send_def sendOpen_def Let_def listening_def conn_send_writable)

text \<open>The reader hands a reply to the call that waits.\<close>

lemma read_reply:
  assumes "listening p c" and "get_content r = None" and "\<not> unasked r"
  shows "read_input (Frame_In (method_frame (ch_id (channels c p)) r)) c =
    ret () (c\<lparr>reader_state := Handing_Over p (Some r)\<rparr>)"
proof -
  have "set_channel p (\<lambda>ch. ch\<lparr>ch_recv := Recv_Method\<rparr>) (c\<lparr>reader_state := x\<rparr>) = c\<lparr>reader_state := x\<rparr>" for x
    using assms(1) by (simp add: listening_def set_channel_def fun_upd_idem)
  with assms show ?thesis
    by (simp add: read_input_def demux_def dispatchN_def listening_def method_frame_def ch_receive_def
        recvMethod_def ch_dispatch_reply hand_over_def transition_def)
qed

lemma await_Reading:
  assumes "listening p c"
  shows "await (ch_ready p) (x # xs) c = and_then (read_input x c) (\<lambda>_. await (ch_ready p) xs)"
    and "await (ch_ready p) [] c = None"
  using assms by (simp_all add: ch_ready_def listening_def)

declare await.simps [simp del]

lemma await_Handing_Over:
  assumes "ch_errors (channels c p) = None" and "reader_state c = Handing_Over p msg"
  shows "await (ch_ready p) xs c = ret (Inr msg) (c\<lparr>reader_state := Reading, incoming := xs\<rparr>)"
  using assms by (cases xs) (simp_all add: ch_ready_def await.simps)

text \<open>A call whose reply is the next frame takes it.\<close>

lemma ch_call_answered:
  assumes "listening p c" and "get_content req = None" and "writable (method_frame (ch_id (channels c p)) req)"
    and "message_wait req" and "get_content r = None" and "\<not> unasked r"
    and "incoming c = Frame_In (method_frame (ch_id (channels c p)) r) # rest"
  shows "ch_call p req tries c = ret (ch_reply tries (Inr (Some r)))
    ((wrote [method_frame (ch_id (channels c p)) req] c)\<lparr>incoming := rest\<rparr>)"
proof -
  let ?c = "wrote [method_frame (ch_id (channels c p)) req] c"
  have l: "listening p ?c" using assms(1) by simp
  have "await (ch_ready p) (incoming ?c) ?c = ret (Inr (Some r)) (?c\<lparr>reader_state := Reading, incoming := rest\<rparr>)"
    using read_reply[OF l assms(5,6)] await_Handing_Over[of "?c\<lparr>reader_state := Handing_Over p (Some r)\<rparr>" p "Some r" rest] l
    by (simp add: assms(7) await_Reading(1)[OF l] listening_def)
  moreover have "?c\<lparr>reader_state := Reading, incoming := rest\<rparr> = ?c\<lparr>incoming := rest\<rparr>"
    using l by (simp add: listening_def)
  ultimately show ?thesis using assms(4) by (simp add: ch_call_def ch_send_plain[OF assms(1-3)])
qed

lemma ch_call_unanswered:
  assumes "listening p c" and "get_content req = None" and "writable (method_frame (ch_id (channels c p)) req)"
    and "message_wait req" and "incoming c = []"
  shows "ch_call p req tries c = None"
  using assms ch_send_plain[OF assms(1-3)] await_Reading(2)[of p "wrote [method_frame (ch_id (channels c p)) req] c"]
  by (simp add: ch_call_def)


section \<open>Confirm\<close>

definition confirm_select :: "bool \<Rightarrow> message" where
  "confirm_select noWait = Confirm_Message (ConfirmSelect (confirmSelect_zero\<lparr>confirmSelect_Nowait := noWait\<rparr>))"

lemma confirm_select_simps [simp]:
  "writable (method_frame i (confirm_select noWait))" "message_wait (confirm_select noWait)"
  "get_content (confirm_select noWait) = None"
  by (simp_all add: confirm_select_def writable_def method_frame_def methodFrame_write_def confirmSelect_id_def
      confirmSelect_write_def write_u8_def write_u16_def writeFrame_eq with_payload_def confirmSelect_zero_def
      confirmSelect_wait_def)

lemma Channel_Confirm_eq:
  "Channel_Confirm p noWait c =
    and_then (ch_call p (confirm_select noWait) [Confirm_Message (ConfirmSelectOk confirmSelectOk_zero)] (set_locked p True c))
      (\<lambda>(err, _) c1. let c2 = set_locked p False c1 in
        case err of Some e \<Rightarrow> ret (Some e) c2
        | None \<Rightarrow> ret None (set_channel p (\<lambda>ch. ch\<lparr>ch_confirms := Some []\<rparr>) c2))"
  by (simp add: Channel_Confirm_def ch_do_def confirm_select_def and_then_assoc split_def)

lemma listening_locked [simp]: "listening p (set_locked p b c) = listening p c"
  by (simp add: listening_def set_locked_def set_channel_def registry_get_def sound_socket_def)

lemma set_locked_simps [simp]:
  "incoming (set_locked p b c) = incoming c" "ch_id (channels (set_locked p b c) p) = ch_id (channels c p)"
  by (simp_all add: set_locked_def)

text \<open> \<open>Confirm\<close> waits for a reply even when it is told not to: with \<open>noWait\<close> it returns only when
  the server answers, which it was told not to do.\<close>

theorem Confirm_always_waits:
  assumes "listening p c" and "incoming c = []"
  shows "Channel_Confirm p noWait c = None"
  using ch_call_unanswered[of p "set_locked p True c" "confirm_select noWait"] assms
  by (simp add: Channel_Confirm_eq)

definition confirm_selected :: "16 word \<Rightarrow> frame" where
  "confirm_selected i = method_frame i (Confirm_Message (ConfirmSelectOk confirmSelectOk_zero))"

lemma Confirm_confirming:
  assumes "listening p c" and "\<not> ch_locked (channels c p)"
    and "tags_open (ch_acks (channels c p) @ ch_nacks (channels c p)) c"
    and "incoming c = Frame_In (confirm_selected (ch_id (channels c p))) # rest"
  shows "\<exists>c1. Channel_Confirm p noWait c = ret None c1 \<and> confirming p c1 (ch_publishCounter (channels c p), {}) \<and>
    cn_FrameSize c1 = cn_FrameSize c"
proof -
  let ?ok = "Confirm_Message (ConfirmSelectOk confirmSelectOk_zero)"
  have "ch_call p (confirm_select noWait) [?ok] (set_locked p True c) = ret (None, Some ?ok)
      ((wrote [method_frame (ch_id (channels c p)) (confirm_select noWait)] (set_locked p True c))\<lparr>incoming := rest\<rparr>)"
    using ch_call_answered[of p "set_locked p True c" "confirm_select noWait" ?ok rest "[?ok]"] assms(1,4)
    by (simp add: confirm_selected_def ch_reply_def)
  with assms show ?thesis
    by (auto simp: Channel_Confirm_eq listening_def confirming_def set_locked_def set_channel_def wrote_def
        sound_socket_def tags_open_def Let_def heap_to_def)
qed

text \<open> \<open>Confirm\<close> does not start the count of publishings anew: after a publishing without
  confirmations, the first confirmation, which has tag 1, panics.\<close>

theorem early_publishing_panics:
  assumes "listening p c" and "\<not> ch_locked (channels c p)"
    and "tags_open (ch_acks (channels c p) @ ch_nacks (channels c p)) c"
    and "incoming c = [Frame_In (confirm_selected (ch_id (channels c p)))]"
    and "0 < ch_publishCounter (channels c p)" and "ch_publishCounter (channels c p) < - 2"
    and "sendable (cn_FrameSize c) (Published exchange key mandatory immediate msg)"
  shows "and_then (Channel_Confirm p noWait c) (\<lambda>_. for_each (client_step p)
      [Published exchange key mandatory immediate msg, Confirmed True 1 multiple]) = panics IndexOutOfRange"
proof -
  let ?n = "ch_publishCounter (channels c p)"
  obtain c1 where c1: "Channel_Confirm p noWait c = ret None c1" "confirming p c1 (?n, {})" "cn_FrameSize c1 = cn_FrameSize c"
    using Confirm_confirming[OF assms(1-4)] by blast
  have "?n + 1 \<noteq> 1" using assms(5) by auto
  moreover have "unat ?n + 2 < 2 ^ 64" using assms(6) by (simp add: word_less_nat_alt)
  ultimately show ?thesis
    using steps_refine[OF c1(2), of "[Published exchange key mandatory immediate msg, Confirmed True 1 multiple]"]
      assms(7) c1(1,3) by (simp del: sendable.simps(1) for_each.simps client_step.simps)
qed


section \<open>Shutdown\<close>

fun firsts :: "nat list \<Rightarrow> nat list \<Rightarrow> nat list" where
  "firsts seen [] = []"
| "firsts seen (l # ls) = (if l \<in> set seen then firsts seen ls else l # firsts (l # seen) ls)"

lemma firsts_set: "set (firsts seen ls) = set ls - set seen \<and> distinct (firsts seen ls)"
  by (induction seen ls rule: firsts.induct) auto

lemma for_each_map: "for_each (\<lambda>l. f (g l)) ls = for_each f (map g ls)"
proof (rule ext)
  fix c show "for_each (\<lambda>l. f (g l)) ls c = for_each f (map g ls) c"
  proof (induction ls arbitrary: c)
    case (Cons l ls)
    then have "for_each (\<lambda>l. f (g l)) ls = for_each f (map g ls)" by (rule ext)
    then show ?case by simp
  qed simp
qed

lemma close_tags_each: "close_tags seen ls = for_each close_chan (map Tag_Listener (firsts seen ls))"
proof (rule ext)
  fix c show "close_tags seen ls c = for_each close_chan (map Tag_Listener (firsts seen ls)) c"
  proof (induction seen ls c rule: close_tags.induct)
    case (2 seen l ls c)
    have "close_tags (l # seen) ls = for_each close_chan (map Tag_Listener (firsts (l # seen) ls))" if "l \<notin> set seen"
      using 2(2)[OF that] by (intro ext) blast
    with 2(1) show ?case by simp
  qed simp
qed

lemma close_each:
  "distinct ls \<Longrightarrow> \<forall>l\<in>set ls. Closed l \<notin> set (events c) \<Longrightarrow>
    for_each close_chan ls c = ret () (told (map Closed ls) c)"
proof (induction ls arbitrary: c)
  case (Cons l ls)
  then have "close_chan l c = ret () (told [Closed l] c)" by (simp add: close_chan_def emit_def told_def)
  moreover have "for_each close_chan ls (told [Closed l] c) = ret () (told (map Closed ls) (told [Closed l] c))"
    using Cons.prems by (intro Cons.IH) auto
  ultimately show ?case by simp
qed simp

lemma send_each:
  "\<forall>l\<in>set ls. Closed (Error_Listener l) \<notin> set (events c) \<Longrightarrow>
    send_closes e ls c = ret () (told (case e of None \<Rightarrow> [] | Some ex \<Rightarrow>
      map (\<lambda>l. Sent_Error (Error_Listener l) ex) ls) c)"
proof (cases e)
  case (Some ex)
  assume "\<forall>l\<in>set ls. Closed (Error_Listener l) \<notin> set (events c)"
  then have "for_each (\<lambda>l. send_to (Error_Listener l) (Sent_Error (Error_Listener l) ex)) ls c =
      ret () (told (map (\<lambda>l. Sent_Error (Error_Listener l) ex) ls) c)"
  proof (induction ls arbitrary: c)
    case (Cons l ls)
    with Cons.IH[of "told [Sent_Error (Error_Listener l) ex] c"] show ?case
      by (simp add: send_to_def emit_def flip: told_def)
  qed simp
  with Some show ?thesis by (simp add: send_closes_def)
qed (simp add: send_closes_def)

lemma close_buffers:
  "for_each (\<lambda>(tag, l). close_chan (Consumer_Buffer l)) xs = for_each close_chan (map Consumer_Buffer (map snd xs))"
  using for_each_map[of close_chan "\<lambda>x. Consumer_Buffer (snd x)" xs] by (simp add: split_def o_def)

text \<open>The Go channels a channel closes at its shutdown, each once even where acks and nacks share one.\<close>

definition to_close :: "channel \<Rightarrow> listener list" where
  "to_close ch = map Consumer_Buffer (map snd (ch_consumers ch)) @ map Error_Listener (ch_closes ch) @
     map Flow_Listener (ch_flows ch) @ map Return_Listener (ch_returns ch) @
     map Cancel_Listener (ch_cancels ch) @ map Tag_Listener (firsts [] (ch_acks ch @ ch_nacks ch))"

definition closable :: "nat \<Rightarrow> connection \<Rightarrow> bool" where
  "closable p c \<longleftrightarrow> \<not> ch_destroyed (channels c p) \<and> \<not> ch_locked (channels c p) \<and>
     distinct (to_close (channels c p)) \<and> (\<forall>l\<in>set (to_close (channels c p)). Closed l \<notin> set (events c))"

definition shut :: "exception option \<Rightarrow> channel \<Rightarrow> channel" where
  "shut e ch = ch\<lparr>ch_destroyed := True, ch_open := False,
     ch_errors := if e = None then ch_errors ch else e, ch_consumers := [], ch_noNotify := True\<rparr>"

definition shutdown_events :: "exception option \<Rightarrow> channel \<Rightarrow> event list" where
  "shutdown_events e ch =
     (case e of None \<Rightarrow> [] | Some ex \<Rightarrow> map (\<lambda>l. Sent_Error (Error_Listener l) ex) (ch_closes ch)) @
     map Closed (to_close ch)"

lemma told_set_channel: "told es (set_channel p f c) = set_channel p f (told es c)"
  by (simp add: told_def set_channel_def)

lemma ch_shutdown_closable:
  assumes "closable p c"
  shows "ch_shutdown p e c = ret () (registry_remove (ch_id (channels c p))
    (set_channel p (shut e) (told (shutdown_events e (channels c p)) c)))"
proof -
  define ch where "ch = channels c p"
  let ?sent = "case e of None \<Rightarrow> [] | Some ex \<Rightarrow> map (\<lambda>l. Sent_Error (Error_Listener l) ex) (ch_closes ch)"
  have d: "distinct (to_close ch)" and o: "\<And>l. l \<in> set (to_close ch) \<Longrightarrow> Closed l \<notin> set (events c)"
    using assms by (auto simp: closable_def ch_def)
  have sent: "Closed l \<notin> set ?sent" for l by (cases e) auto
  have segment: "for_each close_chan L x = ret () (told (map Closed L) x)"
    if "to_close ch = P @ L @ S" "events x = events c @ ?sent @ map Closed P" for P L S x
    using d o sent that by (intro close_each) auto
  define k0 k1 k2 k3 k4 k5 where
    "k0 = map (Consumer_Buffer \<circ> snd) (ch_consumers ch)" and "k1 = map Error_Listener (ch_closes ch)" and
    "k2 = map Flow_Listener (ch_flows ch)" and "k3 = map Return_Listener (ch_returns ch)" and
    "k4 = map Cancel_Listener (ch_cancels ch)" and "k5 = map Tag_Listener (firsts [] (ch_acks ch @ ch_nacks ch))"
  note k = k0_def k1_def k2_def k3_def k4_def k5_def
  have K: "to_close ch = k0 @ k1 @ k2 @ k3 @ k4 @ k5" by (simp add: k to_close_def)
  note segments = segment[of "[]" k0 "k1 @ k2 @ k3 @ k4 @ k5"] segment[of k0 k1 "k2 @ k3 @ k4 @ k5"]
    segment[of "k0 @ k1" k2 "k3 @ k4 @ k5"] segment[of "k0 @ k1 @ k2" k3 "k4 @ k5"]
    segment[of "k0 @ k1 @ k2 @ k3" k4 k5] segment[of "k0 @ k1 @ k2 @ k3 @ k4" k5 "[]"]
  have "Closed (Error_Listener l) \<notin> set (events c)" if "l \<in> set (ch_closes ch)" for l
    using that by (intro o) (simp add: to_close_def)
  then have first: "send_closes e (ch_closes ch) (set_channel p f c) = ret () (told ?sent (set_channel p f c))" for f
    by (intro send_each) simp
  have closes: "for_each (\<lambda>l. close_chan (F l)) ls = for_each close_chan (map F ls)" for F :: "nat \<Rightarrow> listener" and ls
    by (rule for_each_map)
  have "ch_shutdown p e c = ret () (registry_remove (ch_id ch) (set_channel p (shut e) (told (shutdown_events e ch) c)))"
    using assms
    by (simp add: ch_shutdown_def consumers_closeAll_def closable_def Let_def close_tags_each close_buffers closes
        first segments K told_set_channel shutdown_events_def shut_def[abs_def] flip: ch_def k
        cong: if_cong)
  then show ?thesis by (simp add: ch_def)
qed


lemma registry_remove_simps [simp]:
  "channels (registry_remove i c) = channels c" "events (registry_remove i c) = events c"
  "sound_socket (registry_remove i c) = sound_socket c"
  by (simp_all add: registry_remove_def sound_socket_def)

lemma count_Closed:
  assumes "distinct ls"
  shows "count_list (map Closed ls) (Closed l) = (if l \<in> set ls then 1 else 0)"
  using assms by (induction ls) auto

text \<open>C24: the shutdown of a channel tells every error listener the error, then closes every Go channel of
  the channel exactly once, also one that serves both acks and nacks; the channel leaves the
  registry, a second shutdown does nothing, and nothing but \<open>close-ok\<close> can be sent any more.\<close>

theorem channel_shutdown:
  assumes "closable p c"
  shows "\<exists>c'. ch_shutdown p e c = ret () c' \<and>
    events c' = events c @ shutdown_events e (channels c p) \<and>
    (\<forall>l\<in>set (to_close (channels c p)). count_list (events c') (Closed l) = 1) \<and>
    registry_get (ch_id (channels c p)) c' = None \<and>
    (\<forall>e2. ch_shutdown p e2 c' = ret () c') \<and>
    (\<forall>m. (\<forall>x. m \<noteq> Channel_Message (ChannelCloseOk x)) \<longrightarrow> ch_send p m c' = ret (Some (Exception ErrClosed)) c')"
proof -
  let ?c = "registry_remove (ch_id (channels c p)) (set_channel p (shut e) (told (shutdown_events e (channels c p)) c))"
  have ch: "channels ?c p = shut e (channels c p)" and ev: "events ?c = events c @ shutdown_events e (channels c p)"
    by simp_all
  have "count_list (events ?c) (Closed l) = 1" if "l \<in> set (to_close (channels c p))" for l
  proof -
    have "count_list (events c) (Closed l) = 0" using assms that by (simp add: closable_def count_list_0_iff)
    moreover have "count_list (map (\<lambda>k. Sent_Error (Error_Listener k) x) ls) (Closed l) = 0" for x ls
      by (simp add: count_list_0_iff image_iff)
    ultimately show ?thesis
      using assms that by (simp add: ev shutdown_events_def closable_def count_Closed split: option.splits)
  qed
  moreover have "registry_get (ch_id (channels c p)) ?c = None"
    by (simp add: registry_get_def registry_remove_def delete_conv)
  moreover have "ch_shutdown p e2 ?c = ret () ?c" for e2
    by (simp add: ch_shutdown_def ch shut_def)
  moreover have "ch_send p m ?c = ret (Some (Exception ErrClosed)) ?c"
    if "\<forall>x. m \<noteq> Channel_Message (ChannelCloseOk x)" for m
    using that by (auto simp: ch_send_def ch shut_def sendClosed_def split: message.splits channel_message.splits)
  ultimately show ?thesis using ch_shutdown_closable[OF assms, of e] ev by blast
qed

section \<open>A call that the server refuses\<close>

definition channel_closed_by :: "channelClose \<Rightarrow> message" where
  "channel_closed_by m = Channel_Message (ChannelClose m)"

lemma closeOk_writable [simp]: "writable (method_frame i (Channel_Message (ChannelCloseOk channelCloseOk_zero)))"
  by (simp add: writable_def method_frame_def methodFrame_write_def channelCloseOk_id_def
      channelCloseOk_write_def write_u16_def writeFrame_eq with_payload_def)

lemma closable_wrote [simp]: "closable p (wrote fs c) = closable p c"
  by (auto simp: closable_def)

lemma read_refusal:
  assumes "listening p c"
  shows "read_input (Frame_In (method_frame (ch_id (channels c p)) (channel_closed_by m))) c =
    and_then (ch_shutdown p (Some (newError (channelClose_ReplyCode m) (channelClose_ReplyText m))) c) (\<lambda>_ c1.
      and_then (ch_send p (Channel_Message (ChannelCloseOk channelCloseOk_zero)) c1) (\<lambda>_. transition p Recv_Method))"
  using assms by (simp add: channel_closed_by_def read_input_def demux_def dispatchN_def listening_def method_frame_def
      ch_receive_def recvMethod_def and_then_assoc)


text \<open> \<open>Confirm\<close> holds the channel's mutex while it waits, and the shutdown that would end the wait
  needs the mutex: when the server refuses, the call never returns.\<close>

theorem refused_Confirm:
  assumes "listening p c" and "incoming c = Frame_In (method_frame (ch_id (channels c p)) (channel_closed_by m)) # rest"
  shows "Channel_Confirm p noWait c = None"
proof -
  let ?c = "wrote [method_frame (ch_id (channels c p)) (confirm_select noWait)] (set_locked p True c)"
  have l: "listening p (set_locked p True c)" "listening p ?c" using assms(1) by simp_all
  have "ch_shutdown p e ?c = None" for e
    using l(2) by (simp add: ch_shutdown_def listening_def set_locked_def)
  then have "read_input (Frame_In (method_frame (ch_id (channels c p)) (channel_closed_by m))) ?c = None"
    using read_refusal[OF l(2), of m] by simp
  then have "await (ch_ready p) (incoming ?c) ?c = None"
    using assms(2) await_Reading(1)[OF l(2)] by simp
  then show ?thesis
    using ch_send_plain[OF l(1), of "confirm_select noWait"] by (simp add: Channel_Confirm_eq ch_call_def)
qed


section \<open>An example\<close>

text \<open>A channel with an error listener, and a listener for both acks and nacks.\<close>

definition sample_served :: "input list \<Rightarrow> connection" where
  "sample_served inputs = (new_connection inputs (\<lambda>_. None))
     \<lparr>cn_FrameSize := 4096, registry := [(1, 0)],
      channels := (\<lambda>_. (newChannel 1)\<lparr>ch_closes := [2], ch_acks := [1], ch_nacks := [1], ch_publishCounter := 7\<rparr>)\<rparr>"

lemma sample_served_simps [simp]:
  "listening 0 (sample_served inputs)" "closable 0 (sample_served inputs)"
  "\<not> ch_locked (channels (sample_served inputs) 0)" "incoming (sample_served inputs) = inputs"
  "ch_id (channels (sample_served inputs) 0) = 1" "ch_publishCounter (channels (sample_served inputs) 0) = 7"
  "ch_acks (channels (sample_served inputs) 0) = [1]" "ch_nacks (channels (sample_served inputs) 0) = [1]"
  "events (sample_served inputs) = []" "cn_FrameSize (sample_served inputs) = 4096"
  by (simp_all add: sample_served_def listening_def closable_def to_close_def new_connection_def newChannel_def
      registry_get_def sound_socket_def)

lemma sample_served_closes:
  "to_close (channels (sample_served inputs) 0) = [Error_Listener 2, Tag_Listener 1]"
  "shutdown_events (Some ex) (channels (sample_served inputs) 0) =
     [Sent_Error (Error_Listener 2) ex, Closed (Error_Listener 2), Closed (Tag_Listener 1)]"
  by (simp_all add: sample_served_def to_close_def shutdown_events_def new_connection_def newChannel_def)

theorem Confirm_always_waits_witness: "Channel_Confirm 0 True (sample_served []) = None"
  using Confirm_always_waits[of 0 "sample_served []" True] by simp

theorem early_publishing_panics_witness:
  "and_then (Channel_Confirm 0 False (sample_served [Frame_In (confirm_selected 1)]))
    (\<lambda>_. for_each (client_step 0) [publishes, Confirmed True 1 False]) = panics IndexOutOfRange"
  using early_publishing_panics[of 0 "sample_served [Frame_In (confirm_selected 1)]" "[]" "ascii ''jobs''" False False
      sample_publishing False False]
  by (simp add: tags_open_def sample_publishing_sendable del: for_each.simps sendable.simps)

theorem channel_shutdown_witness:
  "\<exists>c'. ch_shutdown 0 (Some ErrClosed) (sample_served []) = ret () c' \<and>
    events c' = [Sent_Error (Error_Listener 2) ErrClosed, Closed (Error_Listener 2), Closed (Tag_Listener 1)] \<and>
    registry_get 1 c' = None \<and> ch_shutdown 0 None c' = ret () c'"
  using channel_shutdown[of 0 "sample_served []" "Some ErrClosed"] by (force simp: sample_served_closes)

definition sample_refusal :: channelClose where
  "sample_refusal = channelClose_zero\<lparr>channelClose_ReplyCode := 406\<rparr>"


theorem refused_Confirm_witness:
  "Channel_Confirm 0 False (sample_served [Frame_In (method_frame 1 (channel_closed_by sample_refusal))]) = None"
  using refused_Confirm[of 0 "sample_served [Frame_In (method_frame 1 (channel_closed_by sample_refusal))]" sample_refusal "[]"]
  by simp

end
