(* ===== verification/Amqp_Sessions.thy ===== *)
theory Amqp_Sessions
  imports Amqp_Replies
begin

text \<open>
  Sessions with the AMQP client: what a call returns for each answer, the handshake that opens a
  connection, and the frames that stop the reader.
\<close>

section \<open>Replies told by their ids\<close>

lemmas message_classes = connection_class channel_class exchange_class queue_class basic_class tx_class confirm_class

lemmas connection_ids = connectionStart_id_def connectionStartOk_id_def connectionSecure_id_def
  connectionSecureOk_id_def connectionTune_id_def connectionTuneOk_id_def connectionOpen_id_def
  connectionOpenOk_id_def connectionClose_id_def connectionCloseOk_id_def connectionBlocked_id_def
  connectionUnblocked_id_def

lemmas queue_ids = queueDeclare_id_def queueDeclareOk_id_def queueBind_id_def queueBindOk_id_def
  queueUnbind_id_def queueUnbindOk_id_def queuePurge_id_def queuePurgeOk_id_def queueDelete_id_def
  queueDeleteOk_id_def

lemma connection_method_id: "message_id m = (10, k) \<longleftrightarrow> (\<exists>x. m = Connection_Message x \<and> snd (connection_id x) = k)"
  by (cases m) (auto simp: prod_eq_iff message_classes)

lemma queue_method_id: "message_id m = (50, k) \<longleftrightarrow> (\<exists>x. m = Queue_Message x \<and> snd (queue_id x) = k)"
  by (cases m) (auto simp: prod_eq_iff message_classes)

lemma reply_ids:
  "message_id m = (50, 11) \<longleftrightarrow> (\<exists>x. m = Queue_Message (QueueDeclareOk x))"
  "message_id m = (10, 10) \<longleftrightarrow> (\<exists>x. m = Connection_Message (ConnectionStart x))"
  "message_id m = (10, 30) \<longleftrightarrow> (\<exists>x. m = Connection_Message (ConnectionTune x))"
  "message_id m = (10, 41) \<longleftrightarrow> (\<exists>x. m = Connection_Message (ConnectionOpenOk x))"
proof -
  have "snd (queue_id x) = 11 \<longleftrightarrow> (\<exists>y. x = QueueDeclareOk y)" for x
    by (cases x) (simp_all add: queue_ids)
  then show "message_id m = (50, 11) \<longleftrightarrow> (\<exists>x. m = Queue_Message (QueueDeclareOk x))"
    by (auto simp: queue_method_id)
  have "snd (connection_id x) = 10 \<longleftrightarrow> (\<exists>y. x = ConnectionStart y)"
    "snd (connection_id x) = 30 \<longleftrightarrow> (\<exists>y. x = ConnectionTune y)"
    "snd (connection_id x) = 41 \<longleftrightarrow> (\<exists>y. x = ConnectionOpenOk y)" for x
    by (cases x; simp add: connection_ids)+
  then show "message_id m = (10, 10) \<longleftrightarrow> (\<exists>x. m = Connection_Message (ConnectionStart x))"
    "message_id m = (10, 30) \<longleftrightarrow> (\<exists>x. m = Connection_Message (ConnectionTune x))"
    "message_id m = (10, 41) \<longleftrightarrow> (\<exists>x. m = Connection_Message (ConnectionOpenOk x))"
    by (auto simp: connection_method_id)
qed

section \<open>Declaring a queue\<close>

definition queue_request :: "bool \<Rightarrow> bytes \<Rightarrow> bool \<Rightarrow> bool \<Rightarrow> bool \<Rightarrow> bool \<Rightarrow> table \<Rightarrow> message" where
  "queue_request passive nm durable autoDelete exclusive noWait args =
     Queue_Message (QueueDeclare (queueDeclare_zero
         \<lparr>queueDeclare_Queue := nm, queueDeclare_Passive := passive, queueDeclare_Durable := durable,
          queueDeclare_AutoDelete := autoDelete, queueDeclare_Exclusive := exclusive,
          queueDeclare_NoWait := noWait, queueDeclare_Arguments := args\<rparr>))"

lemma declare_queue_eq:
  "declare_queue passive p nm durable autoDelete exclusive noWait args c =
     (case Validate args of
        Some e \<Rightarrow> ret (zero_queue, Some (Bad_Table e)) c
      | None \<Rightarrow>
          and_then (ch_call p (queue_request passive nm durable autoDelete exclusive noWait args)
              [Queue_Message (QueueDeclareOk queueDeclareOk_zero)] c) (\<lambda>(err, res) c1.
            case err of
              Some e \<Rightarrow> ret (zero_queue, Some e) c1
            | None \<Rightarrow> ret (if noWait then zero_queue\<lparr>Name := nm\<rparr> else declared res, None) c1))"
proof -
  have "message_wait (queue_request passive nm durable autoDelete exclusive noWait args) = (\<not> noWait)"
    by (simp add: queue_request_def queueDeclare_wait_def)
  then show ?thesis
    by (auto simp: declare_queue_def with_valid_def queue_request_def Let_def split: option.splits intro!: arg_cong2[where f = and_then])
qed



section \<open>The handshake\<close>

definition idle :: "connection \<Rightarrow> bool" where
  "idle c \<longleftrightarrow> cn_errors c = None \<and> reader_state c = Reading \<and> sound_socket c \<and>
     \<not> cn_destroyed c \<and> registry c = [] \<and> cn_blocks c = [] \<and> cn_closes c \<in> {[], [0]} \<and>
     Closed (Error_Listener 0) \<notin> set (events c)"

fun unasked_of_connection :: "message \<Rightarrow> bool" where
  "unasked_of_connection (Connection_Message (ConnectionClose m)) = True"
| "unasked_of_connection (Connection_Message (ConnectionBlocked m)) = True"
| "unasked_of_connection (Connection_Message (ConnectionUnblocked m)) = True"
| "unasked_of_connection m = False"

definition requested :: "message option \<Rightarrow> frame list" where
  "requested req = (case req of None \<Rightarrow> [] | Some m \<Rightarrow> [method_frame 0 m])"

lemma read_connection_reply:
  assumes "reader_state c = Reading" and "\<not> unasked_of_connection r"
  shows "read_input (Frame_In (method_frame 0 r)) c = ret () (c\<lparr>reader_state := Handing_Over_Connection (Some r)\<rparr>)"
  using assms(2) by (cases r rule: unasked_of_connection.cases)
    (simp_all add: assms(1) read_input_def demux_def dispatch0_def method_frame_def)

lemma idle_wrote [simp]: "idle (wrote fs c) = idle c"
  by (auto simp: idle_def wrote_def sound_socket_def)

lemma conn_call_sent:
  assumes "idle c" and "list_all writable (requested req)"
  shows "conn_call req tries c =
    and_then (await conn_ready (incoming c) (wrote (requested req) c)) (\<lambda>a. ret (conn_reply tries a))"
  using assms by (cases req) (simp_all add: conn_call_def requested_def idle_def conn_send_writable)

lemma wrote_connection [simp]:
  "cn_noNotify (wrote fs c) = cn_noNotify c" "cn_closes (wrote fs c) = cn_closes c"
  by (simp_all add: wrote_def)

lemma idle_not_ready: "idle c \<Longrightarrow> conn_ready c = None"
  by (simp add: conn_ready_def idle_def)

lemma conn_call_answered:
  assumes "idle c" and "list_all writable (requested req)" and "\<not> unasked_of_connection r"
    and "incoming c = Frame_In (method_frame 0 r) # rest"
  shows "conn_call req tries c =
    ret (conn_reply tries (Inr (Some r))) ((wrote (requested req) c)\<lparr>incoming := rest\<rparr>)"
proof -
  let ?c = "wrote (requested req) c"
  have i: "idle ?c" using assms(1) by simp
  then have r: "reader_state ?c = Reading" unfolding idle_def by blast
  have "await conn_ready rest (?c\<lparr>reader_state := Handing_Over_Connection (Some r)\<rparr>) =
      ret (Inr (Some r)) (?c\<lparr>reader_state := Reading, incoming := rest\<rparr>)"
    using i by (cases rest) (simp_all add: await.simps conn_ready_def idle_def)
  moreover have "?c\<lparr>reader_state := Reading, incoming := rest\<rparr> = ?c\<lparr>incoming := rest\<rparr>"
    using r by (cases ?c) simp
  ultimately have "await conn_ready (incoming c) ?c = ret (Inr (Some r)) (?c\<lparr>incoming := rest\<rparr>)"
    by (simp add: assms(4) await.simps idle_not_ready[OF i] read_connection_reply[OF r assms(3)])
  then show ?thesis by (simp add: conn_call_sent[OF assms(1,2)])
qed

text \<open>The peer closes the socket instead.\<close>

lemma conn_call_cut_off:
  assumes "idle c" and "list_all writable (requested req)" and "incoming c = Read_Error e # rest"
  shows "\<exists>c'. conn_call req tries c =
    ret (Some (Exception \<lparr>Code = FrameError, Reason = e, Server = False, Recover = False\<rparr>), None) c'"
proof -
  let ?c = "wrote (requested req) c" and ?e = "\<lparr>Code = FrameError, Reason = e, Server = False, Recover = False\<rparr>"
  have i: "idle ?c" using assms(1) by simp
  have "\<exists>d. conn_shutdown (Some ?e) ?c = ret () d \<and> cn_errors d = Some ?e"
    using i by (auto simp: idle_def conn_shutdown_def send_closes_def send_to_def close_chan_def emit_def
        registry_removeAll_def)
  then obtain d where d: "conn_shutdown (Some ?e) ?c = ret () d" "cn_errors d = Some ?e" by blast
  have "\<exists>c'. await conn_ready rest (d\<lparr>reader_state := Reader_Returned\<rparr>) = ret (Inl ?e) c'"
    using d(2) by (cases rest) (simp_all add: await.simps conn_ready_def)
  moreover have "read_input (Read_Error e) ?c = ret () (d\<lparr>reader_state := Reader_Returned\<rparr>)"
    using i d(1) by (simp add: read_input_def idle_def)
  ultimately have "\<exists>c'. await conn_ready (incoming c) ?c = ret (Inl ?e) c'"
    by (simp add: assms(3) await.simps idle_not_ready[OF i])
  then show ?thesis by (auto simp: conn_call_sent[OF assms(1,2)] conn_reply_def)
qed


text \<open>What the client writes, and what is negotiated.\<close>

definition start_ok :: "config \<Rightarrow> authentication \<Rightarrow> message" where
  "start_ok config auth = Connection_Message (ConnectionStartOk (connectionStartOk_zero
     \<lparr>connectionStartOk_Mechanism := fst auth, connectionStartOk_Response := snd auth,
      connectionStartOk_ClientProperties := client_properties (cf_Properties config)\<rparr>))"

definition tuned :: "config \<Rightarrow> connectionTune \<Rightarrow> int \<times> int \<times> int" where
  "tuned config tune =
     (pick (cf_Channels config) (int (unat (connectionTune_ChannelMax tune))),
      pick (cf_FrameSize config) (int (unat (connectionTune_FrameMax tune))),
      second * pick (in_seconds (cf_Heartbeat config)) (int (unat (connectionTune_Heartbeat tune))))"

definition tune_ok :: "int \<times> int \<times> int \<Rightarrow> message" where
  "tune_ok t = Connection_Message (ConnectionTuneOk (connectionTuneOk_zero
     \<lparr>connectionTuneOk_ChannelMax := word_of_int (fst t), connectionTuneOk_FrameMax := word_of_int (fst (snd t)),
      connectionTuneOk_Heartbeat := word_of_int (in_seconds (snd (snd t)))\<rparr>))"

definition open_vhost :: "config \<Rightarrow> message" where
  "open_vhost config = Connection_Message (ConnectionOpen (connectionOpen_zero
     \<lparr>connectionOpen_VirtualHost := cf_Vhost config\<rparr>))"

lemma handshake_writable [simp]:
  "writable Protocol_Header" "writable (method_frame i (Connection_Message (ConnectionTuneOk x)))"
  "writable (method_frame i (Connection_Message (ConnectionOpen y)))"
  by (simp_all add: writable_def method_frame_def methodFrame_write_def
      connectionTuneOk_write_def connectionOpen_write_def connection_ids writeShortstr_def Let_def
      write_u8_def write_u16_def write_u32_def writeFrame_eq with_payload_def protocolHeader_write_def)


text \<open>A reply of another type, or none.\<close>

definition denied :: "message list \<Rightarrow> input \<Rightarrow> bool" where
  "denied tries x \<longleftrightarrow> (\<exists>e. x = Read_Error e) \<or>
     (\<exists>r. x = Frame_In (method_frame 0 r) \<and> \<not> unasked_of_connection r \<and> message_id r \<notin> message_id ` set tries)"

lemma conn_call_denied:
  assumes "idle c" and "list_all writable (requested req)" and "incoming c = x # rest" and "denied tries x"
  shows "\<exists>e c'. conn_call req tries c = ret (Some e, None) c'"
proof (cases x)
  case (Frame_In f)
  then show ?thesis
    using assms(4) conn_call_answered[OF assms(1,2)] assms(3) by (auto simp: denied_def conn_reply_def)
next
  case (Read_Error e)
  then show ?thesis using conn_call_cut_off[OF assms(1,2)] assms(3) by blast
qed

abbreviation from_server :: "connection_message \<Rightarrow> input" where
  "from_server m \<equiv> Frame_In (method_frame 0 (Connection_Message m))"

lemma openVhost_steps:
  assumes "idle c" and "incoming c = x # rest"
  shows "(\<exists>m. x = from_server (ConnectionOpenOk m)) \<Longrightarrow>
      openVhost config c = ret None ((wrote [method_frame 0 (open_vhost config)] c)\<lparr>incoming := rest, cn_Vhost := cf_Vhost config\<rparr>)"
    and "denied [Connection_Message (ConnectionOpenOk connectionOpenOk_zero)] x \<Longrightarrow>
      \<exists>c'. openVhost config c = ret (Some (Exception ErrVhost)) c'"
proof -
  let ?ok = "Connection_Message (ConnectionOpenOk connectionOpenOk_zero)"
  have eq: "openVhost config c = and_then (conn_call (Some (open_vhost config)) [?ok] c) (\<lambda>(err, _) c1.
      if err \<noteq> None then ret (Some (Exception ErrVhost)) c1 else ret None (c1\<lparr>cn_Vhost := cf_Vhost config\<rparr>))"
    by (simp add: openVhost_def open_vhost_def)
  have w: "list_all writable (requested (Some (open_vhost config)))" by (simp add: requested_def open_vhost_def)
  show "openVhost config c = ret None ((wrote [method_frame 0 (open_vhost config)] c)\<lparr>incoming := rest, cn_Vhost := cf_Vhost config\<rparr>)"
    if x: "\<exists>m. x = from_server (ConnectionOpenOk m)"
  proof -
    obtain m where "x = from_server (ConnectionOpenOk m)" using x ..
    then show ?thesis
      using conn_call_answered[OF assms(1) w, of "Connection_Message (ConnectionOpenOk m)" rest "[?ok]"] assms(2)
      by (simp add: eq conn_reply_def requested_def connection_ids)
  qed
  show "\<exists>c'. openVhost config c = ret (Some (Exception ErrVhost)) c'" if "denied [?ok] x"
    using conn_call_denied[OF assms(1) w assms(2) that] by (auto simp: eq)
qed

text \<open>The state after the server's tuning.\<close>

definition tuned_by :: "config \<Rightarrow> connectionTune \<Rightarrow> connection \<Rightarrow> connection" where
  "tuned_by config tune c = wrote [method_frame 0 (tune_ok (tuned config tune))]
     (c\<lparr>cn_Channels := fst (tuned config tune), cn_FrameSize := fst (snd (tuned config tune)),
        cn_Heartbeat := snd (snd (tuned config tune)), cn_closes := cn_closes c @ [0]\<rparr>)"

lemma openTune_steps:
  assumes "idle c" and "cn_closes c = []" and "\<not> cn_noNotify c" and "incoming c = x # rest"
    and "writable (method_frame 0 (start_ok config auth))"
  shows "x = from_server (ConnectionTune tune) \<Longrightarrow> openTune config auth c =
      openVhost config (tuned_by config tune ((wrote [method_frame 0 (start_ok config auth)] c)\<lparr>incoming := rest\<rparr>))"
    and "denied [Connection_Message (ConnectionTune connectionTune_zero)] x \<Longrightarrow>
      \<exists>c'. openTune config auth c = ret (Some (Exception ErrCredentials)) c'"
proof -
  let ?tune = "Connection_Message (ConnectionTune connectionTune_zero)"
  have w: "list_all writable (requested (Some (start_ok config auth)))" using assms(5) by (simp add: requested_def)
  show "openTune config auth c =
      openVhost config (tuned_by config tune ((wrote [method_frame 0 (start_ok config auth)] c)\<lparr>incoming := rest\<rparr>))"
    if x: "x = from_server (ConnectionTune tune)"
  proof -
    have "sound_socket c" using assms(1) by (simp add: idle_def)
    then have "sound_socket ((wrote [method_frame 0 (start_ok config auth)] c)
        \<lparr>incoming := rest, cn_Channels := a, cn_FrameSize := b, cn_Heartbeat := h, cn_closes := l\<rparr>)" for a b h l
      by (simp add: sound_socket_def wrote_def)
    then show ?thesis
      using conn_call_answered[OF assms(1) w, of "Connection_Message (ConnectionTune tune)" rest "[?tune]"] assms(2-4) x
      by (simp add: openTune_def conn_reply_def requested_def connection_ids Connection_NotifyClose_def
          tuned_by_def tuned_def tune_ok_def Let_def conn_send_writable flip: start_ok_def)
  qed
  show "\<exists>c'. openTune config auth c = ret (Some (Exception ErrCredentials)) c'" if "denied [?tune] x"
    using conn_call_denied[OF assms(1) w assms(4) that] by (auto simp: openTune_def simp flip: start_ok_def)
qed


lemma openStart_steps:
  assumes "idle c" and "incoming c = from_server (ConnectionStart start) # rest"
  shows "openStart config c =
    (let c1 = c\<lparr>incoming := rest, cn_Major := int (unat (connectionStart_VersionMajor start)),
           cn_Minor := int (unat (connectionStart_VersionMinor start)),
           cn_Properties := connectionStart_ServerProperties start\<rparr> in
     case pickSASLMechanism (cf_SASL config) (split_spaces (connectionStart_Mechanisms start)) of
       None \<Rightarrow> ret (Some (Exception ErrSASL)) c1
     | Some auth \<Rightarrow> openTune config auth (c1\<lparr>cn_Mechanism := fst auth\<rparr>))"
  using conn_call_answered[OF assms(1), of None "Connection_Message (ConnectionStart start)" rest] assms(2)
  by (simp add: openStart_def conn_reply_def requested_def connection_ids Let_def)

text \<open>The client after \<open>start\<close>: what \<open>openTune\<close> starts from.\<close>

definition started :: "config \<Rightarrow> connectionStart \<Rightarrow> authentication \<Rightarrow> input list \<Rightarrow> connection" where
  "started config start auth rest = (wrote [Protocol_Header] (new_connection [] (\<lambda>_. None)))
     \<lparr>incoming := rest, cn_Major := int (unat (connectionStart_VersionMajor start)),
      cn_Minor := int (unat (connectionStart_VersionMinor start)),
      cn_Properties := connectionStart_ServerProperties start, cn_Mechanism := fst auth\<rparr>"

lemma started_idle [simp]:
  "idle (started config start auth rest)" "cn_closes (started config start auth rest) = []"
  "\<not> cn_noNotify (started config start auth rest)" "incoming (started config start auth rest) = rest"
  by (simp_all add: started_def idle_def new_connection_def wrote_def sound_socket_def)

lemma new_idle [simp]: "idle (new_connection xs (\<lambda>_. None))"
  by (simp add: idle_def new_connection_def sound_socket_def)

lemma Open_start:
  assumes "pickSASLMechanism (cf_SASL config) (split_spaces (connectionStart_Mechanisms start)) = None"
  shows "\<exists>c. Open config (from_server (ConnectionStart start) # rest) (\<lambda>_. None) = ret (Some (Exception ErrSASL)) c \<and>
    events c = [Wrote Protocol_Header]"
proof -
  let ?c = "new_connection (from_server (ConnectionStart start) # rest) (\<lambda>_. None)"
  have "conn_send Protocol_Header ?c = (None, wrote [Protocol_Header] ?c)"
    by (simp add: conn_send_writable sound_socket_def new_connection_def)
  moreover have "idle (wrote [Protocol_Header] ?c)" by simp
  note openStart_steps[OF this, of start rest config]
  ultimately show ?thesis
    using assms by (simp add: Open_def conn_open_def Let_def new_connection_def)
qed

lemma Open_started:
  assumes "pickSASLMechanism (cf_SASL config) (split_spaces (connectionStart_Mechanisms start)) = Some auth"
  shows "Open config (from_server (ConnectionStart start) # rest) (\<lambda>_. None) =
    openTune config auth (started config start auth rest)"
proof -
  let ?inputs = "from_server (ConnectionStart start) # rest"
  have i: "idle (wrote [Protocol_Header] (new_connection ?inputs (\<lambda>_. None)))"
    by simp
  have "conn_send Protocol_Header (new_connection ?inputs (\<lambda>_. None)) =
      (None, wrote [Protocol_Header] (new_connection ?inputs (\<lambda>_. None)))"
    by (simp add: conn_send_writable sound_socket_def new_connection_def)
  then show ?thesis
    using openStart_steps[OF i, of start rest] assms
    by (simp add: Open_def conn_open_def Let_def started_def new_connection_def wrote_def)
qed

text \<open>The client after \<open>tune\<close>.\<close>

definition tuned_client :: "config \<Rightarrow> connectionStart \<Rightarrow> authentication \<Rightarrow> connectionTune \<Rightarrow> input list \<Rightarrow> connection" where
  "tuned_client config start auth tune rest =
     tuned_by config tune ((wrote [method_frame 0 (start_ok config auth)]
       (started config start auth (from_server (ConnectionTune tune) # rest)))\<lparr>incoming := rest\<rparr>)"

lemma tuned_client_idle:
  "idle (tuned_client config start auth tune rest)" "incoming (tuned_client config start auth tune rest) = rest"
  by (simp_all add: tuned_client_def tuned_by_def started_def idle_def new_connection_def wrote_def sound_socket_def)

lemma Open_tuned:
  assumes "pickSASLMechanism (cf_SASL config) (split_spaces (connectionStart_Mechanisms start)) = Some auth"
    and "writable (method_frame 0 (start_ok config auth))"
  shows "Open config (from_server (ConnectionStart start) # from_server (ConnectionTune tune) # rest) (\<lambda>_. None) =
    openVhost config (tuned_client config start auth tune rest)"
  using openTune_steps(1)[of "started config start auth (from_server (ConnectionTune tune) # rest)" _ rest config auth tune]
    Open_started[OF assms(1)] assms(2)
  by (simp add: tuned_client_def)


text \<open> without a mechanism in common the handshake ends before anything secret is sent; an answer to
  \<open>start-ok\<close> that is not \<open>tune\<close>, also none, is reported as bad credentials, and one to \<open>open\<close> that
  is not \<open>open-ok\<close> as a bad vhost.\<close>

theorem handshake_fails:
  assumes "writable (method_frame 0 (start_ok config auth))"
    and "denied [Connection_Message (ConnectionTune connectionTune_zero)] x"
    and "denied [Connection_Message (ConnectionOpenOk connectionOpenOk_zero)] y"
  shows "case pickSASLMechanism (cf_SASL config) (split_spaces (connectionStart_Mechanisms start)) of
      None \<Rightarrow>
        \<exists>c. Open config (from_server (ConnectionStart start) # xs) (\<lambda>_. None) = ret (Some (Exception ErrSASL)) c \<and>
          events c = [Wrote Protocol_Header]
    | Some a \<Rightarrow> a = auth \<longrightarrow>
        (\<exists>c. Open config (from_server (ConnectionStart start) # x # xs) (\<lambda>_. None) =
          ret (Some (Exception ErrCredentials)) c) \<and>
        (\<exists>c. Open config (from_server (ConnectionStart start) # from_server (ConnectionTune tune) # y # xs) (\<lambda>_. None) =
          ret (Some (Exception ErrVhost)) c)"
proof (cases "pickSASLMechanism (cf_SASL config) (split_spaces (connectionStart_Mechanisms start))")
  case None
  then show ?thesis using Open_start by simp
next
  case (Some a)
  have "\<exists>c. Open config (from_server (ConnectionStart start) # x # xs) (\<lambda>_. None) =
      ret (Some (Exception ErrCredentials)) c" if "a = auth"
    using openTune_steps(2)[OF started_idle(1-4) assms(1,2)] Open_started[of config start auth "x # xs"] Some that by simp
  moreover have "\<exists>c. Open config (from_server (ConnectionStart start) # from_server (ConnectionTune tune) # y # xs) (\<lambda>_. None) =
      ret (Some (Exception ErrVhost)) c" if "a = auth"
    using openVhost_steps(2)[OF tuned_client_idle assms(3)] Open_tuned[of config start auth tune "y # xs"] assms(1) Some that
    by simp
  ultimately show ?thesis using Some by simp
qed


section \<open>Frames that stop the client\<close>

lemma close_writable [simp]: "writable (method_frame i (Connection_Message (ConnectionClose x)))"
  by (simp add: writable_def method_frame_def methodFrame_write_def connection_ids connectionClose_write_def
      writeShortstr_def Let_def write_u8_def write_u16_def writeFrame_eq with_payload_def)

lemma await_stopped:
  "ready c = None \<Longrightarrow> reader_state c \<noteq> Reading \<Longrightarrow> await ready xs c = None"
  by (cases xs) (simp_all add: await.simps read_input_def)

lemma closeWith_stops:
  assumes "sound_socket c" and "cn_errors c = None"
  shows "\<exists>c'. closeWith e c = ret () c' \<and> reader_state c' = Awaiting_Close e \<and> channels c' = channels c \<and>
    sound_socket c' \<and> cn_errors c' = None"
  using assms by (auto simp: closeWith_def conn_send_writable wrote_def sound_socket_def)

text \<open>A frame for which the reader itself closes the connection: one that is neither a method nor a
  heartbeat on channel 0, and a method on a channel that is not open.\<close>

definition closes_connection :: "connection \<Rightarrow> frame \<Rightarrow> bool" where
  "closes_connection c f \<longleftrightarrow>
     (case f of
        Method_Frame mf \<Rightarrow> mf_ChannelId mf \<noteq> 0 \<and> registry_get (mf_ChannelId mf) c = None \<and>
          (case mf_Method mf of
             Some (Channel_Message (ChannelClose _)) \<Rightarrow> False
           | Some (Channel_Message (ChannelCloseOk _)) \<Rightarrow> False
           | _ \<Rightarrow> True)
      | Header_Frame hf \<Rightarrow> hf_ChannelId hf = 0
      | Body_Frame bf \<Rightarrow> bf_ChannelId bf = 0
      | _ \<Rightarrow> False)"

lemma closes_connection_demux: "closes_connection c f \<Longrightarrow> \<exists>e. demux f c = closeWith e c"
  by (auto simp: closes_connection_def demux_def dispatch0_def dispatchN_def dispatchClosed_def
      split: frame.splits option.splits message.splits channel_message.splits)


text \<open> a heartbeat is expected on channel 0 only: on an open channel it makes the reader panic, in
  whichever state the channel is.\<close>

theorem stray_heartbeat_panics:
  assumes "registry_get i c = Some p" and "i \<noteq> 0" and "reader_state c = Reading"
  shows "read_input (Frame_In (Heartbeat_Frame \<lparr>hb_ChannelId = i\<rparr>)) c = panics (UserPanic ''unexpected frame type'')"
  using assms
  by (simp add: read_input_def demux_def dispatchN_def ch_receive_def recvMethod_def recvHeader_def
      recvContent_def split: receiver.splits)


section \<open>An example\<close>

definition sample_auth :: authentication where
  "sample_auth = PlainAuth (ascii ''guest'') (ascii ''secret'')"

definition sample_config :: config where
  "sample_config = \<lparr>cf_SASL = [sample_auth], cf_Vhost = ascii ''/'', cf_Channels = 0, cf_FrameSize = 4096,
     cf_Heartbeat = 10 * second, cf_Properties = []\<rparr>"

definition sample_start :: "string \<Rightarrow> connectionStart" where
  "sample_start s = connectionStart_zero\<lparr>connectionStart_Mechanisms := ascii s\<rparr>"

definition sample_tune :: connectionTune where
  "sample_tune = connectionTune_zero\<lparr>connectionTune_ChannelMax := 100, connectionTune_FrameMax := 131072\<rparr>"

lemma sample_start_ok: "writable (method_frame 0 (start_ok sample_config sample_auth))"
  by code_simp

lemma sample_mechanisms:
  "pickSASLMechanism (cf_SASL sample_config) (split_spaces (connectionStart_Mechanisms (sample_start ''CRAM PLAIN''))) =
    Some sample_auth"
  "pickSASLMechanism (cf_SASL sample_config) (split_spaces (connectionStart_Mechanisms (sample_start ''CRAM''))) = None"
  by code_simp+


theorem handshake_fails_witness:
  "(\<exists>c. Open sample_config [from_server (ConnectionStart (sample_start ''CRAM PLAIN'')), Read_Error []] (\<lambda>_. None) =
      ret (Some (Exception ErrCredentials)) c) \<and>
   (\<exists>c. Open sample_config [from_server (ConnectionStart (sample_start ''CRAM PLAIN'')),
      from_server (ConnectionTune sample_tune), Read_Error []] (\<lambda>_. None) = ret (Some (Exception ErrVhost)) c)"
proof -
  have d: "denied tries (Read_Error [])" for tries by (simp add: denied_def)
  show ?thesis
    using handshake_fails[OF sample_start_ok d d, of "sample_start ''CRAM PLAIN''" "[]" sample_tune] sample_mechanisms(1)
    by simp
qed



theorem stray_heartbeat_panics_witness:
  "read_input (Frame_In (Heartbeat_Frame \<lparr>hb_ChannelId = 1\<rparr>)) (sample_served []) =
    panics (UserPanic ''unexpected frame type'')"
  by (rule stray_heartbeat_panics[of _ _ 0])
    (simp_all add: sample_served_def new_connection_def registry_get_def)

end
