(* ===== verification/Rep_Messages.thy ===== *)
theory Rep_Messages
  imports Rep_World
begin

text \<open>
  The messages between a remote representative and its clients: what \<open>json.Marshal\<close> and
  \<open>json.Unmarshal\<close> do with the structs of \<open>types.go\<close> under their field tags, over JSON values, and
  the payloads, which are the text of a JSON value or another text.  A number is an integer
  literal (an \<open>int\<close> was written) or the shortest text of a finite float, which reads back as that
  float; NaN and the infinities cannot be written.  Strings are carried as they are (Go replaces
  bytes that are not UTF-8; the guids of the program are ASCII).
\<close>

section \<open>JSON values\<close>

datatype number = IntLit int | FloatLit float64

datatype json =
    JNull
  | JBool bool
  | JNum number
  | JStr string
  | JArr "json list"
  | JObj "(string \<times> json) list"

datatype payload = Json json | Text string

section \<open>Marshal\<close>

definition json_float :: "float64 \<Rightarrow> json option" where
  "json_float f = (if is_finite f then Some (JNum (FloatLit f)) else None)"

text \<open>\<open>json:"c,omitempty"\<close>: a count of zero is left out.\<close>

definition json_resources :: "resources \<Rightarrow> json option" where
  "json_resources r =
     (case (json_float (DiskMB r), json_float (MemoryMB r)) of
        (Some d, Some m) \<Rightarrow>
          Some (JObj ([(''d'', d), (''m'', m)] @
            (if Containers r = 0 then [] else [(''c'', JNum (IntLit (Containers r)))])))
      | _ \<Rightarrow> None)"

definition json_instance :: "app_instance \<Rightarrow> json option" where
  "json_instance i =
     map_option (\<lambda>r. JObj [(''a'', JStr (AppGuid i)), (''i'', JStr (InstanceGuid i)), (''r'', r)])
       (json_resources (Resources i))"

text \<open>A list is marshalled element by element; the nil slice and the empty one both read as empty.\<close>

fun json_list :: "('a \<Rightarrow> json option) \<Rightarrow> 'a list \<Rightarrow> json list option" where
  "json_list f [] = Some []"
| "json_list f (x # xs) =
     (case (f x, json_list f xs) of (Some j, Some js) \<Rightarrow> Some (j # js) | _ \<Rightarrow> None)"

definition json_instances :: "app_instance list \<Rightarrow> json option" where
  "json_instances is = map_option JArr (json_list json_instance is)"

definition json_score_result :: "score_result \<Rightarrow> json option" where
  "json_score_result s =
     map_option (\<lambda>f. JObj [(''r'', JStr (Rep s)), (''s'', f), (''e'', JStr (Error s))])
       (json_float (Score s))"

text \<open>\<open>payload, _ := json.Marshal(v)\<close>: on an error the payload is empty.\<close>

definition payload_of :: "json option \<Rightarrow> payload" where
  "payload_of j = (case j of Some v \<Rightarrow> Json v | None \<Rightarrow> Text '''')"

section \<open>Unmarshal\<close>

text \<open>
  Decoding goes on after a value of the wrong kind and returns the error in the end, so a decoder
  gives the value and whether there was an error.  Keys match in either case; a key that is not
  known is skipped; \<open>null\<close> leaves a value as it is.
\<close>

definition fold_key :: "string \<Rightarrow> string" where
  "fold_key k =
     map (\<lambda>c. let n = of_char c :: nat in if 65 \<le> n \<and> n \<le> 90 then char_of (n + 32) else c) k"

fun un_string :: "json \<Rightarrow> string \<Rightarrow> string \<times> bool" where
  "un_string (JStr s) old = (s, False)"
| "un_string JNull old = (old, False)"
| "un_string _ old = (old, True)"

fun un_float :: "json \<Rightarrow> float64 \<Rightarrow> float64 \<times> bool" where
  "un_float (JNum (FloatLit f)) old = (f, False)"
| "un_float (JNum (IntLit n)) old =
     (if is_finite (float_of_int n) then (float_of_int n, False) else (old, True))"
| "un_float JNull old = (old, False)"
| "un_float _ old = (old, True)"

fun un_int :: "json \<Rightarrow> int \<Rightarrow> int \<times> bool" where
  "un_int (JNum (IntLit n)) old =
     (if - (2 ^ 63) \<le> n \<and> n < 2 ^ 63 then (n, False) else (old, True))"
| "un_int JNull old = (old, False)"
| "un_int _ old = (old, True)"

text \<open>A struct: \<open>field k v\<close> stores the value \<open>v\<close> of the key \<open>k\<close>.\<close>

fun un_fields :: "(string \<Rightarrow> json \<Rightarrow> 'a \<Rightarrow> 'a \<times> bool) \<Rightarrow> (string \<times> json) list \<Rightarrow> 'a \<Rightarrow> 'a \<times> bool" where
  "un_fields field [] x = (x, False)"
| "un_fields field ((k, v) # kvs) x =
     (let (x1, e1) = field (fold_key k) v x; (x2, e2) = un_fields field kvs x1 in (x2, e1 \<or> e2))"

fun un_struct :: "(string \<Rightarrow> json \<Rightarrow> 'a \<Rightarrow> 'a \<times> bool) \<Rightarrow> json \<Rightarrow> 'a \<Rightarrow> 'a \<times> bool" where
  "un_struct field (JObj kvs) x = un_fields field kvs x"
| "un_struct field JNull x = (x, False)"
| "un_struct field _ x = (x, True)"

definition zero_resources :: resources where
  "zero_resources = \<lparr>DiskMB = Fin 0, MemoryMB = Fin 0, Containers = 0\<rparr>"

definition zero_app_instance :: app_instance where
  "zero_app_instance = \<lparr>AppGuid = '''', InstanceGuid = '''', Resources = zero_resources\<rparr>"

definition zero_score_result :: score_result where
  "zero_score_result = \<lparr>Rep = '''', Score = Fin 0, Error = ''''\<rparr>"

definition resources_field :: "string \<Rightarrow> json \<Rightarrow> resources \<Rightarrow> resources \<times> bool" where
  "resources_field k v x =
     (if k = ''d'' then (let (f, e) = un_float v (DiskMB x) in (x\<lparr>DiskMB := f\<rparr>, e))
      else if k = ''m'' then (let (f, e) = un_float v (MemoryMB x) in (x\<lparr>MemoryMB := f\<rparr>, e))
      else if k = ''c'' then (let (n, e) = un_int v (Containers x) in (x\<lparr>Containers := n\<rparr>, e))
      else (x, False))"

definition instance_field :: "string \<Rightarrow> json \<Rightarrow> app_instance \<Rightarrow> app_instance \<times> bool" where
  "instance_field k v x =
     (if k = ''a'' then (let (s, e) = un_string v (AppGuid x) in (x\<lparr>AppGuid := s\<rparr>, e))
      else if k = ''i'' then (let (s, e) = un_string v (InstanceGuid x) in (x\<lparr>InstanceGuid := s\<rparr>, e))
      else if k = ''r''
        then (let (r, e) = un_struct resources_field v (Resources x) in (x\<lparr>Resources := r\<rparr>, e))
      else (x, False))"

definition score_result_field :: "string \<Rightarrow> json \<Rightarrow> score_result \<Rightarrow> score_result \<times> bool" where
  "score_result_field k v x =
     (if k = ''r'' then (let (s, e) = un_string v (Rep x) in (x\<lparr>Rep := s\<rparr>, e))
      else if k = ''s'' then (let (f, e) = un_float v (Score x) in (x\<lparr>Score := f\<rparr>, e))
      else if k = ''e'' then (let (s, e) = un_string v (Error x) in (x\<lparr>Error := s\<rparr>, e))
      else (x, False))"

fun un_list :: "('a \<Rightarrow> json \<Rightarrow> 'a \<times> bool) \<Rightarrow> 'a \<Rightarrow> json \<Rightarrow> 'a list \<times> bool" where
  "un_list f z (JArr js) = (map (\<lambda>j. fst (f z j)) js, list_ex (\<lambda>j. snd (f z j)) js)"
| "un_list f z JNull = ([], False)"
| "un_list f z _ = ([], True)"

text \<open>A text that is not JSON is a syntax error and stores nothing.\<close>

fun unmarshal :: "(json \<Rightarrow> 'a \<times> bool) \<Rightarrow> 'a \<Rightarrow> payload \<Rightarrow> 'a \<times> bool" where
  "unmarshal f z (Json j) = f j"
| "unmarshal f z (Text s) = (z, True)"

definition un_instance :: "payload \<Rightarrow> app_instance \<times> bool" where
  "un_instance = unmarshal (\<lambda>j. un_struct instance_field j zero_app_instance) zero_app_instance"

definition un_instances :: "payload \<Rightarrow> app_instance list \<times> bool" where
  "un_instances = unmarshal (un_list (\<lambda>z j. un_struct instance_field j z) zero_app_instance) []"

definition un_resources :: "payload \<Rightarrow> resources \<times> bool" where
  "un_resources = unmarshal (\<lambda>j. un_struct resources_field j zero_resources) zero_resources"

definition un_score_result :: "payload \<Rightarrow> score_result \<times> bool" where
  "un_score_result =
     unmarshal (\<lambda>j. un_struct score_result_field j zero_score_result) zero_score_result"


section \<open>What is written reads back\<close>

text \<open>Resources and instances that can be written: finite floats, and a count of 64 bits.\<close>

definition wire_resources :: "resources \<Rightarrow> bool" where
  "wire_resources r \<longleftrightarrow>
     is_finite (DiskMB r) \<and> is_finite (MemoryMB r) \<and>
     - (2 ^ 63) \<le> Containers r \<and> Containers r < 2 ^ 63"

definition wire_instance :: "app_instance \<Rightarrow> bool" where
  "wire_instance i \<longleftrightarrow> wire_resources (Resources i)"

lemma fold_key_small [simp]:
  "fold_key ''a'' = ''a''" "fold_key ''c'' = ''c''" "fold_key ''d'' = ''d''" "fold_key ''e'' = ''e''"
  "fold_key ''i'' = ''i''" "fold_key ''m'' = ''m''" "fold_key ''r'' = ''r''" "fold_key ''s'' = ''s''"
  by (simp_all add: fold_key_def)

lemma resources_written:
  assumes "wire_resources r"
  obtains j where "json_resources r = Some j" "un_struct resources_field j zero_resources = (r, False)"
proof -
  obtain j where j: "json_resources r = Some j"
    using assms by (auto simp: json_resources_def json_float_def wire_resources_def)
  moreover have "un_struct resources_field j zero_resources = (r, False)"
    using assms j
    by (cases r) (auto simp: json_resources_def json_float_def wire_resources_def resources_field_def
        zero_resources_def Let_def split: if_splits)
  ultimately show thesis by (rule that)
qed

lemma un_struct_instance:
  assumes "json_resources r = Some j" and "un_struct resources_field j zero_resources = (r, False)"
  shows "un_struct instance_field (JObj [(''a'', JStr a), (''i'', JStr g), (''r'', j)]) zero_app_instance =
    (\<lparr>AppGuid = a, InstanceGuid = g, Resources = r\<rparr>, False)"
  using assms by (simp add: instance_field_def zero_app_instance_def Let_def)

lemma instance_written:
  assumes "wire_instance i"
  obtains j where "json_instance i = Some j" "un_struct instance_field j zero_app_instance = (i, False)"
proof -
  from assms have "wire_resources (Resources i)" by (simp add: wire_instance_def)
  then obtain j where j: "json_resources (Resources i) = Some j"
    "un_struct resources_field j zero_resources = (Resources i, False)"
    by (rule resources_written)
  show thesis
    by (rule that[of "JObj [(''a'', JStr (AppGuid i)), (''i'', JStr (InstanceGuid i)), (''r'', j)]"])
      (use j un_struct_instance[OF j] in \<open>simp_all add: json_instance_def\<close>)
qed

lemma instances_written:
  assumes "list_all wire_instance is"
  obtains js where "json_list json_instance is = Some js"
    "un_list (\<lambda>z j. un_struct instance_field j z) zero_app_instance (JArr js) = (is, False)"
proof -
  have "\<exists>js. json_list json_instance is = Some js \<and>
      un_list (\<lambda>z j. un_struct instance_field j z) zero_app_instance (JArr js) = (is, False)"
    using assms
  proof (induction "is")
    case (Cons i "is")
    then have "wire_instance i" by simp
    then obtain j where "json_instance i = Some j" "un_struct instance_field j zero_app_instance = (i, False)"
      by (rule instance_written)
    with Cons show ?case by auto
  qed simp
  then show thesis using that by blast
qed

lemma score_result_written:
  assumes "is_finite (Score s)"
  shows "un_score_result (payload_of (json_score_result s)) = (s, False)"
  using assms
  by (cases s) (simp add: un_score_result_def payload_of_def json_score_result_def json_float_def
      score_result_field_def zero_score_result_def Let_def)

text \<open>What the other side reads of an instance, of a list of instances and of resources.\<close>

lemma payload_reads [simp]:
  "wire_instance i \<Longrightarrow> un_instance (payload_of (json_instance i)) = (i, False)"
  "list_all wire_instance is \<Longrightarrow> un_instances (payload_of (json_instances is)) = (is, False)"
  "wire_resources r \<Longrightarrow> un_resources (payload_of (json_resources r)) = (r, False)"
proof -
  show "wire_instance i \<Longrightarrow> un_instance (payload_of (json_instance i)) = (i, False)"
    by (erule instance_written) (simp add: payload_of_def un_instance_def)
  show "list_all wire_instance is \<Longrightarrow> un_instances (payload_of (json_instances is)) = (is, False)"
    by (erule instances_written) (simp add: payload_of_def json_instances_def un_instances_def)
  show "wire_resources r \<Longrightarrow> un_resources (payload_of (json_resources r)) = (r, False)"
    by (erule resources_written) (simp add: payload_of_def un_resources_def)
qed

text \<open>Nothing that is not finite is written.\<close>

lemma json_score_result_None: "json_score_result s = None \<longleftrightarrow> \<not> is_finite (Score s)"
  by (simp add: json_score_result_def json_float_def)



end
