(* ===== verification/Remote_Rep.thy ===== *)
theory Remote_Rep
  imports Rep_Messages
begin

text \<open>
  The servers a remote representative runs: the callbacks of \<open>reprabbitserver.go\<close> and the
  dispatch of \<open>rabbit_server.go\<close>; the subscriptions of \<open>repnatsserver.go\<close>.  Then the world between
  a client and its representatives: for every request a fate the message bus gives it, arbitrary.
  Last, the contract \<open>bounded_rep_delegate\<close>, under which everything a representative answers can
  be written.
\<close>

section \<open>reprabbitserver.go\<close>

definition errorResponse :: payload where "errorResponse = Text ''error''"
definition successResponse :: payload where "successResponse = Text ''ok''"

text \<open>The answer of a representative to a request for a score, as both servers build it.\<close>

definition score_response :: "string \<Rightarrow> float64 \<times> go_error \<Rightarrow> score_result" where
  "score_response g r =
     (let response = \<lparr>Rep = g, Score = Fin 0, Error = ''''\<rparr>; (sc, err) = r in
      case err of Some e \<Rightarrow> response\<lparr>Error := e\<rparr> | None \<Rightarrow> response\<lparr>Score := sc\<rparr>)"

type_synonym 'd callback = "payload \<Rightarrow> 'd auction_rep \<Rightarrow> payload \<times> 'd auction_rep"

definition rabbit_total_resources :: "'d delegate_ops \<Rightarrow> 'd callback" where
  "rabbit_total_resources ops req rep = (payload_of (json_resources (repTotalResources ops rep)), rep)"

definition rabbit_reset :: "'d delegate_ops \<Rightarrow> 'd callback" where
  "rabbit_reset ops req rep = (successResponse, repReset ops rep)"

definition rabbit_set_instances :: "'d delegate_ops \<Rightarrow> 'd callback" where
  "rabbit_set_instances ops req rep =
     (let (insts, err) = un_instances req in
      if err then (errorResponse, rep) else (successResponse, repSetInstances ops insts rep))"

definition rabbit_instances :: "'d delegate_ops \<Rightarrow> 'd callback" where
  "rabbit_instances ops req rep =
     (let (insts, rep1) = repInstances ops rep in (payload_of (json_instances insts), rep1))"

definition rabbit_score :: "'d delegate_ops \<Rightarrow> 'd callback" where
  "rabbit_score ops req rep =
     (let (inst, err) = un_instance req in
      if err then (errorResponse, rep)
      else let (r, rep1) = repScore ops inst rep in
           (payload_of (json_score_result (score_response (Guid rep) r)), rep1))"

definition rabbit_reserve :: "'d delegate_ops \<Rightarrow> 'd callback" where
  "rabbit_reserve ops req rep =
     (let (inst, err) = un_instance req in
      if err then (errorResponse, rep)
      else let (r, rep1) = repScoreThenTentativelyReserve ops inst rep in
           (payload_of (json_score_result (score_response (Guid rep) r)), rep1))"

definition rabbit_release :: "'d delegate_ops \<Rightarrow> 'd callback" where
  "rabbit_release ops req rep =
     (let (inst, err) = un_instance req in
      if err then (errorResponse, rep)
      else (successResponse, snd (repReleaseReservation ops inst rep)))"

definition rabbit_claim :: "'d delegate_ops \<Rightarrow> 'd callback" where
  "rabbit_claim ops req rep =
     (let (inst, err) = un_instance req in
      if err then (errorResponse, rep) else (successResponse, snd (repClaim ops inst rep)))"

text \<open>\<open>Start\<close>: the handlers of the subjects.\<close>

definition rabbit_handlers :: "'d delegate_ops \<Rightarrow> string \<rightharpoonup> 'd callback" where
  "rabbit_handlers ops =
     [''total_resources'' \<mapsto> rabbit_total_resources ops,
      ''reset'' \<mapsto> rabbit_reset ops,
      ''set_instances'' \<mapsto> rabbit_set_instances ops,
      ''instances'' \<mapsto> rabbit_instances ops,
      ''score'' \<mapsto> rabbit_score ops,
      ''score_then_tentatively_reserve'' \<mapsto> rabbit_reserve ops,
      ''release-reservation'' \<mapsto> rabbit_release ops,
      ''claim'' \<mapsto> rabbit_claim ops]"

text \<open>\<open>RabbitServer.dispatch\<close>: a subject without a handler gets no response.\<close>

definition rabbit_dispatch ::
    "(string \<rightharpoonup> 'd callback) \<Rightarrow> string \<Rightarrow> payload \<Rightarrow> 'd auction_rep \<Rightarrow> payload option \<times> 'd auction_rep" where
  "rabbit_dispatch handlers subject body rep =
     (case handlers subject of
        None \<Rightarrow> (None, rep)
      | Some callback \<Rightarrow> (let (response, rep1) = callback body rep in (Some response, rep1)))"

section \<open>repnatsserver.go\<close>

text \<open>
  A subscription runs with a message and publishes replies to its \<open>ReplyTo\<close>.  Two of them panic on
  a payload they cannot read, and \<open>set_instances\<close> goes on after it has published the error.
\<close>

type_synonym 'd subscription = "payload \<Rightarrow> 'd auction_rep \<Rightarrow> (payload list \<times> 'd auction_rep) outcome"

definition nats_total_resources :: "'d delegate_ops \<Rightarrow> 'd subscription" where
  "nats_total_resources ops msg rep =
     Ret ([payload_of (json_resources (repTotalResources ops rep))], rep)"

definition nats_reset :: "'d delegate_ops \<Rightarrow> 'd subscription" where
  "nats_reset ops msg rep = Ret ([successResponse], repReset ops rep)"

definition nats_set_instances :: "'d delegate_ops \<Rightarrow> 'd subscription" where
  "nats_set_instances ops msg rep =
     (let (insts, err) = un_instances msg in
      Ret ((if err then [errorResponse] else []) @ [successResponse], repSetInstances ops insts rep))"

definition nats_instances :: "'d delegate_ops \<Rightarrow> 'd subscription" where
  "nats_instances ops msg rep =
     (let (insts, rep1) = repInstances ops rep in Ret ([payload_of (json_instances insts)], rep1))"

definition nats_score :: "'d delegate_ops \<Rightarrow> 'd subscription" where
  "nats_score ops msg rep =
     (let (inst, err) = un_instance msg in
      if err then Panic (UserPanic ''json'')
      else let (r, rep1) = repScore ops inst rep in
           Ret ([payload_of (json_score_result (score_response (Guid rep) r))], rep1))"

definition nats_reserve :: "'d delegate_ops \<Rightarrow> 'd subscription" where
  "nats_reserve ops msg rep =
     (let (inst, err) = un_instance msg in
      if err then Panic (UserPanic ''json'')
      else let (r, rep1) = repScoreThenTentativelyReserve ops inst rep in
           Ret ([payload_of (json_score_result (score_response (Guid rep) r))], rep1))"

definition nats_release :: "'d delegate_ops \<Rightarrow> 'd subscription" where
  "nats_release ops msg rep =
     (let (inst, err) = un_instance msg in
      if err then Ret ([errorResponse], rep)
      else Ret ([successResponse], snd (repReleaseReservation ops inst rep)))"

definition nats_claim :: "'d delegate_ops \<Rightarrow> 'd subscription" where
  "nats_claim ops msg rep =
     (let (inst, err) = un_instance msg in
      if err then Ret ([errorResponse], rep)
      else Ret ([successResponse], snd (repClaim ops inst rep)))"

text \<open>\<open>Start\<close>: the subscriptions; a representative's own begin with its guid and a dot.\<close>

definition nats_subscriptions :: "'d delegate_ops \<Rightarrow> string \<rightharpoonup> 'd subscription" where
  "nats_subscriptions ops =
     [''total_resources'' \<mapsto> nats_total_resources ops,
      ''reset'' \<mapsto> nats_reset ops,
      ''set_instances'' \<mapsto> nats_set_instances ops,
      ''instances'' \<mapsto> nats_instances ops,
      ''score'' \<mapsto> nats_score ops,
      ''score_then_tentatively_reserve'' \<mapsto> nats_reserve ops,
      ''release-reservation'' \<mapsto> nats_release ops,
      ''claim'' \<mapsto> nats_claim ops]"

section \<open>The bus\<close>

text \<open>
  What becomes of a request: it is answered in time; it is carried out, but the answer is lost or
  comes after the time-out; it is lost; or the bus refuses it with an error.
\<close>

datatype fate = Answered | Late | Lost | Refused string

record 'd bus_world = "'d rep_world" +
  fates :: "nat \<Rightarrow> fate"
  fates_read :: nat

definition next_fate :: "('d, 'z) bus_world_scheme \<Rightarrow> fate \<times> ('d, 'z) bus_world_scheme" where
  "next_fate w = (fates w (fates_read w), w\<lparr>fates_read := Suc (fates_read w)\<rparr>)"

text \<open>A bus that answers every request.\<close>

definition answering :: "('d, 'z) bus_world_scheme \<Rightarrow> bool" where
  "answering w \<longleftrightarrow> (\<forall>n. fates w n = Answered)"

lemma bus_frame [simp]:
  "answering (w\<lparr>R := r\<rparr>) = answering w"
  "answering (w\<lparr>clock_reads := n\<rparr>) = answering w"
  "answering (w\<lparr>sched := r\<rparr>) = answering w"
  "answering (w\<lparr>others_run := n\<rparr>) = answering w"
  "answering (w\<lparr>reps := f\<rparr>) = answering w"
  "answering (w\<lparr>fates_read := n\<rparr>) = answering w"
  "answering (w\<lparr>entropy_reads := n\<rparr>) = answering w"
  by (simp_all add: answering_def)

lemma bus_pool_frame [simp]:
  "pool_ok good adm i ks (w\<lparr>fates_read := n\<rparr>) = pool_ok good adm i ks w"
  "pool_ok good adm i ks (w\<lparr>entropy_reads := n\<rparr>) = pool_ok good adm i ks w"
  "pool_holders holds i (w\<lparr>fates_read := n\<rparr>) = pool_holders holds i w"
  "pool_holders holds i (w\<lparr>entropy_reads := n\<rparr>) = pool_holders holds i w"
  by (simp_all add: pool_ok_def pool_holders_def)

lemma snd_RandomGuid: "snd (RandomGuid w) = w\<lparr>entropy_reads := Suc (entropy_reads w)\<rparr>"
  by (simp add: RandomGuid_def Let_def split: option.split)

lemma time_Sleep_answering: "time_Sleep ops w = Ret w' \<Longrightarrow> answering w' = answering w"
  by (auto dest!: time_Sleep_frame)

section \<open>Delegates whose answers can be written\<close>

text \<open>
  What remains is a part of the totals, which are not zero; fewer than \<open>2\<^sup>5\<^sup>3\<close> instances; and the
  instances asked about can be written.  Then every score is finite.
\<close>

locale bounded_rep_delegate = rep_delegate +
  assumes remaining_within: "inv d \<Longrightarrow>
      within_totals (fst (dRemainingResources ops d)) (dTotalResources ops d)"
    and few_instances: "inv d \<Longrightarrow>
      0 \<le> fst (dNumInstancesForAppGuid ops a d) \<and> fst (dNumInstancesForAppGuid ops a d) < 2 ^ 53"
    and adm_wire: "adm i \<Longrightarrow> wire_instance i"
begin

lemma score_finite:
  assumes "inv d"
  defines "d1 \<equiv> snd (dRemainingResources ops d)"
  shows "is_finite (score (fst (dRemainingResources ops d)) (dTotalResources ops d1)
    (fst (dNumInstancesForAppGuid ops a d1)))"
proof -
  have "inv d1" "dTotalResources ops d1 = dTotalResources ops d"
    using assms(1) by (simp_all add: d1_def remaining_inv remaining_total)
  then show ?thesis
    using score_value(1)[OF remaining_within[OF assms(1)]] few_instances[of d1 a] by simp
qed

lemma repScore_finite: "inv (delegate rep) \<Longrightarrow> is_finite (fst (fst (repScore ops i rep)))"
  using score_finite[of "delegate rep"] by (simp add: repScore_def Let_def split_beta)

lemma repReserve_finite:
  "inv (delegate rep) \<Longrightarrow> is_finite (fst (fst (repScoreThenTentativelyReserve ops i rep)))"
  using score_finite[of "delegate rep"]
  by (auto simp: repScoreThenTentativelyReserve_def Let_def split_beta split: option.split)

lemma response_finite:
  "is_finite (fst r) \<Longrightarrow> is_finite (Score (score_response g r))"
  by (auto simp: score_response_def Let_def split: prod.split option.split)

end

lemma score_response_fields:
  "Rep (score_response g r) = g"
  "snd r \<noteq> Some '''' \<Longrightarrow> Error (score_response g r) = '''' \<longleftrightarrow> snd r = None"
  by (auto simp: score_response_def Let_def split: prod.split option.split)

text \<open>A simulation cell with resources to give, in whole megabytes.\<close>

definition bounded_cell :: "sim_delegate \<Rightarrow> bool" where
  "bounded_cell d \<longleftrightarrow>
     within_capacity d \<and> 0 < fval (MemoryMB (totalResources d)) \<and> 0 < fval (DiskMB (totalResources d)) \<and>
     0 < Containers (totalResources d) \<and> Containers (totalResources d) < 2 ^ 53"

definition wire_whole :: "app_instance \<Rightarrow> bool" where
  "wire_whole i \<longleftrightarrow> whole_instance i \<and> wire_instance i"

lemma bounded_cell_step:
  "bounded_cell d \<Longrightarrow> bounded_cell (snd (range_instances d))"
  "bounded_cell d \<Longrightarrow> wire_whole i \<Longrightarrow> bounded_cell (snd (Reserve i d))"
  "bounded_cell d \<Longrightarrow> bounded_cell (snd (ReleaseReservation i d))"
  by (simp_all add: bounded_cell_def wire_whole_def within_capacity_Reserve
      within_capacity_ReleaseReservation)

lemma bounded_cell_count:
  assumes "bounded_cell d"
  shows "0 \<le> fst (NumInstancesForAppGuid a d)" and "fst (NumInstancesForAppGuid a d) < 2 ^ 53"
proof -
  have "length (filter (\<lambda>(k, inst). AppGuid inst = a) (instances d)) \<le> length (instances d)"
    by (rule length_filter_le)
  moreover have "int (length (instances d)) < 2 ^ 53"
    using assms by (simp add: bounded_cell_def within_capacity_def sim_inv_def)
  ultimately show "0 \<le> fst (NumInstancesForAppGuid a d)" "fst (NumInstancesForAppGuid a d) < 2 ^ 53"
    unfolding NumInstances_eq by linarith+
qed

lemma bounded_cell_within:
  assumes "bounded_cell d"
  shows "within_totals (fst (remainingResources d)) (totalResources d)"
proof -
  have w: "within_capacity d" using assms by (simp add: bounded_cell_def)
  note r = remaining_exact[OF w]
  have "whole_resources (totalResources d)" using w by (simp add: within_capacity_def)
  moreover have "0 \<le> used_memory d" "0 \<le> used_disk d"
    using w by (auto simp: within_capacity_def used_memory_def used_disk_def list_all_iff
        whole_instance_def whole_resources_def whole_MB_def intro!: sum_list_nonneg)
  ultimately show ?thesis
    using r w assms Containers_remaining[of d]
    by (auto simp: within_totals_def part_of_def bounded_cell_def whole_resources_def whole_MB_def
        within_capacity_def sim_inv_def)
qed

interpretation bounded_sim: bounded_rep_delegate sim_ops sim_holds bounded_cell wire_whole
proof unfold_locales
  fix d :: sim_delegate and i d' e
  assume "bounded_cell d"
  show "dReserve sim_ops i d = (None, d') \<Longrightarrow> sim_holds d' = (sim_holds d)(InstanceGuid i := True)"
    using sim_holds_Reserve[of i d] by simp
  show "dReserve sim_ops i d = (Some e, d') \<Longrightarrow> sim_holds d' = sim_holds d \<and> e \<noteq> ''''"
    using sim_holds_Reserve[of i d] Reserve_error[of i d e d'] by simp
qed (simp_all add: sim_holds_ReleaseReservation bounded_cell_within bounded_cell_step
    bounded_cell_count[simplified] wire_whole_def)

end
