(* ===== verification/Rabbit.thy ===== *)
theory Rabbit
  imports Remote_Rep
begin

text \<open>
  The pool client over RabbitMQ: \<open>RabbitClient.Request\<close> (\<open>rabbit_client.go\<close>) and
  \<open>reprabbitclient.go\<close>.  A request goes to the queue named after the representative and waits for
  the response with its correlation id or for the time-out; a queue that is not there drops it.
  \<open>batch\<close> asks with a goroutine per guid over one unbuffered channel and receives as many results
  as there are guids.  In the model every goroutine has finished its request by then: this is so
  in every run without errors, and one of the runs with errors (a goroutine that fails sends two
  results, so others may be left behind, sending).

  Over a bus that answers every request the client keeps the contract \<open>reserving_pool\<close>.
\<close>

section \<open>rabbit\_client.go\<close>

definition TimeoutError :: string where "TimeoutError = ''timeout''"
definition RequestFailedError :: string where "RequestFailedError = ''request failed''"

text \<open>One text stands for the errors of \<open>encoding/json\<close>.\<close>

definition json_error :: string where "json_error = ''json: error''"

text \<open>The representative's process takes the request from its queue.\<close>

definition rabbit_serve ::
    "'d delegate_ops \<Rightarrow> string \<Rightarrow> string \<Rightarrow> payload \<Rightarrow> ('d, 'z) bus_world_scheme
     \<Rightarrow> payload option \<times> ('d, 'z) bus_world_scheme" where
  "rabbit_serve ops recipient subject body w =
     (case reps w recipient of
        None \<Rightarrow> (None, w)
      | Some rep \<Rightarrow>
          (let (response, rep1) = rabbit_dispatch (rabbit_handlers ops) subject body rep
           in (response, w\<lparr>reps := (reps w)(recipient \<mapsto> rep1)\<rparr>)))"

definition Request ::
    "'d delegate_ops \<Rightarrow> string \<Rightarrow> string \<Rightarrow> payload \<Rightarrow> ('d, 'z) bus_world_scheme
     \<Rightarrow> ((payload \<times> go_error) \<times> ('d, 'z) bus_world_scheme) outcome" where
  "Request ops recipient subject body w =
     (let (correlation, w1) = RandomGuid w; (f, w2) = next_fate w1 in
      obind (time_Sleep ops w2) (\<lambda>w3.
        case f of
          Refused e \<Rightarrow> Ret ((Text '''', Some e), w3)
        | Lost \<Rightarrow> Ret ((Text '''', Some TimeoutError), w3)
        | Late \<Rightarrow> Ret ((Text '''', Some TimeoutError), snd (rabbit_serve ops recipient subject body w3))
        | Answered \<Rightarrow>
            (case rabbit_serve ops recipient subject body w3 of
               (None, w4) \<Rightarrow> Ret ((Text '''', Some TimeoutError), w4)
             | (Some response, w4) \<Rightarrow> Ret ((response, None), w4))))"

section \<open>reprabbitclient.go\<close>

text \<open>
  \<open>request\<close>: \<open>req\<close> is what was marshalled (or the empty payload when there is nothing to send), or
  \<open>None\<close> when it cannot be; \<open>decode\<close> unmarshals the response into a zero value \<open>z\<close>.
\<close>

definition rabbit_request ::
    "'d delegate_ops \<Rightarrow> string \<Rightarrow> string \<Rightarrow> payload option \<Rightarrow> (payload \<Rightarrow> 'r \<times> bool) \<Rightarrow> 'r
     \<Rightarrow> ('d, 'z) bus_world_scheme \<Rightarrow> ((go_error \<times> 'r) \<times> ('d, 'z) bus_world_scheme) outcome" where
  "rabbit_request ops g subject req decode z w =
     (case req of
        None \<Rightarrow> Ret ((Some json_error, z), w)
      | Some body \<Rightarrow>
          obind (Request ops g subject body w) (\<lambda>((response, err), w1).
            case err of
              Some e \<Rightarrow> Ret ((Some e, z), w1)
            | None \<Rightarrow>
                if response = Text ''error'' then Ret ((Some RequestFailedError, z), w1)
                else (let (x, bad) = decode response in
                      Ret ((if bad then Some json_error else None, x), w1))))"

definition no_response :: "payload \<Rightarrow> unit \<times> bool" where
  "no_response p = ((), False)"

text \<open>The methods that panic on an error.\<close>

definition or_panic ::
    "((go_error \<times> 'r) \<times> 'w) outcome \<Rightarrow> ('r \<times> 'w) outcome" where
  "or_panic m = obind m (\<lambda>((err, x), w). case err of Some e \<Rightarrow> Panic (UserPanic e) | None \<Rightarrow> Ret (x, w))"

definition rabbitTotalResources ::
    "'d delegate_ops \<Rightarrow> string \<Rightarrow> ('d, 'z) bus_world_scheme \<Rightarrow> (resources \<times> ('d, 'z) bus_world_scheme) outcome" where
  "rabbitTotalResources ops g w =
     or_panic (rabbit_request ops g ''total_resources'' (Some (Json (JStr ''''))) un_resources zero_resources w)"

definition rabbitInstances ::
    "'d delegate_ops \<Rightarrow> string \<Rightarrow> ('d, 'z) bus_world_scheme
     \<Rightarrow> (app_instance list \<times> ('d, 'z) bus_world_scheme) outcome" where
  "rabbitInstances ops g w =
     or_panic (rabbit_request ops g ''instances'' (Some (Text '''')) un_instances [] w)"

definition rabbitReset ::
    "'d delegate_ops \<Rightarrow> string \<Rightarrow> ('d, 'z) bus_world_scheme \<Rightarrow> (unit \<times> ('d, 'z) bus_world_scheme) outcome" where
  "rabbitReset ops g w = or_panic (rabbit_request ops g ''reset'' (Some (Text '''')) no_response () w)"

definition rabbitSetInstances ::
    "'d delegate_ops \<Rightarrow> string \<Rightarrow> app_instance list \<Rightarrow> ('d, 'z) bus_world_scheme
     \<Rightarrow> (unit \<times> ('d, 'z) bus_world_scheme) outcome" where
  "rabbitSetInstances ops g insts w =
     or_panic (rabbit_request ops g ''set_instances'' (map_option Json (json_instances insts))
       no_response () w)"

text \<open>The goroutine of \<open>batch\<close>: the results it sends, two when its request failed.\<close>

definition rabbit_ask ::
    "'d delegate_ops \<Rightarrow> string \<Rightarrow> app_instance \<Rightarrow> string \<Rightarrow> ('d, 'z) bus_world_scheme
     \<Rightarrow> (score_results \<times> ('d, 'z) bus_world_scheme) outcome" where
  "rabbit_ask ops subject inst g w =
     obind (rabbit_request ops g subject (map_option Json (json_instance inst)) un_score_result
       zero_score_result w)
       (\<lambda>((err, response), w1).
         Ret ((case err of Some e \<Rightarrow> [zero_score_result\<lparr>Error := e\<rparr>] | None \<Rightarrow> []) @ [response], w1))"

text \<open>
  Receiving \<open>n\<close> results from goroutines that send the given results, each its own in order: a
  draw picks the sender every time.
\<close>

fun receive :: "nat \<Rightarrow> 'a list list \<Rightarrow> rand \<Rightarrow> 'a list \<times> rand" where
  "receive 0 sends r = ([], r)"
| "receive (Suc n) sends r =
     (let live = filter (\<lambda>xs. xs \<noteq> []) sends in
      if live = [] then ([], r)
      else let (k, r1) = draw_below (length live) r;
               (xs, r2) = receive n (live[k := tl (live ! k)]) r1
           in (hd (live ! k) # xs, r2))"

definition rabbit_batch ::
    "'d delegate_ops \<Rightarrow> string \<Rightarrow> rep_guids \<Rightarrow> app_instance \<Rightarrow> ('d, 'z) bus_world_scheme
     \<Rightarrow> (score_results \<times> ('d, 'z) bus_world_scheme) outcome" where
  "rabbit_batch ops subject guids inst w =
     (let (order, s1) = shuffle guids (sched w) in
      obind (run_all (rabbit_ask ops subject inst) order (w\<lparr>sched := s1\<rparr>)) (\<lambda>(sends, w1).
      let (scores, s2) = receive (length guids) sends (sched w1) in
      Ret (scores, w1\<lparr>sched := s2\<rparr>)))"

definition rabbitScore ::
    "'d delegate_ops \<Rightarrow> rep_guids \<Rightarrow> app_instance \<Rightarrow> ('d, 'z) bus_world_scheme
     \<Rightarrow> (score_results \<times> ('d, 'z) bus_world_scheme) outcome" where
  "rabbitScore ops guids inst w = rabbit_batch ops ''score'' guids inst w"

definition rabbitScoreThenTentativelyReserve ::
    "'d delegate_ops \<Rightarrow> rep_guids \<Rightarrow> app_instance \<Rightarrow> ('d, 'z) bus_world_scheme
     \<Rightarrow> (score_results \<times> ('d, 'z) bus_world_scheme) outcome" where
  "rabbitScoreThenTentativelyReserve ops guids inst w =
     rabbit_batch ops ''score_then_tentatively_reserve'' guids inst w"

definition rabbitReleaseReservation ::
    "'d delegate_ops \<Rightarrow> rep_guids \<Rightarrow> app_instance \<Rightarrow> ('d, 'z) bus_world_scheme
     \<Rightarrow> (unit \<times> ('d, 'z) bus_world_scheme) outcome" where
  "rabbitReleaseReservation ops guids inst w =
     obind (gather (\<lambda>g. rabbit_request ops g ''release-reservation''
         (map_option Json (json_instance inst)) no_response ()) guids w)
       (\<lambda>(_, w1). Ret ((), w1))"

definition rabbitClaim ::
    "'d delegate_ops \<Rightarrow> string \<Rightarrow> app_instance \<Rightarrow> ('d, 'z) bus_world_scheme
     \<Rightarrow> (unit \<times> ('d, 'z) bus_world_scheme) outcome" where
  "rabbitClaim ops g inst w =
     obind (rabbit_request ops g ''claim'' (map_option Json (json_instance inst)) no_response () w)
       (\<lambda>(_, w1). Ret ((), w1))"

definition rabbit_client :: "'d delegate_ops \<Rightarrow> ('d, 'z) bus_world_scheme rep_pool_client" where
  "rabbit_client ops =
     \<lparr>cScore = rabbitScore ops,
      cScoreThenTentativelyReserve = rabbitScoreThenTentativelyReserve ops,
      cReleaseReservation = rabbitReleaseReservation ops,
      cClaim = rabbitClaim ops\<rparr>"

section \<open>Receiving\<close>

lemma concat_nonempty: "concat (filter (\<lambda>xs. xs \<noteq> []) xss) = concat xss"
  by (induction xss) auto

lemma mset_concat_take_one:
  assumes "k < length xss" and "xss ! k \<noteq> []"
  shows "mset (concat xss) = add_mset (hd (xss ! k)) (mset (concat (xss[k := tl (xss ! k)])))"
proof -
  have "concat xss = concat (take k xss) @ xss ! k @ concat (drop (Suc k) xss)"
    using assms(1) by (metis concat.simps(2) concat_append id_take_nth_drop)
  moreover have "concat (xss[k := tl (xss ! k)]) =
      concat (take k xss) @ tl (xss ! k) @ concat (drop (Suc k) xss)"
    using assms(1) by (simp add: upd_conv_take_nth_drop)
  moreover have "mset (xss ! k) = add_mset (hd (xss ! k)) (mset (tl (xss ! k)))"
    using assms(2) by (cases "xss ! k") auto
  ultimately show ?thesis by simp
qed

text \<open>What is received was sent, and it is as much as asked for when as much is sent.\<close>

lemma receive_sent:
  assumes "n \<le> length (concat sends)"
  shows "length (fst (receive n sends r)) = n \<and> mset (fst (receive n sends r)) \<subseteq># mset (concat sends)"
  using assms
proof (induction n arbitrary: sends r)
  case (Suc n sends r)
  define live where "live = filter (\<lambda>xs. xs \<noteq> []) sends"
  have c: "concat live = concat sends" by (simp add: live_def concat_nonempty)
  have "concat live \<noteq> []" using Suc.prems unfolding c by (cases "concat sends") simp_all
  then have ne: "live \<noteq> []" by auto
  define k r1 where "k = fst (draw_below (length live) r)" and "r1 = snd (draw_below (length live) r)"
  have k: "k < length live" using ne by (simp add: k_def draw_below_less)
  then have "live ! k \<in> set live" by simp
  then have "live ! k \<noteq> []" by (simp add: live_def)
  note m = mset_concat_take_one[OF k this]
  define rest where "rest = live[k := tl (live ! k)]"
  have "length (concat sends) = Suc (length (concat rest))"
    using arg_cong[OF m, of size] by (simp add: c rest_def)
  with Suc.prems have "n \<le> length (concat rest)" by simp
  with ne have IH: "length (fst (receive n rest r1)) = n"
    "mset (fst (receive n rest r1)) \<subseteq># mset (concat rest)"
    using Suc.IH[of rest r1] by auto
  have "fst (receive (Suc n) sends r) = hd (live ! k) # fst (receive n rest r1)"
    using ne by (simp add: Let_def split_beta live_def k_def r1_def rest_def)
  with IH m show ?case by (simp add: c rest_def)
qed simp

lemma receive_all:
  "mset (fst (receive (length (concat sends)) sends r)) = mset (concat sends)"
proof -
  have "\<not> mset (fst (receive (length (concat sends)) sends r)) \<subset># mset (concat sends)"
    using receive_sent[of "length (concat sends)" sends r] mset_subset_size by fastforce
  then show ?thesis
    using receive_sent[of "length (concat sends)" sends r] by (auto simp: subset_mset.le_less)
qed

section \<open>Over an answering bus\<close>

lemma rabbit_client_simps [simp]:
  "cScore (rabbit_client ops) = rabbitScore ops"
  "cScoreThenTentativelyReserve (rabbit_client ops) = rabbitScoreThenTentativelyReserve ops"
  "cReleaseReservation (rabbit_client ops) = rabbitReleaseReservation ops"
  "cClaim (rabbit_client ops) = rabbitClaim ops"
  by (simp_all add: rabbit_client_def)

lemma rabbit_subjects [simp]:
  "rabbit_handlers ops ''score'' = Some (rabbit_score ops)"
  "rabbit_handlers ops ''score_then_tentatively_reserve'' = Some (rabbit_reserve ops)"
  "rabbit_handlers ops ''release-reservation'' = Some (rabbit_release ops)"
  "rabbit_handlers ops ''claim'' = Some (rabbit_claim ops)"
  by (simp_all add: rabbit_handlers_def)

text \<open>Goroutines that send one result each: the batch is the gathering of their results.\<close>

lemma rabbit_batch_returns:
  assumes step: "\<And>g w. P w \<Longrightarrow> g \<in> ks \<Longrightarrow>
      \<exists>x w'. rabbit_ask ops s i g w = Ret ([x], w') \<and> P w' \<and> Rep x = g \<and> H w' = upd x (H w)"
    and sched: "\<And>w r. P (w\<lparr>sched := r\<rparr>) = P w" "\<And>w r. H (w\<lparr>sched := r\<rparr>) = H w"
    and "P w" and "set gs \<subseteq> ks"
  shows "\<exists>xs ys w'. rabbit_batch ops s gs i w = Ret (ys, w') \<and> P w' \<and> mset (map Rep xs) = mset gs \<and>
    mset ys = mset xs \<and> H w' = fold upd xs (H w)"
proof -
  note all = run_all_returns[where P = P and body = "rabbit_ask ops s i" and ks = ks and label = Rep
      and H = H and upd = upd and enc = "\<lambda>x. [x]" and Q = "\<lambda>_. True",
      unfolded list.pred_True simp_thms, OF step, simplified]
  define order s1 where "order = fst (shuffle gs (sched w))" and "s1 = snd (shuffle gs (sched w))"
  have sh: "shuffle gs (sched w) = (order, s1)" by (simp add: order_def s1_def)
  have m: "mset order = mset gs" by (simp add: order_def)
  have "P (w\<lparr>sched := s1\<rparr>)" "set order \<subseteq> ks" using assms(4,5) by (simp_all add: sched order_def)
  from all[OF this] obtain xs w1 where r: "run_all (rabbit_ask ops s i) order (w\<lparr>sched := s1\<rparr>) =
      Ret (map (\<lambda>x. [x]) xs, w1)" "P w1" "map Rep xs = order" "H w1 = fold upd xs (H (w\<lparr>sched := s1\<rparr>))"
    by blast
  have cc: "concat (map (\<lambda>x. [x]) xs) = xs" by (induction xs) simp_all
  have "length gs = length xs" using m r(3) by (metis length_map mset_eq_length)
  then have n: "length gs = length (concat (map (\<lambda>x. [x]) xs))" by (simp only: cc)
  define ys s2 where "ys = fst (receive (length gs) (map (\<lambda>x. [x]) xs) (sched w1))"
    and "s2 = snd (receive (length gs) (map (\<lambda>x. [x]) xs) (sched w1))"
  have "mset ys = mset (concat (map (\<lambda>x. [x]) xs))" unfolding ys_def n by (rule receive_all)
  then have "mset ys = mset xs" by (simp only: cc)
  moreover have "rabbit_batch ops s gs i w = Ret (ys, w1\<lparr>sched := s2\<rparr>)"
    using sh r(1) by (simp add: rabbit_batch_def split_beta ys_def s2_def)
  ultimately show ?thesis using r m by (auto simp: sched)
qed

lemma instance_payload:
  assumes "wire_instance i"
  obtains j where "json_instance i = Some j" "payload_of (json_instance i) = Json j"
proof -
  from assms obtain j where "json_instance i = Some j" by (rule instance_written)
  then show thesis by (intro that) (simp_all add: payload_of_def)
qed

text \<open>A score result that comes back is read as it was made.\<close>

lemma rabbit_ask_response:
  assumes "wire_instance i" and "Request ops g subject (payload_of (json_instance i)) w =
      Ret ((payload_of (json_score_result s), None), w')" and "is_finite (Score s)"
  shows "rabbit_ask ops subject i g w = Ret ([s], w')"
proof -
  obtain j where j: "json_instance i = Some j" "payload_of (json_instance i) = Json j"
    using assms(1) by (rule instance_payload)
  obtain js where "json_score_result s = Some js"
    using assms(3) by (cases "json_score_result s") (simp_all add: json_score_result_None)
  then have p: "payload_of (json_score_result s) = Json js" by (simp add: payload_of_def)
  show ?thesis
    using assms(2) j score_result_written[OF assms(3)] unfolding p
    by (simp add: rabbit_ask_def rabbit_request_def)
qed

text \<open>A request without an answer to read: release and claim.\<close>

lemma rabbit_acknowledged:
  assumes "wire_instance i" and "Request ops g subject (payload_of (json_instance i)) w =
      Ret ((successResponse, None), w')"
  shows "rabbit_request ops g subject (map_option Json (json_instance i)) no_response () w =
    Ret ((None, ()), w')"
proof -
  obtain j where "json_instance i = Some j" "payload_of (json_instance i) = Json j"
    using assms(1) by (rule instance_payload)
  with assms(2) show ?thesis
    by (simp add: rabbit_request_def no_response_def successResponse_def)
qed

context bounded_rep_delegate
begin

abbreviation "bus_ok T i ks w \<equiv> ok T i ks w \<and> answering w"

text \<open>A request that is answered: the callback runs on the representative as it finds it.\<close>

lemma Request_answered:
  assumes "bus_ok T i ks w" and "g \<in> ks" and "rabbit_handlers ops subject = Some cb"
    and "\<And>rep. inv (delegate rep) \<Longrightarrow> inv (delegate (snd (cb body rep)))"
    and "\<And>rep. repTotalResources ops (snd (cb body rep)) = repTotalResources ops rep"
    and "\<And>rep. guid (snd (cb body rep)) = guid rep"
  obtains rep w0 where "inv (delegate rep)" "guid rep = g" "reps w0 g = Some rep"
    "holders i w0 = holders i w"
    "Request ops g subject body w =
      Ret ((fst (cb body rep), None), w0\<lparr>reps := (reps w0)(g \<mapsto> snd (cb body rep))\<rparr>)"
    "bus_ok T i ks (w0\<lparr>reps := (reps w0)(g \<mapsto> snd (cb body rep))\<rparr>)"
proof -
  define w1 where "w1 = snd (next_fate (snd (RandomGuid w)))"
  have w1: "ok T i ks w1" "answering w1" "holders i w1 = holders i w"
    using assms(1) by (simp_all add: w1_def next_fate_def snd_RandomGuid)
  from w1(1) obtain w0 where w0: "time_Sleep ops w1 = Ret w0" "ok T i ks w0" "holders i w0 = holders i w1"
    by (rule time_Sleep_keeps)
  have a0: "answering w0" using time_Sleep_answering[OF w0(1)] w1(2) by simp
  have "g \<in> dom (reps w0)" using w0(2) assms(2) by (auto simp: pool_ok_def)
  from on_rep_returns[OF w0(2) this assms(4-6)] obtain rep where rep: "reps w0 g = Some rep"
    "inv (delegate rep)" "guid rep = g" "ok T i ks (w0\<lparr>reps := (reps w0)(g \<mapsto> snd (cb body rep))\<rparr>)"
    by blast
  have "fst (next_fate (snd (RandomGuid w))) = Answered"
    using assms(1) by (simp add: next_fate_def snd_RandomGuid answering_def)
  then have "Request ops g subject body w =
      Ret ((fst (cb body rep), None), w0\<lparr>reps := (reps w0)(g \<mapsto> snd (cb body rep))\<rparr>)"
    using w0(1) rep(1) assms(3)
    by (simp add: Request_def Let_def split_beta rabbit_serve_def rabbit_dispatch_def w1_def)
  from that[OF rep(2,3,1) _ this] show thesis using w0 w1 a0 rep by auto
qed

text \<open>The callbacks on a payload that holds the instance.\<close>

lemma rabbit_callbacks:
  assumes "adm i"
  defines "body \<equiv> payload_of (json_instance i)"
  shows "rabbit_score ops body rep =
      (payload_of (json_score_result (score_response (guid rep) (fst (repScore ops i rep)))),
       snd (repScore ops i rep))"
    and "rabbit_reserve ops body rep =
      (payload_of (json_score_result
         (score_response (guid rep) (fst (repScoreThenTentativelyReserve ops i rep)))),
       snd (repScoreThenTentativelyReserve ops i rep))"
    and "rabbit_release ops body rep = (successResponse, snd (repReleaseReservation ops i rep))"
    and "rabbit_claim ops body rep = (successResponse, snd (repClaim ops i rep))"
  using adm_wire[OF assms(1)]
  by (simp_all add: body_def rabbit_score_def rabbit_reserve_def rabbit_release_def rabbit_claim_def
      Guid_def split_beta)

lemma rabbit_score_answers:
  assumes "bus_ok T i ks w" and "g \<in> ks"
  shows "\<exists>x w'. rabbit_ask ops ''score'' i g w = Ret ([x], w') \<and> bus_ok T i ks w' \<and> Rep x = g \<and>
    holders i w' = holders i w"
proof -
  have ad: "adm i" using assms(1) by (simp add: pool_ok_def)
  note cb = rabbit_callbacks(1)[OF ad]
  obtain rep w0 where r: "inv (delegate rep)" "guid rep = g" "reps w0 g = Some rep"
    "holders i w0 = holders i w"
    "Request ops g ''score'' (payload_of (json_instance i)) w =
      Ret ((payload_of (json_score_result (score_response g (fst (repScore ops i rep)))), None),
        w0\<lparr>reps := (reps w0)(g \<mapsto> snd (repScore ops i rep))\<rparr>)"
    "bus_ok T i ks (w0\<lparr>reps := (reps w0)(g \<mapsto> snd (repScore ops i rep))\<rparr>)"
    by (rule Request_answered[OF assms, of "''score''" "rabbit_score ops" "payload_of (json_instance i)"])
      (auto simp: cb repScore_keeps)
  have "holders i (w0\<lparr>reps := (reps w0)(g \<mapsto> snd (repScore ops i rep))\<rparr>) = holders i w0"
    by (rule holders_unchanged[OF r(3)]) (simp add: repScore_keeps r(1))
  moreover note rabbit_ask_response[OF adm_wire[OF ad] r(5) response_finite[OF repScore_finite[OF r(1)]]]
  ultimately show ?thesis using r(4,6) by (auto simp: score_response_fields)
qed

lemma rabbit_reserve_answers:
  assumes "bus_ok T i ks w" and "g \<in> ks"
  shows "\<exists>x w'. rabbit_ask ops ''score_then_tentatively_reserve'' i g w = Ret ([x], w') \<and>
    bus_ok T i ks w' \<and> Rep x = g \<and>
    holders i w' = (if Error x = '''' then insert (Rep x) (holders i w) else holders i w)"
proof -
  have ad: "adm i" using assms(1) by (simp add: pool_ok_def)
  note cb = rabbit_callbacks(2)[OF ad]
  let ?f = "repScoreThenTentativelyReserve ops i"
  obtain rep w0 where r: "inv (delegate rep)" "guid rep = g" "reps w0 g = Some rep"
    "holders i w0 = holders i w"
    "Request ops g ''score_then_tentatively_reserve'' (payload_of (json_instance i)) w =
      Ret ((payload_of (json_score_result (score_response g (fst (?f rep)))), None),
        w0\<lparr>reps := (reps w0)(g \<mapsto> snd (?f rep))\<rparr>)"
    "bus_ok T i ks (w0\<lparr>reps := (reps w0)(g \<mapsto> snd (?f rep))\<rparr>)"
    by (rule Request_answered[OF assms, of "''score_then_tentatively_reserve''" "rabbit_reserve ops"
          "payload_of (json_instance i)"])
      (auto simp: cb repReserve_keeps(1) ad)
  note keeps = repReserve_keeps(3,4)[OF r(1), of i]
  have "holders i (w0\<lparr>reps := (reps w0)(g \<mapsto> snd (?f rep))\<rparr>) =
      (if snd (fst (?f rep)) = None then insert g (holders i w0) else holders i w0)"
    using keeps(1) pool_holders_iff[OF r(3), of holds i] by (auto simp: pool_holders_set_rep)
  moreover have "Error (score_response g (fst (?f rep))) = '''' \<longleftrightarrow> snd (fst (?f rep)) = None"
    by (rule score_response_fields(2)) (rule keeps(2))
  moreover note rabbit_ask_response[OF adm_wire[OF ad] r(5) response_finite[OF repReserve_finite[OF r(1)]]]
  ultimately show ?thesis using r(4,6) by (auto simp: score_response_fields(1))
qed

lemma rabbit_release_answers:
  assumes "bus_ok T i ks w" and "g \<in> ks"
  shows "\<exists>w'. rabbit_request ops g ''release-reservation'' (map_option Json (json_instance i))
      no_response () w = Ret ((None, ()), w') \<and> bus_ok T i ks w' \<and>
    holders i w' = holders i w - {g}"
proof -
  have ad: "adm i" using assms(1) by (simp add: pool_ok_def)
  note cb = rabbit_callbacks(3)[OF ad]
  let ?f = "repReleaseReservation ops i"
  obtain rep w0 where r: "inv (delegate rep)" "guid rep = g" "reps w0 g = Some rep"
    "holders i w0 = holders i w"
    "Request ops g ''release-reservation'' (payload_of (json_instance i)) w =
      Ret ((successResponse, None), w0\<lparr>reps := (reps w0)(g \<mapsto> snd (?f rep))\<rparr>)"
    "bus_ok T i ks (w0\<lparr>reps := (reps w0)(g \<mapsto> snd (?f rep))\<rparr>)"
    by (rule Request_answered[OF assms, of "''release-reservation''" "rabbit_release ops"
          "payload_of (json_instance i)"])
      (auto simp: cb repRelease_holds(2))
  have "holders i (w0\<lparr>reps := (reps w0)(g \<mapsto> snd (?f rep))\<rparr>) = holders i w0 - {g}"
    by (simp add: pool_holders_set_rep repRelease_holds r(1))
  with r rabbit_acknowledged[OF adm_wire[OF ad] r(5)] show ?thesis by auto
qed

lemma rabbitClaim_answers:
  assumes "bus_ok T i ks w" and "g \<in> ks"
  shows "\<exists>w'. rabbitClaim ops g i w = Ret ((), w') \<and> bus_ok T i ks w' \<and> holders i w' = holders i w"
proof -
  have ad: "adm i" using assms(1) by (simp add: pool_ok_def)
  note cb = rabbit_callbacks(4)[OF ad]
  let ?f = "repClaim ops i"
  obtain rep w0 where r: "inv (delegate rep)" "guid rep = g" "reps w0 g = Some rep"
    "holders i w0 = holders i w"
    "Request ops g ''claim'' (payload_of (json_instance i)) w =
      Ret ((successResponse, None), w0\<lparr>reps := (reps w0)(g \<mapsto> snd (?f rep))\<rparr>)"
    "bus_ok T i ks (w0\<lparr>reps := (reps w0)(g \<mapsto> snd (?f rep))\<rparr>)"
    by (rule Request_answered[OF assms, of "''claim''" "rabbit_claim ops"
          "payload_of (json_instance i)"])
      (auto simp: cb repClaim_holds(2))
  have "holders i (w0\<lparr>reps := (reps w0)(g \<mapsto> snd (?f rep))\<rparr>) = holders i w0"
    by (rule holders_unchanged[OF r(3)]) (simp add: repClaim_holds r(1))
  with r rabbit_acknowledged[OF adm_wire[OF ad] r(5)] show ?thesis by (auto simp: rabbitClaim_def)
qed

lemma rabbitScore_answers:
  assumes "bus_ok T i ks w" and "set gs \<subseteq> ks"
  shows "\<exists>rs w'. rabbitScore ops gs i w = Ret (rs, w') \<and> bus_ok T i ks w' \<and>
    holders i w' = holders i w \<and> mset (map Rep rs) = mset gs"
proof -
  have "\<exists>xs ys w'. rabbit_batch ops ''score'' gs i w = Ret (ys, w') \<and> bus_ok T i ks w' \<and>
      mset (map Rep xs) = mset gs \<and> mset ys = mset xs \<and> holders i w' = fold (\<lambda>_ H. H) xs (holders i w)"
    by (rule rabbit_batch_returns[where ks = ks]) (fact rabbit_score_answers | use assms in simp)+
  then show ?thesis by (auto simp: rabbitScore_def fold_keep)
qed

lemma rabbitReserve_answers:
  assumes "bus_ok T i ks w" and "set gs \<subseteq> ks"
  shows "\<exists>rs w'. rabbitScoreThenTentativelyReserve ops gs i w = Ret (rs, w') \<and> bus_ok T i ks w' \<and>
    holders i w' = holders i w \<union> set (Reps (FilterErrors rs)) \<and> mset (map Rep rs) = mset gs"
proof -
  have "\<exists>xs ys w'. rabbit_batch ops ''score_then_tentatively_reserve'' gs i w = Ret (ys, w') \<and>
      bus_ok T i ks w' \<and> mset (map Rep xs) = mset gs \<and> mset ys = mset xs \<and>
      holders i w' = fold (\<lambda>x H. if Error x = '''' then insert (Rep x) H else H) xs (holders i w)"
    by (rule rabbit_batch_returns[where ks = ks]) (fact rabbit_reserve_answers | use assms in simp)+
  then obtain xs ys w' where r: "rabbit_batch ops ''score_then_tentatively_reserve'' gs i w = Ret (ys, w')"
    "bus_ok T i ks w'" "mset (map Rep xs) = mset gs" "mset ys = mset xs"
    "holders i w' = holders i w \<union> set (Reps (FilterErrors xs))"
    by (auto simp: fold_insert_ok)
  have "set ys = set xs" using r(4) by (rule mset_eq_setD)
  then have "set (Reps (FilterErrors ys)) = set (Reps (FilterErrors xs))" by (simp add: Reps_def)
  with r show ?thesis by (simp add: rabbitScoreThenTentativelyReserve_def)
qed

lemma rabbitRelease_answers:
  assumes "bus_ok T i ks w" and "set gs \<subseteq> ks"
  shows "\<exists>w'. rabbitReleaseReservation ops gs i w = Ret ((), w') \<and> bus_ok T i ks w' \<and>
    holders i w' = holders i w - set gs"
proof -
  have "\<exists>ys w'. gather (\<lambda>g. rabbit_request ops g ''release-reservation''
        (map_option Json (json_instance i)) no_response ()) gs w = Ret (ys, w') \<and>
      bus_ok T i ks w' \<and> holders i w' = holders i w - set gs"
    by (rule gather_effect[where ks = ks]) (use assms rabbit_release_answers in fastforce)+
  then show ?thesis by (auto simp: rabbitReleaseReservation_def)
qed

sublocale rabbit: reserving_pool "rabbit_client ops" "holders i" "\<lambda>w. bus_ok T i ks w" i ks for T i ks
  using rabbitScore_answers rabbitReserve_answers rabbitRelease_answers rabbitClaim_answers
  by unfold_locales simp_all

end

end
