(* ===== verification/Nats.thy ===== *)
theory Nats
  imports Rabbit
begin

text \<open>
  The pool client over NATS: \<open>repnatsclient.go\<close>.  A call subscribes to a fresh reply subject,
  publishes a message per guid and collects the replies that come before the time-out.  What the
  bus does to the subscription and to every message is its fate; an error of a publish is not
  looked at.  A representative whose subscription panics is gone: its process ends.

  Over a bus that answers every request the client keeps the contract \<open>reserving_pool\<close>.
\<close>

section \<open>The bus\<close>

text \<open>A message to a representative: the replies its subscription publishes in time.\<close>

definition nats_serve ::
    "'d delegate_ops \<Rightarrow> string \<Rightarrow> payload \<Rightarrow> string \<Rightarrow> ('d, 'z) bus_world_scheme
     \<Rightarrow> payload list \<times> ('d, 'z) bus_world_scheme" where
  "nats_serve ops subject body g w =
     (case (reps w g, nats_subscriptions ops subject) of
        (Some rep, Some sub) \<Rightarrow>
          (case sub body rep of
             Ret (replies, rep1) \<Rightarrow> (replies, w\<lparr>reps := (reps w)(g \<mapsto> rep1)\<rparr>)
           | Panic p \<Rightarrow> ([], w\<lparr>reps := (reps w)(g := None)\<rparr>))
      | _ \<Rightarrow> ([], w))"

definition nats_publish ::
    "'d delegate_ops \<Rightarrow> string \<Rightarrow> payload \<Rightarrow> string \<Rightarrow> ('d, 'z) bus_world_scheme
     \<Rightarrow> (payload list \<times> ('d, 'z) bus_world_scheme) outcome" where
  "nats_publish ops subject body g w =
     (let (f, w1) = next_fate w in
      obind (time_Sleep ops w1) (\<lambda>w2.
        case f of
          Answered \<Rightarrow> Ret (nats_serve ops subject body g w2)
        | Late \<Rightarrow> Ret ([], snd (nats_serve ops subject body g w2))
        | Lost \<Rightarrow> Ret ([], w2)
        | Refused e \<Rightarrow> Ret ([], w2)))"

text \<open>A subscription to a new reply subject: the error, if there is one.\<close>

definition nats_subscribe :: "('d, 'z) bus_world_scheme \<Rightarrow> go_error \<times> ('d, 'z) bus_world_scheme" where
  "nats_subscribe w =
     (let (replyTo, w1) = RandomGuid w; (f, w2) = next_fate w1 in
      (case f of Refused e \<Rightarrow> Some e | _ \<Rightarrow> None, w2))"

section \<open>repnatsclient.go\<close>

definition publishWithTimeout ::
    "'d delegate_ops \<Rightarrow> string \<Rightarrow> string \<Rightarrow> payload option \<Rightarrow> (payload \<Rightarrow> 'r \<times> bool) \<Rightarrow> 'r
     \<Rightarrow> ('d, 'z) bus_world_scheme \<Rightarrow> ((go_error \<times> 'r) \<times> ('d, 'z) bus_world_scheme) outcome" where
  "publishWithTimeout ops g subject req decode z w =
     (let (err, w1) = nats_subscribe w in
      case err of
        Some e \<Rightarrow> Ret ((Some e, z), w1)
      | None \<Rightarrow>
         (case req of
            None \<Rightarrow> Ret ((Some json_error, z), w1)
          | Some body \<Rightarrow>
              obind (nats_publish ops subject body g w1) (\<lambda>(replies, w2).
                case replies of
                  [] \<Rightarrow> Ret ((Some TimeoutError, z), w2)
                | reply # _ \<Rightarrow>
                    if reply = Text ''error'' then Ret ((Some RequestFailedError, z), w2)
                    else (let (x, bad) = decode reply in
                          Ret ((if bad then Some json_error else None, x), w2)))))"

definition natsTotalResources ::
    "'d delegate_ops \<Rightarrow> string \<Rightarrow> ('d, 'z) bus_world_scheme \<Rightarrow> (resources \<times> ('d, 'z) bus_world_scheme) outcome" where
  "natsTotalResources ops g w =
     or_panic (publishWithTimeout ops g ''total_resources'' (Some (Text '''')) un_resources zero_resources w)"

definition natsInstances ::
    "'d delegate_ops \<Rightarrow> string \<Rightarrow> ('d, 'z) bus_world_scheme
     \<Rightarrow> (app_instance list \<times> ('d, 'z) bus_world_scheme) outcome" where
  "natsInstances ops g w =
     or_panic (publishWithTimeout ops g ''instances'' (Some (Text '''')) un_instances [] w)"

definition natsReset ::
    "'d delegate_ops \<Rightarrow> string \<Rightarrow> ('d, 'z) bus_world_scheme \<Rightarrow> (unit \<times> ('d, 'z) bus_world_scheme) outcome" where
  "natsReset ops g w =
     or_panic (publishWithTimeout ops g ''reset'' (Some (Text '''')) no_response () w)"

definition natsSetInstances ::
    "'d delegate_ops \<Rightarrow> string \<Rightarrow> app_instance list \<Rightarrow> ('d, 'z) bus_world_scheme
     \<Rightarrow> (unit \<times> ('d, 'z) bus_world_scheme) outcome" where
  "natsSetInstances ops g insts w =
     or_panic (publishWithTimeout ops g ''set_instances'' (map_option Json (json_instances insts))
       no_response () w)"

text \<open>
  \<open>batch\<close>: every reply counts down from the number of guids, and one too many panics; replies that
  cannot be read are dropped.  An instance that cannot be written is sent as the empty payload.
\<close>

definition nats_batch ::
    "'d delegate_ops \<Rightarrow> string \<Rightarrow> rep_guids \<Rightarrow> app_instance \<Rightarrow> ('d, 'z) bus_world_scheme
     \<Rightarrow> (score_results \<times> ('d, 'z) bus_world_scheme) outcome" where
  "nats_batch ops subject guids inst w =
     (let (err, w1) = nats_subscribe w in
      case err of
        Some e \<Rightarrow> Ret ([], w1)
      | None \<Rightarrow>
          obind (gather (nats_publish ops subject (payload_of (json_instance inst))) guids w1)
            (\<lambda>(replies, w2).
              if length guids < length (concat replies)
              then Panic (UserPanic ''sync: negative WaitGroup counter'')
              else Ret (map fst (filter (\<lambda>(x, bad). \<not> bad) (map un_score_result (concat replies))), w2)))"

definition natsScore ::
    "'d delegate_ops \<Rightarrow> rep_guids \<Rightarrow> app_instance \<Rightarrow> ('d, 'z) bus_world_scheme
     \<Rightarrow> (score_results \<times> ('d, 'z) bus_world_scheme) outcome" where
  "natsScore ops guids inst w = nats_batch ops ''score'' guids inst w"

definition natsScoreThenTentativelyReserve ::
    "'d delegate_ops \<Rightarrow> rep_guids \<Rightarrow> app_instance \<Rightarrow> ('d, 'z) bus_world_scheme
     \<Rightarrow> (score_results \<times> ('d, 'z) bus_world_scheme) outcome" where
  "natsScoreThenTentativelyReserve ops guids inst w =
     nats_batch ops ''score_then_tentatively_reserve'' guids inst w"

definition natsReleaseReservation ::
    "'d delegate_ops \<Rightarrow> rep_guids \<Rightarrow> app_instance \<Rightarrow> ('d, 'z) bus_world_scheme
     \<Rightarrow> (unit \<times> ('d, 'z) bus_world_scheme) outcome" where
  "natsReleaseReservation ops guids inst w =
     (let (err, w1) = nats_subscribe w in
      case err of
        Some e \<Rightarrow> Ret ((), w1)
      | None \<Rightarrow>
          obind (gather (nats_publish ops ''release-reservation'' (payload_of (json_instance inst))) guids w1)
            (\<lambda>(replies, w2).
              if length guids < length (concat replies)
              then Panic (UserPanic ''sync: negative WaitGroup counter'') else Ret ((), w2)))"

definition natsClaim ::
    "'d delegate_ops \<Rightarrow> string \<Rightarrow> app_instance \<Rightarrow> ('d, 'z) bus_world_scheme
     \<Rightarrow> (unit \<times> ('d, 'z) bus_world_scheme) outcome" where
  "natsClaim ops g inst w =
     obind (publishWithTimeout ops g ''claim'' (map_option Json (json_instance inst)) no_response () w)
       (\<lambda>(_, w1). Ret ((), w1))"

definition nats_client :: "'d delegate_ops \<Rightarrow> ('d, 'z) bus_world_scheme rep_pool_client" where
  "nats_client ops =
     \<lparr>cScore = natsScore ops,
      cScoreThenTentativelyReserve = natsScoreThenTentativelyReserve ops,
      cReleaseReservation = natsReleaseReservation ops,
      cClaim = natsClaim ops\<rparr>"

section \<open>Over an answering bus\<close>

lemma nats_client_simps [simp]:
  "cScore (nats_client ops) = natsScore ops"
  "cScoreThenTentativelyReserve (nats_client ops) = natsScoreThenTentativelyReserve ops"
  "cReleaseReservation (nats_client ops) = natsReleaseReservation ops"
  "cClaim (nats_client ops) = natsClaim ops"
  by (simp_all add: nats_client_def)

lemma nats_subjects [simp]:
  "nats_subscriptions ops ''score'' = Some (nats_score ops)"
  "nats_subscriptions ops ''score_then_tentatively_reserve'' = Some (nats_reserve ops)"
  "nats_subscriptions ops ''release-reservation'' = Some (nats_release ops)"
  "nats_subscriptions ops ''claim'' = Some (nats_claim ops)"
  by (simp_all add: nats_subscriptions_def)

text \<open>Both servers answer a payload that can be read in the same way.\<close>

lemma nats_is_rabbit:
  assumes "\<not> snd (un_instance body)"
  shows "nats_score ops body rep = Ret ([fst (rabbit_score ops body rep)], snd (rabbit_score ops body rep))"
    and "nats_reserve ops body rep = Ret ([fst (rabbit_reserve ops body rep)], snd (rabbit_reserve ops body rep))"
    and "nats_release ops body rep = Ret ([fst (rabbit_release ops body rep)], snd (rabbit_release ops body rep))"
    and "nats_claim ops body rep = Ret ([fst (rabbit_claim ops body rep)], snd (rabbit_claim ops body rep))"
  using assms
  by (simp_all add: nats_score_def rabbit_score_def nats_reserve_def rabbit_reserve_def nats_release_def
      rabbit_release_def nats_claim_def rabbit_claim_def split_beta)

context bounded_rep_delegate
begin

lemma nats_subscribe_answered:
  assumes "bus_ok T i ks w"
  obtains w' where "nats_subscribe w = (None, w')" "bus_ok T i ks w'" "holders i w' = holders i w"
  using assms
  by (intro that[of "snd (nats_subscribe w)"])
    (simp_all add: nats_subscribe_def next_fate_def snd_RandomGuid split_beta answering_def)

lemma nats_publish_answered:
  assumes "bus_ok T i ks w" and "g \<in> ks" and "nats_subscriptions ops subject = Some sub"
    and "\<And>rep. sub body rep = Ret ([p rep], f rep)"
    and "\<And>rep. inv (delegate rep) \<Longrightarrow> inv (delegate (f rep))"
    and "\<And>rep. repTotalResources ops (f rep) = repTotalResources ops rep"
    and "\<And>rep. guid (f rep) = guid rep"
  obtains rep w0 where "inv (delegate rep)" "guid rep = g" "reps w0 g = Some rep"
    "holders i w0 = holders i w"
    "nats_publish ops subject body g w = Ret ([p rep], w0\<lparr>reps := (reps w0)(g \<mapsto> f rep)\<rparr>)"
    "bus_ok T i ks (w0\<lparr>reps := (reps w0)(g \<mapsto> f rep)\<rparr>)"
proof -
  define w1 where "w1 = snd (next_fate w)"
  have w1: "ok T i ks w1" "answering w1" "holders i w1 = holders i w"
    using assms(1) by (simp_all add: w1_def next_fate_def)
  from w1(1) obtain w0 where w0: "time_Sleep ops w1 = Ret w0" "ok T i ks w0" "holders i w0 = holders i w1"
    by (rule time_Sleep_keeps)
  have a0: "answering w0" using time_Sleep_answering[OF w0(1)] w1(2) by simp
  have "g \<in> dom (reps w0)" using w0(2) assms(2) by (auto simp: pool_ok_def)
  moreover have "inv (delegate rep) \<Longrightarrow> inv (delegate (snd (p rep, f rep)))"
    "repTotalResources ops (snd (p rep, f rep)) = repTotalResources ops rep"
    "guid (snd (p rep, f rep)) = guid rep" for rep
    using assms(5-7) by simp_all
  ultimately obtain rep where rep: "reps w0 g = Some rep" "inv (delegate rep)" "guid rep = g"
    "ok T i ks (w0\<lparr>reps := (reps w0)(g \<mapsto> f rep)\<rparr>)"
    using on_rep_returns[OF w0(2), of g "\<lambda>rep. (p rep, f rep)"] by (metis snd_conv)
  have "fst (next_fate w) = Answered" using assms(1) by (simp add: next_fate_def answering_def)
  then have "nats_publish ops subject body g w = Ret ([p rep], w0\<lparr>reps := (reps w0)(g \<mapsto> f rep)\<rparr>)"
    using w0(1) rep(1) assms(3,4)
    by (simp add: nats_publish_def split_beta nats_serve_def w1_def)
  from that[OF rep(2,3,1) _ this] show thesis using w0 w1 a0 rep by auto
qed

lemma readable: "adm i \<Longrightarrow> \<not> snd (un_instance (payload_of (json_instance i)))"
  using adm_wire by simp

text \<open>The reply to a message, and what it does to the holders.\<close>

lemma nats_score_answers:
  assumes "bus_ok T i ks w" and "g \<in> ks"
  shows "\<exists>x w'. nats_publish ops ''score'' (payload_of (json_instance i)) g w =
      Ret ([payload_of (json_score_result x)], w') \<and> bus_ok T i ks w' \<and> is_finite (Score x) \<and>
    Rep x = g \<and> holders i w' = holders i w"
proof -
  have ad: "adm i" using assms(1) by (simp add: pool_ok_def)
  let ?f = "repScore ops i"
  obtain rep w0 where r: "inv (delegate rep)" "guid rep = g" "reps w0 g = Some rep"
    "holders i w0 = holders i w"
    "nats_publish ops ''score'' (payload_of (json_instance i)) g w =
      Ret ([payload_of (json_score_result (score_response (guid rep) (fst (?f rep))))],
        w0\<lparr>reps := (reps w0)(g \<mapsto> snd (?f rep))\<rparr>)"
    "bus_ok T i ks (w0\<lparr>reps := (reps w0)(g \<mapsto> snd (?f rep))\<rparr>)"
    by (rule nats_publish_answered[OF assms, of "''score''" "nats_score ops" "payload_of (json_instance i)"
          "\<lambda>rep. payload_of (json_score_result (score_response (guid rep) (fst (?f rep))))"
          "\<lambda>rep. snd (?f rep)"])
      (auto simp: nats_is_rabbit(1)[OF readable[OF ad]] rabbit_callbacks(1)[OF ad] repScore_keeps)
  have "holders i (w0\<lparr>reps := (reps w0)(g \<mapsto> snd (?f rep))\<rparr>) = holders i w0"
    by (rule holders_unchanged[OF r(3)]) (simp add: repScore_keeps r(1))
  with r response_finite[OF repScore_finite[OF r(1)], of g i] show ?thesis
    by (auto simp: score_response_fields)
qed

lemma nats_reserve_answers:
  assumes "bus_ok T i ks w" and "g \<in> ks"
  shows "\<exists>x w'. nats_publish ops ''score_then_tentatively_reserve'' (payload_of (json_instance i)) g w =
      Ret ([payload_of (json_score_result x)], w') \<and> bus_ok T i ks w' \<and> is_finite (Score x) \<and>
    Rep x = g \<and> holders i w' = (if Error x = '''' then insert (Rep x) (holders i w) else holders i w)"
proof -
  have ad: "adm i" using assms(1) by (simp add: pool_ok_def)
  let ?f = "repScoreThenTentativelyReserve ops i"
  obtain rep w0 where r: "inv (delegate rep)" "guid rep = g" "reps w0 g = Some rep"
    "holders i w0 = holders i w"
    "nats_publish ops ''score_then_tentatively_reserve'' (payload_of (json_instance i)) g w =
      Ret ([payload_of (json_score_result (score_response (guid rep) (fst (?f rep))))],
        w0\<lparr>reps := (reps w0)(g \<mapsto> snd (?f rep))\<rparr>)"
    "bus_ok T i ks (w0\<lparr>reps := (reps w0)(g \<mapsto> snd (?f rep))\<rparr>)"
    by (rule nats_publish_answered[OF assms, of "''score_then_tentatively_reserve''" "nats_reserve ops"
          "payload_of (json_instance i)"
          "\<lambda>rep. payload_of (json_score_result (score_response (guid rep) (fst (?f rep))))"
          "\<lambda>rep. snd (?f rep)"])
      (auto simp: nats_is_rabbit(2)[OF readable[OF ad]] rabbit_callbacks(2)[OF ad] repReserve_keeps(1) ad)
  note keeps = repReserve_keeps(3,4)[OF r(1), of i]
  have "holders i (w0\<lparr>reps := (reps w0)(g \<mapsto> snd (?f rep))\<rparr>) =
      (if snd (fst (?f rep)) = None then insert g (holders i w0) else holders i w0)"
    using keeps(1) pool_holders_iff[OF r(3), of holds i] by (auto simp: pool_holders_set_rep)
  moreover have "Error (score_response g (fst (?f rep))) = '''' \<longleftrightarrow> snd (fst (?f rep)) = None"
    by (rule score_response_fields(2)) (rule keeps(2))
  ultimately show ?thesis
    using r response_finite[OF repReserve_finite[OF r(1)], of g i] by (auto simp: score_response_fields(1))
qed

text \<open>A batch whose messages are all answered: one result per guid.\<close>

lemma nats_batch_returns:
  assumes step: "\<And>g w. P w \<Longrightarrow> g \<in> ks \<Longrightarrow>
      \<exists>x w'. nats_publish ops s (payload_of (json_instance i)) g w =
          Ret ([payload_of (json_score_result x)], w') \<and>
        P w' \<and> is_finite (Score x) \<and> Rep x = g \<and> H w' = upd x (H w)"
    and sched: "\<And>w r. P (w\<lparr>sched := r\<rparr>) = P w" "\<And>w r. H (w\<lparr>sched := r\<rparr>) = H w"
    and "nats_subscribe w = (None, w0)" "P w0" and "set gs \<subseteq> ks"
  shows "\<exists>xs ys w'. nats_batch ops s gs i w = Ret (ys, w') \<and> P w' \<and> mset (map Rep xs) = mset gs \<and>
    mset ys = mset xs \<and> H w' = fold upd xs (H w0)"
proof -
  let ?enc = "\<lambda>x. [payload_of (json_score_result x)]"
  have "\<exists>xs ys w'. gather (nats_publish ops s (payload_of (json_instance i))) gs w0 = Ret (map ?enc ys, w') \<and>
      P w' \<and> list_all (\<lambda>x. is_finite (Score x)) ys \<and> mset (map Rep xs) = mset gs \<and>
      mset ys = mset xs \<and> H w' = fold upd xs (H w0)"
    by (rule gather_encoded[where ks = ks and Q = "\<lambda>x. is_finite (Score x)"]) (fact step sched assms)+
  then obtain xs ys w' where r: "gather (nats_publish ops s (payload_of (json_instance i))) gs w0 =
      Ret (map ?enc ys, w')" "P w'" "list_all (\<lambda>x. is_finite (Score x)) ys"
    "mset (map Rep xs) = mset gs" "mset ys = mset xs" "H w' = fold upd xs (H w0)"
    by blast
  have read: "map fst (filter (\<lambda>(x, bad). \<not> bad) (map un_score_result (concat (map ?enc ys)))) = ys"
    using r(3) by (induction ys) (simp_all add: score_result_written)
  have "length (concat (map ?enc ys)) = length gs"
    using mset_eq_length[OF r(4)] mset_eq_length[OF r(5)] by simp
  with r(1) read assms(4) have "nats_batch ops s gs i w = Ret (ys, w')"
    by (simp add: nats_batch_def del: map_map)
  with r show ?thesis by blast
qed

lemma natsScore_answers:
  assumes "bus_ok T i ks w" and "set gs \<subseteq> ks"
  shows "\<exists>rs w'. natsScore ops gs i w = Ret (rs, w') \<and> bus_ok T i ks w' \<and>
    holders i w' = holders i w \<and> mset (map Rep rs) = mset gs"
proof -
  obtain w0 where w0: "nats_subscribe w = (None, w0)" "bus_ok T i ks w0" "holders i w0 = holders i w"
    using nats_subscribe_answered[OF assms(1)] .
  have "\<exists>xs ys w'. nats_batch ops ''score'' gs i w = Ret (ys, w') \<and> bus_ok T i ks w' \<and>
      mset (map Rep xs) = mset gs \<and> mset ys = mset xs \<and> holders i w' = fold (\<lambda>_ H. H) xs (holders i w0)"
    by (rule nats_batch_returns[where ks = ks])
      (fact nats_score_answers | use assms w0 in simp)+
  with w0 show ?thesis by (auto simp: natsScore_def fold_keep)
qed

lemma natsReserve_answers:
  assumes "bus_ok T i ks w" and "set gs \<subseteq> ks"
  shows "\<exists>rs w'. natsScoreThenTentativelyReserve ops gs i w = Ret (rs, w') \<and> bus_ok T i ks w' \<and>
    holders i w' = holders i w \<union> set (Reps (FilterErrors rs)) \<and> mset (map Rep rs) = mset gs"
proof -
  obtain w0 where w0: "nats_subscribe w = (None, w0)" "bus_ok T i ks w0" "holders i w0 = holders i w"
    using nats_subscribe_answered[OF assms(1)] .
  have "\<exists>xs ys w'. nats_batch ops ''score_then_tentatively_reserve'' gs i w = Ret (ys, w') \<and>
      bus_ok T i ks w' \<and> mset (map Rep xs) = mset gs \<and> mset ys = mset xs \<and>
      holders i w' = fold (\<lambda>x H. if Error x = '''' then insert (Rep x) H else H) xs (holders i w0)"
    by (rule nats_batch_returns[where ks = ks])
      (fact nats_reserve_answers | use assms w0 in simp)+
  then obtain xs ys w' where r: "nats_batch ops ''score_then_tentatively_reserve'' gs i w = Ret (ys, w')"
    "bus_ok T i ks w'" "mset (map Rep xs) = mset gs" "mset ys = mset xs"
    "holders i w' = holders i w0 \<union> set (Reps (FilterErrors xs))"
    by (auto simp: fold_insert_ok)
  have "set ys = set xs" using r(4) by (rule mset_eq_setD)
  then have "set (Reps (FilterErrors ys)) = set (Reps (FilterErrors xs))" by (simp add: Reps_def)
  with r w0 show ?thesis by (simp add: natsScoreThenTentativelyReserve_def)
qed

text \<open>Release and claim.\<close>

lemma nats_release_answers:
  assumes "bus_ok T i ks w" and "g \<in> ks"
  shows "\<exists>w'. nats_publish ops ''release-reservation'' (payload_of (json_instance i)) g w =
      Ret ([successResponse], w') \<and> bus_ok T i ks w' \<and> holders i w' = holders i w - {g}"
proof -
  have ad: "adm i" using assms(1) by (simp add: pool_ok_def)
  let ?f = "repReleaseReservation ops i"
  obtain rep w0 where r: "inv (delegate rep)" "guid rep = g" "reps w0 g = Some rep"
    "holders i w0 = holders i w"
    "nats_publish ops ''release-reservation'' (payload_of (json_instance i)) g w =
      Ret ([successResponse], w0\<lparr>reps := (reps w0)(g \<mapsto> snd (?f rep))\<rparr>)"
    "bus_ok T i ks (w0\<lparr>reps := (reps w0)(g \<mapsto> snd (?f rep))\<rparr>)"
    by (rule nats_publish_answered[OF assms, of "''release-reservation''" "nats_release ops"
          "payload_of (json_instance i)" "\<lambda>_. successResponse" "\<lambda>rep. snd (?f rep)"])
      (auto simp: nats_is_rabbit(3)[OF readable[OF ad]] rabbit_callbacks(3)[OF ad] repRelease_holds(2))
  have "holders i (w0\<lparr>reps := (reps w0)(g \<mapsto> snd (?f rep))\<rparr>) = holders i w0 - {g}"
    by (simp add: pool_holders_set_rep repRelease_holds r(1))
  with r show ?thesis by auto
qed

lemma natsRelease_answers:
  assumes "bus_ok T i ks w" and "set gs \<subseteq> ks"
  shows "\<exists>w'. natsReleaseReservation ops gs i w = Ret ((), w') \<and> bus_ok T i ks w' \<and>
    holders i w' = holders i w - set gs"
proof -
  obtain w0 where w0: "nats_subscribe w = (None, w0)" "bus_ok T i ks w0" "holders i w0 = holders i w"
    using nats_subscribe_answered[OF assms(1)] .
  have step: "\<exists>x w'. nats_publish ops ''release-reservation'' (payload_of (json_instance i)) h v =
      Ret ([successResponse], w') \<and> bus_ok T i ks w' \<and> True \<and> x = h \<and> holders i w' = holders i v - {x}"
    if "bus_ok T i ks v" "h \<in> ks" for h v
    using nats_release_answers[OF that] by blast
  have "\<exists>xs ys w'. gather (nats_publish ops ''release-reservation'' (payload_of (json_instance i))) gs w0 =
        Ret (map (\<lambda>_. [successResponse]) ys, w') \<and> bus_ok T i ks w' \<and> list_all (\<lambda>_. True) ys \<and>
      mset (map (\<lambda>g. g) xs) = mset gs \<and> mset ys = mset xs \<and>
      holders i w' = fold (\<lambda>g H. H - {g}) xs (holders i w0)"
    by (rule gather_encoded[where ks = ks]) (fact step | use assms w0 in simp)+
  then obtain xs ys w' where r: "gather (nats_publish ops ''release-reservation'' (payload_of (json_instance i))) gs w0 =
        Ret (map (\<lambda>_. [successResponse]) ys, w')" "bus_ok T i ks w'" "mset xs = mset gs" "mset ys = mset xs"
    "holders i w' = holders i w0 - set xs"
    by (auto simp: fold_remove)
  have "set xs = set gs" "length ys = length gs"
    using mset_eq_setD[OF r(3)] mset_eq_length[OF r(3)] mset_eq_length[OF r(4)] by simp_all
  with r w0 show ?thesis by (simp add: natsReleaseReservation_def)
qed

lemma natsClaim_answers:
  assumes "bus_ok T i ks w" and "g \<in> ks"
  shows "\<exists>w'. natsClaim ops g i w = Ret ((), w') \<and> bus_ok T i ks w' \<and> holders i w' = holders i w"
proof -
  have ad: "adm i" using assms(1) by (simp add: pool_ok_def)
  let ?f = "repClaim ops i"
  obtain w1 where w1: "nats_subscribe w = (None, w1)" "bus_ok T i ks w1" "holders i w1 = holders i w"
    using nats_subscribe_answered[OF assms(1)] .
  obtain rep w0 where r: "inv (delegate rep)" "guid rep = g" "reps w0 g = Some rep"
    "holders i w0 = holders i w1"
    "nats_publish ops ''claim'' (payload_of (json_instance i)) g w1 =
      Ret ([successResponse], w0\<lparr>reps := (reps w0)(g \<mapsto> snd (?f rep))\<rparr>)"
    "bus_ok T i ks (w0\<lparr>reps := (reps w0)(g \<mapsto> snd (?f rep))\<rparr>)"
    by (rule nats_publish_answered[OF w1(2) assms(2), of "''claim''" "nats_claim ops"
          "payload_of (json_instance i)" "\<lambda>_. successResponse" "\<lambda>rep. snd (?f rep)"])
      (auto simp: nats_is_rabbit(4)[OF readable[OF ad]] rabbit_callbacks(4)[OF ad] repClaim_holds(2))
  obtain j where j: "json_instance i = Some j" "payload_of (json_instance i) = Json j"
    using adm_wire[OF ad] by (rule instance_payload)
  have "holders i (w0\<lparr>reps := (reps w0)(g \<mapsto> snd (?f rep))\<rparr>) = holders i w0"
    by (rule holders_unchanged[OF r(3)]) (simp add: repClaim_holds r(1))
  with r w1 j show ?thesis
    by (auto simp: natsClaim_def publishWithTimeout_def no_response_def successResponse_def)
qed

sublocale nats: reserving_pool "nats_client ops" "holders i" "\<lambda>w. bus_ok T i ks w" i ks for T i ks
  using natsScore_answers natsReserve_answers natsRelease_answers natsClaim_answers
  by unfold_locales simp_all

end

end
