(* ===== verification/Example_Cells.thy ===== *)
theory Example_Cells
  imports Rep_World
begin

text \<open>
  The pool of the examples: two simulation cells, and another auction that reserves and scores at
  them in between; a bus to the same cells; and an order of an auction over them.
\<close>

definition example_reps :: "string \<Rightarrow> sim_delegate auction_rep option" where
  "example_reps =
     [''a'' \<mapsto> newAuctionRep ''a'' (example_cell []),
      ''b'' \<mapsto> newAuctionRep ''b'' (example_cell [(''j'', example_instance ''j'')])]"

definition example_others :: "nat \<Rightarrow> rep_op list" where
  "example_others n = [OpReserve ''a'' (example_instance ''k''), OpScore ''b'' (example_instance ''l'')]"

definition example_order :: "string \<Rightarrow> auction_request" where
  "example_order alg =
     \<lparr>ReqInstance = example_instance ''i'', RepGuids = [''a'', ''b''],
      Rules = \<lparr>Algorithm = alg, MaxRounds = 3, MaxBiddingPool = Fin 1\<rparr>\<rparr>"

definition example_totals :: "string \<Rightarrow> resources" where
  "example_totals g = \<lparr>DiskMB = Fin 100, MemoryMB = Fin 100, Containers = 2\<rparr>"

lemma example_reps_ok:
  assumes "reps w = example_reps" and "others w = example_others \<or> others w = (\<lambda>_. [])"
    and "good (example_cell [])" and "good (example_cell [(''j'', example_instance ''j'')])"
    and "\<And>g. adm (example_instance g)"
  shows "pool_ok (rep_ok sim_ops good example_totals) adm (example_instance ''i'') {''a'', ''b''} w"
  using assms
  by (auto simp: pool_ok_def rep_ok_def example_reps_def example_others_def newAuctionRep_def
      example_totals_def example_instance_def example_cell_def repTotalResources_def)

lemma example_reps_free:
  "reps w = example_reps \<Longrightarrow> pool_holders sim_holds (example_instance ''i'') w = {}"
  by (auto simp: pool_holders_def example_reps_def newAuctionRep_def sim_holds_def example_cell_def
      example_instance_def split: if_splits)

lemma example_order_valid: "valid_request {''a'', ''b''} (example_instance ''i'') (example_order alg)"
  by (simp add: valid_request_def example_order_def fle_def)

lemma example_order_algorithm: "Algorithm (Rules (example_order alg)) = alg"
  by (simp add: example_order_def)

lemma example_cells_ok:
  "sim_inv (example_cell [])" "sim_inv (example_cell [(''j'', example_instance ''j'')])"
  "within_capacity (example_cell [])" "within_capacity (example_cell [(''j'', example_instance ''j'')])"
  by code_simp+

end
