(* ===== verification/Remote_Auctions.thy ===== *)
theory Remote_Auctions
  imports Nats Example_Cells
begin

text \<open>
  Auctions over the two message buses.  On a bus that answers every request both clients keep the
  contract of a pool, so auctions settle; and what happens when requests are lost, late or cannot
  be read, on either bus.
\<close>

section \<open>An undisturbed world\<close>

definition undisturbed :: "('d, 'z) rep_world_scheme \<Rightarrow> bool" where
  "undisturbed w \<longleftrightarrow> others w = (\<lambda>_. [])"

lemma undisturbed_Sleep:
  "undisturbed w \<Longrightarrow> time_Sleep ops w = Ret (w\<lparr>others_run := Suc (others_run w)\<rparr>)"
  by (simp add: undisturbed_def time_Sleep_def)

section \<open>Requests that fail\<close>

lemma Request_fails:
  assumes "undisturbed w" and "fates w (fates_read w) = Lost"
  shows "Request ops g subject body w =
    Ret ((Text '''', Some TimeoutError),
      w\<lparr>entropy_reads := Suc (entropy_reads w), fates_read := Suc (fates_read w),
        others_run := Suc (others_run w)\<rparr>)"
proof -
  have "undisturbed (w\<lparr>entropy_reads := Suc (entropy_reads w), fates_read := Suc (fates_read w)\<rparr>)"
    using assms(1) by (simp add: undisturbed_def)
  with assms(2) show ?thesis
    by (simp add: Request_def next_fate_def snd_RandomGuid split_beta undisturbed_Sleep)
qed

lemma Request_answers:
  assumes "undisturbed w" and "fates w (fates_read w) = Answered" and "reps w g = Some rep"
    and "rabbit_handlers ops subject = Some cb"
  shows "Request ops g subject body w =
    Ret ((fst (cb body rep), None),
      w\<lparr>entropy_reads := Suc (entropy_reads w), fates_read := Suc (fates_read w),
        others_run := Suc (others_run w), reps := (reps w)(g \<mapsto> snd (cb body rep))\<rparr>)"
proof -
  have "undisturbed (w\<lparr>entropy_reads := Suc (entropy_reads w), fates_read := Suc (fates_read w)\<rparr>)"
    using assms(1) by (simp add: undisturbed_def)
  with assms(2-4) show ?thesis
    by (simp add: Request_def next_fate_def snd_RandomGuid split_beta undisturbed_Sleep
        rabbit_serve_def rabbit_dispatch_def)
qed

text \<open>The goroutine of a failed request sends an error and then a bid of nobody, of score zero.\<close>

lemma rabbit_ask_fails:
  assumes "wire_instance i" and "Request ops g subject (payload_of (json_instance i)) w =
      Ret ((p, Some e), w')"
  shows "rabbit_ask ops subject i g w = Ret ([zero_score_result\<lparr>Error := e\<rparr>, zero_score_result], w')"
proof -
  obtain j where "json_instance i = Some j" "payload_of (json_instance i) = Json j"
    using assms(1) by (rule instance_payload)
  with assms(2) show ?thesis by (simp add: rabbit_ask_def rabbit_request_def)
qed

definition first_then :: "nat \<Rightarrow> nat \<Rightarrow> rand" where
  "first_then n d = \<lparr>draws = (\<lambda>k. if k < n then 1 else d), drawn = 0\<rparr>"

lemma shuffle_pair: "shuffle [a, b] (first_then 2 0) = ([a, b], (first_then 2 0)\<lparr>drawn := 2\<rparr>)"
  by (simp add: shuffle_def first_then_def numeral_2_eq_2 draw_below_def draw_def perm_step_def
      permute_def)

lemma receive_first_two:
  "receive 2 [[x, y], z] ((first_then 2 0)\<lparr>drawn := 2\<rparr>) =
     ([x, y], (first_then 2 0)\<lparr>drawn := 4\<rparr>)"
  by (cases z) (simp_all add: first_then_def numeral_2_eq_2 draw_below_def draw_def)

text \<open>
  The first of two goroutines fails and both its results are received: the answer of the other
  one is never looked at.
\<close>

lemma rabbit_batch_of_two:
  assumes "rabbit_ask ops s i a (w\<lparr>sched := (first_then 2 0)\<lparr>drawn := 2\<rparr>\<rparr>) = Ret ([x, y], w1)"
    and "rabbit_ask ops s i b w1 = Ret (zs, w2)" and "sched w2 = (first_then 2 0)\<lparr>drawn := 2\<rparr>"
  shows "rabbit_batch ops s [a, b] i (w\<lparr>sched := first_then 2 0\<rparr>) =
    Ret ([x, y], w2\<lparr>sched := (first_then 2 0)\<lparr>drawn := 4\<rparr>\<rparr>)"
  using assms receive_first_two[of x y zs] shuffle_pair[of a b]
  by (simp add: rabbit_batch_def numeral_2_eq_2)

lemma ghost_wins:
  assumes "e \<noteq> ''''"
  shows "FilterErrors [zero_score_result\<lparr>Error := e\<rparr>, zero_score_result] = [zero_score_result]"
  using assms by (simp add: FilterErrors_def zero_score_result_def)

lemma order_bids_single:
  "FilterErrors v = [x] \<Longrightarrow> \<exists>r. order_bids v w = ([x], w\<lparr>R := r\<rparr>)"
  by (auto simp: order_bids_def ordered_bids_def Shuffle_def Sort_def shuffle_def permute_def
      split_beta draw_below_def draw_def perm_step_def)

lemma rabbitClaim_nobody:
  assumes "undisturbed w" and "reps w g = None"
  shows "\<exists>w'. rabbitClaim ops g i w = Ret ((), w') \<and> reps w' = reps w"
proof -
  have u: "undisturbed (w\<lparr>entropy_reads := m, fates_read := n\<rparr>)" for m n
    using assms(1) by (simp add: undisturbed_def)
  have "\<exists>p e w'. Request ops g ''claim'' body w = Ret ((p, Some e), w') \<and> reps w' = reps w" for body
    using assms(2)
    by (cases "fates w (fates_read w)")
      (auto simp: Request_def next_fate_def snd_RandomGuid split_beta undisturbed_Sleep[OF u]
        rabbit_serve_def)
  then obtain p e w' where "Request ops g ''claim'' (Json (the (json_instance i))) w = Ret ((p, Some e), w')"
    "reps w' = reps w"
    by blast
  then show ?thesis
    by (cases "json_instance i") (auto simp: rabbitClaim_def rabbit_request_def)
qed

definition pair_order :: "string \<Rightarrow> string \<Rightarrow> app_instance \<Rightarrow> int \<Rightarrow> auction_request" where
  "pair_order a b i mr =
     \<lparr>ReqInstance = i, RepGuids = [a, b],
      Rules = \<lparr>Algorithm = ''all_reserve'', MaxRounds = mr, MaxBiddingPool = Fin 1\<rparr>\<rparr>"

text \<open>C17: over RabbitMQ, one lost request is enough for an auction to give up in its first round
  with a reservation left behind: the goroutine that failed sends an error and then a zero result,
  which is a bid of score zero by the representative of no name; both are received, the
  reservation the other representative made is not, the nameless bid wins, and the auction ends
  without a winner and without a release.\<close>

theorem rabbit_auction_leaks:
  fixes w :: "('d, 'z) bus_world_scheme"
  assumes "undisturbed w" and "wire_instance i" and "b \<noteq> ''''" and "reps w '''' = None"
    and "fates w (fates_read w) = Lost" and "fates w (Suc (fates_read w)) = Answered"
    and "reps w b = Some rep" and "repScoreThenTentativelyReserve ops i rep = ((sc, None), rep')"
    and "is_finite sc" and "1 \<le> mr"
  shows "\<exists>s res w'. Auction (rabbit_client ops) (pair_order a b i mr) (w\<lparr>sched := s\<rparr>) = Ret (res, w') \<and>
    Winner res = '''' \<and> NumRounds res = 1 \<and> reps w' b = Some rep'"
proof -
  let ?s = "''score_then_tentatively_reserve''" and ?d = "(first_then 2 0)\<lparr>drawn := 2\<rparr>"
  define w0 where "w0 = w\<lparr>clock_reads := Suc (clock_reads w), sched := first_then 2 0\<rparr>"
  have start: "w\<lparr>sched := first_then 2 0, clock_reads := Suc (clock_reads w)\<rparr> = w0"
    by (rule rep_world.equality) (simp_all add: w0_def)
  define v where "v = w0\<lparr>sched := ?d\<rparr>"
  have v: "undisturbed v" "fates v (fates_read v) = Lost"
    using assms by (simp_all add: v_def w0_def undisturbed_def)
  define v1 where "v1 = v\<lparr>entropy_reads := Suc (entropy_reads v), fates_read := Suc (fates_read v),
    others_run := Suc (others_run v)\<rparr>"
  have a: "rabbit_ask ops ?s i a v =
      Ret ([zero_score_result\<lparr>Error := TimeoutError\<rparr>, zero_score_result], v1)"
    unfolding v1_def by (rule rabbit_ask_fails[OF assms(2) Request_fails[OF v]])
  have v1: "undisturbed v1" "fates v1 (fates_read v1) = Answered" "reps v1 b = Some rep"
    using assms by (simp_all add: v1_def v_def w0_def undisturbed_def)
  have un: "un_instance (payload_of (json_instance i)) = (i, False)" using assms(2) by simp
  then have cb: "rabbit_reserve ops (payload_of (json_instance i)) rep =
      (payload_of (json_score_result (score_response (guid rep) (sc, None))), rep')"
    using assms(8) by (simp add: rabbit_reserve_def Guid_def)
  have "rabbit_handlers ops ?s = Some (rabbit_reserve ops)" by simp
  note req = Request_answers[OF v1 this, of "payload_of (json_instance i)", unfolded cb fst_conv snd_conv]
  have "is_finite (Score (score_response (guid rep) (sc, None)))"
    using assms(9) by (simp add: score_response_def)
  note b = rabbit_ask_response[OF assms(2) req this]
  define v2 where "v2 = v1\<lparr>entropy_reads := Suc (entropy_reads v1), fates_read := Suc (fates_read v1),
    others_run := Suc (others_run v1), reps := (reps v1)(b \<mapsto> rep')\<rparr>"
  define v3 where "v3 = v2\<lparr>sched := (first_then 2 0)\<lparr>drawn := 4\<rparr>\<rparr>"
  have batch: "rabbitScoreThenTentativelyReserve ops [a, b] i w0 =
      Ret ([zero_score_result\<lparr>Error := TimeoutError\<rparr>, zero_score_result], v3)"
    using rabbit_batch_of_two[OF a[unfolded v_def] b[folded v2_def]]
    by (simp add: v3_def rabbitScoreThenTentativelyReserve_def v2_def v1_def v_def w0_def)
  obtain r where r: "order_bids [zero_score_result\<lparr>Error := TimeoutError\<rparr>, zero_score_result] v3 =
      ([zero_score_result], v3\<lparr>R := r\<rparr>)"
    using order_bids_single[OF ghost_wins[of TimeoutError]] by (auto simp: TimeoutError_def)
  have "undisturbed (v3\<lparr>R := r\<rparr>)" "reps (v3\<lparr>R := r\<rparr>) '''' = None"
    using assms(1,3,4) by (simp_all add: v3_def v2_def v1_def v_def w0_def undisturbed_def)
  then obtain w5 where claim: "rabbitClaim ops '''' i (v3\<lparr>R := r\<rparr>) = Ret ((), w5)"
    "reps w5 = reps v3"
    using rabbitClaim_nobody[of "v3\<lparr>R := r\<rparr>" "''''" ops i] by auto
  let ?req = "pair_order a b i mr"
  have round: "allReserveRound (rabbit_client ops) ?req 0 w0 = Ret (Return '''' 3 w5)"
    using batch r claim
    by (simp add: allReserveRound_def pick_subset_def RandomSubsetByFraction_def pair_order_def fle_def
        AllFailed_def TimeoutError_def FilterErrors_def Reps_def go_index_def zero_score_result_def
        w0_def)
  have "hold_auction (rabbit_client ops) ?req w0 = Ret (('''', 1, 3), w5)"
    using assms(10) round
    by (simp add: hold_auction_def allReserveAuction_def pair_order_def run_rounds.simps[of _ mr 1])
  with start have "Auction (rabbit_client ops) ?req (w\<lparr>sched := first_then 2 0\<rparr>) =
      Ret (\<lparr>ResInstance = i, Winner = '''', NumRounds = 1, NumCommunications = 3,
        BiddingDuration = now_ns w5 (clock_reads w5) - now_ns w (clock_reads w), Duration = 0\<rparr>,
        w5\<lparr>clock_reads := Suc (clock_reads w5)\<rparr>)"
    by (simp add: Auction_def time_Now_def pair_order_def)
  moreover have "reps w5 b = Some rep'" using claim(2) by (simp add: v3_def v2_def)
  ultimately show ?thesis by (intro exI) auto
qed

section \<open>The bus of the examples\<close>

definition example_bus :: "(nat \<Rightarrow> fate) \<Rightarrow> sim_delegate bus_world" where
  "example_bus f =
     \<lparr>R = \<lparr>draws = (\<lambda>n. n), drawn = 0\<rparr>, guidTracker = Map.empty, entropy = (\<lambda>n. None),
      entropy_reads = 0, now_ns = (\<lambda>n. int n), clock_reads = 0, reps = example_reps,
      sched = \<lparr>draws = (\<lambda>n. n), drawn = 0\<rparr>, others = (\<lambda>_. []), others_run = 0,
      fates = f, fates_read = 0\<rparr>"

lemma reps_example_bus [simp]: "reps (example_bus f) = example_reps"
  by (simp add: example_bus_def)

lemma example_bus_simps [simp]:
  "others (example_bus f) = (\<lambda>_. [])"
  "fates (example_bus f) = f" "fates_read (example_bus f) = 0" "undisturbed (example_bus f)"
  by (simp_all add: example_bus_def undisturbed_def)

lemma example_wire: "wire_instance (example_instance g)"
  by (simp add: example_instance_def wire_instance_def wire_resources_def)

lemma example_cells_bounded:
  "bounded_cell (example_cell [])" "bounded_cell (example_cell [(''j'', example_instance ''j'')])"
  by (simp_all add: bounded_cell_def example_cells_ok) (simp_all add: example_cell_def)

lemma example_wire_whole: "wire_whole (example_instance g)"
  by (simp add: wire_whole_def example_wire example_instance_whole)

lemma example_reserves:
  obtains sc rep' where
    "repScoreThenTentativelyReserve sim_ops (example_instance ''i'') (newAuctionRep ''a'' (example_cell [])) =
      ((sc, None), rep')"
    "is_finite sc" "sim_holds (delegate rep') ''i''"
proof -
  let ?rep = "newAuctionRep ''a'' (example_cell [])" and ?i = "example_instance ''i''"
  have inv: "bounded_cell (delegate ?rep)" by (simp add: newAuctionRep_def example_cells_bounded)
  have "hasRoomFor (Resources ?i) (fst (remainingResources (delegate ?rep)))"
    "fst (Reserve ?i (snd (NumInstancesForAppGuid (AppGuid ?i) (snd (remainingResources (delegate ?rep)))))) = None"
    by code_simp+
  then have ok: "snd (fst (repScoreThenTentativelyReserve sim_ops ?i ?rep)) = None"
    by (simp add: repScoreThenTentativelyReserve_def Let_def split_beta)
  obtain sc rep' where r: "repScoreThenTentativelyReserve sim_ops ?i ?rep = ((sc, None), rep')"
    using ok by (metis prod.collapse)
  have "is_finite sc" using bounded_sim.repReserve_finite[OF inv, of ?i] r by simp
  moreover have "sim_holds (delegate rep') ''i''"
    using bounded_sim.repReserve_keeps(3)[OF inv, of ?i] r by (simp add: example_instance_def)
  ultimately show thesis by (rule that[OF r])
qed

theorem rabbit_auction_leaks_witness:
  "\<exists>s res w'. Auction (rabbit_client sim_ops) (pair_order ''b'' ''a'' (example_instance ''i'') 3)
       ((example_bus (\<lambda>n. if n = 0 then Lost else Answered))\<lparr>sched := s\<rparr>) = Ret (res, w') \<and>
     Winner res = '''' \<and> NumRounds res = 1 \<and>
     (\<exists>rep. reps w' ''a'' = Some rep \<and> sim_holds (delegate rep) ''i'')"
proof -
  obtain sc rep' where r: "repScoreThenTentativelyReserve sim_ops (example_instance ''i'')
      (newAuctionRep ''a'' (example_cell [])) = ((sc, None), rep')"
    "is_finite sc" "sim_holds (delegate rep') ''i''"
    by (rule example_reserves)
  moreover have "reps (example_bus f) ''a'' = Some (newAuctionRep ''a'' (example_cell []))"
    "reps (example_bus f) '''' = None" for f
    by (simp_all add: example_reps_def)
  ultimately show ?thesis
    using rabbit_auction_leaks[OF _ example_wire _ _ _ _ _ r(1),
        of "example_bus (\<lambda>n. if n = 0 then Lost else Answered)" "''a''" 3 "''b''"]
    by (simp del: reps_example_bus) metis
qed

section \<open>Auctions over a bus that answers\<close>

text \<open>C2: over either message bus, as long as every request is answered, an auction held with any of
  the six algorithms among simulation cells whose scores can be written returns, with exactly the
  winner holding the instance or with no winner and nobody holding it, whatever else happens at
  the cells in between; only \<open>pick_among_best\<close> may panic instead.\<close>

theorem remote_auction_settles:
  assumes "client = rabbit_client sim_ops \<or> client = nats_client sim_ops"
    and "pool_ok (rep_ok sim_ops bounded_cell T) wire_whole inst ks w" and "answering w"
    and "pool_holders sim_holds inst w = {}" and "valid_request ks inst req"
    and "Algorithm (Rules req) \<in> algorithms"
  shows "settled only_pick_among_best
    (\<lambda>w. pool_ok (rep_ok sim_ops bounded_cell T) wire_whole inst ks w \<and> answering w)
    (pool_holders sim_holds inst) req (Auction client req w)"
  using assms(1)
proof
  note ok = conjI[OF assms(2,3)]
  show ?thesis if "client = rabbit_client sim_ops"
    unfolding that by (rule bounded_sim.rabbit.Auction_settles[OF assms(5) ok assms(4,6)])
  show ?thesis if "client = nats_client sim_ops"
    unfolding that by (rule bounded_sim.nats.Auction_settles[OF assms(5) ok assms(4,6)])
qed

lemma example_bus_ok:
  "pool_ok (rep_ok sim_ops bounded_cell example_totals) wire_whole (example_instance ''i'') {''a'', ''b''}
    (example_bus f)"
  by (rule example_reps_ok) (simp_all add: example_cells_bounded example_wire_whole)

theorem remote_auction_settles_witness:
  "settled only_pick_among_best
     (\<lambda>w. pool_ok (rep_ok sim_ops bounded_cell example_totals) wire_whole (example_instance ''i'')
        {''a'', ''b''} w \<and> answering w)
     (pool_holders sim_holds (example_instance ''i'')) (example_order ''all_rescore'')
     (Auction (nats_client sim_ops) (example_order ''all_rescore'') (example_bus (\<lambda>_. Answered)))"
proof (rule remote_auction_settles)
  show "Algorithm (Rules (example_order ''all_rescore'')) \<in> algorithms"
    by (simp add: example_order_algorithm algorithms_def)
  show "pool_holders sim_holds (example_instance ''i'') (example_bus (\<lambda>_. Answered)) = {}"
    by (rule example_reps_free) simp
  show "answering (example_bus (\<lambda>_. Answered))" by (simp add: answering_def)
qed (simp_all add: example_bus_ok example_order_valid)

text \<open>C3: whatever calls are made, in whatever order, a remote client over a bus that answers does
  what the abstract pool does: it gives answers that pool may give, and the cells that hold the
  instance afterwards are the holders of the abstract pool.\<close>

theorem remote_clients_refine_pool:
  assumes "client = rabbit_client sim_ops \<or> client = nats_client sim_ops"
    and "pool_ok (rep_ok sim_ops bounded_cell T) wire_whole inst ks w" and "answering w"
    and "\<And>c. c \<in> set cs \<Longrightarrow> call_guids c \<subseteq> ks"
  shows "\<exists>as w'. client_calls client inst cs w = Ret (as, w') \<and>
    pool_runs cs (pool_holders sim_holds inst w) as (pool_holders sim_holds inst w')"
  using assms(1)
proof
  note ok = conjI[OF assms(2,3)]
  show ?thesis if "client = rabbit_client sim_ops"
    unfolding that using bounded_sim.rabbit.calls_refine[OF ok assms(4)] by blast
  show ?thesis if "client = nats_client sim_ops"
    unfolding that using bounded_sim.nats.calls_refine[OF ok assms(4)] by blast
qed

theorem remote_clients_refine_pool_witness:
  "\<exists>as w'. client_calls (rabbit_client sim_ops) (example_instance ''i'')
       [PoolReserve [''a'', ''b''], PoolClaim ''a'', PoolRelease [''b'']] (example_bus (\<lambda>_. Answered)) =
      Ret (as, w') \<and>
     pool_runs [PoolReserve [''a'', ''b''], PoolClaim ''a'', PoolRelease [''b'']] {} as
       (pool_holders sim_holds (example_instance ''i'') w')"
proof -
  have "pool_holders sim_holds (example_instance ''i'') (example_bus (\<lambda>_. Answered)) = {}"
    by (rule example_reps_free) simp
  moreover have "answering (example_bus (\<lambda>_. Answered))" by (simp add: answering_def)
  moreover have "call_guids c \<subseteq> {''a'', ''b''}"
    if "c \<in> set [PoolReserve [''a'', ''b''], PoolClaim ''a'', PoolRelease [''b'']]" for c
    using that by auto
  ultimately show ?thesis
    using remote_clients_refine_pool[OF disjI1[OF refl] example_bus_ok,
        of "\<lambda>_. Answered" "[PoolReserve [''a'', ''b''], PoolClaim ''a'', PoolRelease [''b'']]"]
    by (simp only:)
qed

section \<open>Late replies\<close>

lemma shuffle_one: "\<exists>r'. shuffle [x] r = ([x], r')"
  by (simp add: shuffle_def permute_def split_beta draw_below_def draw_def perm_step_def)

lemma gather_one:
  assumes "\<And>s. body g (w\<lparr>sched := s\<rparr>) = Ret (x, f s)"
  shows "\<exists>s s'. gather body [g] w = Ret ([x], (f s)\<lparr>sched := s'\<rparr>)"
proof -
  obtain s where s: "shuffle [g] (sched w) = ([g], s)" using shuffle_one[of g "sched w"] by blast
  obtain s' where "shuffle [x] (sched (f s)) = ([x], s')" using shuffle_one[of x "sched (f s)"] by blast
  with s assms show ?thesis by (intro exI[of _ s] exI[of _ s']) (simp add: gather_def)
qed

lemma nats_publish_late:
  assumes "undisturbed w" and "fates w (fates_read w) = Late" and "reps w g = Some rep"
    and "nats_subscriptions ops s = Some sub" and "sub body rep = Ret (replies, rep')"
  shows "nats_publish ops s body g w =
    Ret ([], w\<lparr>fates_read := Suc (fates_read w), others_run := Suc (others_run w),
      reps := (reps w)(g \<mapsto> rep')\<rparr>)"
proof -
  have "undisturbed (w\<lparr>fates_read := Suc (fates_read w)\<rparr>)" using assms(1) by (simp add: undisturbed_def)
  with assms(2-) show ?thesis
    by (simp add: nats_publish_def next_fate_def undisturbed_Sleep nats_serve_def)
qed

lemma natsReserve_late:
  fixes w :: "('d, 'z) bus_world_scheme"
  assumes "undisturbed w" and "wire_instance i" and "reps w g = Some rep"
    and "fates w (fates_read w) = Answered" and "fates w (Suc (fates_read w)) = Late"
    and "repScoreThenTentativelyReserve ops i rep = ((sc, None), rep')"
  shows "\<exists>w'. natsScoreThenTentativelyReserve ops [g] i w = Ret ([], w') \<and> reps w' g = Some rep'"
proof -
  define w1 where "w1 = snd (nats_subscribe w)"
  have w1: "undisturbed w1" "fates w1 (fates_read w1) = Late" "reps w1 g = Some rep"
    using assms by (simp_all add: w1_def nats_subscribe_def snd_RandomGuid next_fate_def undisturbed_def
        split_beta)
  have sub: "nats_subscribe w = (None, w1)"
    using assms(4) by (cases "fates w (fates_read w)")
      (simp_all add: w1_def nats_subscribe_def snd_RandomGuid next_fate_def split_beta)
  let ?s = "''score_then_tentatively_reserve''" and ?b = "payload_of (json_instance i)"
  have "nats_reserve ops ?b rep =
      Ret ([payload_of (json_score_result (score_response (Guid rep) (sc, None)))], rep')"
    using assms(2,6) by (simp add: nats_reserve_def)
  moreover have "nats_subscriptions ops ?s = Some (nats_reserve ops)"
    by (simp add: nats_subscriptions_def)
  ultimately have "nats_publish ops ?s ?b g (w1\<lparr>sched := s\<rparr>) =
      Ret ([], w1\<lparr>sched := s, fates_read := Suc (fates_read w1), others_run := Suc (others_run w1),
        reps := (reps w1)(g \<mapsto> rep')\<rparr>)" for s
    using nats_publish_late[of "w1\<lparr>sched := s\<rparr>" g rep ops ?s] w1 by (simp add: undisturbed_def)
  from gather_one[where body = "nats_publish ops ?s ?b", OF this] obtain s s' where
    "gather (nats_publish ops ?s ?b) [g] w1 = Ret ([[]], (w1\<lparr>sched := s, fates_read := Suc (fates_read w1),
      others_run := Suc (others_run w1), reps := (reps w1)(g \<mapsto> rep')\<rparr>)\<lparr>sched := s'\<rparr>)"
    by blast
  then show ?thesis using sub by (simp add: natsScoreThenTentativelyReserve_def nats_batch_def)
qed

text \<open> over NATS, a reservation whose reply comes after the time-out is kept by the representative
  while the client gets no answer at all; an auction with \<open>random\<close> reads the answer that is not
  there and panics.\<close>

theorem nats_late_reply:
  fixes w :: "('d, 'z) bus_world_scheme"
  assumes "undisturbed w" and "wire_instance i" and "reps w g = Some rep"
    and "fates w (fates_read w) = Answered" and "fates w (Suc (fates_read w)) = Late"
    and "repScoreThenTentativelyReserve ops i rep = ((sc, None), rep')" and "1 \<le> mr"
  shows "(\<exists>w'. natsScoreThenTentativelyReserve ops [g] i w = Ret ([], w') \<and> reps w' g = Some rep') \<and>
    Auction (nats_client ops)
      \<lparr>ReqInstance = i, RepGuids = [g],
       Rules = \<lparr>Algorithm = ''random'', MaxRounds = mr, MaxBiddingPool = p\<rparr>\<rparr> w = Panic IndexOutOfRange"
proof
  show "\<exists>w'. natsScoreThenTentativelyReserve ops [g] i w = Ret ([], w') \<and> reps w' g = Some rep'"
    by (rule natsReserve_late) (fact assms)+
  obtain r where "RandomSubsetByCount [g] 1 (R w) = Ret ([g], r)"
    by (simp add: RandomSubsetByCount_def permute_def split_beta draw_below_def draw_def perm_step_def)
  moreover obtain w' where "natsScoreThenTentativelyReserve ops [g] i
      (w\<lparr>clock_reads := Suc (clock_reads w), R := r\<rparr>) = Ret ([], w')"
    using natsReserve_late[of "w\<lparr>clock_reads := Suc (clock_reads w), R := r\<rparr>" i g rep ops sc rep'] assms
    by (auto simp: undisturbed_def)
  ultimately show "Auction (nats_client ops) \<lparr>ReqInstance = i, RepGuids = [g],
       Rules = \<lparr>Algorithm = ''random'', MaxRounds = mr, MaxBiddingPool = p\<rparr>\<rparr> w = Panic IndexOutOfRange"
    using assms(7)
    by (simp add: Auction_def time_Now_def hold_auction_def randomAuction_def run_rounds.simps[of _ mr 1]
        randomRound_def go_index_def)
qed

theorem nats_late_reply_witness:
  "\<exists>w'. natsScoreThenTentativelyReserve sim_ops [''a''] (example_instance ''i'')
       (example_bus (\<lambda>n. if n = 0 then Answered else Late)) = Ret ([], w') \<and>
     (\<exists>rep. reps w' ''a'' = Some rep \<and> sim_holds (delegate rep) ''i'')"
proof -
  obtain sc rep' where r: "repScoreThenTentativelyReserve sim_ops (example_instance ''i'')
      (newAuctionRep ''a'' (example_cell [])) = ((sc, None), rep')" "sim_holds (delegate rep') ''i''"
    by (rule example_reserves)
  from nats_late_reply[OF _ example_wire _ _ _ r(1), of "example_bus (\<lambda>n. if n = 0 then Answered else Late)" "''a''"]
    r(2) show ?thesis
    by (fastforce simp: example_reps_def)
qed

section \<open>Payloads that cannot be read\<close>

text \<open> a RabbitMQ representative answers every payload it cannot read with the error response and
  stays as it was.  A NATS representative panics where it should score or reserve, which takes
  it down; and where it should set its instances it publishes both the error and the success
  response, after it has set what could be decoded.\<close>

theorem bad_payload:
  assumes "snd (un_instance p)" and "snd (un_instances p)" and "reps w g = Some rep"
  shows "(\<forall>s \<in> {''set_instances'', ''score'', ''score_then_tentatively_reserve'', ''release-reservation'',
        ''claim''}. rabbit_dispatch (rabbit_handlers ops) s p rep = (Some (Text ''error''), rep)) \<and>
    (\<forall>s \<in> {''score'', ''score_then_tentatively_reserve''}.
      nats_serve ops s p g w = ([], w\<lparr>reps := (reps w)(g := None)\<rparr>)) \<and>
    nats_serve ops ''set_instances'' p g w =
      ([Text ''error'', Text ''ok''],
       w\<lparr>reps := (reps w)(g \<mapsto> repSetInstances ops (fst (un_instances p)) rep)\<rparr>)"
  using assms
  by (simp add: rabbit_dispatch_def rabbit_handlers_def rabbit_set_instances_def rabbit_score_def
      rabbit_reserve_def rabbit_release_def rabbit_claim_def nats_serve_def nats_subscriptions_def
      nats_score_def nats_reserve_def nats_set_instances_def errorResponse_def successResponse_def
      split_beta)

theorem bad_payload_witness:
  "reps (snd (nats_serve sim_ops ''score'' (Text ''{'') ''a'' (example_bus (\<lambda>_. Answered)))) ''a'' = None \<and>
   rabbit_dispatch (rabbit_handlers sim_ops) ''score'' (Text ''{'') (newAuctionRep ''a'' (example_cell [])) =
     (Some (Text ''error''), newAuctionRep ''a'' (example_cell []))"
  using bad_payload[of "Text ''{''" "example_bus (\<lambda>_. Answered)" "''a''"
      "newAuctionRep ''a'' (example_cell [])" sim_ops]
  by (simp add: un_instance_def un_instances_def example_reps_def)

end
