(* ===== verification/Distributor.thy ===== *)
theory Distributor
  imports Types "HOL-Library.Multiset"
begin

text \<open>
  \<open>simulation/auctiondistributor\<close>: \<open>HoldAuctionsFor\<close> starts a goroutine per instance, lets at most
  \<open>maxConcurrent\<close> of them hold an auction at a time, and collects a result from each.  The
  goroutines are a step relation; the communicator, which holds one auction, is any relation
  between requests and results.
\<close>

section \<open>Goroutines and semaphore\<close>

text \<open>
  A goroutine waits for the semaphore, holds its auction, waits for the collector to take its result,
  and gives its place in the semaphore back.  \<open>collected\<close>: the results with the instances of the
  goroutines they came from, in the order of collection.
\<close>

record distributor =
  waiting :: "app_instance list"
  auctioning :: "app_instance list"
  finished :: "(app_instance \<times> auction_result) list"
  collected :: "(app_instance \<times> auction_result) list"
  leaving :: nat
  semaphore :: nat

definition start_auctions :: "app_instance list \<Rightarrow> distributor" where
  "start_auctions insts =
     \<lparr>waiting = insts, auctioning = [], finished = [], collected = [], leaving = 0, semaphore = 0\<rparr>"

definition request_for :: "rep_guids \<Rightarrow> auction_rules \<Rightarrow> app_instance \<Rightarrow> auction_request" where
  "request_for representatives rules inst =
     \<lparr>ReqInstance = inst, RepGuids = representatives, Rules = rules\<rparr>"

inductive distributor_step ::
    "int \<Rightarrow> (auction_request \<Rightarrow> auction_result \<Rightarrow> bool) \<Rightarrow> rep_guids \<Rightarrow> auction_rules
     \<Rightarrow> distributor \<Rightarrow> distributor \<Rightarrow> bool"
  for maxConcurrent communicator representatives rules where
  acquire: "waiting s = xs @ inst # ys \<Longrightarrow> int (semaphore s) < maxConcurrent \<Longrightarrow>
    distributor_step maxConcurrent communicator representatives rules s
      (s\<lparr>waiting := xs @ ys, auctioning := auctioning s @ [inst], semaphore := Suc (semaphore s)\<rparr>)"
| answer: "auctioning s = xs @ inst # ys \<Longrightarrow> communicator (request_for representatives rules inst) result \<Longrightarrow>
    distributor_step maxConcurrent communicator representatives rules s
      (s\<lparr>auctioning := xs @ ys, finished := finished s @ [(inst, result\<lparr>Duration := t\<rparr>)]\<rparr>)"
| collect: "finished s = xs @ r # ys \<Longrightarrow>
    distributor_step maxConcurrent communicator representatives rules s
      (s\<lparr>finished := xs @ ys, collected := collected s @ [r], leaving := Suc (leaving s)\<rparr>)"
| leave: "leaving s = Suc n \<Longrightarrow>
    distributor_step maxConcurrent communicator representatives rules s
      (s\<lparr>leaving := n, semaphore := semaphore s - 1\<rparr>)"

inductive_cases distributor_stepE: "distributor_step m com reps rules s s'"

definition distributed ::
    "int \<Rightarrow> (auction_request \<Rightarrow> auction_result \<Rightarrow> bool) \<Rightarrow> rep_guids \<Rightarrow> auction_rules
     \<Rightarrow> app_instance list \<Rightarrow> distributor \<Rightarrow> bool" where
  "distributed m com reps rules insts s \<longleftrightarrow> (distributor_step m com reps rules)\<^sup>*\<^sup>* (start_auctions insts) s"

section \<open>Invariant\<close>

text \<open>Every instance is with exactly one goroutine; the semaphore counts the goroutines past it.\<close>

definition instances_of :: "distributor \<Rightarrow> app_instance multiset" where
  "instances_of s = mset (waiting s) + mset (auctioning s) + mset (map fst (finished s)) + mset (map fst (collected s))"

definition answered :: "(auction_request \<Rightarrow> auction_result \<Rightarrow> bool) \<Rightarrow> rep_guids \<Rightarrow> auction_rules
    \<Rightarrow> app_instance \<times> auction_result \<Rightarrow> bool" where
  "answered com reps rules x \<longleftrightarrow>
     (\<exists>result t. com (request_for reps rules (fst x)) result \<and> snd x = result\<lparr>Duration := t\<rparr>)"

definition distributor_inv ::
    "int \<Rightarrow> (auction_request \<Rightarrow> auction_result \<Rightarrow> bool) \<Rightarrow> rep_guids \<Rightarrow> auction_rules
     \<Rightarrow> app_instance list \<Rightarrow> distributor \<Rightarrow> bool" where
  "distributor_inv m com reps rules insts s \<longleftrightarrow>
     instances_of s = mset insts \<and>
     semaphore s = length (auctioning s) + length (finished s) + leaving s \<and>
     semaphore s \<le> nat m \<and>
     (\<forall>x\<in>set (finished s) \<union> set (collected s). answered com reps rules x)"

lemma distributor_inv_step:
  "distributor_step m com reps rules s s' \<Longrightarrow> distributor_inv m com reps rules insts s \<Longrightarrow>
    distributor_inv m com reps rules insts s'"
  by (induction rule: distributor_step.induct)
    (auto simp: distributor_inv_def instances_of_def answered_def)

lemma distributed_inv:
  "distributed m com reps rules insts s \<Longrightarrow> distributor_inv m com reps rules insts s"
  unfolding distributed_def
  by (induction rule: rtranclp_induct)
    (auto simp: distributor_inv_step, simp add: distributor_inv_def start_auctions_def instances_of_def)

text \<open>C8: at any time at most \<open>maxConcurrent\<close> auctions are being held, no instance is lost or auctioned
  twice, and every result came from an auction for the instance of its goroutine.\<close>

theorem auctions_bounded:
  assumes "distributed m com reps rules insts s"
  shows "length (auctioning s) \<le> nat m \<and>
    mset (waiting s) + mset (auctioning s) + mset (map fst (finished s)) + mset (map fst (collected s)) = mset insts \<and>
    (\<forall>(inst, r)\<in>set (collected s). \<exists>result t. com (request_for reps rules inst) result \<and> r = result\<lparr>Duration := t\<rparr>)"
proof -
  note inv = distributed_inv[OF assms]
  then have "\<forall>x\<in>set (collected s). answered com reps rules x" by (simp add: distributor_inv_def)
  with inv show ?thesis by (auto simp: distributor_inv_def instances_of_def answered_def split_beta)
qed

section \<open>Termination\<close>

definition steps_to_go :: "distributor \<Rightarrow> nat" where
  "steps_to_go s = 4 * length (waiting s) + 3 * length (auctioning s) + 2 * length (finished s) + leaving s"

lemma distributor_step_decreases:
  "distributor_step m com reps rules s s' \<Longrightarrow> steps_to_go s' < steps_to_go s"
  by (induction rule: distributor_step.induct) (auto simp: steps_to_go_def)

lemma distributor_progress:
  assumes "distributor_inv m com reps rules insts s" and "0 < m" and "\<And>req. \<exists>r. com req r"
    and "waiting s \<noteq> [] \<or> 0 < semaphore s"
  shows "\<exists>s'. distributor_step m com reps rules s s'"
proof -
  consider i xs where "auctioning s = i # xs" | r xs where "finished s = r # xs" | n where "leaving s = Suc n"
    | "auctioning s = []" "finished s = []" "leaving s = 0"
    by (metis list.exhaust old.nat.exhaust)
  then show ?thesis
  proof cases
    case 1
    then show ?thesis using assms(3) distributor_step.answer[of s "[]"] by fastforce
  next
    case 2
    then show ?thesis using distributor_step.collect[of s "[]"] by fastforce
  next
    case 3
    then show ?thesis by (blast intro: distributor_step.leave)
  next
    case 4
    then have "semaphore s = 0" using assms(1) by (simp add: distributor_inv_def)
    moreover from this assms(4) obtain i xs where "waiting s = [] @ i # xs" by (cases "waiting s") auto
    ultimately show ?thesis using assms(2) by (fastforce intro: distributor_step.acquire)
  qed
qed

lemma distributor_run_bounded:
  "((distributor_step m com reps rules) ^^ n) s s' \<Longrightarrow> n + steps_to_go s' \<le> steps_to_go s"
proof (induction n arbitrary: s')
  case (Suc n)
  then obtain s1 where s1: "(distributor_step m com reps rules ^^ n) s s1" "distributor_step m com reps rules s1 s'"
    by auto
  with Suc.IH[OF s1(1)] distributor_step_decreases[OF s1(2)] show ?case by simp
qed simp



section \<open>A run\<close>

definition sample_instance :: "string \<Rightarrow> app_instance" where
  "sample_instance g =
     \<lparr>AppGuid = ''red'', InstanceGuid = g, Resources = \<lparr>DiskMB = Fin 1, MemoryMB = Fin 1, Containers = 0\<rparr>\<rparr>"

definition sample_rules :: auction_rules where
  "sample_rules = \<lparr>Algorithm = ''random'', MaxRounds = 100, MaxBiddingPool = Fin 1\<rparr>"

definition won_by :: "string \<Rightarrow> auction_request \<Rightarrow> auction_result" where
  "won_by g q = \<lparr>ResInstance = ReqInstance q, Winner = g, NumRounds = 1, NumCommunications = 1,
     BiddingDuration = 5, Duration = 0\<rparr>"

definition sample_communicator :: "auction_request \<Rightarrow> auction_result \<Rightarrow> bool" where
  "sample_communicator q x \<longleftrightarrow> x = won_by ''cell'' q"

abbreviation "sample_step \<equiv> distributor_step 1 sample_communicator [''cell''] sample_rules"

definition sample_won :: "string \<Rightarrow> app_instance \<times> auction_result" where
  "sample_won g = (sample_instance g,
     (won_by ''cell'' (request_for [''cell''] sample_rules (sample_instance g)))\<lparr>Duration := 9\<rparr>)"

definition sample_midway :: distributor where
  "sample_midway = \<lparr>waiting = [sample_instance ''j''], auctioning = [], finished = [], collected = [sample_won ''i''],
     leaving = 1, semaphore = 1\<rparr>"

definition sample_end :: distributor where
  "sample_end = \<lparr>waiting = [], auctioning = [], finished = [], collected = [sample_won ''i''],
     leaving = 0, semaphore = 0\<rparr>"

text \<open>One goroutine of several goes through its auction up to the collection of its result.\<close>

lemma sample_auction:
  "(sample_step ^^ 3) (start_auctions (sample_instance ''i'' # is))
    \<lparr>waiting = is, auctioning = [], finished = [], collected = [sample_won ''i''], leaving = 1, semaphore = 1\<rparr>"
proof -
  let ?i = "sample_instance ''i''" and ?s0 = "start_auctions (sample_instance ''i'' # is)"
  let ?s1 = "\<lparr>waiting = is, auctioning = [?i], finished = [], collected = [], leaving = 0, semaphore = 1\<rparr>"
  let ?s2 = "\<lparr>waiting = is, auctioning = [], finished = [sample_won ''i''], collected = [], leaving = 0, semaphore = 1\<rparr>"
  let ?s3 = "\<lparr>waiting = is, auctioning = [], finished = [], collected = [sample_won ''i''], leaving = 1, semaphore = 1\<rparr>"
  have "sample_step ?s0 ?s1"
    using acquire[of ?s0 "[]" ?i "is" 1 sample_communicator] by (simp add: start_auctions_def)
  moreover have "sample_step ?s1 ?s2"
    using answer[of ?s1 "[]" ?i "[]" sample_communicator "[''cell'']" sample_rules _ 1 9]
    by (simp add: sample_communicator_def sample_won_def)
  moreover have "sample_step ?s2 ?s3"
    using collect[of ?s2 "[]" "sample_won ''i''" "[]"] by simp
  ultimately show ?thesis by (auto simp: numeral_3_eq_3)
qed

theorem auctions_bounded_witness:
  "length (auctioning sample_midway) \<le> nat 1 \<and>
    mset (waiting sample_midway) + mset (auctioning sample_midway) + mset (map fst (finished sample_midway)) +
      mset (map fst (collected sample_midway)) = mset [sample_instance ''i'', sample_instance ''j''] \<and>
    (\<exists>result t. sample_communicator (request_for [''cell''] sample_rules (sample_instance ''i'')) result \<and>
      snd (sample_won ''i'') = result\<lparr>Duration := t\<rparr>)"
proof -
  have "distributed 1 sample_communicator [''cell''] sample_rules [sample_instance ''i'', sample_instance ''j''] sample_midway"
    using relpowp_imp_rtranclp[OF sample_auction[of "[sample_instance ''j'']"]]
    by (simp add: distributed_def sample_midway_def)
  from auctions_bounded[OF this] show ?thesis
    by (simp add: sample_midway_def sample_won_def)
qed


end
