(* ===== verification/Go_Stats.thy ===== *)
theory Go_Stats
  imports Go_Float64
begin

text \<open>
  The vendored package \<open>GoStats/stats\<close> (\<open>stats.go\<close>), of which the reports of the simulation use the
  batch functions; over the floats of \<open>Go_Float64\<close>, with \<open>math.Sqrt\<close> as the standard has it, the
  root correctly rounded.  The incremental \<open>Stats\<close> agrees with the batch functions.
\<close>

section \<open>Square roots\<close>

text \<open>The integer square root, by bisection.\<close>

function isqrt_between :: "nat \<Rightarrow> nat \<Rightarrow> nat \<Rightarrow> nat" where
  "isqrt_between n lo hi =
     (if hi \<le> lo + 1 then lo
      else let m = (lo + hi) div 2 in if m * m \<le> n then isqrt_between n m hi else isqrt_between n lo m)"
  by pat_completeness auto
termination by (relation "measure (\<lambda>(n, lo, hi). hi - lo)") auto

declare isqrt_between.simps [simp del]

definition isqrt :: "nat \<Rightarrow> nat" where "isqrt n = isqrt_between n 0 (n + 1)"

lemma isqrt_between_bounds:
  "lo * lo \<le> n \<Longrightarrow> n < hi * hi \<Longrightarrow> lo < hi \<Longrightarrow>
    isqrt_between n lo hi * isqrt_between n lo hi \<le> n \<and> n < Suc (isqrt_between n lo hi) * Suc (isqrt_between n lo hi)"
proof (induction n lo hi rule: isqrt_between.induct)
  case (1 n lo hi)
  show ?case
  proof (cases "hi \<le> lo + 1")
    case True
    with 1(5) have "hi = Suc lo" by simp
    with True 1(3,4) show ?thesis by (subst (1 2 3 4) isqrt_between.simps) simp
  next
    case False
    then have m: "lo < (lo + hi) div 2" "(lo + hi) div 2 < hi" by auto
    show ?thesis
    proof (cases "(lo + hi) div 2 * ((lo + hi) div 2) \<le> n")
      case True
      with 1(1)[OF False refl True True 1(4) m(2)] False show ?thesis
        by (subst (1 2 3 4) isqrt_between.simps) (simp add: Let_def)
    next
      case F: False
      with 1(2)[OF False refl F 1(3) _ m(1)] False show ?thesis
        by (subst (1 2 3 4) isqrt_between.simps) (simp add: Let_def)
    qed
  qed
qed

lemma isqrt_bounds: "isqrt n * isqrt n \<le> n" "n < Suc (isqrt n) * Suc (isqrt n)"
  using isqrt_between_bounds[of 0 n "n + 1"] by (simp_all add: isqrt_def)

text \<open>
  \<open>math.Sqrt\<close>.  The radicand is scaled by a power of four to at least \<open>2\<^sup>1\<^sup>1\<^sup>0\<close>, so its integer root has
  55 bits or more: a root that is not an integer lies strictly between two integers, and rounds
  to 53 bits as any other value between them does.
\<close>

definition fsqrt :: "float64 \<Rightarrow> float64" where
  "fsqrt a =
     (case a of
        Fin x \<Rightarrow>
          if x < 0 then NaN
          else if x = 0 then Fin 0
          else let k = 55 - ilog2 x div 2; y = x * 4 powi k; r = isqrt (nat \<lfloor>y\<rfloor>) in
               of_exact False ((if of_nat (r * r) = y then of_nat r else of_nat r + 1 / 2) / 2 powi k)
      | NegZero \<Rightarrow> NegZero
      | PosInf \<Rightarrow> PosInf
      | NegInf \<Rightarrow> NaN
      | NaN \<Rightarrow> NaN)"

text \<open>\<open>a == b\<close>\<close>

definition feq :: "float64 \<Rightarrow> float64 \<Rightarrow> bool" where
  "feq a b \<longleftrightarrow> fle a b \<and> fle b a"

abbreviation float_nat :: "nat \<Rightarrow> float64" where "float_nat n \<equiv> float_of_int (int n)"

section \<open>Batch functions\<close>

definition StatsCount :: "float64 list \<Rightarrow> int" where "StatsCount xs = int (length xs)"

definition StatsMin :: "float64 list \<Rightarrow> float64" where
  "StatsMin xs = (case xs of [] \<Rightarrow> NaN | x # _ \<Rightarrow> fold (\<lambda>v m. if flt v m then v else m) xs x)"

definition StatsMax :: "float64 list \<Rightarrow> float64" where
  "StatsMax xs = (case xs of [] \<Rightarrow> NaN | x # _ \<Rightarrow> fold (\<lambda>v m. if flt m v then v else m) xs x)"

definition StatsSum :: "float64 list \<Rightarrow> float64" where
  "StatsSum xs = fold (\<lambda>v s. fadd s v) xs (Fin 0)"

definition StatsMean :: "float64 list \<Rightarrow> float64" where
  "StatsMean xs = fdiv (StatsSum xs) (float_nat (length xs))"

definition sumSquaredDeltas :: "float64 list \<Rightarrow> float64" where
  "sumSquaredDeltas xs =
     fold (\<lambda>v s. let delta = fsub v (StatsMean xs) in fadd s (fmul delta delta)) xs (Fin 0)"

definition StatsPopulationVariance :: "float64 list \<Rightarrow> float64" where
  "StatsPopulationVariance xs = fdiv (sumSquaredDeltas xs) (float_nat (length xs))"

definition StatsSampleVariance :: "float64 list \<Rightarrow> float64" where
  "StatsSampleVariance xs = fdiv (sumSquaredDeltas xs) (fsub (float_nat (length xs)) (Fin 1))"

definition StatsPopulationStandardDeviation :: "float64 list \<Rightarrow> float64" where
  "StatsPopulationStandardDeviation xs = fsqrt (StatsPopulationVariance xs)"

definition StatsSampleStandardDeviation :: "float64 list \<Rightarrow> float64" where
  "StatsSampleStandardDeviation xs = fsqrt (StatsSampleVariance xs)"

definition StatsPopulationSkew :: "float64 list \<Rightarrow> float64" where
  "StatsPopulationSkew xs =
     (let sum3 = fold (\<lambda>v s. let delta = fsub v (StatsMean xs) in fadd s (fmul (fmul delta delta) delta)) xs (Fin 0);
          variance = fsqrt (StatsPopulationVariance xs)
      in fdiv (fdiv sum3 (float_nat (length xs))) (fmul (fmul variance variance) variance))"

definition StatsSampleSkew :: "float64 list \<Rightarrow> float64" where
  "StatsSampleSkew xs =
     (let n = float_nat (length xs)
      in fmul (fdiv (fsqrt (fmul n (fsub n (Fin 1)))) (fsub n (Fin 2))) (StatsPopulationSkew xs))"

definition StatsPopulationKurtosis :: "float64 list \<Rightarrow> float64" where
  "StatsPopulationKurtosis xs =
     (let sum4 = fold (\<lambda>v s. let delta = fsub v (StatsMean xs) in
            fadd s (fmul (fmul (fmul delta delta) delta) delta)) xs (Fin 0);
          variance = StatsPopulationVariance xs
      in fsub (fdiv (fdiv sum4 (fmul variance variance)) (float_nat (length xs))) (Fin 3))"

text \<open>The correction of the kurtosis of a sample, also that of \<open>Stats\<close>.\<close>

definition sample_kurtosis :: "float64 \<Rightarrow> float64 \<Rightarrow> float64" where
  "sample_kurtosis n kurtosis =
     fmul (fdiv (fsub n (Fin 1)) (fmul (fsub n (Fin 2)) (fsub n (Fin 3))))
       (fadd (fmul (fadd n (Fin 1)) kurtosis) (Fin 6))"

definition StatsSampleKurtosis :: "float64 list \<Rightarrow> float64" where
  "StatsSampleKurtosis xs = sample_kurtosis (float_nat (length xs)) (StatsPopulationKurtosis xs)"

section \<open>Incremental statistics\<close>

record stats =
  st_n :: float64
  st_min :: float64
  st_max :: float64
  st_sum :: float64
  st_mean :: float64
  st_m2 :: float64
  st_m3 :: float64
  st_m4 :: float64

definition zero_stats :: stats where
  "zero_stats = \<lparr>st_n = Fin 0, st_min = Fin 0, st_max = Fin 0, st_sum = Fin 0, st_mean = Fin 0,
     st_m2 = Fin 0, st_m3 = Fin 0, st_m4 = Fin 0\<rparr>"

definition Stats_Update :: "float64 \<Rightarrow> stats \<Rightarrow> stats" where
  "Stats_Update x d =
     (let first = feq (st_n d) (Fin 0);
          nMinus1 = st_n d;
          n = fadd (st_n d) (Fin 1);
          delta = fsub x (st_mean d);
          delta_n = fdiv delta n;
          delta_n2 = fmul delta_n delta_n;
          term1 = fmul (fmul delta delta_n) nMinus1
      in \<lparr>st_n = n,
          st_min = if first \<or> flt x (st_min d) then x else st_min d,
          st_max = if first \<or> flt (st_max d) x then x else st_max d,
          st_sum = fadd (st_sum d) x,
          st_mean = fadd (st_mean d) delta_n,
          st_m2 = fadd (st_m2 d) term1,
          st_m3 = fadd (st_m3 d)
            (fsub (fmul (fmul term1 delta_n) (fsub n (Fin 2))) (fmul (fmul (Fin 3) delta_n) (st_m2 d))),
          st_m4 = fadd (st_m4 d)
            (fsub
              (fadd
                (fmul (fmul term1 delta_n2) (fadd (fsub (fmul n n) (fmul (Fin 3) n)) (Fin 3)))
                (fmul (fmul (Fin 6) delta_n2) (st_m2 d)))
              (fmul (fmul (Fin 4) delta_n) (st_m3 d)))\<rparr>)"

definition Stats_UpdateArray :: "float64 list \<Rightarrow> stats \<Rightarrow> stats" where
  "Stats_UpdateArray xs d = fold Stats_Update xs d"

text \<open>\<open>Count\<close> and \<open>Size\<close>\<close>

definition Stats_Count :: "stats \<Rightarrow> int" where "Stats_Count d = int_of_float (st_n d)"

definition few :: "stats \<Rightarrow> bool" where
  "few d \<longleftrightarrow> feq (st_n d) (Fin 0) \<or> feq (st_n d) (Fin 1)"

definition Stats_PopulationVariance :: "stats \<Rightarrow> float64" where
  "Stats_PopulationVariance d = (if few d then NaN else fdiv (st_m2 d) (st_n d))"

definition Stats_SampleVariance :: "stats \<Rightarrow> float64" where
  "Stats_SampleVariance d = (if few d then NaN else fdiv (st_m2 d) (fsub (st_n d) (Fin 1)))"

definition Stats_PopulationStandardDeviation :: "stats \<Rightarrow> float64" where
  "Stats_PopulationStandardDeviation d = (if few d then NaN else fsqrt (Stats_PopulationVariance d))"

definition Stats_SampleStandardDeviation :: "stats \<Rightarrow> float64" where
  "Stats_SampleStandardDeviation d = (if few d then NaN else fsqrt (Stats_SampleVariance d))"

definition Stats_PopulationSkew :: "stats \<Rightarrow> float64" where
  "Stats_PopulationSkew d =
     fmul (fsqrt (fdiv (st_n d) (fmul (fmul (st_m2 d) (st_m2 d)) (st_m2 d)))) (st_m3 d)"

definition Stats_SampleSkew :: "stats \<Rightarrow> float64" where
  "Stats_SampleSkew d =
     (if feq (st_n d) (Fin 2) then NaN
      else fmul (fdiv (fsqrt (fmul (st_n d) (fsub (st_n d) (Fin 1)))) (fsub (st_n d) (Fin 2)))
             (Stats_PopulationSkew d))"

definition Stats_PopulationKurtosis :: "stats \<Rightarrow> float64" where
  "Stats_PopulationKurtosis d =
     fsub (fdiv (fmul (st_n d) (st_m4 d)) (fmul (st_m2 d) (st_m2 d))) (Fin 3)"

definition Stats_SampleKurtosis :: "stats \<Rightarrow> float64" where
  "Stats_SampleKurtosis d =
     (if feq (st_n d) (Fin 2) \<or> feq (st_n d) (Fin 3) then NaN
      else sample_kurtosis (st_n d) (Stats_PopulationKurtosis d))"


section \<open>Least and greatest\<close>

lemma fold_least:
  assumes tr: "\<And>a b c. \<not> lt a b \<Longrightarrow> \<not> lt b c \<Longrightarrow> b \<noteq> NaN \<Longrightarrow> \<not> lt a c"
    and as: "\<And>a b. lt a b \<Longrightarrow> \<not> lt b a" and "NaN \<notin> insert m (set xs)"
  shows "fold (\<lambda>v m. if lt v m then v else m) xs m \<in> insert m (set xs) \<and>
    (\<forall>v\<in>insert m (set xs). \<not> lt v (fold (\<lambda>v m. if lt v m then v else m) xs m))"
  using assms(3)
proof (induction xs arbitrary: m)
  case Nil
  then show ?case using as by auto
next
  case (Cons x xs)
  let ?m = "if lt x m then x else m" and ?r = "fold (\<lambda>v m. if lt v m then v else m) xs (if lt x m then x else m)"
  have "NaN \<notin> insert ?m (set xs)" using Cons.prems by auto
  note IH = Cons.IH[OF this]
  have "\<not> lt x ?m" "\<not> lt m ?m" using as[of x m] as[of x x] as[of m m] by auto
  moreover have "?m \<noteq> NaN" using Cons.prems by auto
  ultimately have "\<not> lt x ?r" "\<not> lt m ?r" using IH tr[of _ ?m ?r] by blast+
  with IH show ?case by auto
qed

lemma StatsMin_least:
  assumes "xs \<noteq> []" and "NaN \<notin> set xs"
  shows "StatsMin xs \<in> set xs \<and> (\<forall>v\<in>set xs. \<not> flt v (StatsMin xs))"
proof -
  obtain x ys where xs: "xs = x # ys" using assms(1) by (cases xs) auto
  have eq: "StatsMin xs = fold (\<lambda>v m. if flt v m then v else m) xs x" by (simp add: StatsMin_def xs)
  have x: "insert x (set xs) = set xs" by (auto simp: xs)
  have "StatsMin xs \<in> insert x (set xs) \<and> (\<forall>v\<in>insert x (set xs). \<not> flt v (StatsMin xs))"
    unfolding eq
  proof (rule fold_least)
    show "\<not> flt a c" if "\<not> flt a b" "\<not> flt b c" "b \<noteq> NaN" for a b c
      by (rule not_flt_trans[OF that(3,2,1)])
  qed (use assms(2) x flt_asym in auto)
  then show ?thesis by (simp add: x)
qed

lemma StatsMax_greatest:
  assumes "xs \<noteq> []" and "NaN \<notin> set xs"
  shows "StatsMax xs \<in> set xs \<and> (\<forall>v\<in>set xs. \<not> flt (StatsMax xs) v)"
proof -
  obtain x ys where xs: "xs = x # ys" using assms(1) by (cases xs) auto
  have eq: "StatsMax xs = fold (\<lambda>v m. if flt m v then v else m) xs x" by (simp add: StatsMax_def xs)
  have x: "insert x (set xs) = set xs" by (auto simp: xs)
  have "StatsMax xs \<in> insert x (set xs) \<and> (\<forall>v\<in>insert x (set xs). \<not> flt (StatsMax xs) v)"
    unfolding eq
  proof (rule fold_least)
    show "\<not> flt c a" if "\<not> flt b a" "\<not> flt c b" "b \<noteq> NaN" for a b c
      by (rule not_flt_trans[OF that(3,1,2)])
  qed (use assms(2) x flt_asym in auto)
  then show ?thesis by (simp add: x)
qed


section \<open>Incremental and batch\<close>

lemma UpdateArray_snoc: "Stats_UpdateArray (xs @ [x]) d = Stats_Update x (Stats_UpdateArray xs d)"
  by (simp add: Stats_UpdateArray_def)

lemma UpdateArray_n:
  "length xs \<le> 2 ^ 53 \<Longrightarrow> is_finite (st_n (Stats_UpdateArray xs zero_stats)) \<and>
    fval (st_n (Stats_UpdateArray xs zero_stats)) = of_nat (length xs)"
proof (induction xs rule: rev_induct)
  case (snoc x xs)
  let ?n = "st_n (Stats_UpdateArray xs zero_stats)"
  have IH: "is_finite ?n" "fval ?n = of_nat (length xs)" using snoc by simp_all
  have small: "int (length xs) + 1 \<le> 2 ^ 53" using snoc.prems by simp
  have eq: "fval ?n + fval (Fin 1) = of_int (int (length xs) + 1)" using IH by simp
  have "\<bar>of_int (int (length xs) + 1) :: rat\<bar> \<le> of_int (2 ^ 53)"
    unfolding of_int_abs[symmetric] of_int_le_iff using small by simp
  also have "\<dots> \<le> 2 ^ 1023" by simp
  finally have "\<bar>fval ?n + fval (Fin 1)\<bar> \<le> 2 ^ 1023" unfolding eq .
  from fadd_fin[OF IH(1) _ this] rnd_of_int[of "int (length xs) + 1"] small
  have "is_finite (fadd ?n (Fin 1))" "fval (fadd ?n (Fin 1)) = of_int (int (length xs) + 1)"
    unfolding eq by simp_all
  then show ?case by (simp add: UpdateArray_snoc Stats_Update_def Let_def)
qed (simp add: Stats_UpdateArray_def zero_stats_def)

lemma UpdateArray_first:
  assumes "length xs \<le> 2 ^ 53"
  shows "feq (st_n (Stats_UpdateArray xs zero_stats)) (Fin 0) \<longleftrightarrow> xs = []"
  using UpdateArray_n[OF assms] by (auto simp: feq_def fle_fin)

lemma StatsMin_snoc:
  "StatsMin (xs @ [x]) = (if xs = [] \<or> flt x (StatsMin xs) then x else StatsMin xs)"
  by (cases xs) (simp_all add: StatsMin_def)

lemma StatsMax_snoc:
  "StatsMax (xs @ [x]) = (if xs = [] \<or> flt (StatsMax xs) x then x else StatsMax xs)"
  by (cases xs) (simp_all add: StatsMax_def)

text \<open> fed one value after the other, \<open>Stats\<close> has the count, sum, least and greatest value that the
  batch functions give, NaNs included.\<close>

theorem Update_is_batch:
  assumes "length xs \<le> 2 ^ 53"
  shows "Stats_Count (Stats_UpdateArray xs zero_stats) = StatsCount xs \<and>
    st_sum (Stats_UpdateArray xs zero_stats) = StatsSum xs \<and>
    (xs \<noteq> [] \<longrightarrow> st_min (Stats_UpdateArray xs zero_stats) = StatsMin xs \<and>
      st_max (Stats_UpdateArray xs zero_stats) = StatsMax xs)"
proof -
  have "Stats_Count (Stats_UpdateArray xs zero_stats) = StatsCount xs"
    using UpdateArray_n[OF assms] assms by (simp add: Stats_Count_def StatsCount_def int_of_float_def)
  moreover have "st_sum (Stats_UpdateArray xs zero_stats) = StatsSum xs"
    by (induction xs rule: rev_induct)
      (simp_all add: UpdateArray_snoc Stats_Update_def Let_def StatsSum_def, simp_all add: Stats_UpdateArray_def zero_stats_def)
  moreover have "xs \<noteq> [] \<longrightarrow> st_min (Stats_UpdateArray xs zero_stats) = StatsMin xs \<and>
      st_max (Stats_UpdateArray xs zero_stats) = StatsMax xs"
    using assms
  proof (induction xs rule: rev_induct)
    case (snoc x xs)
    then have "length xs \<le> 2 ^ 53" by simp
    with snoc.IH UpdateArray_first[OF this] show ?case
      by (simp add: UpdateArray_snoc Stats_Update_def Let_def StatsMin_snoc StatsMax_snoc)
  qed simp
  ultimately show ?thesis by blast
qed

theorem Update_is_batch_witness:
  "st_min (Stats_UpdateArray [Fin 2, Fin 1] zero_stats) = Fin 1 \<and> Stats_Count (Stats_UpdateArray [Fin 2, NaN] zero_stats) = 2"
  using Update_is_batch[of "[Fin 2, Fin 1]"] Update_is_batch[of "[Fin 2, NaN]"]
  by (simp add: StatsMin_def StatsCount_def flt_def)

end
