(* ===== verification/Report.thy ===== *)
theory Report
  imports Distributor Go_Stats Go_Rand "HOL-Library.AList" "HOL-Library.List_Lexorder" "HOL-Library.Char_ord"
begin

text \<open>
  \<open>simulation/visualization\<close>: the report of a run of auctions (\<open>report.go\<close>) and the figures it
  prints (\<open>print_report.go\<close>).  A Go map is a list of its entries; each range over it draws an
  order.  Durations are in nanoseconds.  What is printed is a list of lines with their figures.
\<close>

section \<open>report.go\<close>

record report =
  rp_RepGuids :: "string list"
  rp_AuctionResults :: "auction_result list"
  rp_InstancesByRep :: "(string \<times> app_instance list) list"
  rp_AuctionDuration :: int
  rp_auctioned :: "string set option"

record stat =
  stat_Min :: float64
  stat_Max :: float64
  stat_Mean :: float64
  stat_StdDev :: float64
  stat_Total :: float64

definition NewStat :: "float64 list \<Rightarrow> stat" where
  "NewStat xs = \<lparr>stat_Min = StatsMin xs, stat_Max = StatsMax xs, stat_Mean = StatsMean xs,
     stat_StdDev = StatsPopulationStandardDeviation xs, stat_Total = StatsSum xs\<rparr>"

text \<open>The guids of the auctioned instances are gathered at the first question and kept.\<close>

definition result_guid :: "auction_result \<Rightarrow> string" where
  "result_guid r = InstanceGuid (ResInstance r)"

definition IsAuctionedInstance :: "app_instance \<Rightarrow> report \<Rightarrow> bool \<times> report" where
  "IsAuctionedInstance inst r =
     (let r1 = (case rp_auctioned r of
            None \<Rightarrow> r\<lparr>rp_auctioned := Some (result_guid ` set (rp_AuctionResults r))\<rparr>
          | Some _ \<Rightarrow> r)
      in (InstanceGuid inst \<in> the (rp_auctioned r1), r1))"

definition NAuctions :: "report \<Rightarrow> int" where "NAuctions r = int (length (rp_AuctionResults r))"
definition NReps :: "report \<Rightarrow> int" where "NReps r = int (length (rp_RepGuids r))"

definition count_auctioned :: "app_instance \<Rightarrow> int \<times> report \<Rightarrow> int \<times> report" where
  "count_auctioned inst = (\<lambda>(n, r). let (b, r1) = IsAuctionedInstance inst r in (if b then n + 1 else n, r1))"

definition NMissingInstances :: "rand \<Rightarrow> report \<Rightarrow> int \<times> report \<times> rand" where
  "NMissingInstances rng r =
     (let (entries, rng1) = shuffle (rp_InstancesByRep r) rng;
          (n, r1) = fold (\<lambda>(_, insts). fold count_auctioned insts) entries (0, r)
      in (int (length (rp_AuctionResults r)) - n, r1, rng1))"

definition add_memory :: "app_instance \<Rightarrow> float64 \<Rightarrow> float64" where
  "add_memory inst m = fadd m (MemoryMB (Resources inst))"

definition add_initial :: "app_instance \<Rightarrow> float64 \<times> report \<Rightarrow> float64 \<times> report" where
  "add_initial inst = (\<lambda>(m, r). let (b, r1) = IsAuctionedInstance inst r in (if b then m else add_memory inst m, r1))"

definition relative_deviation :: "float64 list \<Rightarrow> float64" where
  "relative_deviation counts = fdiv (StatsPopulationStandardDeviation counts) (StatsMean counts)"

definition InitialDistributionScore :: "rand \<Rightarrow> report \<Rightarrow> float64 \<times> report \<times> rand" where
  "InitialDistributionScore rng r =
     (let (entries, rng1) = shuffle (rp_InstancesByRep r) rng;
          (counts, r1) = fold (\<lambda>(_, insts) (cs, r). let (m, r1) = fold add_initial insts (Fin 0, r) in (cs @ [m], r1))
            entries ([], r)
      in (if feq (StatsSum counts) (Fin 0) then Fin 0 else relative_deviation counts, r1, rng1))"

definition DistributionScore :: "rand \<Rightarrow> report \<Rightarrow> float64 \<times> rand" where
  "DistributionScore rng r =
     (let (entries, rng1) = shuffle (rp_InstancesByRep r) rng
      in (relative_deviation (map (\<lambda>(_, insts). fold add_memory insts (Fin 0)) entries), rng1))"

text \<open>\<open>Duration.Seconds()\<close>: whole seconds and the rest; both truncate.\<close>

definition quotient :: "int \<Rightarrow> int \<Rightarrow> int" where
  "quotient a b = sgn a * sgn b * (\<bar>a\<bar> div \<bar>b\<bar>)"

definition Seconds :: "int \<Rightarrow> float64" where
  "Seconds d =
     (let sec = quotient d 1000000000
      in fadd (float_of_int sec) (fdiv (float_of_int (d - sec * 1000000000)) (Fin 1000000000)))"

definition AuctionsPerSecond :: "report \<Rightarrow> float64" where
  "AuctionsPerSecond r = fdiv (float_of_int (NAuctions r)) (Seconds (rp_AuctionDuration r))"

definition CommStats :: "report \<Rightarrow> stat" where
  "CommStats r = NewStat (map (\<lambda>x. float_of_int (NumCommunications x)) (rp_AuctionResults r))"

definition BiddingTimeStats :: "report \<Rightarrow> stat" where
  "BiddingTimeStats r = NewStat (map (\<lambda>x. Seconds (BiddingDuration x)) (rp_AuctionResults r))"

definition WaitTimeStats :: "report \<Rightarrow> stat" where
  "WaitTimeStats r = NewStat (map (\<lambda>x. Seconds (Duration x)) (rp_AuctionResults r))"

text \<open>\<open>sort.Sort(ByAppGuid(instances))\<close>: which of two instances of an app comes first is left to the
  sort; here it is a stable one.\<close>

definition ByAppGuid_Less :: "app_instance \<Rightarrow> app_instance \<Rightarrow> bool" where
  "ByAppGuid_Less a b \<longleftrightarrow> AppGuid a < AppGuid b"

definition sort_instances :: "app_instance list \<Rightarrow> app_instance list" where
  "sort_instances = sort_key AppGuid"

definition FetchAndSortInstances ::
    "(string \<Rightarrow> app_instance list) \<Rightarrow> string list \<Rightarrow> (string \<times> app_instance list) list" where
  "FetchAndSortInstances client_Instances repGuids =
     fold (\<lambda>guid. AList.update guid (sort_instances (client_Instances guid))) repGuids []"

text \<open>The end of \<open>HoldAuctionsFor\<close>: the report of the results that were collected.\<close>

definition auction_report ::
    "distributor \<Rightarrow> string list \<Rightarrow> (string \<Rightarrow> app_instance list) \<Rightarrow> int \<Rightarrow> report" where
  "auction_report s representatives client_Instances duration =
     \<lparr>rp_RepGuids = representatives, rp_AuctionResults = map snd (collected s),
      rp_InstancesByRep = FetchAndSortInstances client_Instances representatives,
      rp_AuctionDuration = duration, rp_auctioned = None\<rparr>"

section \<open>The statistics\<close>

text \<open> without NaNs the least and the greatest of a statistic are values of the data, and no value is
  below or above them; without data all of it but the total is NaN.\<close>

theorem NewStat_extremes:
  shows "if xs = [] then NewStat xs = \<lparr>stat_Min = NaN, stat_Max = NaN, stat_Mean = NaN, stat_StdDev = NaN, stat_Total = Fin 0\<rparr>
    else NaN \<in> set xs \<or> (stat_Min (NewStat xs) \<in> set xs \<and> stat_Max (NewStat xs) \<in> set xs \<and>
      (\<forall>v\<in>set xs. fle (stat_Min (NewStat xs)) v \<and> fle v (stat_Max (NewStat xs))))"
proof (cases "xs = []")
  case True
  have "float_of_int 0 = Fin 0" by code_simp
  then have "StatsMean [] = NaN" "StatsPopulationVariance [] = NaN"
    by (simp_all add: StatsMean_def StatsSum_def StatsPopulationVariance_def sumSquaredDeltas_def fdiv_def)
  then show ?thesis
    using True by (simp add: NewStat_def StatsMin_def StatsMax_def StatsSum_def
        StatsPopulationStandardDeviation_def fsqrt_def)
next
  case False
  show ?thesis
  proof (cases "NaN \<in> set xs")
    case F: False
    note StatsMin_least[OF False F] StatsMax_greatest[OF False F]
    moreover have "v \<noteq> NaN" if "v \<in> set xs" for v using F that by auto
    ultimately show ?thesis using False by (auto simp: NewStat_def fle_iff_not_flt)
  qed (use False in simp)
qed


section \<open>Auctioned instances\<close>

definition guids_auctioned :: "report \<Rightarrow> string set" where
  "guids_auctioned r = (case rp_auctioned r of None \<Rightarrow> result_guid ` set (rp_AuctionResults r) | Some gs \<Rightarrow> gs)"

lemma IsAuctionedInstance_eq:
  "IsAuctionedInstance inst r =
    (InstanceGuid inst \<in> guids_auctioned r, r\<lparr>rp_auctioned := Some (guids_auctioned r)\<rparr>)"
  by (cases r) (auto simp: IsAuctionedInstance_def guids_auctioned_def split: option.splits)

lemma guids_auctioned_cached [simp]: "guids_auctioned (r\<lparr>rp_auctioned := Some gs\<rparr>) = gs"
  by (simp add: guids_auctioned_def)

text \<open>Asking about an instance changes nothing but the cache, and never the answers.\<close>

definition asked :: "report \<Rightarrow> report \<Rightarrow> bool" where
  "asked r r1 \<longleftrightarrow> guids_auctioned r1 = guids_auctioned r \<and>
     rp_auctioned r1 \<in> {rp_auctioned r, Some (guids_auctioned r)} \<and>
     report.truncate (r1\<lparr>rp_auctioned := None\<rparr>) = report.truncate (r\<lparr>rp_auctioned := None\<rparr>)"

lemma asked_refl [simp]: "asked r r"
  by (simp add: asked_def)

lemma asked_trans: "asked r r1 \<Longrightarrow> asked r1 r2 \<Longrightarrow> asked r r2"
  by (auto simp: asked_def)

lemma asked_cache [simp]: "asked r (r\<lparr>rp_auctioned := Some (guids_auctioned r)\<rparr>)"
  by (simp add: asked_def)

lemma count_auctioned_fold:
  "\<exists>r1. fold count_auctioned insts (n, r) =
      (n + int (length (filter (\<lambda>i. InstanceGuid i \<in> guids_auctioned r) insts)), r1) \<and> asked r r1"
proof (induction insts arbitrary: n r)
  case (Cons i insts)
  let ?r = "r\<lparr>rp_auctioned := Some (guids_auctioned r)\<rparr>"
  obtain r1 where "fold count_auctioned insts (if InstanceGuid i \<in> guids_auctioned r then n + 1 else n, ?r) =
      ((if InstanceGuid i \<in> guids_auctioned r then n + 1 else n) +
        int (length (filter (\<lambda>i. InstanceGuid i \<in> guids_auctioned r) insts)), r1)" "asked ?r r1"
    using Cons.IH[of "if InstanceGuid i \<in> guids_auctioned r then n + 1 else n" ?r] by auto
  moreover from this(2) have "asked r r1" by (rule asked_trans[OF asked_cache])
  ultimately show ?case
    by (auto simp: count_auctioned_def[of i] IsAuctionedInstance_eq)
qed simp

text \<open>The instances that run, over all representatives.\<close>

definition running :: "report \<Rightarrow> app_instance list" where
  "running r = concat (map snd (rp_InstancesByRep r))"

lemma count_auctioned_entries:
  "\<exists>r1. fold (\<lambda>(_, insts). fold count_auctioned insts) entries (n, r) =
      (n + int (length (filter (\<lambda>i. InstanceGuid i \<in> guids_auctioned r) (concat (map snd entries)))), r1) \<and>
      asked r r1"
proof (induction entries arbitrary: n r)
  case (Cons e entries)
  obtain r1 where r1: "fold count_auctioned (snd e) (n, r) =
      (n + int (length (filter (\<lambda>i. InstanceGuid i \<in> guids_auctioned r) (snd e))), r1)" "asked r r1"
    using count_auctioned_fold by blast
  then have "guids_auctioned r1 = guids_auctioned r" by (simp add: asked_def)
  with Cons.IH[of "n + int (length (filter (\<lambda>i. InstanceGuid i \<in> guids_auctioned r) (snd e)))" r1] r1
  show ?case by (auto simp: split_beta intro: asked_trans)
qed simp

lemma mset_concat_shuffle:
  "mset (concat (map snd (fst (shuffle entries rng)))) = mset (concat (map snd entries))"
proof -
  have "mset (map snd (fst (shuffle entries rng))) = mset (map snd entries)" by simp
  then have "mset (map mset (map snd (fst (shuffle entries rng)))) = mset (map mset (map snd entries))"
    by (metis mset_map)
  then show ?thesis by (metis mset_concat sum_mset_sum_list)
qed

lemma NMissingInstances_count:
  "\<exists>r1. NMissingInstances rng r =
      (int (length (rp_AuctionResults r)) -
        int (length (filter (\<lambda>i. InstanceGuid i \<in> guids_auctioned r) (running r))), r1,
        snd (shuffle (rp_InstancesByRep r) rng)) \<and> asked r r1"
proof -
  obtain entries rng1 where e: "shuffle (rp_InstancesByRep r) rng = (entries, rng1)" by fastforce
  obtain r1 where r1: "fold (\<lambda>(_, insts). fold count_auctioned insts) entries (0, r) =
      (int (length (filter (\<lambda>i. InstanceGuid i \<in> guids_auctioned r) (concat (map snd entries)))), r1)" "asked r r1"
    using count_auctioned_entries[of entries 0 r] by auto
  have "mset (filter (\<lambda>i. InstanceGuid i \<in> guids_auctioned r) (concat (map snd entries))) =
      mset (filter (\<lambda>i. InstanceGuid i \<in> guids_auctioned r) (running r))"
    using mset_concat_shuffle[of "rp_InstancesByRep r" rng] e by (simp add: running_def mset_filter del: mset_concat)
  then have "length (filter (\<lambda>i. InstanceGuid i \<in> guids_auctioned r) (concat (map snd entries))) =
      length (filter (\<lambda>i. InstanceGuid i \<in> guids_auctioned r) (running r))"
    by (rule mset_eq_length)
  with e r1 show ?thesis by (simp add: NMissingInstances_def)
qed

lemma card_image_filter:
  assumes "distinct (map f xs)"
  shows "card (f ` set (filter P xs)) = length (filter P xs)"
proof -
  have "card (f ` set (filter P xs)) = card (set (filter P xs))"
    using assms by (intro card_image) (auto simp: distinct_map intro: inj_on_subset)
  also have "\<dots> = length (filter P xs)" using assms by (intro distinct_card) (simp add: distinct_map)
  finally show ?thesis .
qed

lemma image_filter_Int: "f ` set (filter (\<lambda>x. f x \<in> A) xs) = f ` set xs \<inter> A"
  by auto

text \<open>When no guid was auctioned twice and none runs twice, the missing instances of a fresh report
  are those auctioned whose guid runs at no representative, whatever order the map is read in.\<close>

lemma missing_instances:
  assumes "rp_auctioned r = None" and "distinct (map result_guid (rp_AuctionResults r))"
    and "distinct (map InstanceGuid (running r))"
  shows "fst (NMissingInstances rng r) =
    int (length (filter (\<lambda>x. result_guid x \<notin> InstanceGuid ` set (running r)) (rp_AuctionResults r)))"
proof -
  let ?rs = "rp_AuctionResults r" and ?run = "InstanceGuid ` set (running r)"
  have g: "guids_auctioned r = result_guid ` set ?rs" using assms(1) by (simp add: guids_auctioned_def)

  have "length (filter (\<lambda>i. InstanceGuid i \<in> guids_auctioned r) (running r)) =
      card (InstanceGuid ` set (filter (\<lambda>i. InstanceGuid i \<in> guids_auctioned r) (running r)))"
    by (simp only: card_image_filter[OF assms(3)])
  also have "InstanceGuid ` set (filter (\<lambda>i. InstanceGuid i \<in> guids_auctioned r) (running r)) =
      result_guid ` set (filter (\<lambda>x. result_guid x \<in> ?run) ?rs)"
    unfolding image_filter_Int g by (rule Int_commute)
  also have "card \<dots> = length (filter (\<lambda>x. result_guid x \<in> ?run) ?rs)"
    by (simp only: card_image_filter[OF assms(2)])
  finally have "length (filter (\<lambda>i. InstanceGuid i \<in> guids_auctioned r) (running r)) =
      length (filter (\<lambda>x. result_guid x \<in> ?run) ?rs)" .
  then show ?thesis
    using NMissingInstances_count[of rng r] sum_length_filter_compl[of "\<lambda>x. result_guid x \<in> ?run" ?rs] by force
qed


section \<open>Scores of idle representatives\<close>

lemma of_exact_0 [simp]: "of_exact False 0 = Fin 0"
  by (simp add: of_exact_def)

lemma zero_by_count: "0 < n \<Longrightarrow> fdiv (Fin 0) (float_nat n) = Fin 0"
proof -
  assume "0 < n"
  then have "rnd 1 \<le> rnd (of_nat n :: rat)" by (intro rnd_mono) simp
  then have "float_nat n = PosInf \<or> float_nat n = Fin (rnd (of_nat n)) \<and> 1 \<le> rnd (of_nat n :: rat)"
    by (auto simp: float_of_int_def of_exact_def Let_def)
  then show ?thesis by (auto simp: fdiv_def)
qed

lemma zero_by_none: "fdiv (Fin 0) (float_of_int 0) = NaN"
  by (simp add: fdiv_def float_of_int_def)

lemma sum_of_zeros [simp]: "StatsSum (replicate n (Fin 0)) = Fin 0"
  unfolding StatsSum_def by (induction n) (simp_all add: fadd_def)

lemma mean_of_zeros: "StatsMean (replicate n (Fin 0)) = (if n = 0 then NaN else Fin 0)"
  by (simp add: StatsMean_def zero_by_count zero_by_none)

lemma deltas_of_zeros: "0 < n \<Longrightarrow> sumSquaredDeltas (replicate n (Fin 0)) = Fin 0"
proof -
  assume n: "0 < n"
  have "fold (\<lambda>v s. fadd s (fmul (fsub v (Fin 0)) (fsub v (Fin 0)))) (replicate k (Fin 0)) (Fin 0) = Fin 0" for k
    by (induction k) (simp_all add: fadd_def fsub_def fneg_def fmul_def)
  with n show ?thesis by (simp add: sumSquaredDeltas_def mean_of_zeros Let_def)
qed

lemma deviation_of_zeros: "relative_deviation (replicate n (Fin 0)) = NaN"
proof (cases "0 < n")
  case True
  then have "StatsPopulationStandardDeviation (replicate n (Fin 0)) = Fin 0"
    by (simp add: StatsPopulationStandardDeviation_def StatsPopulationVariance_def deltas_of_zeros
        zero_by_count fsqrt_def)
  with True show ?thesis by (simp add: relative_deviation_def mean_of_zeros fdiv_def)
next
  case False
  moreover have "fdiv a NaN = NaN" for a by (simp add: fdiv_def)
  ultimately show ?thesis by (simp add: relative_deviation_def mean_of_zeros[of 0, simplified])
qed

text \<open> when no representative runs anything the score of the initial distribution is 0, and that of the
  final one, which is the same distribution, is NaN.\<close>

theorem idle_scores:
  assumes "\<forall>(guid, insts)\<in>set (rp_InstancesByRep r). insts = []"
  shows "fst (InitialDistributionScore rng r) = Fin 0 \<and> fst (DistributionScore rng r) = NaN"
proof -
  obtain entries rng1 where e: "shuffle (rp_InstancesByRep r) rng = (entries, rng1)" by fastforce
  then have "set entries = set (rp_InstancesByRep r)" by (metis fst_conv set_shuffle)
  with assms have all: "\<forall>x\<in>set entries. snd x = []" by auto
  then have "map (\<lambda>(_, insts). fold add_memory insts (Fin 0)) entries = replicate (length entries) (Fin 0)"
    by (induction entries) auto
  moreover have "fold (\<lambda>(_, insts) (cs, r). let (m, r1) = fold add_initial insts (Fin 0, r) in (cs @ [m], r1))
      entries (cs, r) = (cs @ replicate (length entries) (Fin 0), r)" for cs
    using all by (induction entries arbitrary: cs) (auto simp: split_beta)
  ultimately show ?thesis using e
    by (simp add: InitialDistributionScore_def DistributionScore_def deviation_of_zeros feq_def fle_def)
qed

text \<open> the report lists every representative once, each with the instances its client has, in the
  order of their app guids.\<close>

theorem instances_fetched:
  "distinct (map fst (FetchAndSortInstances client_Instances repGuids)) \<and>
   (\<forall>guid. map_of (FetchAndSortInstances client_Instances repGuids) guid =
     (if guid \<in> set repGuids then Some (sort_instances (client_Instances guid)) else None)) \<and>
   mset (sort_instances insts) = mset insts \<and>
   sorted_wrt (\<lambda>a b. \<not> ByAppGuid_Less b a) (sort_instances insts)"
proof -
  let ?f = "\<lambda>guid. AList.update guid (sort_instances (client_Instances guid))"
  have "map_of (fold ?f repGuids al) guid =
      (if guid \<in> set repGuids then Some (sort_instances (client_Instances guid)) else map_of al guid)" for guid al
    by (induction repGuids arbitrary: al) (auto simp: update_conv')
  moreover have "distinct (map fst al) \<Longrightarrow> distinct (map fst (fold ?f repGuids al))" for al
    by (induction repGuids arbitrary: al) (auto simp: distinct_update)
  moreover have "sorted_wrt (\<lambda>a b. \<not> ByAppGuid_Less b a) (sort_instances insts)"
    using sorted_sort_key[of AppGuid insts]
    by (simp add: sort_instances_def ByAppGuid_Less_def sorted_map not_less)
  ultimately show ?thesis by (simp add: FetchAndSortInstances_def sort_instances_def)
qed


theorem idle_scores_witness:
  "fst (InitialDistributionScore \<lparr>draws = \<lambda>_. 0, drawn = 0\<rparr> \<lparr>rp_RepGuids = [''a'', ''b''], rp_AuctionResults = [],
      rp_InstancesByRep = [(''a'', []), (''b'', [])], rp_AuctionDuration = 0, rp_auctioned = None\<rparr>) = Fin 0 \<and>
   fst (DistributionScore \<lparr>draws = \<lambda>_. 0, drawn = 0\<rparr> \<lparr>rp_RepGuids = [''a'', ''b''], rp_AuctionResults = [],
      rp_InstancesByRep = [(''a'', []), (''b'', [])], rp_AuctionDuration = 0, rp_auctioned = None\<rparr>) = NaN"
  by (rule idle_scores) simp

theorem NewStat_extremes_witness:
  "stat_Min (NewStat [Fin 3, Fin 1, Fin 2]) \<in> {Fin 3, Fin 1, Fin 2} \<and>
    fle (stat_Min (NewStat [Fin 3, Fin 1, Fin 2])) (Fin 1) \<and> fle (Fin 3) (stat_Max (NewStat [Fin 3, Fin 1, Fin 2]))"
  using NewStat_extremes[of "[Fin 3, Fin 1, Fin 2]"] by auto

end
