(* ===== verification/Auction_Node.thy ===== *)
theory Auction_Node
  imports Auction_Winner Sim_Delegate Rep_Messages Report
begin

text \<open>
  Auctions by other processes: the auctioneer node, which holds auctions for requests over HTTP
  (\<open>simulation/auctioneernode/main.go\<close>), the communicator that sends it requests
  (\<open>http_remote_auctions_communicator.go\<close>), and the node of one representative
  (\<open>simulation/repnode/main.go\<close>).  Both communicators of the distributor give reports that account
  for every instance.
\<close>

section \<open>Messages\<close>

definition json_rules :: "auction_rules \<Rightarrow> json option" where
  "json_rules r =
     map_option (\<lambda>f. JObj [(''alg'', JStr (Algorithm r)), (''mr'', JNum (IntLit (MaxRounds r))), (''mb'', f)])
       (json_float (MaxBiddingPool r))"

definition json_request :: "auction_request \<Rightarrow> json option" where
  "json_request q =
     (case (json_instance (ReqInstance q), json_rules (Rules q)) of
        (Some i, Some r) \<Rightarrow> Some (JObj [(''i'', i), (''rg'', JArr (map JStr (RepGuids q))), (''r'', r)])
      | _ \<Rightarrow> None)"

definition json_result :: "auction_result \<Rightarrow> json option" where
  "json_result x =
     map_option (\<lambda>i. JObj [(''i'', i), (''w'', JStr (Winner x)), (''nr'', JNum (IntLit (NumRounds x))),
         (''nc'', JNum (IntLit (NumCommunications x))), (''bd'', JNum (IntLit (BiddingDuration x))),
         (''d'', JNum (IntLit (Duration x)))])
       (json_instance (ResInstance x))"

definition zero_rules :: auction_rules where
  "zero_rules = \<lparr>Algorithm = '''', MaxRounds = 0, MaxBiddingPool = Fin 0\<rparr>"

definition zero_request :: auction_request where
  "zero_request = \<lparr>ReqInstance = zero_app_instance, RepGuids = [], Rules = zero_rules\<rparr>"

definition zero_result :: auction_result where
  "zero_result = \<lparr>ResInstance = zero_app_instance, Winner = '''', NumRounds = 0, NumCommunications = 0,
     BiddingDuration = 0, Duration = 0\<rparr>"

definition rules_field :: "string \<Rightarrow> json \<Rightarrow> auction_rules \<Rightarrow> auction_rules \<times> bool" where
  "rules_field k v x =
     (if k = ''alg'' then (let (s, e) = un_string v (Algorithm x) in (x\<lparr>Algorithm := s\<rparr>, e))
      else if k = ''mr'' then (let (n, e) = un_int v (MaxRounds x) in (x\<lparr>MaxRounds := n\<rparr>, e))
      else if k = ''mb'' then (let (f, e) = un_float v (MaxBiddingPool x) in (x\<lparr>MaxBiddingPool := f\<rparr>, e))
      else (x, False))"

fun un_guids :: "json \<Rightarrow> rep_guids \<Rightarrow> rep_guids \<times> bool" where
  "un_guids (JArr js) old = (map (\<lambda>j. fst (un_string j '''')) js, list_ex (\<lambda>j. snd (un_string j '''')) js)"
| "un_guids JNull old = ([], False)"
| "un_guids _ old = (old, True)"

definition request_field :: "string \<Rightarrow> json \<Rightarrow> auction_request \<Rightarrow> auction_request \<times> bool" where
  "request_field k v x =
     (if k = ''i''
        then (let (i, e) = un_struct instance_field v (ReqInstance x) in (x\<lparr>ReqInstance := i\<rparr>, e))
      else if k = ''rg'' then (let (gs, e) = un_guids v (RepGuids x) in (x\<lparr>RepGuids := gs\<rparr>, e))
      else if k = ''r'' then (let (r, e) = un_struct rules_field v (Rules x) in (x\<lparr>Rules := r\<rparr>, e))
      else (x, False))"

definition result_field :: "string \<Rightarrow> json \<Rightarrow> auction_result \<Rightarrow> auction_result \<times> bool" where
  "result_field k v x =
     (if k = ''i''
        then (let (i, e) = un_struct instance_field v (ResInstance x) in (x\<lparr>ResInstance := i\<rparr>, e))
      else if k = ''w'' then (let (s, e) = un_string v (Winner x) in (x\<lparr>Winner := s\<rparr>, e))
      else if k = ''nr'' then (let (n, e) = un_int v (NumRounds x) in (x\<lparr>NumRounds := n\<rparr>, e))
      else if k = ''nc'' then (let (n, e) = un_int v (NumCommunications x) in (x\<lparr>NumCommunications := n\<rparr>, e))
      else if k = ''bd'' then (let (n, e) = un_int v (BiddingDuration x) in (x\<lparr>BiddingDuration := n\<rparr>, e))
      else if k = ''d'' then (let (n, e) = un_int v (Duration x) in (x\<lparr>Duration := n\<rparr>, e))
      else (x, False))"

definition un_request :: "payload \<Rightarrow> auction_request \<times> bool" where
  "un_request = unmarshal (\<lambda>j. un_struct request_field j zero_request) zero_request"

definition un_result :: "payload \<Rightarrow> auction_result \<times> bool" where
  "un_result = unmarshal (\<lambda>j. un_struct result_field j zero_result) zero_result"

section \<open>The auctioneer node\<close>

text \<open>The handler of \<open>/auction\<close>: the status, and the body that \<open>Encode\<close> writes (nothing on an error).
  A handler that panics answers nothing: the server drops the connection.\<close>

definition serve_auction ::
    "'w world_scheme rep_pool_client \<Rightarrow> payload \<Rightarrow> 'w world_scheme
     \<Rightarrow> ((int \<times> payload) \<times> 'w world_scheme) outcome" where
  "serve_auction repClient body w =
     (let (auctionRequest, err) = un_request body
      in if err then Ret ((400, Text ''''), w)
         else obind (Auction repClient auctionRequest w) (\<lambda>(auctionResult, w1).
           Ret ((200, payload_of (json_result auctionResult)), w1)))"

text \<open>What the node does on its way to serving: the client it asks representatives through, the size
  of its semaphore and its address.  \<open>connects\<close> tells which connection attempts succeed.\<close>

datatype bus = NatsBus "string list" | RabbitBus string

record auctioneer_flags =
  a_natsAddrs :: string
  a_rabbitAddr :: string
  a_timeout :: int
  a_maxConcurrent :: int
  a_httpAddr :: string

datatype start = Serving bus int int string | Fatal

definition auctioneer_main :: "(bus \<Rightarrow> bool) \<Rightarrow> auctioneer_flags \<Rightarrow> start outcome" where
  "auctioneer_main connects fl =
     (let nats = a_natsAddrs fl; rabbit = a_rabbitAddr fl; http = a_httpAddr fl;
          the_bus = (if rabbit \<noteq> '''' then RabbitBus rabbit else NatsBus (split_on CHR 0x2C nats))
      in if nats = '''' \<and> rabbit = '''' then Panic (UserPanic ''need nats or rabbit addr'')
         else if nats \<noteq> '''' \<and> rabbit \<noteq> ''''
           then Panic (UserPanic ''can't have both nats and rabbit addrs, choose one'')
         else if http = '''' then Panic (UserPanic ''need http addr'')
         else if \<not> connects the_bus
           then (if rabbit \<noteq> '''' then Panic (UserPanic ''connect'') else Ret Fatal)
         else if a_maxConcurrent fl < 0 then Panic MakeChanSizeOutOfRange
         else Ret (Serving the_bus (a_timeout fl) (a_maxConcurrent fl) http))"

section \<open>The node of a representative\<close>

record rep_flags =
  r_memoryMB :: float64
  r_diskMB :: float64
  r_containers :: int
  r_guid :: string
  r_natsAddrs :: string
  r_rabbitAddr :: string

text \<open>The representative, and the servers that are started for it; it may have both.\<close>

definition rep_main :: "rand \<Rightarrow> rep_flags \<Rightarrow> (sim_delegate auction_rep \<times> bus list) outcome" where
  "rep_main order fl =
     (if r_guid fl = '''' then Panic (UserPanic ''need guid'')
      else if r_natsAddrs fl = '''' \<and> r_rabbitAddr fl = '''' then Panic (UserPanic ''need nats or rabbit addr'')
      else let repDelegate = newSimDelegate
                 \<lparr>DiskMB = r_diskMB fl, MemoryMB = r_memoryMB fl, Containers = r_containers fl\<rparr> order
           in Ret (newAuctionRep (r_guid fl) repDelegate,
                (if r_natsAddrs fl \<noteq> '''' then [NatsBus (split_on CHR 0x2C (r_natsAddrs fl))] else []) @
                (if r_rabbitAddr fl \<noteq> '''' then [RabbitBus (r_rabbitAddr fl)] else [])))"

section \<open>Communicators\<close>

text \<open>\<open>http.Post\<close> fails, reading the body fails, or there is a body, whatever the status.\<close>

datatype http_answer = PostFailed | ReadFailed | Body payload

definition only_instance :: "auction_request \<Rightarrow> auction_result" where
  "only_instance q = zero_result\<lparr>ResInstance := ReqInstance q\<rparr>"

definition RemoteAuction ::
    "string list \<Rightarrow> (string \<Rightarrow> payload \<Rightarrow> http_answer) \<Rightarrow> auction_request \<Rightarrow> rand
     \<Rightarrow> (auction_result \<times> rand) outcome" where
  "RemoteAuction hosts post auctionRequest rng =
     obind (Intn (int (length hosts)) rng) (\<lambda>(i, rng1).
     obind (go_index hosts i) (\<lambda>host.
     case post (''http://'' @ host @ ''/auction'') (payload_of (json_request auctionRequest)) of
       PostFailed \<Rightarrow> Ret (only_instance auctionRequest, rng1)
     | ReadFailed \<Rightarrow> Panic (UserPanic ''read'')
     | Body data \<Rightarrow> Ret (fst (un_result data), rng1)))"

text \<open>Posting to a node that is served by \<open>repClient\<close>.\<close>

definition post_to_node ::
    "'w world_scheme rep_pool_client \<Rightarrow> 'w world_scheme \<Rightarrow> string \<Rightarrow> payload \<Rightarrow> http_answer" where
  "post_to_node repClient w url body =
     (case serve_auction repClient body w of Ret ((status, data), _) \<Rightarrow> Body data | Panic _ \<Rightarrow> PostFailed)"

definition in_process_communicator ::
    "'w world_scheme rep_pool_client \<Rightarrow> auction_request \<Rightarrow> auction_result \<Rightarrow> bool" where
  "in_process_communicator client q x \<longleftrightarrow> (\<exists>w w'. Auction client q w = Ret (x, w'))"

text \<open>Any post may fail; otherwise it reaches a node, in whatever world the node is then.\<close>

definition remote_communicator ::
    "string list \<Rightarrow> 'w world_scheme rep_pool_client \<Rightarrow> auction_request \<Rightarrow> auction_result \<Rightarrow> bool" where
  "remote_communicator hosts repClient q x \<longleftrightarrow>
     (\<exists>post rng rng1. (\<forall>url p. post url p = PostFailed \<or> (\<exists>w. post url p = post_to_node repClient w url p)) \<and>
       RemoteAuction hosts post q rng = Ret (x, rng1))"

text \<open>\<open>HoldAuctionsFor\<close> returns as soon as it has collected as many results as there are instances.\<close>

definition HoldAuctionsFor ::
    "int \<Rightarrow> (auction_request \<Rightarrow> auction_result \<Rightarrow> bool) \<Rightarrow> (string \<Rightarrow> app_instance list)
     \<Rightarrow> app_instance list \<Rightarrow> string list \<Rightarrow> auction_rules \<Rightarrow> report \<Rightarrow> bool" where
  "HoldAuctionsFor maxConcurrent communicator client_Instances insts representatives rules r \<longleftrightarrow>
     (\<exists>s duration. distributed maxConcurrent communicator representatives rules insts s \<and>
       length (collected s) = length insts \<and>
       r = auction_report s representatives client_Instances duration)"

section \<open>What is written reads back\<close>

definition int64 :: "int \<Rightarrow> bool" where
  "int64 n \<longleftrightarrow> - (2 ^ 63) \<le> n \<and> n < 2 ^ 63"

definition wire_request :: "auction_request \<Rightarrow> bool" where
  "wire_request q \<longleftrightarrow> wire_instance (ReqInstance q) \<and> int64 (MaxRounds (Rules q)) \<and>
     is_finite (MaxBiddingPool (Rules q))"

definition wire_result :: "auction_result \<Rightarrow> bool" where
  "wire_result x \<longleftrightarrow> wire_instance (ResInstance x) \<and> int64 (NumRounds x) \<and> int64 (NumCommunications x) \<and>
     int64 (BiddingDuration x) \<and> int64 (Duration x)"

lemma fold_key_longer [simp]:
  "fold_key ''alg'' = ''alg''" "fold_key ''mr'' = ''mr''" "fold_key ''mb'' = ''mb''" "fold_key ''rg'' = ''rg''"
  "fold_key ''w'' = ''w''" "fold_key ''nr'' = ''nr''" "fold_key ''nc'' = ''nc''" "fold_key ''bd'' = ''bd''"
  by (simp_all add: fold_key_def)

lemma un_int_lit: "un_int (JNum (IntLit n)) old = (if int64 n then (n, False) else (old, True))"
  by (simp add: int64_def)

lemma un_guids_strings [simp]: "un_guids (JArr (map JStr gs)) old = (gs, False)"
  by (induction gs) simp_all

declare un_guids.simps(1) [simp del]

lemma rules_written:
  assumes "int64 (MaxRounds r)" and "is_finite (MaxBiddingPool r)"
  obtains j where "json_rules r = Some j" "un_struct rules_field j zero_rules = (r, False)"
  by (rule that[of "JObj [(''alg'', JStr (Algorithm r)), (''mr'', JNum (IntLit (MaxRounds r))),
      (''mb'', JNum (FloatLit (MaxBiddingPool r)))]"])
    (use assms in \<open>simp_all add: json_rules_def json_float_def rules_field_def zero_rules_def un_int_lit
      del: un_int.simps\<close>)

lemma request_written:
  assumes "wire_request q"
  shows "un_request (payload_of (json_request q)) = (q, False)"
proof -
  from assms have "wire_instance (ReqInstance q)" by (simp add: wire_request_def)
  then obtain i where i: "json_instance (ReqInstance q) = Some i"
    "un_struct instance_field i zero_app_instance = (ReqInstance q, False)"
    by (rule instance_written)
  from assms have "int64 (MaxRounds (Rules q))" "is_finite (MaxBiddingPool (Rules q))"
    by (simp_all add: wire_request_def)
  then obtain r where r: "json_rules (Rules q) = Some r" "un_struct rules_field r zero_rules = (Rules q, False)"
    by (rule rules_written)
  from i r show ?thesis
    by (simp add: json_request_def payload_of_def un_request_def request_field_def zero_request_def)
qed

lemma result_instance_written:
  assumes "wire_instance (ResInstance x)"
  shows "ResInstance (fst (un_result (payload_of (json_result x)))) = ResInstance x"
proof -
  from assms obtain i where i: "json_instance (ResInstance x) = Some i"
    "un_struct instance_field i zero_app_instance = (ResInstance x, False)"
    by (rule instance_written)
  then show ?thesis
    by (simp add: json_result_def payload_of_def un_result_def result_field_def zero_result_def un_int_lit
        split_beta del: un_int.simps)
qed

lemma result_written:
  assumes "wire_result x"
  shows "un_result (payload_of (json_result x)) = (x, False)"
proof -
  from assms have "wire_instance (ResInstance x)" by (simp add: wire_result_def)
  then obtain i where i: "json_instance (ResInstance x) = Some i"
    "un_struct instance_field i zero_app_instance = (ResInstance x, False)"
    by (rule instance_written)
  with assms show ?thesis
    by (simp add: wire_result_def json_result_def payload_of_def un_result_def result_field_def zero_result_def
        un_int_lit del: un_int.simps)
qed


section \<open>Auctions over HTTP\<close>

lemma Auction_instance: "Auction client q w = Ret (x, w') \<Longrightarrow> ResInstance x = ReqInstance q"
  by (auto simp: Auction_def obind_Ret_iff split_beta)

lemma RemoteAuction_eq:
  assumes "hosts \<noteq> []"
  shows "\<exists>host rng1. RemoteAuction hosts post q rng =
    (case post (''http://'' @ host @ ''/auction'') (payload_of (json_request q)) of
       PostFailed \<Rightarrow> Ret (only_instance q, rng1)
     | ReadFailed \<Rightarrow> Panic (UserPanic ''read'')
     | Body data \<Rightarrow> Ret (fst (un_result data), rng1)) \<and> host \<in> set hosts"
proof -
  obtain v r1 where d: "draw_below (length hosts) rng = (v, r1)" by fastforce
  then have "v < length hosts" using draw_below_less[of "length hosts" rng] assms by simp
  with assms d show ?thesis
    by (intro exI[of _ "hosts ! v"] exI[of _ r1]) (simp add: RemoteAuction_def Intn_def go_index_def)
qed

text \<open>C9: a request that can be written, posted to a node, comes back as the result of the auction the
  node held; when the auction panics, as a result with the instance and no winner.  A request that
  cannot be written (a pool of NaN or infinitely many bidders, an instance that needs as much) comes
  back as the zero result, which has lost the instance too.  With no hosts it panics.\<close>

theorem RemoteAuction_results:
  assumes "hosts \<noteq> []"
  shows "(wire_request q \<and> Auction repClient q w = Ret (x, w') \<and> wire_result x \<longrightarrow>
      map_outcome fst (RemoteAuction hosts (post_to_node repClient w) q rng) = Ret x) \<and>
    (wire_request q \<and> Auction repClient q w = Panic p \<longrightarrow>
      map_outcome fst (RemoteAuction hosts (post_to_node repClient w) q rng) =
        Ret \<lparr>ResInstance = ReqInstance q, Winner = '''', NumRounds = 0, NumCommunications = 0,
             BiddingDuration = 0, Duration = 0\<rparr>) \<and>
    (json_request q = None \<longrightarrow>
      map_outcome fst (RemoteAuction hosts (post_to_node repClient w) q rng) = Ret zero_result) \<and>
    RemoteAuction [] (post_to_node repClient w) q rng = Panic InvalidIntn"
proof -
  obtain host rng1 where r: "RemoteAuction hosts (post_to_node repClient w) q rng =
    (case post_to_node repClient w (''http://'' @ host @ ''/auction'') (payload_of (json_request q)) of
       PostFailed \<Rightarrow> Ret (only_instance q, rng1)
     | ReadFailed \<Rightarrow> Panic (UserPanic ''read'')
     | Body data \<Rightarrow> Ret (fst (un_result data), rng1))"
    using RemoteAuction_eq[OF assms] by blast
  have "un_request (Text '''') = (zero_request, True)" "un_result (Text '''') = (zero_result, True)"
    by (simp_all add: un_request_def un_result_def)
  moreover have "payload_of (json_request q) = Text ''''" if "json_request q = None"
    using that by (simp add: payload_of_def)
  ultimately show ?thesis
    using request_written[of q] result_written[of x]
    by (auto simp: r post_to_node_def serve_auction_def only_instance_def zero_result_def)
      (simp add: RemoteAuction_def Intn_def)
qed

lemma remote_instance:
  assumes "remote_communicator hosts client q x" and "wire_request q" and "hosts \<noteq> []"
  shows "ResInstance x = ReqInstance q"
proof -
  obtain post rng rng1 where post: "\<And>url p. post url p = PostFailed \<or> (\<exists>w. post url p = post_to_node client w url p)"
    and x: "RemoteAuction hosts post q rng = Ret (x, rng1)"
    using assms(1) by (auto simp: remote_communicator_def)
  obtain host rng2 where r: "RemoteAuction hosts post q rng =
    (case post (''http://'' @ host @ ''/auction'') (payload_of (json_request q)) of
       PostFailed \<Rightarrow> Ret (only_instance q, rng2)
     | ReadFailed \<Rightarrow> Panic (UserPanic ''read'')
     | Body data \<Rightarrow> Ret (fst (un_result data), rng2))"
    using RemoteAuction_eq[OF assms(3)] by blast
  have "post (''http://'' @ host @ ''/auction'') (payload_of (json_request q)) = PostFailed \<or>
      (\<exists>w. post (''http://'' @ host @ ''/auction'') (payload_of (json_request q)) =
        post_to_node client w (''http://'' @ host @ ''/auction'') (payload_of (json_request q)))"
    by (rule post)
  then show ?thesis
  proof
    assume "\<exists>w. post (''http://'' @ host @ ''/auction'') (payload_of (json_request q)) =
        post_to_node client w (''http://'' @ host @ ''/auction'') (payload_of (json_request q))"
    then obtain w where w: "post (''http://'' @ host @ ''/auction'') (payload_of (json_request q)) =
        post_to_node client w (''http://'' @ host @ ''/auction'') (payload_of (json_request q))" ..
    show ?thesis
    proof (cases "Auction client q w")
      case (Ret y)
      then obtain y1 w1 where y: "Auction client q w = Ret (y1, w1)" by (cases y) auto
      then have "ResInstance y1 = ReqInstance q" by (rule Auction_instance)
      moreover from this have "wire_instance (ResInstance y1)" using assms(2) by (simp add: wire_request_def)
      ultimately show ?thesis
        using x y r w request_written[OF assms(2)] result_instance_written[of y1]
        by (simp add: post_to_node_def serve_auction_def)
    next
      case (Panic p)
      with x r w request_written[OF assms(2)] show ?thesis
        by (simp add: post_to_node_def serve_auction_def only_instance_def)
        (auto)
    qed
  qed (use x r in \<open>auto simp: only_instance_def\<close>)
qed


section \<open>Reports of auctions\<close>

lemma collected_all:
  assumes "distributed m com guids rules insts s" and "length (collected s) = length insts"
  shows "mset (map fst (collected s)) = mset insts"
proof -
  from distributed_inv[OF assms(1)] have inv:
    "mset (waiting s) + mset (auctioning s) + mset (map fst (finished s)) + mset (map fst (collected s)) = mset insts"
    by (simp add: distributor_inv_def instances_of_def)
  then have "size (mset (waiting s) + mset (auctioning s) + mset (map fst (finished s)) + mset (map fst (collected s))) =
      size (mset insts)" by (rule arg_cong)
  with assms(2) have "waiting s = []" "auctioning s = []" "finished s = []" by simp_all
  with inv show ?thesis by simp
qed

lemma collected_instances:
  assumes "distributed m com guids rules insts s" and "length (collected s) = length insts"
    and "\<And>i x. i \<in> set insts \<Longrightarrow> com (request_for guids rules i) x \<Longrightarrow> ResInstance x = i"
  shows "mset (map ResInstance (map snd (collected s))) = mset insts"
proof -
  note all = collected_all[OF assms(1,2)]
  have "ResInstance (snd c) = fst c" if "c \<in> set (collected s)" for c
  proof -
    have "answered com guids rules c" using distributed_inv[OF assms(1)] that by (simp add: distributor_inv_def)
    then obtain x t where x: "com (request_for guids rules (fst c)) x" "snd c = x\<lparr>Duration := t\<rparr>"
      by (auto simp: answered_def)
    from that have "fst c \<in> set (map fst (collected s))" by simp
    then have "fst c \<in> set insts" using all by (metis set_mset_mset)
    with x show ?thesis using assms(3) by simp
  qed
  then have "map ResInstance (map snd (collected s)) = map fst (collected s)" by simp
  with all show ?thesis by (simp only:)
qed

text \<open>C6: over either communicator, when \<open>HoldAuctionsFor\<close> returns its report has one result for every
  instance, with that instance in it; and with guids that differ, in the instances to place and at
  the representatives, the missing instances are those that run nowhere.\<close>

theorem report_accounts_for_all:
  assumes "HoldAuctionsFor m com client_Instances insts guids rules r"
    and "com = in_process_communicator client \<or> com = remote_communicator hosts client \<and> hosts \<noteq> [] \<and>
      (\<forall>i\<in>set insts. wire_instance i) \<and> int64 (MaxRounds rules) \<and> is_finite (MaxBiddingPool rules)"
    and "distinct (map InstanceGuid insts)" and "distinct (map InstanceGuid (running r))"
  shows "NAuctions r = int (length insts) \<and> mset (map ResInstance (rp_AuctionResults r)) = mset insts \<and>
    fst (NMissingInstances rng r) =
      int (length (filter (\<lambda>i. InstanceGuid i \<notin> InstanceGuid ` set (running r)) insts))"
proof -
  obtain s d where s: "distributed m com guids rules insts s" "length (collected s) = length insts"
    and r: "r = auction_report s guids client_Instances d"
    using assms(1) by (auto simp: HoldAuctionsFor_def)
  have com: "ResInstance x = i" if "i \<in> set insts" "com (request_for guids rules i) x" for i x
    using assms(2)
  proof
    assume "com = in_process_communicator client"
    with that(2) show ?thesis
      by (auto simp: in_process_communicator_def request_for_def dest: Auction_instance)
  next
    assume c: "com = remote_communicator hosts client \<and> hosts \<noteq> [] \<and>
      (\<forall>i\<in>set insts. wire_instance i) \<and> int64 (MaxRounds rules) \<and> is_finite (MaxBiddingPool rules)"
    with that(1) have "wire_request (request_for guids rules i)" by (simp add: wire_request_def request_for_def)
    with c that(2) show ?thesis using remote_instance by (fastforce simp: request_for_def)
  qed
  have m: "mset (map ResInstance (rp_AuctionResults r)) = mset insts"
    using collected_instances[OF s com] by (simp add: r auction_report_def)
  then have "mset (map InstanceGuid (map ResInstance (rp_AuctionResults r))) = mset (map InstanceGuid insts)"
    by (metis mset_map)
  moreover have "map result_guid xs = map InstanceGuid (map ResInstance xs)" for xs
    by (simp add: result_guid_def)
  ultimately have "distinct (map result_guid (rp_AuctionResults r))"
    using assms(3) by (metis mset_eq_imp_distinct_iff)
  moreover have "rp_auctioned r = None" by (simp add: r auction_report_def)
  moreover have "length (filter (\<lambda>x. result_guid x \<notin> InstanceGuid ` set (running r)) (rp_AuctionResults r)) =
      length (filter (\<lambda>i. InstanceGuid i \<notin> InstanceGuid ` set (running r)) insts)"
  proof -
    let ?P = "\<lambda>i. InstanceGuid i \<notin> InstanceGuid ` set (running r)"
    have "mset (filter ?P (map ResInstance (rp_AuctionResults r))) = mset (filter ?P insts)"
      unfolding mset_filter m ..
    then have "length (filter ?P (map ResInstance (rp_AuctionResults r))) = length (filter ?P insts)"
      by (rule mset_eq_length)
    then show ?thesis by (simp add: filter_map comp_def result_guid_def)
  qed
  ultimately show ?thesis
    using m missing_instances[OF _ _ assms(4)] s(2) by (simp add: r auction_report_def NAuctions_def)
qed

lemma hold_one_auction:
  assumes "com (request_for guids rules i) x" and "0 < m"
  shows "HoldAuctionsFor m com cl [i] guids rules
    \<lparr>rp_RepGuids = guids, rp_AuctionResults = [x\<lparr>Duration := t\<rparr>],
     rp_InstancesByRep = FetchAndSortInstances cl guids, rp_AuctionDuration = d, rp_auctioned = None\<rparr>"
proof -
  let ?step = "distributor_step m com guids rules"
  let ?s1 = "\<lparr>waiting = [], auctioning = [i], finished = [], collected = [], leaving = 0, semaphore = 1\<rparr>"
  let ?s2 = "\<lparr>waiting = [], auctioning = [], finished = [(i, x\<lparr>Duration := t\<rparr>)], collected = [],
    leaving = 0, semaphore = 1\<rparr>"
  let ?s3 = "\<lparr>waiting = [], auctioning = [], finished = [], collected = [(i, x\<lparr>Duration := t\<rparr>)],
    leaving = 1, semaphore = 1\<rparr>"
  have "?step (start_auctions [i]) ?s1"
    using acquire[of "start_auctions [i]" "[]" i "[]" m com guids rules] assms(2) by (simp add: start_auctions_def)
  moreover have "?step ?s1 ?s2" using answer[of ?s1 "[]" i "[]" com guids rules x m t] assms(1) by simp
  moreover have "?step ?s2 ?s3"
    using collect[of ?s2 "[]" "(i, x\<lparr>Duration := t\<rparr>)" "[]" m com guids rules] by simp
  ultimately have "distributed m com guids rules [i] ?s3"
    unfolding distributed_def by (meson converse_rtranclp_into_rtranclp rtranclp.rtrancl_refl)
  then show ?thesis
    unfolding HoldAuctionsFor_def by (intro exI[of _ ?s3] exI[of _ d]) (simp add: auction_report_def)
qed


text \<open>One instance over HTTP, with a post that fails: the instance ends up nowhere, and is counted as missing.\<close>

lemma sample_post_fails:
  "remote_communicator [''host''] client (request_for [''cell''] sample_rules (sample_instance ''i''))
    (only_instance (request_for [''cell''] sample_rules (sample_instance ''i'')))"
  unfolding remote_communicator_def
  by (intro exI[of _ "\<lambda>_ _. PostFailed"] exI[of _ "\<lparr>draws = \<lambda>_. 0, drawn = 0\<rparr>"] exI[of _ "\<lparr>draws = \<lambda>_. 0, drawn = 1\<rparr>"])
    (simp add: RemoteAuction_def Intn_def draw_below_def draw_def go_index_def)

definition sample_report :: report where
  "sample_report = \<lparr>rp_RepGuids = [''cell''],
     rp_AuctionResults = [(only_instance (request_for [''cell''] sample_rules (sample_instance ''i'')))\<lparr>Duration := 9\<rparr>],
     rp_InstancesByRep = FetchAndSortInstances (\<lambda>_. [sample_instance ''j'']) [''cell''],
     rp_AuctionDuration = 9, rp_auctioned = None\<rparr>"

theorem report_accounts_for_all_witness:
  "NAuctions sample_report = int (length [sample_instance ''i'']) \<and>
    mset (map ResInstance (rp_AuctionResults sample_report)) = mset [sample_instance ''i''] \<and>
    fst (NMissingInstances \<lparr>draws = \<lambda>_. 0, drawn = 0\<rparr> sample_report) =
      int (length (filter (\<lambda>i. InstanceGuid i \<notin> InstanceGuid ` set (running sample_report)) [sample_instance ''i'']))"
proof (rule report_accounts_for_all)
  let ?client = "scripted_client [] [] :: world rep_pool_client"
  show "HoldAuctionsFor 1 (remote_communicator [''host''] ?client) (\<lambda>_. [sample_instance ''j'']) [sample_instance ''i'']
      [''cell''] sample_rules sample_report"
    unfolding sample_report_def by (rule hold_one_auction) (rule sample_post_fails, simp)
  show "remote_communicator [''host''] ?client = in_process_communicator ?client \<or>
      remote_communicator [''host''] ?client = remote_communicator [''host''] ?client \<and> [''host''] \<noteq> [] \<and>
      (\<forall>i\<in>set [sample_instance ''i'']. wire_instance i) \<and> int64 (MaxRounds sample_rules) \<and>
      is_finite (MaxBiddingPool sample_rules)"
    by (simp add: sample_instance_def sample_rules_def wire_instance_def wire_resources_def int64_def)
qed (simp_all add: sample_report_def running_def FetchAndSortInstances_def sort_instances_def)

definition sample_request :: "string \<Rightarrow> float64 \<Rightarrow> auction_request" where
  "sample_request alg pool = request_for [''cell''] \<lparr>Algorithm = alg, MaxRounds = 0, MaxBiddingPool = pool\<rparr>
     (sample_instance ''i'')"

theorem RemoteAuction_results_witness:
  "map_outcome fst (RemoteAuction [''host''] (post_to_node (scripted_client [] []) example_world)
      (sample_request ''random'' (Fin 1)) \<lparr>draws = \<lambda>_. 0, drawn = 0\<rparr>) =
     Ret \<lparr>ResInstance = sample_instance ''i'', Winner = '''', NumRounds = 1, NumCommunications = 0,
          BiddingDuration = 0, Duration = 0\<rparr> \<and>
   map_outcome fst (RemoteAuction [''host''] (post_to_node (scripted_client [] []) example_world)
      (sample_request ''fastest'' (Fin 1)) \<lparr>draws = \<lambda>_. 0, drawn = 0\<rparr>) =
     Ret \<lparr>ResInstance = sample_instance ''i'', Winner = '''', NumRounds = 0, NumCommunications = 0,
          BiddingDuration = 0, Duration = 0\<rparr> \<and>
   map_outcome fst (RemoteAuction [''host''] (post_to_node (scripted_client [] []) example_world)
      (sample_request ''random'' NaN) \<lparr>draws = \<lambda>_. 0, drawn = 0\<rparr>) = Ret zero_result"
proof -
  let ?x = "\<lparr>ResInstance = sample_instance ''i'', Winner = '''', NumRounds = 1, NumCommunications = 0,
    BiddingDuration = 0, Duration = 0\<rparr>"
  have "run_rounds body 0 1 0 w' = Ret (('''', 1, 0), w')" for body and w' :: world
    by (subst run_rounds.simps) simp
  then have "Auction (scripted_client [] []) (sample_request ''random'' (Fin 1)) example_world =
      Ret (?x, example_world\<lparr>clock_reads := 2\<rparr>)"
    by (simp add: Auction_def hold_auction_def randomAuction_def sample_request_def request_for_def
        time_Now_def example_world_def)
  moreover have "\<exists>p. Auction (scripted_client [] []) (sample_request ''fastest'' (Fin 1)) example_world = Panic p"
    by (simp add: Auction_def hold_auction_def sample_request_def request_for_def split_beta)
  moreover have "json_request (sample_request ''random'' NaN) = None"
    by (simp add: json_request_def json_rules_def json_float_def sample_request_def request_for_def
        split: option.split)
  moreover have "wire_instance (sample_instance i)" for i
    by (simp add: sample_instance_def wire_instance_def wire_resources_def)
  then have "wire_request (sample_request alg (Fin 1))" "wire_result ?x" for alg
    by (simp_all add: wire_request_def wire_result_def sample_request_def request_for_def int64_def)
  moreover have "ReqInstance (sample_request alg pool) = sample_instance ''i''" for alg pool
    by (simp add: sample_request_def request_for_def)
  ultimately show ?thesis
    using RemoteAuction_results[of "[''host'']" "sample_request ''random'' (Fin 1)" "scripted_client [] []" example_world]
      RemoteAuction_results[of "[''host'']" "sample_request ''fastest'' (Fin 1)" "scripted_client [] []" example_world]
      RemoteAuction_results[of "[''host'']" "sample_request ''random'' NaN" "scripted_client [] []" example_world]
    by force
qed

end
