(* ===== verification/Report_Card.thy ===== *)
theory Report_Card
  imports Report
begin

text \<open>
  \<open>simulation/visualization/report_card.go\<close>: the report as a drawing.  A drawing is the list of the
  calls made of the SVG library, a formatted text the format and what it is given.
\<close>

section \<open>Drawings\<close>

datatype formatted = Sprintf string "fmt_arg list"
and fmt_arg =
    IntArg int
  | FloatArg float64
  | StrArg string
  | DurationArg int
  | RulesArg auction_rules
  | TextArg formatted

definition plain :: "string \<Rightarrow> formatted" where "plain s = Sprintf s []"

datatype svg =
    Start int int
  | Translate int int
  | Gstyle string
  | Gend
  | Rect int int int int string
  | SvgText int int formatted string
  | Textlines int int "formatted list" int int string string
  | End

record svg_report =
  sr_SVG :: "svg list"
  sr_scores :: "float64 list"
  sr_communications :: "float64 list"
  sr_waitTimes :: "float64 list"
  sr_width :: int
  sr_height :: int

definition border :: int where "border = 5"
definition instanceSize :: int where "instanceSize = 4"
definition instanceSpacing :: int where "instanceSpacing = 1"
definition instanceBoxSize :: int where "instanceBoxSize = instanceSize * 100 + instanceSpacing * 99"
definition headerHeight :: int where "headerHeight = 100"
definition graphWidth :: int where "graphWidth = 300"
definition graphTextX :: int where "graphTextX = 50"
definition graphBinX :: int where "graphBinX = 55"
definition binHeight :: int where "binHeight = 14"
definition binSpacing :: int where "binSpacing = 2"
definition maxBinLength :: int where "maxBinLength = graphWidth - graphBinX"
definition ReportCardWidth :: int where "ReportCardWidth = border * 3 + instanceBoxSize + graphWidth"
definition ReportCardHeight :: int where "ReportCardHeight = border * 3 + instanceBoxSize"

definition StartSVGReport :: "int \<Rightarrow> int \<Rightarrow> svg_report" where
  "StartSVGReport width height =
     \<lparr>sr_SVG = [Start (width * ReportCardWidth) (headerHeight + height * ReportCardHeight)],
      sr_scores = [], sr_communications = [], sr_waitTimes = [], sr_width = width, sr_height = height\<rparr>"

definition header_style :: string where
  "header_style = ''text-anchor:start;font-size:32px;font-family:Helvetica Neue''"

text \<open>The rules are printed without the name of their type and the braces.\<close>

definition DrawHeader :: "string \<Rightarrow> auction_rules \<Rightarrow> int \<Rightarrow> svg list" where
  "DrawHeader communicationMode rules maxConcurrent =
     [SvgText border 40 (Sprintf ''%s - MaxConcurrent:%d - %s ''
        [StrArg communicationMode, IntArg maxConcurrent, RulesArg rules]) header_style]"

definition drawResults :: "svg_report \<Rightarrow> svg list" where
  "drawResults r =
     [SvgText border 90 (Sprintf ''Score: %.2f | Wait Time: %.2fs | Communications: %.0f''
        [FloatArg (StatsSum (sr_scores r)), FloatArg (StatsSum (sr_waitTimes r)),
         FloatArg (StatsSum (sr_communications r))]) header_style]"

definition Done :: "svg_report \<Rightarrow> svg list" where
  "Done r = sr_SVG r @ drawResults r @ [End]"

definition instanceStyle :: "string \<Rightarrow> string" where
  "instanceStyle appGuid =
     (let components = split_on CHR 0x2D appGuid;
          color = (if 1 < length components then last components else appGuid)
      in ''fill:'' @ color @ '';stroke:none'')"

section \<open>Instances\<close>

definition instanceWidth :: "app_instance \<Rightarrow> int" where
  "instanceWidth inst = int_of_float (fmul (float_of_int instanceSize) (MemoryMB (Resources inst)))"

definition draw_instance :: "int \<Rightarrow> app_instance \<Rightarrow> int \<times> svg list \<times> report \<Rightarrow> int \<times> svg list \<times> report" where
  "draw_instance y inst = (\<lambda>(x, out, r).
     let w = instanceWidth inst; style = instanceStyle (AppGuid inst); (b, r1) = IsAuctionedInstance inst r
     in (x + (w + instanceSpacing),
         out @ [if b then Rect x y w instanceSize style
                else Rect (x + 1) (y + 1) (w - 2) (instanceSize - 2) style], r1))"

definition draw_rep :: "string \<Rightarrow> int \<times> svg list \<times> report \<Rightarrow> int \<times> svg list \<times> report" where
  "draw_rep guid = (\<lambda>(y, out, r).
     let insts = (case map_of (rp_InstancesByRep r) guid of Some is \<Rightarrow> is | None \<Rightarrow> []);
         (_, out1, r1) = fold (draw_instance y) insts
           (border, out @ [Rect border y instanceBoxSize instanceSize ''fill:#f7f7f7''], r)
     in (y + (instanceSize + instanceSpacing), out1, r1))"

definition drawInstances :: "report \<Rightarrow> svg list \<times> report" where
  "drawInstances r = (let (_, out, r1) = fold draw_rep (rp_RepGuids r) (border, [], r) in (out, r1))"

section \<open>Histograms\<close>

text \<open>\<open>for binBoundaries[currentBin+1] < d\<close>: the index may run out of range.\<close>

function advance_bin :: "float64 list \<Rightarrow> nat \<Rightarrow> float64 \<Rightarrow> nat outcome" where
  "advance_bin binBoundaries currentBin d =
     (if currentBin + 1 < length binBoundaries
      then (if flt (binBoundaries ! (currentBin + 1)) d then advance_bin binBoundaries (currentBin + 1) d
            else Ret currentBin)
      else Panic IndexOutOfRange)"
  by pat_completeness auto
termination by (relation "measure (\<lambda>(bs, k, d). length bs - k)") auto

declare advance_bin.simps [simp del]

fun fill_bins :: "float64 list \<Rightarrow> nat \<Rightarrow> float64 list \<Rightarrow> float64 list \<Rightarrow> float64 list outcome" where
  "fill_bins binBoundaries currentBin bins [] = Ret bins"
| "fill_bins binBoundaries currentBin bins (d # ds) =
     obind (advance_bin binBoundaries currentBin d) (\<lambda>k.
     fill_bins binBoundaries k (bins[k := fadd (bins ! k) (Fin 1)]) ds)"

definition binUp :: "float64 list \<Rightarrow> float64 list \<Rightarrow> float64 list outcome" where
  "binUp binBoundaries sortedData =
     (if binBoundaries = [] then Panic MakeSliceLenOutOfRange
      else obind (fill_bins binBoundaries 0 (replicate (length binBoundaries - 1) (Fin 0)) sortedData)
        (\<lambda>bins. Ret (map (\<lambda>b. fdiv b (float_nat (length sortedData))) bins)))"

definition label_style :: string where
  "label_style = ''text-anchor:end;font-size:10px;font-family:Helvetica Neue''"

definition bar_style :: string where
  "bar_style = ''text-anchor:start;font-size:10px;font-family:Helvetica Neue;fill:#fff''"

definition bar :: "int \<Rightarrow> float64 \<Rightarrow> svg list" where
  "bar y percentage =
     (if flt (Fin 0) percentage
      then [Rect graphBinX y (int_of_float (fmul percentage (float_of_int maxBinLength))) binHeight ''fill:#333'',
            SvgText (graphBinX + binSpacing) (y + binHeight - 4)
              (Sprintf ''%.1f%%'' [FloatArg (fmul percentage (Fin 100))]) bar_style]
      else [])"

text \<open>A bin without a label panics.\<close>

fun drawHistogram :: "int \<Rightarrow> float64 list \<Rightarrow> string list \<Rightarrow> (svg list \<times> int) outcome" where
  "drawHistogram y [] labels = Ret ([], y)"
| "drawHistogram y (percentage # bins) [] = Panic IndexOutOfRange"
| "drawHistogram y (percentage # bins) (label # labels) =
     obind (drawHistogram (y + (binHeight + binSpacing)) bins labels) (\<lambda>(out, y1).
     Ret ([Rect graphBinX y maxBinLength binHeight ''fill:#eee'',
           SvgText graphTextX (y + binHeight - 4) (plain label) label_style] @ bar y percentage @ out, y1))"

text \<open>\<open>sort.Float64Slice\<close>: NaNs first.\<close>

definition float_Less :: "float64 \<Rightarrow> float64 \<Rightarrow> bool" where
  "float_Less a b \<longleftrightarrow> flt a b \<or> a = NaN \<and> b \<noteq> NaN"

fun insert_float :: "float64 \<Rightarrow> float64 list \<Rightarrow> float64 list" where
  "insert_float x [] = [x]"
| "insert_float x (y # ys) = (if float_Less y x then y # insert_float x ys else x # y # ys)"

definition sort_floats :: "float64 list \<Rightarrow> float64 list" where
  "sort_floats xs = foldr insert_float xs []"

definition drawDurationsHistogram :: "report \<Rightarrow> (svg list \<times> int) outcome" where
  "drawDurationsHistogram r =
     (let waitTimes = sort_floats (map (\<lambda>x. Seconds (Duration x)) (rp_AuctionResults r));
          labels = [''<0.25s'', ''0.25-0.5s'', ''0.5-1s'', ''1-2s'', ''2-5s'', ''5-10s'', ''10-20s'', ''20-40s'', ''>40s'']
      in obind (binUp [Fin 0, Fin (1 / 4), Fin (1 / 2), Fin 1, Fin 2, Fin 5, Fin 10, Fin 20, Fin 40, Fin 1000000000] waitTimes) (\<lambda>bins.
         obind (drawHistogram 0 bins labels) (\<lambda>(out, yBottom).
         Ret ([Translate (border * 2 + instanceBoxSize) border] @ out @ [Gend], yBottom + border))))"

definition drawRoundsHistogram :: "report \<Rightarrow> int \<Rightarrow> (svg list \<times> int) outcome" where
  "drawRoundsHistogram r y =
     (let rounds = sort_floats (map (\<lambda>x. float_of_int (NumRounds x)) (rp_AuctionResults r));
          labels = [''1 round'', ''2 rounds'', ''3 rounds'', ''4 rounds'', ''5 rounds'', ''5-10'', ''10-20'', ''20-40'', ''>40'']
      in obind (binUp [Fin 0, Fin 1, Fin 2, Fin 3, Fin 4, Fin 5, Fin 10, Fin 20, Fin 40, Fin 1000000000] rounds) (\<lambda>bins.
         obind (drawHistogram 0 bins labels) (\<lambda>(out, yBottom).
         Ret ([Translate (border * 2 + instanceBoxSize) y] @ out @ [Gend], yBottom + y))))"

section \<open>The card\<close>

text \<open>UTF-8\<close>

definition plus_minus :: string where "plus_minus = [CHR 0xC2, CHR 0xB1]"

definition drawText :: "rand \<Rightarrow> report \<Rightarrow> int \<Rightarrow> svg list \<times> report \<times> rand" where
  "drawText rng r y =
     (let commStats = CommStats r; bidStats = BiddingTimeStats r; waitStats = WaitTimeStats r;
          (missingInstances, r1, rng1) = NMissingInstances rng r;
          missing = (if 0 < missingInstances
            then Sprintf ''MISSING %d (%.2f%%)'' [IntArg missingInstances,
              FloatArg (fmul (fdiv (float_of_int missingInstances) (float_of_int (NAuctions r1))) (Fin 100))]
            else plain '''');
          (initial, r2, rng2) = InitialDistributionScore rng1 r1;
          (final, rng3) = DistributionScore rng2 r2;
          lines =
            [Sprintf ''%d over %d Reps %s'' [IntArg (NAuctions r1), IntArg (NReps r1), TextArg missing],
             Sprintf ''%.2fs (%.2f a/s)'' [FloatArg (Seconds (rp_AuctionDuration r1)), FloatArg (AuctionsPerSecond r1)],
             Sprintf ''Dist: %.3f => %.3f'' [FloatArg initial, FloatArg final],
             Sprintf (''%.0f Comm | %.1f '' @ plus_minus @ '' %.1f | %.0f - %.0f'')
               [FloatArg (stat_Total commStats), FloatArg (stat_Mean commStats), FloatArg (stat_StdDev commStats),
                FloatArg (stat_Min commStats), FloatArg (stat_Max commStats)]];
          statLines =
            [plain ''Wait Times'',
             Sprintf (''...%.2fs | %.2f '' @ plus_minus @ '' %.2f'')
               [FloatArg (Seconds (rp_AuctionDuration r1)), FloatArg (stat_Mean waitStats), FloatArg (stat_StdDev waitStats)],
             Sprintf ''...%.3f - %.3f'' [FloatArg (stat_Min waitStats), FloatArg (stat_Max waitStats)],
             plain ''Bidding Times'',
             Sprintf (''...%s | %.2f '' @ plus_minus @ '' %.2f'')
               [DurationArg (int_of_float (fmul (stat_Total bidStats) (Fin 1000000000))),
                FloatArg (stat_Mean bidStats), FloatArg (stat_StdDev bidStats)],
             Sprintf ''...%.3f - %.2f'' [FloatArg (stat_Min bidStats), FloatArg (stat_Max bidStats)]]
      in ([Translate (border * 2 + instanceBoxSize) y, Gstyle ''font-family:Helvetica Neue'',
           Textlines 8 8 lines 16 18 ''#333'' ''start'', Textlines 8 80 statLines 13 16 ''#333'' ''start'', Gend, Gend],
          r2, rng3))"

definition DrawReportCard ::
    "int \<Rightarrow> int \<Rightarrow> rand \<Rightarrow> report \<Rightarrow> svg_report \<Rightarrow> (svg_report \<times> report \<times> rand) outcome" where
  "DrawReportCard x y rng r s =
     (let (insts, r1) = drawInstances r in
      obind (drawDurationsHistogram r1) (\<lambda>(durations, y1).
      obind (drawRoundsHistogram r1 (y1 + binSpacing * 4)) (\<lambda>(rounds, y2).
      let (texts, r2, rng1) = drawText rng r1 (y2 + binSpacing * 4);
          (final, rng2) = DistributionScore rng1 r2
      in Ret (s\<lparr>sr_SVG := sr_SVG s @ [Translate (x * ReportCardWidth) (headerHeight + y * ReportCardHeight)] @
              insts @ durations @ rounds @ texts @ [Gend],
            sr_scores := sr_scores s @ [final],
            sr_communications := sr_communications s @ [stat_Total (CommStats r2)],
            sr_waitTimes := sr_waitTimes s @ [Seconds (rp_AuctionDuration r2)]\<rparr>, r2, rng2))))"


section \<open>Bins\<close>

text \<open>The bin of a value: as many of the upper bounds as are below it.\<close>

definition bin_of :: "float64 list \<Rightarrow> float64 \<Rightarrow> nat" where
  "bin_of binBoundaries d = length (takeWhile (\<lambda>b. flt b d) (tl binBoundaries))"

lemma flt_fle_trans: "flt a b \<Longrightarrow> fle b c \<Longrightarrow> flt a c"
  by (cases a; cases b; cases c) (auto simp: flt_def fle_def)

lemma fle_flt_trans: "fle a b \<Longrightarrow> flt b c \<Longrightarrow> flt a c"
  by (cases a; cases b; cases c) (auto simp: flt_def fle_def)

lemma bin_of_mono: "fle d e \<Longrightarrow> bin_of bs d \<le> bin_of bs e"
proof -
  assume "fle d e"
  then have "length (takeWhile (\<lambda>b. flt b d) xs) \<le> length (takeWhile (\<lambda>b. flt b e) xs)" for xs
    by (induction xs) (auto dest: flt_fle_trans)
  then show ?thesis by (simp add: bin_of_def)
qed

lemma bin_of_le: "bin_of bs d \<le> length bs - 1"
  using length_takeWhile_le[of "\<lambda>b. flt b d" "tl bs"] by (simp add: bin_of_def)

lemma bin_of_below: "k < bin_of bs d \<Longrightarrow> flt (bs ! (k + 1)) d"
  using nth_mem[of k "takeWhile (\<lambda>b. flt b d) (tl bs)"] set_takeWhileD[of _ "\<lambda>b. flt b d" "tl bs"]
  by (cases bs) (auto simp: bin_of_def takeWhile_nth)

lemma bin_of_above: "bin_of bs d + 1 < length bs \<Longrightarrow> \<not> flt (bs ! (bin_of bs d + 1)) d"
  using nth_length_takeWhile[of "\<lambda>b. flt b d" "tl bs"] by (cases bs) (auto simp: bin_of_def)

lemma advance_bin_eq:
  "k \<le> bin_of bs d \<Longrightarrow> bs \<noteq> [] \<Longrightarrow>
    advance_bin bs k d = (if bin_of bs d + 1 < length bs then Ret (bin_of bs d) else Panic IndexOutOfRange)"
proof (induction bs k d rule: advance_bin.induct)
  case (1 bs k d)
  show ?case
  proof (cases "k < bin_of bs d")
    case True
    with bin_of_below[OF True] bin_of_le[of bs d] 1 show ?thesis
      by (subst advance_bin.simps) auto
  next
    case False
    with 1(2) have "k = bin_of bs d" by simp
    with bin_of_above[of bs d] bin_of_le[of bs d] show ?thesis
      by (subst advance_bin.simps) simp
  qed
qed

text \<open>Counting in floats is exact up to \<open>2\<^sup>5\<^sup>3\<close>.\<close>

lemma float_nat_Suc:
  assumes "n < 2 ^ 53"
  shows "fadd (float_nat n) (Fin 1) = float_nat (Suc n)"
proof -
  have "\<bar>int n\<bar> \<le> 2 ^ 53" using assms by simp
  from float_of_int_fin[OF this] have "is_finite (float_nat n)" "fval (float_nat n) = of_nat n" by simp_all
  then show ?thesis by (auto simp: fadd_def float_of_int_def add.commute)
qed

lemma fill_bins_eq:
  assumes "bs \<noteq> []" and "sorted_wrt fle ds" and "\<forall>d\<in>set ds. k \<le> bin_of bs d"
    and "length bins = length bs - 1" and "\<forall>j<length bins. bins ! j = float_nat (c j)"
    and "\<forall>j. c j + length ds \<le> 2 ^ 53"
  shows "fill_bins bs k bins ds =
    (if \<exists>d\<in>set ds. bin_of bs d + 1 = length bs then Panic IndexOutOfRange
     else Ret (map (\<lambda>j. float_nat (c j + length (filter (\<lambda>d. bin_of bs d = j) ds))) [0..<length bs - 1]))"
  using assms(2-)
proof (induction ds arbitrary: k bins c)
  case Nil
  then show ?case by (auto intro: nth_equalityI)
next
  case (Cons d ds)
  show ?case
  proof (cases "bin_of bs d + 1 < length bs")
    case False
    then have "bin_of bs d + 1 = length bs" using bin_of_le[of bs d] assms(1) by (cases bs) auto
    with False Cons.prems(2) show ?thesis by (simp add: advance_bin_eq[OF _ assms(1)])
  next
    case True
    define j where "j = bin_of bs d"
    define c' where "c' = c(j := Suc (c j))"
    have j: "j < length bins" using True Cons.prems(3) by (simp add: j_def)
    have "c j < 2 ^ 53" using Cons.prems(5) by (auto dest: spec[of _ j])
    then have "\<forall>i<length (bins[j := fadd (bins ! j) (Fin 1)]). bins[j := fadd (bins ! j) (Fin 1)] ! i = float_nat (c' i)"
      using Cons.prems(4) j float_nat_Suc[of "c j"] by (auto simp: c'_def nth_list_update)
    moreover have "\<forall>e\<in>set ds. j \<le> bin_of bs e" using Cons.prems(1) by (auto simp: j_def intro: bin_of_mono)
    moreover have "c' i + length ds \<le> 2 ^ 53" for i
      using Cons.prems(5)[rule_format, of i] Cons.prems(5)[rule_format, of j] by (simp add: c'_def)
    then have "\<forall>i. c' i + length ds \<le> 2 ^ 53" by blast
    ultimately have "fill_bins bs j (bins[j := fadd (bins ! j) (Fin 1)]) ds =
      (if \<exists>d\<in>set ds. bin_of bs d + 1 = length bs then Panic IndexOutOfRange
       else Ret (map (\<lambda>i. float_nat (c' i + length (filter (\<lambda>d. bin_of bs d = i) ds))) [0..<length bs - 1]))"
      using Cons.IH[of j "bins[j := fadd (bins ! j) (Fin 1)]" c'] Cons.prems(1,3) by simp
    moreover have "c' i + length (filter (\<lambda>d. bin_of bs d = i) ds) = c i + length (filter (\<lambda>d. bin_of bs d = i) (d # ds))" for i
      by (simp add: c'_def j_def)
    ultimately show ?thesis
      using True Cons.prems(2) by (simp add: advance_bin_eq[OF _ assms(1)] flip: j_def)
  qed
qed

lemma binUp_eq:
  assumes "sorted_wrt fle ds" and "bs \<noteq> []" and "length ds \<le> 2 ^ 53"
  shows "binUp bs ds =
    (if \<exists>d\<in>set ds. \<forall>b\<in>set (tl bs). flt b d then Panic IndexOutOfRange
     else Ret (map (\<lambda>j. fdiv (float_nat (length (filter (\<lambda>d. bin_of bs d = j) ds)))
       (float_nat (length ds))) [0..<length bs - 1]))"
proof -
  have "bin_of bs d + 1 = length bs \<longleftrightarrow> (\<forall>b\<in>set (tl bs). flt b d)" for d
  proof -
    have "length (takeWhile P xs) = length xs \<longleftrightarrow> (\<forall>x\<in>set xs. P x)" for P :: "float64 \<Rightarrow> bool" and xs
      by (induction xs) auto
    from this[of "\<lambda>b. flt b d" "tl bs"] assms(2) show ?thesis by (cases bs) (auto simp: bin_of_def)
  qed
  moreover have "float_nat 0 = Fin 0" by (simp add: float_of_int_def)
  ultimately show ?thesis
    using assms fill_bins_eq[of bs ds 0 "replicate (length bs - 1) (Fin 0)" "\<lambda>_. 0"]
    by (simp add: binUp_def)
qed
text \<open>C31: sorted data fall into the bins of their values: every bin is the share of the data above its
  lower and not above its upper bound (the first has no lower bound).  Data above the last bound
  make it panic.\<close>

theorem binUp_shares:
  assumes "sorted_wrt fle ds" and "bs \<noteq> []" and "length ds \<le> 2 ^ 53"
  shows "binUp bs ds =
    (if \<exists>d\<in>set ds. \<forall>b\<in>set (tl bs). flt b d then Panic IndexOutOfRange
     else Ret (map (\<lambda>j. fdiv (float_nat (length (filter (\<lambda>d. length (takeWhile (\<lambda>b. flt b d) (tl bs)) = j) ds)))
       (float_nat (length ds))) [0..<length bs - 1]))"
  using binUp_eq[OF assms] by (simp only: bin_of_def)


section \<open>Bars\<close>

lemma share_fin:
  assumes "c \<le> n" and "0 < n" and "n \<le> 2 ^ 53"
  shows "is_finite (fdiv (float_nat c) (float_nat n)) \<and> 0 \<le> fval (fdiv (float_nat c) (float_nat n)) \<and>
    fval (fdiv (float_nat c) (float_nat n)) \<le> 1"
proof -
  have f: "is_finite (float_nat c)" "fval (float_nat c) = of_nat c" "is_finite (float_nat n)" "fval (float_nat n) = of_nat n"
    using float_of_int_fin[of "int c"] float_of_int_fin[of "int n"] assms by simp_all
  have q: "0 \<le> (of_nat c :: rat) / of_nat n" "(of_nat c :: rat) / of_nat n \<le> 1" using assms by simp_all
  then have "\<bar>fval (float_nat c) / fval (float_nat n)\<bar> \<le> 1" by (simp add: f)
  also have "(1::rat) \<le> 2 ^ 1023" by simp
  finally have "is_finite (fdiv (float_nat c) (float_nat n))"
    "fval (fdiv (float_nat c) (float_nat n)) = rnd (of_nat c / of_nat n)"
    using fdiv_fin[of "float_nat c" "float_nat n"] f assms(2) by simp_all
  moreover have "of_int 0 \<le> rnd ((of_nat c :: rat) / of_nat n)" "rnd ((of_nat c :: rat) / of_nat n) \<le> of_int 1"
    using q by (intro rnd_between[of 0 _ 1]; simp)+
  ultimately show ?thesis by simp
qed

lemma bar_width:
  assumes "is_finite p" and "0 \<le> fval p" and "fval p \<le> 1"
  shows "0 \<le> int_of_float (fmul p (float_of_int maxBinLength)) \<and>
    int_of_float (fmul p (float_of_int maxBinLength)) \<le> maxBinLength"
proof -
  have m: "maxBinLength = 245" by (simp add: maxBinLength_def graphWidth_def graphBinX_def)
  have f: "is_finite (float_of_int 245)" "fval (float_of_int 245) = 245" using float_of_int_fin[of 245] by simp_all
  have q: "0 \<le> fval p * 245" "fval p * 245 \<le> 245" using assms by simp_all
  then have "\<bar>fval p * fval (float_of_int 245)\<bar> \<le> 245" by (simp add: f)
  also have "(245::rat) \<le> 2 ^ 1023" by simp
  finally have "is_finite (fmul p (float_of_int 245))" "fval (fmul p (float_of_int 245)) = rnd (fval p * 245)"
    using fmul_fin[OF assms(1) f(1)] f by simp_all
  moreover have "of_int 0 \<le> rnd (fval p * 245)" "rnd (fval p * 245) \<le> of_int 245"
    using q by (intro rnd_between[of 0 _ 245]; simp)+
  moreover from this(2) have "\<lfloor>rnd (fval p * 245)\<rfloor> \<le> 245" by (metis floor_mono floor_of_int)
  ultimately show ?thesis by (simp add: m int_of_float_def Let_def)
qed

text \<open> the bars of a histogram stay inside it: their widths are between 0 and that of the box behind
  them; without data there are none.\<close>

theorem bars_fit:
  assumes "binUp bs ds = Ret bins" and "sorted_wrt fle ds" and "length ds \<le> 2 ^ 53"
    and "p \<in> set bins" and "Rect x y' w h style \<in> set (bar y p)"
  shows "ds \<noteq> [] \<and> x = graphBinX \<and> y' = y \<and> 0 \<le> w \<and> w \<le> maxBinLength"
proof -
  have "bs \<noteq> []" using assms(1) by (auto simp: binUp_def)
  with assms(1-3) have "bins = map (\<lambda>j. fdiv (float_nat (length (filter (\<lambda>d. bin_of bs d = j) ds)))
      (float_nat (length ds))) [0..<length bs - 1]"
    using binUp_eq[OF assms(2) _ assms(3)] by (auto split: if_splits)
  then obtain j where j: "p = fdiv (float_nat (length (filter (\<lambda>d. bin_of bs d = j) ds))) (float_nat (length ds))"
    using assms(4) by auto
  show ?thesis
  proof (cases "ds = []")
    case True
    with j have "p = NaN" using zero_by_none by (simp add: float_of_int_def)
    with assms(5) show ?thesis by (simp add: bar_def flt_def)
  next
    case False
    then have "is_finite p \<and> 0 \<le> fval p \<and> fval p \<le> 1"
      using share_fin[of "length (filter (\<lambda>d. bin_of bs d = j) ds)" "length ds"] assms(3) j by simp
    then show ?thesis
      using bar_width[of p] assms(5) False by (auto simp: bar_def split: if_splits)
  qed
qed

section \<open>Cards\<close>

text \<open>The groups open after a drawing; a group is not closed more often than opened.\<close>

fun groups_after :: "nat \<Rightarrow> svg list \<Rightarrow> nat option" where
  "groups_after n [] = Some n"
| "groups_after n (Translate x y # out) = groups_after (Suc n) out"
| "groups_after n (Gstyle st # out) = groups_after (Suc n) out"
| "groups_after n (Gend # out) = (case n of 0 \<Rightarrow> None | Suc m \<Rightarrow> groups_after m out)"
| "groups_after n (c # out) = groups_after n out"

lemma groups_after_append: "groups_after n (xs @ ys) = Option.bind (groups_after n xs) (\<lambda>m. groups_after m ys)"
  by (induction n xs rule: groups_after.induct) (auto split: nat.splits)

lemma draw_instance_step:
  "\<exists>x1 x2 y2 w h st. draw_instance y i (x, out, r) =
    (x1, out @ [Rect x2 y2 w h st], r\<lparr>rp_auctioned := Some (guids_auctioned r)\<rparr>)"
  by (simp add: draw_instance_def IsAuctionedInstance_eq Let_def)

text \<open>What draws nothing but boxes and changes nothing but the cache.\<close>

definition drawn_on :: "svg list \<Rightarrow> report \<Rightarrow> svg list \<Rightarrow> report \<Rightarrow> bool" where
  "drawn_on out r out1 r1 \<longleftrightarrow> (\<exists>cs. out1 = out @ cs \<and> (\<forall>n. groups_after n cs = Some n)) \<and> asked r r1"

lemma drawn_on_refl: "drawn_on out r out r"
  by (simp add: drawn_on_def)

lemma drawn_on_trans: "drawn_on out r out1 r1 \<Longrightarrow> drawn_on out1 r1 out2 r2 \<Longrightarrow> drawn_on out r out2 r2"
  by (auto simp: drawn_on_def groups_after_append intro: asked_trans)

lemma drawn_on_rect: "asked r r1 \<Longrightarrow> drawn_on out r (out @ [Rect x y w h st]) r1"
  by (simp add: drawn_on_def)

lemma draw_instances:
  "\<exists>x1 out1 r1. fold (draw_instance y) insts (x, out, r) = (x1, out1, r1) \<and> drawn_on out r out1 r1"
proof (induction insts arbitrary: x out r)
  case (Cons i insts)
  obtain x1 x2 y2 w h st where s: "draw_instance y i (x, out, r) =
      (x1, out @ [Rect x2 y2 w h st], r\<lparr>rp_auctioned := Some (guids_auctioned r)\<rparr>)"
    using draw_instance_step by blast
  obtain x3 out3 r3 where f: "fold (draw_instance y) insts (draw_instance y i (x, out, r)) = (x3, out3, r3)"
    "drawn_on (out @ [Rect x2 y2 w h st]) (r\<lparr>rp_auctioned := Some (guids_auctioned r)\<rparr>) out3 r3"
    using Cons.IH[of x1 "out @ [Rect x2 y2 w h st]" "r\<lparr>rp_auctioned := Some (guids_auctioned r)\<rparr>"] s by auto
  from drawn_on_trans[OF drawn_on_rect[OF asked_cache] f(2)] f(1) show ?case by auto
qed (auto simp: drawn_on_refl)

lemma draw_reps: "\<exists>y1 out1 r1. fold draw_rep guids (y, out, r) = (y1, out1, r1) \<and> drawn_on out r out1 r1"
proof (induction guids arbitrary: y out r)
  case (Cons g guids)
  let ?box = "out @ [Rect border y instanceBoxSize instanceSize ''fill:#f7f7f7'']"
  let ?insts = "case map_of (rp_InstancesByRep r) g of Some is \<Rightarrow> is | None \<Rightarrow> []"
  obtain x1 out1 r1 where f: "fold (draw_instance y) ?insts (border, ?box, r) = (x1, out1, r1)"
    "drawn_on ?box r out1 r1"
    using draw_instances by blast
  then have "draw_rep g (y, out, r) = (y + (instanceSize + instanceSpacing), out1, r1)"
    by (simp add: draw_rep_def)
  moreover have "drawn_on out r out1 r1" by (rule drawn_on_trans[OF drawn_on_rect[OF asked_refl] f(2)])
  ultimately show ?case using Cons.IH[of "y + (instanceSize + instanceSpacing)" out1 r1] drawn_on_trans by fastforce
qed (auto simp: drawn_on_refl)

lemma drawInstances_groups:
  "\<exists>out1 r1. drawInstances r = (out1, r1) \<and> (\<forall>n. groups_after n out1 = Some n) \<and> asked r r1"
  using draw_reps[of "rp_RepGuids r" border "[]" r] by (auto simp: drawInstances_def drawn_on_def)

lemma drawHistogram_returns:
  assumes "length bins \<le> length labels"
  shows "\<exists>out y1. drawHistogram y bins labels = Ret (out, y1) \<and> (\<forall>n. groups_after n out = Some n)"
  using assms
proof (induction y bins labels rule: drawHistogram.induct)
  case (3 y p bins l labels)
  then obtain out y1 where "drawHistogram (y + (binHeight + binSpacing)) bins labels = Ret (out, y1)"
    "\<forall>n. groups_after n out = Some n" by auto
  moreover have "groups_after n (bar y p) = Some n" for n by (simp add: bar_def)
  ultimately show ?case by (simp add: groups_after_append)
qed auto


lemma asked_results: "asked r r1 \<Longrightarrow> rp_AuctionResults r1 = rp_AuctionResults r"
  by (cases r; cases r1) (simp add: asked_def report.truncate_def)

lemma add_initial_asked: "\<exists>m1 r1. fold add_initial insts (m, r) = (m1, r1) \<and> asked r r1"
proof (induction insts arbitrary: m r)
  case (Cons i insts)
  have "\<exists>m1. add_initial i (m, r) = (m1, r\<lparr>rp_auctioned := Some (guids_auctioned r)\<rparr>)"
    by (simp add: add_initial_def IsAuctionedInstance_eq)
  with Cons.IH asked_trans[OF asked_cache] show ?case by (fastforce simp: comp_def)
qed simp

lemma InitialDistributionScore_asked: "asked r (fst (snd (InitialDistributionScore rng r)))"
proof -
  have "\<exists>cs1 r1. fold (\<lambda>(_, insts) (cs, r). let (m, r1) = fold add_initial insts (Fin 0, r) in (cs @ [m], r1))
      entries (cs, r) = (cs1, r1) \<and> asked r r1" for entries :: "(string \<times> app_instance list) list" and cs r
  proof (induction entries arbitrary: cs r)
    case (Cons e entries)
    obtain m1 r1 where "fold add_initial (snd e) (Fin 0, r) = (m1, r1)" "asked r r1"
      using add_initial_asked by blast
    with Cons.IH[of "cs @ [m1]" r1] asked_trans show ?case by (fastforce simp: split_beta)
  qed simp
  then obtain cs1 r1 where
    "fold (\<lambda>(_, insts) (cs, r). let (m, r1) = fold add_initial insts (Fin 0, r) in (cs @ [m], r1))
      (fst (shuffle (rp_InstancesByRep r) rng)) ([], r) = (cs1, r1) \<and> asked r r1" by blast
  then show ?thesis by (simp add: InitialDistributionScore_def split_beta)
qed

lemma drawText_groups:
  "\<exists>out r1 rng1. drawText rng r y = (out, r1, rng1) \<and> (\<forall>n. groups_after n out = Some n) \<and> asked r r1"
proof -
  obtain k r1 rng1 where n: "NMissingInstances rng r = (k, r1, rng1)" "asked r r1"
    using NMissingInstances_count by blast
  moreover have "asked r1 (fst (snd (InitialDistributionScore rng1 r1)))" by (rule InitialDistributionScore_asked)
  ultimately show ?thesis by (auto simp: drawText_def Let_def split_beta intro: asked_trans)
qed

subsection \<open>Histograms of results\<close>

lemma of_exact_not_NaN [simp]: "of_exact neg x \<noteq> NaN"
  by (simp add: of_exact_def Let_def)

lemma float_of_int_not_NaN [simp]: "float_of_int n \<noteq> NaN" "NaN \<noteq> float_of_int n"
  by (simp_all add: float_of_int_def not_sym)

lemma Seconds_not_NaN [simp]: "Seconds d \<noteq> NaN"
proof -
  let ?rest = "d - quotient d 1000000000 * 1000000000"
  have "\<bar>?rest\<bar> \<le> 1000000000"
    by (cases "0 \<le> d") (auto simp: quotient_def sgn_if abs_if minus_div_mult_eq_mod)
  then have "\<bar>?rest\<bar> \<le> 2 ^ 53" by simp
  then have r: "is_finite (float_of_int ?rest)" "fval (float_of_int ?rest) = of_int ?rest"
    using float_of_int_fin by blast+
  have "is_finite (fdiv (float_of_int ?rest) (Fin 1000000000))"
  proof (rule fdiv_fin)
    have "\<bar>of_int ?rest / 1000000000\<bar> \<le> (1::rat)"
      using \<open>\<bar>?rest\<bar> \<le> 1000000000\<close> by (simp flip: of_int_abs of_int_le_iff)
    also have "(1::rat) \<le> 2 ^ 1023" by simp
    finally show "\<bar>fval (float_of_int ?rest) / fval (Fin 1000000000)\<bar> \<le> 2 ^ 1023" using r by simp
  qed (use r in simp_all)
  then show ?thesis by (auto simp: Seconds_def Let_def fadd_def)
qed

lemma insert_float_mset: "mset (insert_float x ys) = add_mset x (mset ys)"
  by (induction ys) auto

lemma mset_sort_floats [simp]: "mset (sort_floats xs) = mset xs"
  by (induction xs) (simp_all add: sort_floats_def insert_float_mset)

lemma set_sort_floats [simp]: "set (sort_floats xs) = set xs"
  by (metis mset_sort_floats set_mset_mset)

lemma length_sort_floats [simp]: "length (sort_floats xs) = length xs"
  by (metis mset_sort_floats size_mset)

lemma fle_trans: "fle a b \<Longrightarrow> fle b c \<Longrightarrow> fle a c"
  by (cases a; cases b; cases c) (auto simp: fle_def)

lemma insert_float_sorted:
  assumes "sorted_wrt fle ys" and "NaN \<notin> set ys" and "x \<noteq> NaN"
  shows "sorted_wrt fle (insert_float x ys)"
  using assms
proof (induction ys)
  case (Cons y ys)
  have set: "set (insert_float x ys) = insert x (set ys)"
    by (metis insert_float_mset set_mset_mset set_mset_add_mset_insert)
  show ?case
  proof (cases "float_Less y x")
    case True
    then have "fle y x" using Cons.prems by (auto simp: float_Less_def fle_iff_not_flt dest: flt_asym)
    with True Cons set show ?thesis by simp
  next
    case False
    then have "fle x y" using Cons.prems by (simp add: float_Less_def fle_iff_not_flt)
    with False Cons.prems show ?thesis by (auto intro: fle_trans)
  qed
qed (auto)

lemma sort_floats_sorted: "NaN \<notin> set xs \<Longrightarrow> sorted_wrt fle (sort_floats xs)"
proof (induction xs)
  case (Cons x xs)
  moreover from this have "NaN \<notin> set (sort_floats xs)" by simp
  ultimately show ?case using insert_float_sorted[of "sort_floats xs" x] by (auto simp: sort_floats_def)
qed (simp add: sort_floats_def)

text \<open>Data over the last of ascending bounds make the bins panic.\<close>

lemma binUp_returns:
  assumes "NaN \<notin> set xs" and "length xs \<le> 2 ^ 53" and "bs \<noteq> []" and "\<forall>b\<in>set bs. fle b (Fin 1000000000)"
    and "last bs = Fin 1000000000" and "length bs = 10"
  shows "if \<forall>x\<in>set xs. \<not> flt (Fin 1000000000) x
    then \<exists>bins. binUp bs (sort_floats xs) = Ret bins \<and> length bins = 9
    else binUp bs (sort_floats xs) = Panic IndexOutOfRange"
proof -
  have "tl bs \<noteq> []" using assms(6) by (cases bs) auto
  then have "Fin 1000000000 \<in> set (tl bs)" using assms(5) by (metis last_in_set last_tl)
  moreover have "set (tl bs) \<subseteq> set bs" using assms(3) by (cases bs) auto
  ultimately have top: "(\<forall>b\<in>set (tl bs). flt b x) \<longleftrightarrow> flt (Fin 1000000000) x" for x
    using assms(4) fle_flt_trans by blast
  show ?thesis
    using binUp_eq[OF sort_floats_sorted[OF assms(1)] assms(3)] assms(2,6) by (auto simp: top)
qed


lemma histogram_drawn:
  assumes "NaN \<notin> set xs" and "length xs \<le> 2 ^ 53" and "bs \<noteq> []" and "\<forall>b\<in>set bs. fle b (Fin 1000000000)"
    and "last bs = Fin 1000000000" and "length bs = 10" and "length labels = 9"
  shows "if \<forall>x\<in>set xs. \<not> flt (Fin 1000000000) x
    then \<exists>out y1. obind (binUp bs (sort_floats xs)) (\<lambda>bins. obind (drawHistogram 0 bins labels) (\<lambda>(out, yb).
        Ret ([Translate l t] @ out @ [Gend], yb + c))) = Ret (out, y1) \<and> (\<forall>n. groups_after n out = Some n)
    else obind (binUp bs (sort_floats xs)) (\<lambda>bins. obind (drawHistogram 0 bins labels) (\<lambda>(out, yb).
        Ret ([Translate l t] @ out @ [Gend], yb + c))) = Panic IndexOutOfRange"
proof -
  note b = binUp_returns[OF assms(1-6)]
  show ?thesis
  proof (cases "\<forall>x\<in>set xs. \<not> flt (Fin 1000000000) x")
    case True
    then obtain bins where bins: "binUp bs (sort_floats xs) = Ret bins" "length bins = 9" using b by auto
    then obtain out y1 where "drawHistogram 0 bins labels = Ret (out, y1)" "\<forall>n. groups_after n out = Some n"
      using drawHistogram_returns[of bins labels 0] assms(7) by auto
    with True bins show ?thesis by (simp add: groups_after_append)
  next
    case False
    with b have "binUp bs (sort_floats xs) = Panic IndexOutOfRange" by (simp only: if_False)
    with False show ?thesis by simp
  qed
qed

lemma durations_histogram:
  assumes "length (rp_AuctionResults r) \<le> 2 ^ 53"
  shows "if \<forall>x\<in>set (rp_AuctionResults r). \<not> flt (Fin 1000000000) (Seconds (Duration x))
    then \<exists>out y1. drawDurationsHistogram r = Ret (out, y1) \<and> (\<forall>n. groups_after n out = Some n)
    else drawDurationsHistogram r = Panic IndexOutOfRange"
proof -
  have "NaN \<notin> set (map (\<lambda>x. Seconds (Duration x)) (rp_AuctionResults r))"
    using Seconds_not_NaN by (metis (mono_tags, lifting) ex_map_conv)
  note h = histogram_drawn[OF this _ _ _ _ _, of "[Fin 0, Fin (1 / 4), Fin (1 / 2), Fin 1, Fin 2, Fin 5, Fin 10, Fin 20,
      Fin 40, Fin 1000000000]" "[''<0.25s'', ''0.25-0.5s'', ''0.5-1s'', ''1-2s'', ''2-5s'', ''5-10s'', ''10-20s'',
      ''20-40s'', ''>40s'']" "border * 2 + instanceBoxSize" border border]
  show ?thesis
    unfolding drawDurationsHistogram_def Let_def using h assms
    by (simp only: length_map list.simps set_map ball_simps list.size fle_def) simp
qed

lemma rounds_histogram:
  assumes "length (rp_AuctionResults r) \<le> 2 ^ 53"
  shows "if \<forall>x\<in>set (rp_AuctionResults r). \<not> flt (Fin 1000000000) (float_of_int (NumRounds x))
    then \<exists>out y1. drawRoundsHistogram r y = Ret (out, y1) \<and> (\<forall>n. groups_after n out = Some n)
    else drawRoundsHistogram r y = Panic IndexOutOfRange"
proof -
  have "NaN \<notin> set (map (\<lambda>x. float_of_int (NumRounds x)) (rp_AuctionResults r))" by auto
  note h = histogram_drawn[OF this _ _ _ _ _, of "[Fin 0, Fin 1, Fin 2, Fin 3, Fin 4, Fin 5, Fin 10, Fin 20,
      Fin 40, Fin 1000000000]" "[''1 round'', ''2 rounds'', ''3 rounds'', ''4 rounds'', ''5 rounds'', ''5-10'', ''10-20'',
      ''20-40'', ''>40'']" "border * 2 + instanceBoxSize" y y]
  show ?thesis
    unfolding drawRoundsHistogram_def Let_def using h assms
    by (simp only: length_map list.simps set_map ball_simps list.size fle_def) simp
qed

text \<open>C32: a card is drawn as long as no auction waited and none took more than a thousand million seconds
  or rounds, and otherwise drawing it panics.  What it adds to the drawing closes every group it
  opens and no other; the scores, communications and waiting times get one entry more each; and the
  report keeps its results.\<close>

theorem card_drawn:
  assumes "length (rp_AuctionResults r) \<le> 2 ^ 53"
  shows "if \<forall>a\<in>set (rp_AuctionResults r). \<not> flt (Fin 1000000000) (Seconds (Duration a)) \<and>
        \<not> flt (Fin 1000000000) (float_of_int (NumRounds a))
    then \<exists>s1 r1 rng1 drawing. DrawReportCard x y rng r s = Ret (s1, r1, rng1) \<and>
        sr_SVG s1 = sr_SVG s @ drawing \<and> groups_after 0 drawing = Some 0 \<and>
        length (sr_scores s1) = Suc (length (sr_scores s)) \<and>
        length (sr_communications s1) = Suc (length (sr_communications s)) \<and>
        length (sr_waitTimes s1) = Suc (length (sr_waitTimes s)) \<and>
        rp_AuctionResults r1 = rp_AuctionResults r
    else DrawReportCard x y rng r s = Panic IndexOutOfRange"
proof -
  obtain out1 r1 where i: "drawInstances r = (out1, r1)" "\<forall>n. groups_after n out1 = Some n" "asked r r1"
    using drawInstances_groups by blast
  note rs = asked_results[OF i(3)]
  note d = durations_histogram[of r1, unfolded rs, OF assms]
  note n = rounds_histogram[of r1, unfolded rs, OF assms]
  show ?thesis
  proof (cases "\<forall>a\<in>set (rp_AuctionResults r). \<not> flt (Fin 1000000000) (Seconds (Duration a))")
    case False
    with d i show ?thesis by (auto simp: DrawReportCard_def)
  next
    case T: True
    then obtain out2 y1 where d1: "drawDurationsHistogram r1 = Ret (out2, y1)" "\<forall>n. groups_after n out2 = Some n"
      using d by auto
    show ?thesis
    proof (cases "\<forall>a\<in>set (rp_AuctionResults r). \<not> flt (Fin 1000000000) (float_of_int (NumRounds a))")
      case False
      with n[of "y1 + binSpacing * 4"] i d1 show ?thesis by (auto simp: DrawReportCard_def)
    next
      case True
      then obtain out3 y2 where n1: "drawRoundsHistogram r1 (y1 + binSpacing * 4) = Ret (out3, y2)"
        "\<forall>n. groups_after n out3 = Some n"
        using n[of "y1 + binSpacing * 4"] by auto
      obtain out4 r2 rng1 where t: "drawText rng r1 (y2 + binSpacing * 4) = (out4, r2, rng1)"
        "\<forall>n. groups_after n out4 = Some n" "asked r1 r2"
        using drawText_groups by blast
      have "groups_after 0 ([Translate (x * ReportCardWidth) (headerHeight + y * ReportCardHeight)] @
          out1 @ out2 @ out3 @ out4 @ [Gend]) = Some 0"
        by (simp add: groups_after_append i d1 n1 t)
      with T True i d1 n1 t rs asked_results[OF t(3)] show ?thesis
        by (simp add: DrawReportCard_def split_beta)
    qed
  qed
qed

definition sample_results :: "int list \<Rightarrow> auction_result list" where
  "sample_results = map (\<lambda>n. (won_by ''cell'' (request_for [''cell''] sample_rules (sample_instance ''i'')))\<lparr>NumRounds := n\<rparr>)"

definition sample_card :: "int list \<Rightarrow> report" where
  "sample_card ns = \<lparr>rp_RepGuids = [''cell''], rp_AuctionResults = sample_results ns,
     rp_InstancesByRep = [(''cell'', [sample_instance ''i''])], rp_AuctionDuration = 9, rp_auctioned = None\<rparr>"

theorem binUp_shares_witness:
  "binUp [Fin 0, Fin 1, Fin 2] [Fin 1, Fin 2, Fin 2] =
     Ret [fdiv (float_nat 1) (float_nat 3), fdiv (float_nat 2) (float_nat 3)] \<and>
   binUp [Fin 0, Fin 1, Fin 2] [Fin 1, Fin 3] = Panic IndexOutOfRange"
proof -
  have "[0..<2] = [0, Suc 0]" by code_simp
  then have "binUp [Fin 0, Fin 1, Fin 2] [Fin 1, Fin 2, Fin 2] =
      Ret [fdiv (float_nat 1) (float_nat 3), fdiv (float_nat 2) (float_nat 3)]"
    by (subst binUp_shares) (simp_all add: fle_def flt_def)
  moreover have "binUp [Fin 0, Fin 1, Fin 2] [Fin 1, Fin 3] = Panic IndexOutOfRange"
    by (subst binUp_shares) (simp_all add: fle_def flt_def)
  ultimately show ?thesis ..
qed

theorem bars_fit_witness:
  "[Fin 1] \<noteq> [] \<and> (55::int) = graphBinX \<and> (7::int) = 7 \<and> 0 \<le> (245::int) \<and> (245::int) \<le> maxBinLength"
proof (rule bars_fit)
  have "binUp [Fin 0, Fin 1] [Fin 1] = Ret [fdiv (float_nat 1) (float_nat 1)]"
    by (subst binUp_eq) (simp_all add: bin_of_def flt_def)
  also have "fdiv (float_nat 1) (float_nat 1) = Fin 1"
    by (simp add: fdiv_def float_of_int_def of_exact_def Let_def)
  finally show "binUp [Fin 0, Fin 1] [Fin 1] = Ret [Fin 1]" .
  show "Fin 1 \<in> set [Fin 1]" by simp
  have "rnd 245 = 245" using rnd_of_int[of 245] by simp
  then have "int_of_float (fmul (Fin 1) (float_of_int maxBinLength)) = 245"
    by (simp add: maxBinLength_def graphWidth_def graphBinX_def float_of_int_def of_exact_def fmul_def int_of_float_def)
  then show "Rect 55 7 245 14 ''fill:#333'' \<in> set (bar 7 (Fin 1))"
    by (simp add: bar_def flt_def graphBinX_def binHeight_def)
qed simp_all

theorem card_drawn_witness:
  "(\<exists>s1 r1 rng1 drawing. DrawReportCard 0 0 \<lparr>draws = \<lambda>_. 0, drawn = 0\<rparr> (sample_card [1]) (StartSVGReport 1 1) =
      Ret (s1, r1, rng1) \<and> sr_SVG s1 = sr_SVG (StartSVGReport 1 1) @ drawing \<and> groups_after 0 drawing = Some 0) \<and>
   DrawReportCard 0 0 \<lparr>draws = \<lambda>_. 0, drawn = 0\<rparr> (sample_card [2000000000]) (StartSVGReport 1 1) = Panic IndexOutOfRange"
proof -
  let ?rng = "\<lparr>draws = \<lambda>_. 0, drawn = 0\<rparr>" and ?s = "StartSVGReport 1 1"
  let ?ok = "\<lambda>a. \<not> flt (Fin 1000000000) (Seconds (Duration a)) \<and> \<not> flt (Fin 1000000000) (float_of_int (NumRounds a))"
  have one: "length (rp_AuctionResults (sample_card [n])) \<le> 2 ^ 53" for n
    by (simp add: sample_card_def sample_results_def)
  have f: "flt (Fin 1000000000) (float_of_int 2000000000)" by code_simp
  have ok: "\<not> flt (Fin 1000000000) (float_of_int 1)" "\<not> flt (Fin 1000000000) (Seconds 0)" by code_simp+
  have "(\<forall>a\<in>set (rp_AuctionResults (sample_card [1])). ?ok a) = True"
    unfolding sample_card_def sample_results_def won_by_def using ok by simp
  from card_drawn[OF one[of 1], of 0 0 ?rng ?s, unfolded this if_True]
  have "\<exists>s1 r1 rng1 drawing. DrawReportCard 0 0 ?rng (sample_card [1]) ?s = Ret (s1, r1, rng1) \<and>
      sr_SVG s1 = sr_SVG ?s @ drawing \<and> groups_after 0 drawing = Some 0"
    by blast
  moreover have "(\<forall>a\<in>set (rp_AuctionResults (sample_card [2000000000])). ?ok a) = False"
    unfolding sample_card_def sample_results_def won_by_def using f by simp
  from card_drawn[OF one[of 2000000000], of 0 0 ?rng ?s, unfolded this if_False]
  have "DrawReportCard 0 0 ?rng (sample_card [2000000000]) ?s = Panic IndexOutOfRange" .
  ultimately show ?thesis ..
qed

end
