(* ===== verification/Print_Report.thy ===== *)
theory Print_Report
  imports Report_Card
begin

text \<open>
  \<open>simulation/visualization/print_report.go\<close>, the report on the terminal, and
  \<open>simulation/runs/collate/collate.go\<close>, the table of many runs.  What is printed is a list of
  formats with what they are given, the line ends left out.
\<close>

section \<open>Terminal\<close>

text \<open>Escape sequences, and three characters in UTF-8.\<close>

definition escape :: "string \<Rightarrow> string" where "escape code = CHR 0x1B # CHR 0x5B # code @ ''m''"

definition defaultStyle :: string where "defaultStyle = escape ''0''"
definition redColor :: string where "redColor = escape ''91''"
definition greenColor :: string where "greenColor = escape ''32''"
definition yellowColor :: string where "yellowColor = escape ''33''"
definition cyanColor :: string where "cyanColor = escape ''36''"
definition grayColor :: string where "grayColor = escape ''90''"
definition lightGrayColor :: string where "lightGrayColor = escape ''37''"
definition purpleColor :: string where "purpleColor = escape ''35''"

definition black_square :: string where "black_square = [CHR 0xE2, CHR 0x96, CHR 0xA0]"
definition white_circle :: string where "white_circle = [CHR 0xE2, CHR 0x97, CHR 0x8B]"
definition black_circle :: string where "black_circle = [CHR 0xE2, CHR 0x97, CHR 0x8F]"

definition Repeat :: "string \<Rightarrow> int \<Rightarrow> string outcome" where
  "Repeat s n = (if n < 0 then Panic NegativeRepeatCount else Ret (concat (replicate (nat n) s)))"

definition availableColors :: "string list" where
  "availableColors = [''red'', ''cyan'', ''yellow'', ''gray'', ''purple'', ''green'']"

definition colorLookup :: "string \<Rightarrow> string option" where
  "colorLookup = map_of [(''red'', redColor), (''green'', greenColor), (''cyan'', cyanColor),
     (''yellow'', yellowColor), (''gray'', lightGrayColor), (''purple'', purpleColor)]"

definition color_key :: "app_instance \<Rightarrow> string" where
  "color_key inst = (if colorLookup (AppGuid inst) \<noteq> None then AppGuid inst else ''green'')"

text \<open>The marks of the instances of a representative: in the order of the colours, those that were there
  before the ones just auctioned.\<close>

definition color_count :: "(app_instance \<Rightarrow> bool) \<Rightarrow> app_instance list \<Rightarrow> string \<Rightarrow> nat" where
  "color_count P insts col = length (filter (\<lambda>i. color_key i = col \<and> P i) insts)"

definition rep_marks :: "(app_instance \<Rightarrow> bool) \<Rightarrow> app_instance list \<Rightarrow> (string \<times> bool) list" where
  "rep_marks auctioned insts =
     concat (map (\<lambda>col. replicate (color_count (\<lambda>i. \<not> auctioned i) insts col) (col, False) @
       replicate (color_count auctioned insts col) (col, True)) availableColors)"

definition mark_string :: "string \<times> bool \<Rightarrow> string" where
  "mark_string = (\<lambda>(col, new). the (colorLookup col) @ (if new then black_circle else white_circle) @ defaultStyle)"

definition pad_left :: "nat \<Rightarrow> string \<Rightarrow> string" where
  "pad_left n s = replicate (n - length s) CHR 0x20 @ s"

definition print_rep ::
    "(app_instance \<Rightarrow> bool) \<Rightarrow> nat \<Rightarrow> (string \<Rightarrow> app_instance list) \<Rightarrow> (string \<Rightarrow> resources) \<Rightarrow> string
     \<Rightarrow> formatted outcome" where
  "print_rep auctioned maxGuidLength client_Instances client_TotalResources guid =
     (let insts = client_Instances guid
      in obind (Repeat (grayColor @ white_circle @ defaultStyle)
           (Containers (client_TotalResources guid) - int (length insts))) (\<lambda>free.
         Ret (Sprintf ''  %s: %s'' [StrArg (pad_left maxGuidLength guid),
           StrArg (concat (map mark_string (rep_marks auctioned insts)) @ free)])))"

fun print_reps ::
    "(app_instance \<Rightarrow> bool) \<Rightarrow> nat \<Rightarrow> (string \<Rightarrow> app_instance list) \<Rightarrow> (string \<Rightarrow> resources) \<Rightarrow> string list
     \<Rightarrow> formatted list outcome" where
  "print_reps auctioned n insts totals [] = Ret []"
| "print_reps auctioned n insts totals (g # gs) =
     obind (print_rep auctioned n insts totals g) (\<lambda>line.
     obind (print_reps auctioned n insts totals gs) (\<lambda>lines. Ret (line # lines)))"

definition rounds_distribution :: "auction_result list \<Rightarrow> int \<Rightarrow> int" where
  "rounds_distribution results i = int (length (filter (\<lambda>x. NumRounds x = i) results))"

definition print_rounds :: "auction_result list \<Rightarrow> int \<Rightarrow> formatted list" where
  "print_rounds results maxRounds =
     map (\<lambda>i. Sprintf ''  %2d: %s'' [IntArg i, StrArg (concat (replicate (nat (rounds_distribution results i)) black_square))])
       (filter (\<lambda>i. 0 < rounds_distribution results i) [1..maxRounds])"

text \<open>The least, the greatest and the sum of figures, from the values the code starts with.\<close>

definition min_max_total :: "int \<Rightarrow> int list \<Rightarrow> int \<times> int \<times> int" where
  "min_max_total start xs =
     fold (\<lambda>x (lo, hi, sum). (if x < lo then x else lo, if hi < x then x else hi, sum + x)) xs (start, 0, 0)"

text \<open>An integer quotient; the remainder is dropped.\<close>

definition int_mean :: "int \<Rightarrow> int \<Rightarrow> int outcome" where
  "int_mean s n = (if n = 0 then Panic IntegerDivideByZero else Ret (quotient s n))"

definition float_mean :: "int list \<Rightarrow> float64" where
  "float_mean xs = fdiv (fold (\<lambda>x s. fadd s (float_of_int x)) xs (Fin 0)) (float_nat (length xs))"

definition print_missing :: "nat \<Rightarrow> nat \<Rightarrow> formatted list" where
  "print_missing numNew expected =
     (if numNew < expected
      then [Sprintf ''  %s!!!!MISSING INSTANCES!!!!  Expected %d, got %d (%.3f %% failure rate)%s''
        [StrArg redColor, IntArg (int expected), IntArg (int numNew),
         FloatArg (fdiv (float_nat (expected - numNew)) (float_nat expected)), StrArg defaultStyle]]
      else [])"

text \<open>The line on latencies is that of the in-process client; its format asks for one figure more than
  it is given.\<close>

definition print_latency :: "(int \<times> int \<times> int) option \<Rightarrow> formatted list" where
  "print_latency inprocess =
     (case inprocess of
        Some (lo, hi, timeout) \<Rightarrow>
          [Sprintf ''  Latency Range: %s < %s, Timeout: %s, Flakiness: %.2f'' [DurationArg lo, DurationArg hi, DurationArg timeout]]
      | None \<Rightarrow> [])"

definition hour :: int where "hour = 3600000000000"

definition PrintReport ::
    "(string \<Rightarrow> app_instance list) \<Rightarrow> (string \<Rightarrow> resources) \<Rightarrow> (int \<times> int \<times> int) option
     \<Rightarrow> auction_result list \<Rightarrow> string list \<Rightarrow> int \<Rightarrow> auction_rules \<Rightarrow> formatted list outcome" where
  "PrintReport client_Instances client_TotalResources inprocess results representatives duration rules =
     (let auctionedInstances = remdups (map result_guid results);
          auctioned = (\<lambda>i. List.member auctionedInstances (InstanceGuid i));
          maxGuidLength = fold (\<lambda>g n. if n < length g then length g else n) representatives 0;
          numNew = sum_list (map (\<lambda>g. length (filter auctioned (client_Instances g))) representatives);
          n = int (length results);
          (minBid, maxBid, totalBid) = min_max_total hour (map BiddingDuration results);
          (minTime, maxTime, totalTime) = min_max_total hour (map Duration results);
          (minRounds, maxRounds, totalRounds) = min_max_total 100000000 (map NumRounds results);
          (minScores, maxScores, totalScores) = min_max_total 100000000 (map NumCommunications results)
      in obind (print_reps auctioned maxGuidLength client_Instances client_TotalResources representatives) (\<lambda>rows.
         obind (int_mean totalBid n) (\<lambda>meanBid.
         obind (int_mean totalTime n) (\<lambda>meanTime.
         Ret ([plain ''Rounds Distributions''] @ print_rounds results (MaxRounds rules) @
           [plain ''Distribution''] @ rows @
           [Sprintf ''Finished %d Auctions among %d Representatives in %s''
             [IntArg n, IntArg (int (length representatives)), DurationArg duration]] @
           print_missing numNew (length auctionedInstances) @
           [Sprintf ''  %#v'' [RulesArg rules]] @ print_latency inprocess @
           [plain ''Bidding Times'', Sprintf ''  Min: %s | Max: %s | Total: %s | Mean: %s''
             [DurationArg minBid, DurationArg maxBid, DurationArg totalBid, DurationArg meanBid],
            plain ''Wait Times'', Sprintf ''  Min: %s | Max: %s | Mean: %s''
             [DurationArg minTime, DurationArg maxTime, DurationArg meanTime],
            plain ''Rounds'', Sprintf ''  Min: %d | Max: %d | Total: %d | Mean: %.2f''
             [IntArg minRounds, IntArg maxRounds, IntArg totalRounds, FloatArg (float_mean (map NumRounds results))],
            plain ''Scores'', Sprintf ''  Min: %d | Max: %d | Total: %d | Mean: %.2f''
             [IntArg minScores, IntArg maxScores, IntArg totalScores,
              FloatArg (float_mean (map NumCommunications results))]])))))"


section \<open>What is printed\<close>

lemma Repeat_ok: "Repeat s n = (if 0 \<le> n then Ret (concat (replicate (nat n) s)) else Panic NegativeRepeatCount)"
  by (simp add: Repeat_def)

lemma print_rep_panics:
  "(\<exists>line. print_rep auctioned n insts totals g = Ret line) \<longleftrightarrow> int (length (insts g)) \<le> Containers (totals g)"
  "int (length (insts g)) > Containers (totals g) \<Longrightarrow> print_rep auctioned n insts totals g = Panic NegativeRepeatCount"
  by (auto simp: print_rep_def Repeat_ok Let_def split: if_splits)

lemma print_reps_returns:
  "if \<forall>g\<in>set gs. int (length (insts g)) \<le> Containers (totals g)
   then \<exists>rows. print_reps auctioned n insts totals gs = Ret rows \<and> length rows = length gs
   else print_reps auctioned n insts totals gs = Panic NegativeRepeatCount"
proof (induction gs)
  case (Cons g gs)
  show ?case
  proof (cases "int (length (insts g)) \<le> Containers (totals g)")
    case True
    then obtain line where "print_rep auctioned n insts totals g = Ret line" using print_rep_panics(1) by blast
    with True Cons show ?thesis by (auto split: if_splits)
  next
    case False
    then have "print_rep auctioned n insts totals g = Panic NegativeRepeatCount" by (intro print_rep_panics(2)) simp
    with False show ?thesis by simp
  qed
qed simp


lemma mset_replicates:
  "mset (concat (map (\<lambda>c. replicate (f c) (c, False) @ replicate (g c) (c, True)) cs)) =
    (\<Sum>c\<leftarrow>cs. replicate_mset (f c) (c, False) + replicate_mset (g c) (c, True))"
  by (induction cs) simp_all

text \<open> in the row of a representative every instance has one mark, in the colour of its app (green if
  that is no colour) and full if it was auctioned.\<close>

theorem rep_marks_instances:
  "mset (rep_marks auctioned insts) = image_mset (\<lambda>i. (color_key i, auctioned i)) (mset insts)"
proof (induction insts)
  case Nil
  then show ?case by (simp add: rep_marks_def color_count_def availableColors_def)
next
  case (Cons i insts)
  have key: "color_key i \<in> set availableColors"
    by (auto simp: color_key_def colorLookup_def availableColors_def split: if_splits)
  have sum: "(\<Sum>c\<leftarrow>cs. replicate_mset (color_count (\<lambda>i. \<not> auctioned i) (i # insts) c) (c, False) +
        replicate_mset (color_count auctioned (i # insts) c) (c, True)) =
      (if color_key i \<in> set cs then {#(color_key i, auctioned i)#} else {#}) +
      (\<Sum>c\<leftarrow>cs. replicate_mset (color_count (\<lambda>i. \<not> auctioned i) insts c) (c, False) +
        replicate_mset (color_count auctioned insts c) (c, True))" if "distinct cs" for cs
    using that by (induction cs) (auto simp: color_count_def)
  have "distinct availableColors" by (simp add: availableColors_def)
  from sum[OF this] key Cons show ?case by (simp add: rep_marks_def mset_replicates)
qed


section \<open>Collating runs\<close>

text \<open>From white at 0 to red at \<open>worst\<close> and above: the share of green and blue, of 255.\<close>

definition color_level :: "float64 \<Rightarrow> float64 \<Rightarrow> float64" where
  "color_level worst x =
     (let scaled = fsub (Fin 1) (fdiv x worst); rg = fadd (Fin 80) (fmul scaled (Fin 175))
      in if flt rg (Fin 0) then Fin 0 else rg)"

definition css_color :: "float64 \<Rightarrow> formatted" where
  "css_color rg = Sprintf ''rgb(255, %d, %d)'' [IntArg (int_of_float rg), IntArg (int_of_float rg)]"

definition scoreColor :: "float64 \<Rightarrow> formatted" where
  "scoreColor s = css_color (color_level (of_exact False (3 / 10)) s)"

definition waitColor :: "float64 \<Rightarrow> formatted" where
  "waitColor waitTime = css_color (color_level (Fin 120) waitTime)"

text \<open>The totals over the reports of a file: scores, communications, waiting times.\<close>

definition collate_report :: "report \<Rightarrow> float64 \<times> float64 \<times> float64 \<times> rand \<Rightarrow> float64 \<times> float64 \<times> float64 \<times> rand" where
  "collate_report r = (\<lambda>(scores, communication, waitTimes, rng).
     let (d, rng1) = DistributionScore rng r
     in (fadd scores d, fadd communication (stat_Total (CommStats r)),
         fadd waitTimes (Seconds (rp_AuctionDuration r)), rng1))"

definition collate_cell :: "formatted \<Rightarrow> report list option \<Rightarrow> rand \<Rightarrow> formatted list \<times> rand" where
  "collate_cell fname file rng =
     (case file of
        None \<Rightarrow> ([plain ''<td>'', plain ''</td>''], rng)
      | Some reports \<Rightarrow>
          (let (scores, communication, waitTimes, rng1) = fold collate_report reports (Fin 0, Fin 0, Fin 0, rng)
           in ([plain ''<td>'', Sprintf ''<a href=\"../imac/%s.svg\">'' [TextArg fname],
                Sprintf ''<div style=\"background-color:%s;\">%.3f</div>'' [TextArg (scoreColor scores), FloatArg scores],
                Sprintf ''<div style=\"background-color:%s;\">%.2f</div>'' [TextArg (waitColor waitTimes), FloatArg waitTimes],
                Sprintf ''<div>%d</div>'' [IntArg (int_of_float communication)],
                plain ''</a>'', plain ''</td>''], rng1)))"

definition collate_name :: "string \<Rightarrow> string \<Rightarrow> float64 \<times> float64 \<Rightarrow> formatted" where
  "collate_name alg comm = (\<lambda>(pool, conc). Sprintf ''../imac/%s_%s_pool%.1f_conc%.0f''
     [StrArg alg, StrArg comm, FloatArg pool, FloatArg conc])"

definition collate_algorithms :: "string list" where
  "collate_algorithms = [''random'', ''pick_best'', ''reserve_n_best'', ''all_rescore'']"

definition collate_pools :: "(float64 \<times> float64) list" where
  "collate_pools = [(of_exact False (1 / 5), Fin 20), (Fin 1, Fin 20), (of_exact False (1 / 5), Fin 100), (Fin 1, Fin 100)]"

text \<open>\<open>files\<close> gives the reports of the file of a name, where there is one.\<close>

fun collate_cells ::
    "(formatted \<Rightarrow> report list option) \<Rightarrow> string \<Rightarrow> float64 \<times> float64 \<Rightarrow> string list \<Rightarrow> rand \<Rightarrow> formatted list \<times> rand" where
  "collate_cells files comm pool [] rng = ([], rng)"
| "collate_cells files comm pool (alg # algs) rng =
     (let fname = collate_name alg comm pool; (cell, rng1) = collate_cell fname (files fname) rng;
          (cells, rng2) = collate_cells files comm pool algs rng1
      in (cell @ cells, rng2))"

fun collate_rows ::
    "(formatted \<Rightarrow> report list option) \<Rightarrow> string \<Rightarrow> (float64 \<times> float64) list \<Rightarrow> rand \<Rightarrow> formatted list \<times> rand" where
  "collate_rows files comm [] rng = ([], rng)"
| "collate_rows files comm (pool # pools) rng =
     (let (cells, rng1) = collate_cells files comm pool collate_algorithms rng;
          (rows, rng2) = collate_rows files comm pools rng1
      in ([plain ''<tr>'', Sprintf ''<th>%s<br>%.1f Bidders<br>%.0f Concurrently</th>''
            [StrArg comm, FloatArg (fst pool), FloatArg (snd pool)]] @ cells @ [plain ''</tr>''] @ rows, rng2))"

definition collate :: "(formatted \<Rightarrow> report list option) \<Rightarrow> rand \<Rightarrow> formatted list \<times> rand" where
  "collate files rng =
     (let (rows, rng1) = collate_rows files ''ketchup'' collate_pools rng
      in ([plain ''<html><head></head><body><table>'', plain ''<tr>'', plain ''<td></td>''] @
          map (\<lambda>alg. plain (''<th>'' @ alg @ ''</th>'')) collate_algorithms @ [plain ''</tr>''] @ rows @
          [plain ''<tr><td></td></tr>'', plain ''</table></body></html>''], rng1))"

text \<open>At most \<open>m\<close>: a finite float, or a sum that went below all floats.\<close>

definition at_most :: "int \<Rightarrow> float64 \<Rightarrow> bool" where
  "at_most m a \<longleftrightarrow> a = NegInf \<or> is_finite a \<and> fval a \<le> of_int m"

lemma of_exact_at_most:
  assumes "x \<le> of_int m" and "\<bar>m\<bar> \<le> 2 ^ 53"
  shows "at_most m (of_exact neg x)"
proof -
  have "rnd x \<le> of_int m" using rnd_mono[OF assms(1)] assms(2) by (simp add: rnd_of_int)
  moreover have "(of_int m :: rat) < 2 ^ 1024"
  proof -
    have "(of_int m :: rat) \<le> of_int (2 ^ 53)" using assms(2) by (simp only: of_int_le_iff)
    also have "\<dots> < 2 ^ 1024" by simp
    finally show ?thesis .
  qed
  ultimately show ?thesis by (auto simp: at_most_def of_exact_def Let_def)
qed

lemma fsub_at_most: "q = PosInf \<or> is_finite q \<and> 0 \<le> fval q \<Longrightarrow> at_most 1 (fsub (Fin 1) q)"
  by (auto simp: fsub_def fadd_def intro!: of_exact_at_most)
    (auto simp: fneg_def at_most_def split: float64.splits)

lemma fmul_at_most: "at_most 1 a \<Longrightarrow> at_most 175 (fmul a (Fin 175))"
  using of_exact_at_most[of "fval a * 175" 175] by (auto simp: fmul_def at_most_def Let_def)

lemma fadd_at_most: "at_most 175 a \<Longrightarrow> at_most 255 (fadd (Fin 80) a)"
  using of_exact_at_most[of "80 + fval a" 255] by (auto simp: fadd_def at_most_def)

lemma fdiv_nonneg:
  assumes "is_finite a" and "0 \<le> fval a" and "is_finite b" and "0 < fval b"
  shows "fdiv a b = PosInf \<or> is_finite (fdiv a b) \<and> 0 \<le> fval (fdiv a b)"
proof -
  have "0 \<le> fval a / fval b" using assms by simp
  then have "0 \<le> rnd (fval a / fval b)" by (rule rnd_nonneg)
  moreover from this have "\<not> rnd (fval a / fval b) \<le> - (2 ^ 1024)"
  proof -
    have "- (2 ^ 1024) < (0::rat)" by simp
    with \<open>0 \<le> rnd (fval a / fval b)\<close> show ?thesis by (metis not_le order_less_le_trans)
  qed
  ultimately have "of_exact neg (fval a / fval b) = PosInf \<or>
      is_finite (of_exact neg (fval a / fval b)) \<and> 0 \<le> fval (of_exact neg (fval a / fval b))" for neg
    unfolding of_exact_def Let_def by (simp split: if_split)
  with assms show ?thesis by (auto simp: fdiv_def Let_def)
qed

text \<open> for every score and waiting time that is a number and not negative, however large, the colour of
  a cell is one: green and blue are between 0 and 255.\<close>

theorem colors_valid:
  assumes "is_finite x" and "0 \<le> fval x" and "worst \<in> {of_exact False (3 / 10), Fin 120}"
  shows "\<exists>n. css_color (color_level worst x) = Sprintf ''rgb(255, %d, %d)'' [IntArg n, IntArg n] \<and> 0 \<le> n \<and> n \<le> 255"
proof -
  have "\<bar>3 / 10\<bar> \<le> (1::rat)" by simp
  also have "(1::rat) \<le> 2 ^ 1023" by simp
  finally have third: "is_finite (of_exact False (3 / 10))" "fval (of_exact False (3 / 10)) = rnd (3 / 10)"
    by (rule of_exact_finite)+
  have "rnd (1 / 4) = 1 / 4" using rnd_grid[of 1 "- 2"] by (simp add: power_int_def power2_eq_square)
  then have "0 < rnd (3 / 10)" using rnd_mono[of "1 / 4" "3 / 10"] by simp
  with third have "is_finite worst \<and> 0 < fval worst" using assms(3) by auto
  then have "at_most 255 (fadd (Fin 80) (fmul (fsub (Fin 1) (fdiv x worst)) (Fin 175)))"
    using fdiv_nonneg[OF assms(1,2)] by (intro fadd_at_most fmul_at_most fsub_at_most) blast
  then have "is_finite (color_level worst x) \<and> 0 \<le> fval (color_level worst x) \<and> fval (color_level worst x) \<le> 255"
    by (auto simp: color_level_def Let_def at_most_def flt_def not_less)
  moreover from this have "\<lfloor>fval (color_level worst x)\<rfloor> \<le> 255" by (simp add: floor_le_iff)
  ultimately have "0 \<le> int_of_float (color_level worst x) \<and> int_of_float (color_level worst x) \<le> 255"
    by (simp add: int_of_float_def Let_def)
  then show ?thesis by (simp add: css_color_def)
qed

theorem colors_valid_witness:
  "\<exists>n. css_color (color_level (Fin 120) (Fin 1000000)) = Sprintf ''rgb(255, %d, %d)'' [IntArg n, IntArg n] \<and> 0 \<le> n \<and> n \<le> 255"
  by (rule colors_valid) simp_all



end
