(* ===== verification/Yagnats_Packets.thy ===== *)
theory Yagnats_Packets
  imports Auction_Prelude
begin

text \<open>
  The vendored NATS client \<open>cloudfoundry/yagnats\<close>, its wire protocol: the packets and how they are
  written (\<open>packets.go\<close>), and how the packets of a server are read (\<open>parser.go\<close>), with the regular
  expressions the parser uses.  A byte is a \<open>char\<close>, the reader is the bytes still to come; what comes
  after them is the end of the stream.
\<close>

section \<open>Regular expressions\<close>

text \<open>
  Go's \<open>regexp\<close> finds the leftmost match, and among those the one a backtracking search comes to
  first.  Repetitions are greedy and only of classes of characters.  \<open>re_match e k s\<close> matches \<open>e\<close> at
  the start of \<open>s\<close> and then \<open>k\<close> on the rest; the result are the submatches.
\<close>

datatype re =
    Class "char \<Rightarrow> bool"
  | Repeated "char \<Rightarrow> bool"
  | Seq re re
  | Optional re
  | Group nat re

type_synonym submatches = "(nat \<times> string) list"

fun re_repeated :: "(char \<Rightarrow> bool) \<Rightarrow> (string \<Rightarrow> submatches option) \<Rightarrow> string \<Rightarrow> submatches option" where
  "re_repeated P k [] = k []"
| "re_repeated P k (c # cs) =
     (if P c then (case re_repeated P k cs of Some m \<Rightarrow> Some m | None \<Rightarrow> k (c # cs)) else k (c # cs))"

fun re_match :: "re \<Rightarrow> (string \<Rightarrow> submatches option) \<Rightarrow> string \<Rightarrow> submatches option" where
  "re_match (Class P) k s = (case s of c # cs \<Rightarrow> if P c then k cs else None | [] \<Rightarrow> None)"
| "re_match (Repeated P) k s = re_repeated P k s"
| "re_match (Seq a b) k s = re_match a (re_match b k) s"
| "re_match (Optional a) k s = (case re_match a k s of Some m \<Rightarrow> Some m | None \<Rightarrow> k s)"
| "re_match (Group n a) k s = re_match a (\<lambda>r. map_option (Cons (n, take (length s - length r) s)) (k r)) s"

fun re_find :: "re \<Rightarrow> string \<Rightarrow> submatches option" where
  "re_find e [] = re_match e (\<lambda>_. Some []) []"
| "re_find e (c # cs) = (case re_match e (\<lambda>_. Some []) (c # cs) of Some m \<Rightarrow> Some m | None \<Rightarrow> re_find e cs)"

text \<open>A group that did not take part is empty.\<close>

definition submatch :: "nat \<Rightarrow> submatches \<Rightarrow> string" where
  "submatch n m = (case map_of m n of Some s \<Rightarrow> s | None \<Rightarrow> [])"

definition CR :: char where "CR = CHR 0x0D"
definition LF :: char where "LF = CHR 0x0A"
definition space :: "char \<Rightarrow> bool" where
  "space c \<longleftrightarrow> c = CHR 0x20 \<or> c = CHR 0x09 \<or> c = LF \<or> c = CHR 0x0C \<or> c = CR"
definition nonspace :: "char \<Rightarrow> bool" where "nonspace c \<longleftrightarrow> \<not> space c"
definition digit :: "char \<Rightarrow> bool" where "digit c \<longleftrightarrow> 48 \<le> (of_char c :: nat) \<and> (of_char c :: nat) \<le> 57"
definition the_char :: "char \<Rightarrow> char \<Rightarrow> bool" where "the_char d c \<longleftrightarrow> c = d"

definition some_of :: "(char \<Rightarrow> bool) \<Rightarrow> re" where "some_of P = Seq (Class P) (Repeated P)"
definition line_end :: re where "line_end = Seq (Repeated space) (Seq (Class (the_char CR)) (Class (the_char LF)))"

definition err_re :: re where
  "err_re = Seq (Repeated space) (Seq (Class (the_char CHR 0x27)) (Seq (Group 1 (Repeated (\<lambda>c. c \<noteq> LF)))
     (Seq (Class (the_char CHR 0x27)) line_end)))"

definition info_re :: re where
  "info_re = Seq (Repeated space) (Seq (Group 1 (some_of nonspace)) line_end)"

definition msg_re :: re where
  "msg_re = Seq (Repeated space) (Seq (Group 1 (some_of nonspace)) (Seq (some_of space)
     (Seq (Group 2 (some_of digit)) (Seq (some_of space)
     (Seq (Optional (Group 3 (Seq (Group 4 (some_of nonspace)) (some_of space))))
     (Seq (Group 5 (some_of digit)) line_end))))))"

section \<open>Packets\<close>

datatype nats_packet =
    PingPacket
  | PongPacket
  | InfoPacket string
  | ConnectPacket string string
  | OKPacket
  | ERRPacket string
  | SubPacket string string int
  | UnsubPacket int
  | PubPacket string string string
  | MsgPacket string int string string

text \<open>\<open>%d\<close>\<close>

fun decimal_nat :: "nat \<Rightarrow> string" where
  "decimal_nat n =
     (if n < 10 then [char_of (48 + n)] else decimal_nat (n div 10) @ [char_of (48 + n mod 10)])"

declare decimal_nat.simps [simp del]

definition decimal :: "int \<Rightarrow> string" where
  "decimal n = (if n < 0 then CHR 0x2D # decimal_nat (nat (- n)) else decimal_nat (nat n))"

text \<open>\<open>json.Marshal\<close> of a string (of UTF-8; other bytes are replaced by Go).\<close>

definition hex_digit :: "nat \<Rightarrow> char" where
  "hex_digit n = char_of (if n < 10 then 48 + n else 87 + n)"

definition json_char :: "char \<Rightarrow> string" where
  "json_char c =
     (if c = CHR 0x5C \<or> c = CHR 0x22 then [CHR 0x5C, c]
      else if c = LF then [CHR 0x5C, CHR ''n'']
      else if c = CR then [CHR 0x5C, CHR ''r'']
      else let n = of_char c in
        if n < 32 \<or> c = CHR ''<'' \<or> c = CHR ''>'' \<or> c = CHR 0x26
        then [CHR 0x5C, CHR ''u'', CHR ''0'', CHR ''0'', hex_digit (n div 16), hex_digit (n mod 16)] else [c])"

definition json_quote :: "string \<Rightarrow> string" where
  "json_quote s = CHR 0x22 # concat (map json_char s) @ [CHR 0x22]"

definition json_key :: "string \<Rightarrow> string" where "json_key k = CHR 0x22 # k @ [CHR 0x22, CHR 0x3A]"

definition connection_payload :: "string \<Rightarrow> string \<Rightarrow> string" where
  "connection_payload user pass =
     ''{'' @ json_key ''user'' @ json_quote user @ '','' @ json_key ''pass'' @ json_quote pass @ '','' @
     json_key ''verbose'' @ ''true,'' @ json_key ''pedantic'' @ ''true}''"

abbreviation sp :: string where "sp \<equiv> [CHR 0x20]"
abbreviation crlf :: string where "crlf \<equiv> [CR, LF]"

fun Encode :: "nats_packet \<Rightarrow> string" where
  "Encode PingPacket = ''PING'' @ crlf"
| "Encode PongPacket = ''PONG'' @ crlf"
| "Encode (InfoPacket payload) = ''INFO '' @ payload @ crlf"
| "Encode (ConnectPacket user pass) = ''CONNECT '' @ connection_payload user pass @ crlf"
| "Encode OKPacket = ''+OK'' @ crlf"
| "Encode (ERRPacket message) = ''-ERR '' @ [CHR 0x27] @ message @ [CHR 0x27] @ crlf"
| "Encode (SubPacket subject queue sid) =
     (if queue \<noteq> [] then ''SUB '' @ subject @ sp @ queue @ sp @ decimal sid @ crlf
      else ''SUB '' @ subject @ sp @ decimal sid @ crlf)"
| "Encode (UnsubPacket sid) = ''UNSUB '' @ decimal sid @ crlf"
| "Encode (PubPacket subject reply payload) =
     (if reply \<noteq> []
      then ''PUB '' @ subject @ sp @ reply @ sp @ decimal (int (length payload)) @ crlf @ payload @ crlf
      else ''PUB '' @ subject @ sp @ decimal (int (length payload)) @ crlf @ payload @ crlf)"
| "Encode (MsgPacket subject sid reply payload) =
     (if reply \<noteq> []
      then ''MSG '' @ subject @ sp @ decimal sid @ sp @ reply @ sp @ decimal (int (length payload)) @ crlf @ payload @ crlf
      else ''MSG '' @ subject @ sp @ decimal sid @ sp @ decimal (int (length payload)) @ crlf @ payload @ crlf)"

section \<open>Parser\<close>

datatype parse_error = EOF | UnknownHeader string | Malformed string

text \<open>\<open>ReadBytes('\n')\<close>, whose error is dropped: the line with its end, or what is left.\<close>

fun read_line :: "string \<Rightarrow> string \<times> string" where
  "read_line [] = ([], [])"
| "read_line (c # cs) = (if c = LF then ([c], cs) else let (l, r) = read_line cs in (c # l, r))"

fun readWord :: "string \<Rightarrow> (string \<times> string) option" where
  "readWord [] = None"
| "readWord (c # cs) =
     (if c = CHR 0x20 \<or> c = CHR 0x09 \<or> c = CR \<or> c = LF then Some ([], cs)
      else map_option (\<lambda>(w, r). (c # w, r)) (readWord cs))"

text \<open>\<open>strconv.ParseInt\<close> of digits, at 64 bits: the error of a number too large is dropped, its value is
  the largest.\<close>

definition digits_value :: "string \<Rightarrow> nat" where
  "digits_value ds = fold (\<lambda>d n. 10 * n + (of_char d - 48)) ds 0"

definition ParseInt :: "string \<Rightarrow> int" where
  "ParseInt ds = min (int (digits_value ds)) (2 ^ 63 - 1)"

text \<open>A slice of more than \<open>max_slice\<close> bytes cannot be made; the runtime has such a limit.\<close>

definition readNBytes :: "nat \<Rightarrow> int \<Rightarrow> string \<Rightarrow> (parse_error + string \<times> string) outcome" where
  "readNBytes max_slice n s =
     (if n < 0 \<or> int max_slice < n then Panic MakeSliceLenOutOfRange
      else if int (length s) < n then Ret (Inl EOF)
      else Ret (Inr (take (nat n) s, drop (nat n) s)))"

definition parse_err :: "string \<Rightarrow> (parse_error + nats_packet \<times> string) outcome" where
  "parse_err s =
     (let (bytes, rest) = read_line s
      in case re_find err_re bytes of
           None \<Rightarrow> Ret (Inl (Malformed ''-ERR''))
         | Some m \<Rightarrow> Ret (Inr (ERRPacket (submatch 1 m), rest)))"

definition parse_info :: "string \<Rightarrow> (parse_error + nats_packet \<times> string) outcome" where
  "parse_info s =
     (let (bytes, rest) = read_line s
      in case re_find info_re bytes of
           None \<Rightarrow> Ret (Inl (Malformed ''INFO''))
         | Some m \<Rightarrow> Ret (Inr (InfoPacket (submatch 1 m), rest)))"

definition parse_msg :: "nat \<Rightarrow> string \<Rightarrow> (parse_error + nats_packet \<times> string) outcome" where
  "parse_msg max_slice s =
     (let (bytes, rest) = read_line s
      in case re_find msg_re bytes of
           None \<Rightarrow> Ret (Inl (Malformed ''MSG''))
         | Some m \<Rightarrow>
             obind (readNBytes max_slice (ParseInt (submatch 5 m)) rest) (\<lambda>r.
             case r of
               Inl e \<Rightarrow> Ret (Inl e)
             | Inr (payload, rest1) \<Rightarrow>
                 Ret (Inr (MsgPacket (submatch 1 m) (ParseInt (submatch 2 m)) (submatch 4 m) payload,
                   snd (read_line rest1)))))"

definition Parse :: "nat \<Rightarrow> string \<Rightarrow> (parse_error + nats_packet \<times> string) outcome" where
  "Parse max_slice s =
     (case readWord s of
        None \<Rightarrow> Ret (Inl EOF)
      | Some (header, rest) \<Rightarrow>
          if header = ''PING'' then Ret (Inr (PingPacket, snd (read_line rest)))
          else if header = ''PONG'' then Ret (Inr (PongPacket, snd (read_line rest)))
          else if header = ''+OK'' then Ret (Inr (OKPacket, snd (read_line rest)))
          else if header = ''-ERR'' then parse_err rest
          else if header = ''INFO'' then parse_info rest
          else if header = ''MSG'' then parse_msg max_slice rest
          else Ret (Inl (UnknownHeader header)))"


section \<open>Matching\<close>

text \<open>A greedy repetition takes all it can when what follows matches there.\<close>

definition stops :: "(char \<Rightarrow> bool) \<Rightarrow> string \<Rightarrow> bool" where
  "stops P s \<longleftrightarrow> (case s of [] \<Rightarrow> True | c # _ \<Rightarrow> \<not> P c)"

lemma stops_simps [simp]: "stops P []" "stops P (c # cs) \<longleftrightarrow> \<not> P c"
  by (simp_all add: stops_def)

lemma re_repeated_stop: "stops P s \<Longrightarrow> re_repeated P k s = k s"
  by (cases s) simp_all

lemma re_repeated_max:
  "list_all P xs \<Longrightarrow> stops P s \<Longrightarrow> k s = Some m \<Longrightarrow> re_repeated P k (xs @ s) = Some m"
  by (induction xs) (simp_all add: re_repeated_stop)

lemma some_of_max:
  "xs \<noteq> [] \<Longrightarrow> list_all P xs \<Longrightarrow> stops P s \<Longrightarrow> k s = Some m \<Longrightarrow> re_match (some_of P) k (xs @ s) = Some m"
  by (cases xs) (simp_all add: some_of_def re_repeated_max)

lemma re_repeated_run:
  "list_all P xs \<Longrightarrow> re_repeated P k s = Some m \<Longrightarrow> re_repeated P k (xs @ s) = Some m"
  by (induction xs) simp_all

lemma re_match_Seq: "re_match (Seq a b) k = re_match a (re_match b k)"
  by (rule ext) simp

text \<open>It fails when what follows matches after no part of what it takes.\<close>

lemma re_repeated_None:
  "list_all P xs \<Longrightarrow> stops P s \<Longrightarrow> (\<And>ys zs. xs = ys @ zs \<Longrightarrow> k (zs @ s) = None) \<Longrightarrow>
    re_repeated P k (xs @ s) = None"
proof (induction xs)
  case (Cons x xs)
  from Cons.prems(3) have "re_repeated P k (xs @ s) = None"
    by (intro Cons.IH) (use Cons.prems in \<open>auto intro: Cons.prems(3)[of "x # _"]\<close>)
  with Cons.prems(1) Cons.prems(3)[of "[]"] show ?case by simp
qed (use re_repeated_stop in \<open>simp\<close>)

lemma some_of_None:
  assumes "list_all P xs" and "stops P s" and "\<And>ys zs. xs = ys @ zs \<Longrightarrow> ys \<noteq> [] \<Longrightarrow> k (zs @ s) = None"
  shows "re_match (some_of P) k (xs @ s) = None"
proof (cases xs)
  case Nil
  with assms(2) show ?thesis by (cases s) (simp_all add: some_of_def)
next
  case (Cons x ys)
  have "re_repeated P k (ys @ s) = None"
    by (rule re_repeated_None) (use assms Cons in \<open>auto intro: assms(3)[of "x # _"]\<close>)
  with assms(1) Cons show ?thesis by (simp add: some_of_def)
qed

lemma Group_max:
  assumes "re_match a (\<lambda>r. map_option (Cons (n, take (length (xs @ s) - length r) (xs @ s))) (k r)) (xs @ s) = m"
  shows "re_match (Group n a) k (xs @ s) = m"
  using assms by simp

lemma Group_some_of:
  assumes "xs \<noteq> []" and "list_all P xs" and "stops P s" and "k s = Some m"
  shows "re_match (Group n (some_of P)) k (xs @ s) = Some ((n, xs) # m)"
proof -
  have "re_match (some_of P) (\<lambda>r. map_option (Cons (n, take (length (xs @ s) - length r) (xs @ s))) (k r)) (xs @ s) =
      Some ((n, xs) # m)"
    by (rule some_of_max) (use assms in simp_all)
  then show ?thesis by simp
qed

lemma Group_None: "(\<And>k'. (\<And>r. k r = None \<longrightarrow> k' r = None) \<Longrightarrow> re_match a k' s = None) \<Longrightarrow> re_match (Group n a) k s = None"
  by simp

lemma space_simps [simp]: "space CR" "space LF" "space CHR 0x20"
  by (simp_all add: space_def CR_def LF_def)

lemma line_end_match: "re_match line_end (\<lambda>_. Some []) [CR, LF] = Some []"
  by (simp add: line_end_def the_char_def space_def CR_def LF_def)

lemma re_find_at_start: "re_match e (\<lambda>_. Some []) s = Some m \<Longrightarrow> re_find e s = Some m"
  by (cases s) simp_all

section \<open>Numbers\<close>

lemma digit_char: "n < 10 \<Longrightarrow> of_char (char_of (48 + n :: nat) :: char) = 48 + n"
  by (simp add: of_char_of)

lemma digit_last: "digit (char_of (48 + n mod 10 :: nat))"
proof -
  have "n mod 10 < 10" by simp
  then show ?thesis by (simp add: digit_def of_char_of)
qed

lemma decimal_nat_digits: "list_all digit (decimal_nat n)"
proof (induction n rule: decimal_nat.induct)
  case (1 n)
  show ?case
  proof (cases "n < 10")
    case True
    with digit_last[of n] show ?thesis by (subst decimal_nat.simps) simp
  next
    case False
    with 1 digit_last[of n] show ?thesis by (subst decimal_nat.simps) simp
  qed
qed

lemma decimal_nat_not_Nil [simp]: "decimal_nat n \<noteq> []"
  by (subst decimal_nat.simps) simp

lemma digits_value_snoc: "digits_value (ds @ [d]) = 10 * digits_value ds + (of_char d - 48)"
  by (simp add: digits_value_def)

lemma digits_value_decimal: "digits_value (decimal_nat n) = n"
proof (induction n rule: decimal_nat.induct)
  case (1 n)
  then show ?case
    by (subst decimal_nat.simps) (auto simp: digits_value_snoc of_char_of digits_value_def)
qed

lemma ParseInt_decimal: "0 \<le> n \<Longrightarrow> n < 2 ^ 63 \<Longrightarrow> ParseInt (decimal n) = n"
  by (simp add: ParseInt_def decimal_def digits_value_decimal)

lemma decimal_digits: "0 \<le> n \<Longrightarrow> list_all digit (decimal n) \<and> decimal n \<noteq> []"
  by (simp add: decimal_def decimal_nat_digits)


section \<open>What is written is read\<close>

definition word :: "string \<Rightarrow> bool" where
  "word s \<longleftrightarrow> s \<noteq> [] \<and> list_all nonspace s"

definition number :: "string \<Rightarrow> bool" where
  "number s \<longleftrightarrow> s \<noteq> [] \<and> list_all digit s"

lemma digit_nonspace: "digit c \<Longrightarrow> nonspace c"
  by (auto simp: digit_def nonspace_def space_def CR_def LF_def)

lemma stops_space_number: "number s \<Longrightarrow> stops space (s @ r)"
  by (cases s) (auto simp: number_def nonspace_def dest: digit_nonspace)

lemma stops_space_word: "word s \<Longrightarrow> stops space (s @ r)"
  by (cases s) (auto simp: word_def nonspace_def)

lemma not_digit_simps [simp]: "\<not> digit CR" "\<not> digit LF" "\<not> digit CHR 0x20"
  by (simp_all add: digit_def CR_def LF_def)

lemma not_nonspace_simps [simp]: "\<not> nonspace CR" "\<not> nonspace LF" "\<not> nonspace CHR 0x20"
  by (simp_all add: nonspace_def)

abbreviation "msg_tail \<equiv> Seq (Group 5 (some_of digit)) line_end"
abbreviation "msg_reply \<equiv> Group 3 (Seq (Group 4 (some_of nonspace)) (some_of space))"

lemma msg_tail_match:
  "number len \<Longrightarrow> re_match msg_tail (\<lambda>_. Some []) (len @ crlf) = Some [(5, len)]"
  using Group_some_of[of len digit crlf "re_match line_end (\<lambda>_. Some [])" "[]" 5]
  by (simp add: number_def line_end_match del: re_match.simps(5))

lemma msg_tail_crlf: "re_match msg_tail k [] = None" "re_match msg_tail k [LF] = None" "re_match msg_tail k [CR, LF] = None"
  by (simp_all add: some_of_def)

lemma msg_reply_match:
  assumes "word reply" and "number len"
  shows "\<exists>x. re_match (Optional msg_reply) (re_match msg_tail (\<lambda>_. Some [])) (reply @ sp @ len @ crlf) =
    Some [(4, reply), (3, x), (5, len)]"
proof -
  let ?s = "reply @ sp @ len @ crlf"
  let ?k3 = "\<lambda>r. map_option (Cons (3, take (length ?s - length r) ?s)) (re_match msg_tail (\<lambda>_. Some []) r)"
  have "re_match (some_of space) ?k3 (sp @ len @ crlf) = Some [(3, take (length ?s - length (len @ crlf)) ?s), (5, len)]"
    by (rule some_of_max) (use stops_space_number[OF assms(2)] in \<open>simp_all add: msg_tail_match[OF assms(2), simplified]\<close>)
  then have "re_match (Group 4 (some_of nonspace)) (re_match (some_of space) ?k3) ?s =
      Some ((4, reply) # [(3, take (length ?s - length (len @ crlf)) ?s), (5, len)])"
    by (intro Group_some_of) (use assms(1) in \<open>simp_all add: word_def\<close>)
  then show ?thesis by (simp del: re_match.simps(5) add: re_match.simps(5)[of 3])
qed

lemma msg_no_reply_match:
  assumes "number len"
  shows "re_match (Optional msg_reply) (re_match msg_tail (\<lambda>_. Some [])) (len @ crlf) = Some [(5, len)]"
proof -
  let ?s = "len @ crlf"
  let ?k3 = "\<lambda>r. map_option (Cons (3, take (length ?s - length r) ?s)) (re_match msg_tail (\<lambda>_. Some []) r)"
  have "re_match (some_of space) ?k3 (zs @ crlf) = None" if "list_all digit zs" for zs
  proof (cases zs)
    case Nil
    have "?k3 (ws @ []) = None" if "crlf = vs @ ws" "vs \<noteq> []" for vs ws
      using that msg_tail_crlf(1,2) by (auto simp: Cons_eq_append_conv)
    then have "re_match (some_of space) ?k3 (crlf @ []) = None" by (intro some_of_None) auto
    with Nil show ?thesis by simp
  next
    case (Cons z zs)
    with that digit_nonspace[of z] show ?thesis by (simp add: some_of_def nonspace_def)
  qed
  then have "re_match (some_of nonspace) (\<lambda>r. map_option (Cons (4, take (length ?s - length r) ?s)) (re_match (some_of space) ?k3 r)) (len @ crlf) = None"
    using assms by (intro some_of_None) (auto simp: number_def list_all_append digit_nonspace list_all_iff)
  then have "re_match msg_reply (re_match msg_tail (\<lambda>_. Some [])) ?s = None" by simp
  with msg_tail_match[OF assms] show ?thesis by simp
qed

lemma msg_match:
  assumes "word subject" and "number sid" and "number len" and "reply = [] \<or> word reply"
  shows "\<exists>m. re_find msg_re (subject @ sp @ sid @ sp @ (if reply = [] then [] else reply @ sp) @ len @ crlf) = Some m \<and>
    submatch 1 m = subject \<and> submatch 2 m = sid \<and> submatch 4 m = reply \<and> submatch 5 m = len"
proof -
  let ?tail = "(if reply = [] then [] else reply @ sp) @ len @ crlf"
  let ?k2 = "re_match (Optional msg_reply) (re_match msg_tail (\<lambda>_. Some []))"
  obtain m where m: "?k2 ?tail = Some m" "submatch 4 m = reply" "submatch 5 m = len"
    using assms(3,4) msg_reply_match[of reply len] msg_no_reply_match[of len]
    by (cases "reply = []") (auto simp: submatch_def simp del: re_match.simps)
  have m12: "map_of m 1 = None" "map_of m 2 = None"
    using m(1) assms(3,4) msg_reply_match[of reply len] msg_no_reply_match[of len]
    by (cases "reply = []"; auto simp del: re_match.simps)+
  have "stops space ?tail" using assms(3,4) stops_space_number stops_space_word by auto
  then have "re_match (some_of space) ?k2 (sp @ ?tail) = Some m"
    by (intro some_of_max) (use m(1) in \<open>simp_all del: re_match.simps\<close>)
  then have "re_match (Group 2 (some_of digit)) (re_match (some_of space) ?k2) (sid @ sp @ ?tail) = Some ((2, sid) # m)"
    by (intro Group_some_of) (use assms(2) in \<open>simp_all add: number_def del: re_match.simps\<close>)
  then have "re_match (some_of space) (re_match (Group 2 (some_of digit)) (re_match (some_of space) ?k2)) (sp @ sid @ sp @ ?tail) =
      Some ((2, sid) # m)"
    by (intro some_of_max) (use stops_space_number[OF assms(2)] in \<open>simp_all del: re_match.simps\<close>)
  then have "re_match (Group 1 (some_of nonspace)) (re_match (some_of space) (re_match (Group 2 (some_of digit)) (re_match (some_of space) ?k2)))
      (subject @ sp @ sid @ sp @ ?tail) = Some ((1, subject) # (2, sid) # m)"
    by (intro Group_some_of) (use assms(1) in \<open>simp_all add: word_def del: re_match.simps\<close>)
  then have "re_match msg_re (\<lambda>_. Some []) (subject @ sp @ sid @ sp @ ?tail) = Some ((1, subject) # (2, sid) # m)"
    using stops_space_word[OF assms(1), of "sp @ sid @ sp @ ?tail"]
    by (simp only: msg_re_def re_match.simps(2) re_match_Seq re_repeated_stop)
  then have "re_find msg_re (subject @ sp @ sid @ sp @ ?tail) = Some ((1, subject) # (2, sid) # m)"
    by (rule re_find_at_start)
  with m show ?thesis by (auto simp: submatch_def)
qed


lemma read_line_line: "LF \<notin> set s \<Longrightarrow> read_line (s @ LF # r) = (s @ [LF], r)"
  by (induction s) auto

lemma read_line_crlf: "LF \<notin> set s \<Longrightarrow> read_line (s @ crlf @ r) = (s @ crlf, r)"
  using read_line_line[of "s @ [CR]" r] by (simp add: CR_def LF_def)

lemma err_match:
  assumes "LF \<notin> set message"
  shows "re_find err_re ([CHR 0x27] @ message @ [CHR 0x27] @ crlf) = Some [(1, message)]"
proof -
  let ?closing = "Seq (Class (the_char CHR 0x27)) line_end" and ?s = "message @ [CHR 0x27] @ crlf"
  have not_quote: "\<not> the_char CHR 0x27 CR" "\<not> the_char CHR 0x27 LF" by (simp_all add: the_char_def CR_def LF_def)
  let ?k = "\<lambda>r. map_option (Cons (1, take (length ?s - length r) ?s)) (re_match ?closing (\<lambda>_. Some []) r)"
  have k: "?k ([CHR 0x27] @ crlf) = Some [(1, message)]"
    using line_end_match by (simp add: the_char_def)
  have "re_repeated (\<lambda>c. c \<noteq> LF) ?k crlf = None"
    using not_quote by (simp add: CR_def[symmetric])
  moreover have "CR \<noteq> LF" "CHR 0x27 \<noteq> LF" by (simp_all add: CR_def LF_def)
  ultimately have "re_repeated (\<lambda>c. c \<noteq> LF) ?k ([CHR 0x27] @ crlf) = Some [(1, message)]"
    using k by simp
  then have "re_repeated (\<lambda>c. c \<noteq> LF) ?k ?s = Some [(1, message)]"
    by (rule re_repeated_run[rotated]) (use assms in \<open>auto simp: list_all_iff\<close>)
  then have "re_match err_re (\<lambda>_. Some []) ([CHR 0x27] @ ?s) = Some [(1, message)]"
    by (simp add: err_re_def the_char_def space_def CR_def LF_def)
  from re_find_at_start[OF this] show ?thesis by simp
qed

lemma info_match:
  assumes "word payload"
  shows "re_find info_re (payload @ crlf) = Some [(1, payload)]"
proof -
  have "re_match (Group 1 (some_of nonspace)) (re_match line_end (\<lambda>_. Some [])) (payload @ crlf) = Some [(1, payload)]"
    by (rule Group_some_of) (use assms line_end_match in \<open>simp_all add: word_def\<close>)
  then have "re_match info_re (\<lambda>_. Some []) (payload @ crlf) = Some [(1, payload)]"
    using stops_space_word[OF assms, of crlf] by (simp only: info_re_def re_match.simps(2,3) re_repeated_stop)
  then show ?thesis by (rule re_find_at_start)
qed

text \<open>The packets a server sends, as a client can read them.\<close>

fun from_server :: "nat \<Rightarrow> nats_packet \<Rightarrow> bool" where
  "from_server limit (ERRPacket message) \<longleftrightarrow> LF \<notin> set message"
| "from_server limit (InfoPacket payload) \<longleftrightarrow> word payload"
| "from_server limit (MsgPacket subject sid reply payload) \<longleftrightarrow>
     word subject \<and> 0 \<le> sid \<and> sid < 2 ^ 63 \<and> (reply = [] \<or> word reply) \<and> length payload \<le> limit \<and> limit < 2 ^ 63"
| "from_server limit p \<longleftrightarrow> p \<in> {PingPacket, PongPacket, OKPacket}"

lemma word_no_LF: "word s \<Longrightarrow> LF \<notin> set s"
  by (auto simp: word_def list_all_iff)

lemma decimal_no_LF: "0 \<le> n \<Longrightarrow> LF \<notin> set (decimal n)"
  using decimal_digits[of n] by (auto simp: list_all_iff)

lemma parse_msg_Encode:
  assumes "from_server limit (MsgPacket subject sid reply payload)"
  shows "parse_msg limit (subject @ sp @ decimal sid @ sp @ (if reply = [] then [] else reply @ sp) @
      decimal (int (length payload)) @ crlf @ payload @ crlf @ rest) =
    Ret (Inr (MsgPacket subject sid reply payload, rest))"
proof -
  let ?len = "decimal (int (length payload))"
  let ?line = "subject @ sp @ decimal sid @ sp @ (if reply = [] then [] else reply @ sp) @ ?len"
  have n: "word subject" "number (decimal sid)" "number ?len" "reply = [] \<or> word reply"
    using assms decimal_digits[of sid] decimal_digits[of "int (length payload)"] by (simp_all add: number_def)
  have "LF \<notin> set ?line"
    using n(1,4) assms word_no_LF decimal_no_LF[of sid] decimal_no_LF[of "int (length payload)"]
    by (auto simp: LF_def)
  from read_line_crlf[OF this, of "payload @ crlf @ rest"]
  have line: "read_line (?line @ crlf @ payload @ crlf @ rest) = (?line @ crlf, payload @ crlf @ rest)" .
  obtain m where m: "re_find msg_re (?line @ crlf) = Some m" "submatch 1 m = subject" "submatch 2 m = decimal sid"
    "submatch 4 m = reply" "submatch 5 m = ?len"
    using msg_match[OF n] by auto
  have p: "ParseInt ?len = int (length payload)" "ParseInt (decimal sid) = sid"
    using assms by (simp_all add: ParseInt_decimal)
  have "snd (read_line (crlf @ rest)) = rest" by (simp add: CR_def LF_def)
  with line m p assms show ?thesis
    by (simp add: parse_msg_def readNBytes_def)
qed

lemma Parse_headers:
  "Parse limit (''PING'' @ crlf @ r) = Ret (Inr (PingPacket, r))"
  "Parse limit (''PONG'' @ crlf @ r) = Ret (Inr (PongPacket, r))"
  "Parse limit (''+OK'' @ crlf @ r) = Ret (Inr (OKPacket, r))"
  "Parse limit (''-ERR '' @ r) = parse_err r"
  "Parse limit (''INFO '' @ r) = parse_info r"
  "Parse limit (''MSG '' @ r) = parse_msg limit r"
  by (simp_all add: Parse_def CR_def LF_def)

text \<open>What a server writes the client reads: every packet of a server, with a subject and a reply
  subject of one word, a subscription id that is not negative, an error without a line feed and a
  payload that fits into memory, is parsed back exactly, whatever its payload holds and whatever
  follows it.\<close>

lemma parsed_back:
  assumes "from_server limit p"
  shows "Parse limit (Encode p @ rest) = Ret (Inr (p, rest))"
proof (cases p)
  case (ERRPacket message)
  then have "LF \<notin> set ([CHR 0x27] @ message @ [CHR 0x27])" using assms by (simp add: LF_def)
  from read_line_crlf[OF this, of rest] err_match[of message] assms ERRPacket
  have "parse_err ([CHR 0x27] @ message @ [CHR 0x27] @ crlf @ rest) = Ret (Inr (ERRPacket message, rest))"
    by (simp add: parse_err_def submatch_def)
  with ERRPacket Parse_headers(4)[of limit "[CHR 0x27] @ message @ [CHR 0x27] @ crlf @ rest"] show ?thesis by simp
next
  case (InfoPacket payload)
  then have "word payload" using assms by simp
  from read_line_crlf[OF word_no_LF[OF this], of rest] info_match[OF this]
  have "parse_info (payload @ crlf @ rest) = Ret (Inr (InfoPacket payload, rest))"
    by (simp add: parse_info_def submatch_def)
  with InfoPacket Parse_headers(5)[of limit "payload @ crlf @ rest"] show ?thesis by simp
next
  case (MsgPacket subject sid reply payload)
  then have "from_server limit (MsgPacket subject sid reply payload)" using assms by simp
  from parse_msg_Encode[OF this, of rest]
    Parse_headers(6)[of limit "subject @ sp @ decimal sid @ sp @ (if reply = [] then [] else reply @ sp) @
      decimal (int (length payload)) @ crlf @ payload @ crlf @ rest"]
  show ?thesis using MsgPacket by (cases "reply = []") simp_all
qed (use assms Parse_headers(1-3)[of limit rest] in simp_all)

section \<open>Streams\<close>

lemma read_line_length: "length (snd (read_line s)) \<le> length s"
  by (induction s) (auto simp: split_beta)

lemma readWord_length: "readWord s = Some (w, r) \<Longrightarrow> length r < length s"
  by (induction s arbitrary: w) (auto split: if_splits)

lemma readNBytes_length: "readNBytes limit n s = Ret (Inr (payload, r)) \<Longrightarrow> length r \<le> length s"
  by (auto simp: readNBytes_def split: if_splits)

lemma parse_msg_length: "parse_msg limit s = Ret (Inr (p, r)) \<Longrightarrow> length r \<le> length s"
proof -
  assume p: "parse_msg limit s = Ret (Inr (p, r))"
  obtain bytes rest where l: "read_line s = (bytes, rest)" by fastforce
  with p obtain m where m: "re_find msg_re bytes = Some m" by (cases "re_find msg_re bytes") (auto simp: parse_msg_def)
  with p l obtain x where x: "readNBytes limit (ParseInt (submatch 5 m)) rest = Ret x"
    by (cases "readNBytes limit (ParseInt (submatch 5 m)) rest") (auto simp: parse_msg_def)
  with p l m obtain payload rest1 where "x = Inr (payload, rest1)" "r = snd (read_line rest1)"
    by (cases x) (auto simp: parse_msg_def)
  with x l readNBytes_length[of limit _ rest payload rest1] read_line_length[of rest1] read_line_length[of s]
  show ?thesis by fastforce
qed

lemma Parse_length: "Parse limit s = Ret (Inr (p, r)) \<Longrightarrow> length r < length s"
proof -
  assume p: "Parse limit s = Ret (Inr (p, r))"
  then obtain header rest where h: "readWord s = Some (header, rest)"
    by (cases "readWord s") (auto simp: Parse_def)
  have "length r \<le> length rest"
    using p h read_line_length[of rest] parse_msg_length[of limit rest p r]
    by (auto simp: Parse_def parse_err_def parse_info_def split_beta split: if_splits option.splits)
  with readWord_length[OF h] show ?thesis by simp
qed

text \<open>\<open>receivePackets\<close> parses packet after packet until there is an error.\<close>

function read_packets :: "nat \<Rightarrow> string \<Rightarrow> nats_packet list \<times> parse_error outcome" where
  "read_packets limit s =
     (case Parse limit s of
        Panic e \<Rightarrow> ([], Panic e)
      | Ret (Inl e) \<Rightarrow> ([], Ret e)
      | Ret (Inr (p, rest)) \<Rightarrow> (let (ps, e) = read_packets limit rest in (p # ps, e)))"
  by pat_completeness auto
termination by (relation "measure (\<lambda>(limit, s). length s)") (auto dest: Parse_length)

declare read_packets.simps [simp del]



text \<open> a server ends the process of a client with one line: a message whose length is larger than what
  can be allocated, also one that does not fit 64 bits, makes the reader panic.\<close>

theorem huge_message_panics:
  assumes "word subject" and "number sid" and "number len" and "limit < 2 ^ 63 - 1" and "limit < digits_value len"
  shows "Parse limit (''MSG '' @ subject @ sp @ sid @ sp @ len @ crlf @ rest) = Panic MakeSliceLenOutOfRange"
proof -
  let ?line = "subject @ sp @ sid @ sp @ len"
  have no: "LF \<notin> set s" if "number s" for s using that by (auto simp: number_def list_all_iff)
  have "LF \<notin> set ?line" using assms(1-3) word_no_LF no by (auto simp: LF_def)
  from read_line_crlf[OF this, of rest] have line: "read_line (?line @ crlf @ rest) = (?line @ crlf, rest)" .
  obtain m where m: "re_find msg_re (?line @ crlf) = Some m" "submatch 5 m = len"
    using msg_match[OF assms(1-3), of "[]"] by auto
  have "int limit < ParseInt len" using assms(4,5) by (simp add: ParseInt_def)
  with line m have "parse_msg limit (?line @ crlf @ rest) = Panic MakeSliceLenOutOfRange"
    by (simp add: parse_msg_def readNBytes_def)
  with Parse_headers(6)[of limit "?line @ crlf @ rest"] show ?thesis by simp
qed

theorem huge_message_panics_witness:
  "Parse 1000 (''MSG '' @ ''a'' @ sp @ ''1'' @ sp @ ''99999999999999999999'' @ crlf @ []) = Panic MakeSliceLenOutOfRange"
  by (rule huge_message_panics)
    (simp_all add: word_def number_def nonspace_def space_def CR_def LF_def digit_def digits_value_def)

end
