(* ===== verification/Yagnats_Client.thy ===== *)
theory Yagnats_Client
  imports Yagnats_Packets
begin

text \<open>
  The vendored NATS client \<open>cloudfoundry/yagnats\<close>, its connection and its calls (\<open>connection.go\<close>,
  \<open>client.go\<close>).  Any number of goroutines call; each writes its packet and then waits for an answer
  from the channels \<open>oks\<close> and \<open>errs\<close> of the connection, which one reader fills.  The steps are a
  relation on the state of the current connection.
\<close>

section \<open>State\<close>

datatype nats_call =
    Publish string string
  | PublishWithReplyTo string string string
  | Subscribe string string
  | Unsubscribe int

text \<open>
  \<open>pending\<close>: the calls that wait in \<open>ErrOrOK\<close>, with their callers and the ids of new subscriptions.
  \<open>errs\<close> has room for one error; \<open>oks\<close> has none, so an \<open>+OK\<close> stays unread until a call waits.
  \<open>callbacks\<close>: the callbacks started, with subscription, subject, reply subject and payload.
\<close>

record nats_conn =
  live :: bool
  subscriptions :: "(int \<times> string \<times> string) list"
  subscriptionCounter :: int
  written :: "nats_packet list"
  arriving :: "nats_packet list"
  errs :: "string list"
  pending :: "(nat \<times> nats_call \<times> int) list"
  returned :: "(nat \<times> int \<times> go_error) list"
  callbacks :: "(int \<times> string \<times> string \<times> string) list"

text \<open>\<open>Subscribe\<close> registers before it asks, \<open>Unsubscribe\<close> removes before it is answered.\<close>

definition begin_call :: "nat \<Rightarrow> nats_call \<Rightarrow> nats_conn \<Rightarrow> nats_conn" where
  "begin_call c call s =
     (case call of
        Publish subject payload \<Rightarrow>
          s\<lparr>written := written s @ [PubPacket subject [] payload], pending := pending s @ [(c, call, 0)]\<rparr>
      | PublishWithReplyTo subject reply payload \<Rightarrow>
          s\<lparr>written := written s @ [PubPacket subject reply payload], pending := pending s @ [(c, call, 0)]\<rparr>
      | Subscribe subject queue \<Rightarrow>
          (let sid = subscriptionCounter s + 1
           in s\<lparr>subscriptions := subscriptions s @ [(sid, subject, queue)], subscriptionCounter := sid,
                written := written s @ [SubPacket subject queue sid], pending := pending s @ [(c, call, sid)]\<rparr>)
      | Unsubscribe sid \<Rightarrow>
          s\<lparr>subscriptions := filter (\<lambda>(i, _). i \<noteq> sid) (subscriptions s),
            written := written s @ [UnsubPacket sid], pending := pending s @ [(c, call, 0)]\<rparr>)"

text \<open>What the call returns; only \<open>Subscribe\<close> returns an id.\<close>

definition call_result :: "nats_call \<Rightarrow> int \<Rightarrow> go_error \<Rightarrow> int \<times> go_error" where
  "call_result call sid err =
     (case call of Subscribe _ _ \<Rightarrow> (if err = None then sid else -1, err) | _ \<Rightarrow> (0, err))"

definition dispatchMessage :: "string \<Rightarrow> int \<Rightarrow> string \<Rightarrow> string \<Rightarrow> nats_conn \<Rightarrow> nats_conn" where
  "dispatchMessage subject sid reply payload s =
     (case map_of (subscriptions s) sid of
        None \<Rightarrow> s
      | Some _ \<Rightarrow> s\<lparr>callbacks := callbacks s @ [(sid, subject, reply, payload)]\<rparr>)"

section \<open>Steps\<close>

inductive reader_step :: "nats_conn \<Rightarrow> nats_conn \<Rightarrow> bool" where
  ping: "live s \<Longrightarrow> arriving s = PingPacket # ps \<Longrightarrow>
    reader_step s (s\<lparr>arriving := ps, written := written s @ [PongPacket]\<rparr>)"
| pong: "live s \<Longrightarrow> arriving s = PongPacket # ps \<Longrightarrow> reader_step s (s\<lparr>arriving := ps\<rparr>)"
| info: "live s \<Longrightarrow> arriving s = InfoPacket payload # ps \<Longrightarrow> reader_step s (s\<lparr>arriving := ps\<rparr>)"
| msg: "live s \<Longrightarrow> arriving s = MsgPacket subject sid reply payload # ps \<Longrightarrow>
    reader_step s (dispatchMessage subject sid reply payload (s\<lparr>arriving := ps\<rparr>))"
| ok: "live s \<Longrightarrow> arriving s = OKPacket # ps \<Longrightarrow> pending s = xs @ (c, call, sid) # ys \<Longrightarrow>
    reader_step s (s\<lparr>arriving := ps, pending := xs @ ys, returned := returned s @ [(c, call_result call sid None)]\<rparr>)"
| err: "live s \<Longrightarrow> arriving s = ERRPacket message # ps \<Longrightarrow> errs s = [] \<Longrightarrow>
    reader_step s (s\<lparr>arriving := ps, errs := [message]\<rparr>)"
| take_err: "errs s = e # es \<Longrightarrow> pending s = xs @ (c, call, sid) # ys \<Longrightarrow>
    reader_step s (s\<lparr>errs := es, pending := xs @ ys, returned := returned s @ [(c, call_result call sid (Some e))]\<rparr>)"

inductive_cases reader_stepE: "reader_step s t"

text \<open>Calls begin while the connection is served; packets arrive; the connection is lost, and the reader
  leaves one more error behind, which it holds until there is room in the channel.\<close>

inductive nats_step :: "nats_conn \<Rightarrow> nats_conn \<Rightarrow> bool" where
  call: "live s \<Longrightarrow> c \<notin> fst ` set (pending s) \<Longrightarrow> nats_step s (begin_call c call s)"
| read: "reader_step s t \<Longrightarrow> nats_step s t"
| arrive: "live s \<Longrightarrow> nats_step s (s\<lparr>arriving := arriving s @ [p]\<rparr>)"
| lose: "live s \<Longrightarrow> arriving s = [] \<Longrightarrow>
    nats_step s (s\<lparr>live := False, errs := errs s @ [''disconnected'']\<rparr>)"

definition connected :: "string \<Rightarrow> string \<Rightarrow> nats_conn" where
  "connected user pass =
     \<lparr>live = True, subscriptions = [], subscriptionCounter = 0, written = [ConnectPacket user pass],
      arriving = [], errs = [], pending = [], returned = [], callbacks = []\<rparr>"

text \<open>\<open>resubscribe\<close> on a new connection: the packets in the order of a range over the map, each answered
  before the next is sent, until one is refused.\<close>

fun resubscribe :: "(int \<times> string \<times> string) list \<Rightarrow> go_error list \<Rightarrow> nats_packet list \<times> go_error" where
  "resubscribe [] answers = ([], None)"
| "resubscribe ((sid, subject, queue) # subs) [] = ([SubPacket subject queue sid], None)"
| "resubscribe ((sid, subject, queue) # subs) (Some e # answers) = ([SubPacket subject queue sid], Some e)"
| "resubscribe ((sid, subject, queue) # subs) (None # answers) =
     (let (ps, r) = resubscribe subs answers in (SubPacket subject queue sid # ps, r))"

section \<open>A call alone\<close>

lemma one_call: "[x] = xs @ y # ys \<longleftrightarrow> xs = [] \<and> y = x \<and> ys = []"
  by (cases xs) auto

lemma four_steps: "R a b \<Longrightarrow> R b c \<Longrightarrow> R c d \<Longrightarrow> R d e \<Longrightarrow> R\<^sup>*\<^sup>* a e"
  by (blast intro: converse_rtranclp_into_rtranclp)

lemma no_step:
  assumes "\<And>u. \<not> R s u" and "(R ^^ n) s t"
  shows "n = 0 \<and> t = s"
proof (cases n)
  case (Suc k)
  with assms(2) relpowp_Suc_D2[of k R s t] assms(1) show ?thesis by auto
qed (use assms(2) in simp)

lemma reader_step_decreases:
  "reader_step s t \<Longrightarrow> 2 * length (arriving t) + length (errs t) < 2 * length (arriving s) + length (errs s)"
  by (induction rule: reader_step.induct) (auto simp: dispatchMessage_def split: option.splits)

definition quiet :: "nats_packet \<Rightarrow> bool" where
  "quiet p \<longleftrightarrow> (case p of PingPacket \<Rightarrow> True | PongPacket \<Rightarrow> True | InfoPacket _ \<Rightarrow> True | MsgPacket _ _ _ _ \<Rightarrow> True | _ \<Rightarrow> False)"

text \<open>What reading a quiet packet does.\<close>

definition read_quiet :: "nats_packet \<Rightarrow> nats_conn \<Rightarrow> nats_conn" where
  "read_quiet p s =
     (case p of
        PingPacket \<Rightarrow> s\<lparr>written := written s @ [PongPacket]\<rparr>
      | MsgPacket subject sid reply payload \<Rightarrow> dispatchMessage subject sid reply payload s
      | _ \<Rightarrow> s)"

definition callbacks_for :: "nats_conn \<Rightarrow> nats_packet list \<Rightarrow> (int \<times> string \<times> string \<times> string) list" where
  "callbacks_for s ps = concat (map (\<lambda>p. case p of
     MsgPacket subject sid reply payload \<Rightarrow>
       if sid \<in> fst ` set (subscriptions s) then [(sid, subject, reply, payload)] else []
   | _ \<Rightarrow> []) ps)"

lemma read_quiet_fields [simp]:
  "live (read_quiet p s) = live s" "arriving (read_quiet p s) = arriving s" "errs (read_quiet p s) = errs s"
  "pending (read_quiet p s) = pending s" "returned (read_quiet p s) = returned s"
  "subscriptions (read_quiet p s) = subscriptions s"
  "written (read_quiet p s) = written s @ (if p = PingPacket then [PongPacket] else [])"
  "callbacks (read_quiet p s) = callbacks s @ callbacks_for s [p]"
  by (auto simp: read_quiet_def dispatchMessage_def callbacks_for_def map_of_eq_None_iff
      split: nats_packet.splits option.splits dest!: map_of_SomeD intro: rev_image_eqI)

lemma quiet_step_iff:
  assumes "live s" and "errs s = []" and "arriving s = p # ps" and "quiet p"
  shows "reader_step s t \<longleftrightarrow> t = read_quiet p (s\<lparr>arriving := ps\<rparr>)"
proof
  assume "reader_step s t"
  then show "t = read_quiet p (s\<lparr>arriving := ps\<rparr>)"
    by cases (use assms in \<open>auto simp: read_quiet_def quiet_def dispatchMessage_def\<close>)
next
  assume "t = read_quiet p (s\<lparr>arriving := ps\<rparr>)"
  then show "reader_step s t"
    using assms reader_step.intros(1-4)[OF assms(1)]
    by (cases p) (auto simp: read_quiet_def quiet_def)
qed


lemma callbacks_for_simps [simp]: "callbacks_for s [] = []"
  by (simp add: callbacks_for_def)

lemma callbacks_for_Cons: "callbacks_for s (p # ps) = callbacks_for s [p] @ callbacks_for s ps"
  by (simp add: callbacks_for_def)

lemma callbacks_for_cong:
  assumes "subscriptions s' = subscriptions s"
  shows "callbacks_for s' ps = callbacks_for s ps"
  unfolding callbacks_for_def assms ..

text \<open>The only step there is, is the first of every run that ends.\<close>

lemma only_step:
  assumes "\<And>u. R s u \<longleftrightarrow> u = s1" and "(R ^^ n) s t" and "\<nexists>u. R t u"
  shows "\<exists>k. n = Suc k \<and> (R ^^ k) s1 t"
proof (cases n)
  case 0
  with assms show ?thesis by auto
next
  case (Suc k)
  with assms(2) relpowp_Suc_D2[of k R s t] assms(1) show ?thesis by auto
qed

definition answer_of :: "nats_packet \<Rightarrow> go_error" where
  "answer_of p = (case p of ERRPacket message \<Rightarrow> Some message | _ \<Rightarrow> None)"

lemma stuck_reader: "arriving s = [] \<Longrightarrow> errs s = [] \<or> pending s = [] \<Longrightarrow> \<not> reader_step s t"
  by (auto elim!: reader_stepE)



section \<open>Subscriptions\<close>

definition sub_ids :: "nats_packet list \<Rightarrow> int list" where
  "sub_ids ps = concat (map (\<lambda>p. case p of SubPacket _ _ sid \<Rightarrow> [sid] | _ \<Rightarrow> []) ps)"

text \<open>The packets that ask for an answer.\<close>

definition asks :: "nats_packet \<Rightarrow> bool" where
  "asks p \<longleftrightarrow> (case p of SubPacket _ _ _ \<Rightarrow> True | UnsubPacket _ \<Rightarrow> True | PubPacket _ _ _ \<Rightarrow> True | _ \<Rightarrow> False)"

definition nats_inv :: "nats_conn \<Rightarrow> bool" where
  "nats_inv s \<longleftrightarrow>
     0 \<le> subscriptionCounter s \<and> sub_ids (written s) = [1..subscriptionCounter s] \<and>
     distinct (map fst (subscriptions s)) \<and>
     (\<forall>(sid, subject, queue)\<in>set (subscriptions s). SubPacket subject queue sid \<in> set (written s)) \<and>
     fst ` set (subscriptions s) \<subseteq> {1..subscriptionCounter s} \<and>
     fst ` set (callbacks s) \<subseteq> {1..subscriptionCounter s} \<and>
     distinct (map fst (pending s)) \<and> length (errs s) \<le> (if live s then 1 else 2) \<and>
     length (filter asks (written s)) = length (returned s) + length (pending s)"

lemma sub_ids_append [simp]: "sub_ids (ps @ qs) = sub_ids ps @ sub_ids qs"
  by (simp add: sub_ids_def)

lemma sub_ids_simps [simp]:
  "sub_ids [SubPacket subject queue sid] = [sid]" "sub_ids [PubPacket subject reply payload] = []"
  "sub_ids [UnsubPacket sid] = []" "sub_ids [PongPacket] = []" "sub_ids [ConnectPacket user pass] = []"
  by (simp_all add: sub_ids_def)

lemma asks_simps [simp]:
  "asks (SubPacket subject queue sid)" "asks (PubPacket subject reply payload)" "asks (UnsubPacket sid)"
  "\<not> asks PongPacket" "\<not> asks (ConnectPacket user pass)"
  by (simp_all add: asks_def)

lemma upto_snoc: "(0::int) \<le> n \<Longrightarrow> [1..n + 1] = [1..n] @ [n + 1]"
  using upto_rec2[of 1 "n + 1"] by simp

lemma nats_inv_begin:
  assumes "nats_inv s" and "c \<notin> fst ` set (pending s)"
  shows "nats_inv (begin_call c call s)"
proof (cases call)
  case (Subscribe subject queue)
  have "subscriptionCounter s + 1 \<notin> fst ` set (subscriptions s)" using assms(1) by (auto simp: nats_inv_def)
  with assms Subscribe show ?thesis
    by (fastforce simp: nats_inv_def begin_call_def upto_snoc Let_def)
next
  case (Unsubscribe sid)
  have "distinct (map fst (filter P xs))" if "distinct (map fst xs)" for P and xs :: "(int \<times> string \<times> string) list"
    using that by (induction xs) auto
  with assms Unsubscribe show ?thesis
    by (fastforce simp: nats_inv_def begin_call_def)
qed (use assms in \<open>auto simp: nats_inv_def begin_call_def\<close>)

lemma nats_inv_dispatch:
  "nats_inv s \<Longrightarrow> nats_inv (dispatchMessage subject sid reply payload s)"
  by (auto simp: nats_inv_def dispatchMessage_def split: option.splits dest!: map_of_SomeD)

lemma nats_inv_simps [simp]:
  "nats_inv (s\<lparr>arriving := ps\<rparr>) \<longleftrightarrow> nats_inv s"
  "nats_inv (s\<lparr>arriving := ps, written := written s @ [PongPacket]\<rparr>) \<longleftrightarrow> nats_inv s"
  by (simp_all add: nats_inv_def)

lemma nats_inv_error:
  "nats_inv s \<Longrightarrow> nats_inv (s\<lparr>arriving := ps, errs := [e]\<rparr>)"
  "nats_inv s \<Longrightarrow> live s \<Longrightarrow> nats_inv (s\<lparr>live := False, errs := errs s @ [e]\<rparr>)"
  by (simp_all add: nats_inv_def)

lemma nats_inv_answer:
  assumes "nats_inv s" and "pending s = xs @ (c, call, sid) # ys" and "length es \<le> length (errs s)"
  shows "nats_inv (s\<lparr>arriving := ps, pending := xs @ ys, returned := returned s @ [r]\<rparr>)"
    and "nats_inv (s\<lparr>errs := es, pending := xs @ ys, returned := returned s @ [r]\<rparr>)"
  using assms by (simp_all add: nats_inv_def)

lemma nats_inv_reader:
  assumes "reader_step s t" and "nats_inv s"
  shows "nats_inv t"
  using assms
proof (cases rule: reader_step.cases)
  case (msg subject sid reply payload ps)
  then show ?thesis using assms(2) by (simp only: nats_inv_dispatch nats_inv_simps)
next
  case (ok ps xs c call sid ys)
  then show ?thesis using assms(2) by (simp only: nats_inv_answer(1)[where es = "[]"] list.size le0)
next
  case (take_err e es xs c call sid ys)
  then have "length es \<le> length (errs s)" by simp
  with take_err show ?thesis using assms(2) by (simp only: nats_inv_answer(2))
qed (use assms(2) in \<open>simp_all only: nats_inv_simps nats_inv_error\<close>)

lemma nats_inv_step:
  assumes "nats_step s t" and "nats_inv s"
  shows "nats_inv t"
  using assms
proof (cases rule: nats_step.cases)
  case (call c call)
  then show ?thesis using assms(2) by (simp only: nats_inv_begin not_False_eq_True)
next
  case read
  then show ?thesis using assms(2) by (rule nats_inv_reader)
qed (use assms(2) in \<open>simp_all only: nats_inv_simps nats_inv_error\<close>)

lemma nats_inv_connected: "nats_inv (connected user pass)"
  by (simp add: nats_inv_def connected_def)

lemma nats_inv_reachable: "nats_step\<^sup>*\<^sup>* (connected user pass) s \<Longrightarrow> nats_inv s"
  by (induction rule: rtranclp_induct) (auto intro: nats_inv_connected nats_inv_step)


section \<open>Several calls\<close>

text \<open>C38: two calls at a time can have each other's answers: the server refuses the first and accepts the
  second, and the second returns the error, the first none.\<close>

theorem answers_cross:
  assumes "live s" and "pending s = []" and "errs s = []" and "arriving s = []" and "c \<noteq> d"
  shows "\<exists>s1 t. nats_step\<^sup>*\<^sup>* s s1 \<and> nats_step\<^sup>*\<^sup>* s1 t \<and>
    written s1 = written s @ [PubPacket a [] x, PubPacket b [] y] \<and> arriving s1 = [ERRPacket e, OKPacket] \<and>
    pending s1 = [(c, Publish a x, 0), (d, Publish b y, 0)] \<and> returned s1 = returned s \<and>
    returned t = returned s @ [(d, 0, Some e), (c, 0, None)] \<and> pending t = [] \<and> written t = written s1"
proof -
  let ?s0 = "begin_call d (Publish b y) (begin_call c (Publish a x) s)"
  let ?s1 = "?s0\<lparr>arriving := [ERRPacket e, OKPacket]\<rparr>"
  let ?s2 = "?s1\<lparr>arriving := [OKPacket], errs := [e]\<rparr>"
  let ?s3 = "?s2\<lparr>errs := [], pending := [(c, Publish a x, 0)], returned := returned s @ [(d, 0, Some e)]\<rparr>"
  let ?t = "?s3\<lparr>arriving := [], pending := [], returned := (returned s @ [(d, 0, Some e)]) @ [(c, 0, None)]\<rparr>"
  have s0: "live ?s0" "arriving ?s0 = []" "errs ?s0 = []" "pending ?s0 = [(c, Publish a x, 0), (d, Publish b y, 0)]"
    "returned ?s0 = returned s"
    using assms by (simp_all add: begin_call_def)
  have "nats_step s (begin_call c (Publish a x) s)" using assms by (intro call) auto
  moreover have "nats_step (begin_call c (Publish a x) s) ?s0"
    using assms by (intro call) (auto simp: begin_call_def)
  moreover have "nats_step ?s0 (?s0\<lparr>arriving := [ERRPacket e]\<rparr>)"
    using arrive[of ?s0 "ERRPacket e"] s0 by simp
  moreover have "nats_step (?s0\<lparr>arriving := [ERRPacket e]\<rparr>) ?s1"
    using arrive[of "?s0\<lparr>arriving := [ERRPacket e]\<rparr>" OKPacket] s0 by simp
  ultimately have start: "nats_step\<^sup>*\<^sup>* s ?s1" by (rule four_steps)
  have "nats_step ?s1 ?s2" using err[of ?s1 e "[OKPacket]"] s0 by (intro read) simp
  moreover have "nats_step ?s2 ?s3"
    using take_err[of ?s2 e "[]" "[(c, Publish a x, 0)]" d "Publish b y" 0 "[]"] s0
    by (intro read) (simp add: call_result_def)
  moreover have "nats_step ?s3 ?t"
    using ok[of ?s3 "[]" "[]" c "Publish a x" 0 "[]"] s0 by (intro read) (simp add: call_result_def)
  ultimately have "nats_step\<^sup>*\<^sup>* ?s1 ?t" by (blast intro: converse_rtranclp_into_rtranclp)
  moreover have "written ?s1 = written s @ [PubPacket a [] x, PubPacket b [] y]" by (simp add: begin_call_def)
  ultimately show ?thesis using start s0 by (intro exI[of _ ?s1] exI[of _ ?t]) simp
qed

lemma lost_step:
  "nats_step s t \<Longrightarrow> \<not> live s \<Longrightarrow> \<not> live t \<and> length (pending s) + length (errs t) = length (pending t) + length (errs s)"
  by (induction rule: nats_step.induct) (auto elim!: reader_stepE)


text \<open> a refused subscription stays registered: it returns no id, but a reconnect asks for it again.\<close>

theorem refused_subscription_stays:
  assumes "live s" and "pending s = []" and "errs s = []" and "arriving s = []"
  shows "\<exists>t. nats_step\<^sup>*\<^sup>* s t \<and> returned t = returned s @ [(c, -1, Some e)] \<and> pending t = [] \<and>
    subscriptions t = subscriptions s @ [(subscriptionCounter s + 1, subject, queue)] \<and>
    last (fst (resubscribe (subscriptions t) (replicate (length (subscriptions t)) None))) =
      SubPacket subject queue (subscriptionCounter s + 1)"
proof -
  let ?sid = "subscriptionCounter s + 1"
  let ?s0 = "begin_call c (Subscribe subject queue) s"
  let ?s1 = "?s0\<lparr>arriving := [ERRPacket e]\<rparr>"
  let ?s2 = "?s1\<lparr>arriving := [], errs := [e]\<rparr>"
  let ?t = "?s2\<lparr>errs := [], pending := [], returned := returned s @ [(c, -1, Some e)]\<rparr>"
  have s0: "live ?s0" "arriving ?s0 = []" "errs ?s0 = []" "pending ?s0 = [(c, Subscribe subject queue, ?sid)]"
    "returned ?s0 = returned s" "subscriptions ?s0 = subscriptions s @ [(?sid, subject, queue)]"
    using assms by (simp_all add: begin_call_def Let_def)
  have "nats_step s ?s0" using assms by (intro call) auto
  moreover have "nats_step ?s0 ?s1" using arrive[of ?s0 "ERRPacket e"] s0 by simp
  moreover have "nats_step ?s1 ?s2" using err[of ?s1 e "[]"] s0 by (intro read) simp
  moreover have "nats_step ?s2 ?t"
    using take_err[of ?s2 e "[]" "[]" c "Subscribe subject queue" ?sid "[]"] s0
    by (intro read) (simp add: call_result_def)
  ultimately have "nats_step\<^sup>*\<^sup>* s ?t" by (rule four_steps)
  moreover have "fst (resubscribe subs (replicate (length subs) None)) = map (\<lambda>(sid, subject, queue). SubPacket subject queue sid) subs" for subs
    by (induction subs) (auto simp: split_beta)
  then have "last (fst (resubscribe (subscriptions ?t) (replicate (length (subscriptions ?t)) None))) =
      SubPacket subject queue ?sid"
    by (simp only:) (simp add: s0)
  ultimately show ?thesis using s0 by (intro exI[of _ ?t]) simp
qed


section \<open>Runs\<close>

definition alone :: "nats_packet list \<Rightarrow> nats_packet list \<Rightarrow> string list \<Rightarrow> (nat \<times> nats_call \<times> int) list \<Rightarrow>
    (nat \<times> int \<times> go_error) list \<Rightarrow> nats_conn" where
  "alone out inp es cs rs = \<lparr>live = True, subscriptions = [], subscriptionCounter = 0, written = out, arriving = inp,
     errs = es, pending = cs, returned = rs, callbacks = []\<rparr>"


text \<open>Two calls wait when the connection is lost.\<close>

definition two_waiting :: nats_conn where
  "two_waiting = begin_call 2 (Publish ''b'' []) (begin_call 1 (Subscribe ''a'' []) (connected ''u'' ''p''))"

definition both_lost :: nats_conn where
  "both_lost = two_waiting\<lparr>live := False, errs := [''disconnected'']\<rparr>"

definition one_returned :: nats_conn where
  "one_returned = both_lost\<lparr>errs := [], pending := [(2, Publish ''b'' [], 0)], returned := [(1, -1, Some ''disconnected'')]\<rparr>"

lemma sample_calls: "nats_step\<^sup>*\<^sup>* (connected ''u'' ''p'') two_waiting"
proof -
  have "nats_step (connected ''u'' ''p'') (begin_call 1 (Subscribe ''a'' []) (connected ''u'' ''p''))"
    by (rule call) (simp_all add: connected_def)
  moreover have "nats_step (begin_call 1 (Subscribe ''a'' []) (connected ''u'' ''p'')) two_waiting"
    unfolding two_waiting_def by (rule call) (simp_all add: connected_def begin_call_def)
  ultimately show ?thesis by (blast intro: converse_rtranclp_into_rtranclp)
qed



theorem answers_cross_witness:
  "\<exists>s1 t. nats_step\<^sup>*\<^sup>* (connected ''u'' ''p'') s1 \<and> nats_step\<^sup>*\<^sup>* s1 t \<and>
    arriving s1 = [ERRPacket ''no'', OKPacket] \<and>
    pending s1 = [(1, Publish ''a'' ''x'', 0), (2, Publish ''b'' ''y'', 0)] \<and>
    returned t = [(2, 0, Some ''no''), (1, 0, None)]"
  using answers_cross[of "connected ''u'' ''p''" 1 2 "''a''" "''x''" "''b''" "''y''" "''no''"]
  by (auto simp: connected_def)

theorem refused_subscription_stays_witness:
  "\<exists>t. nats_step\<^sup>*\<^sup>* (connected ''u'' ''p'') t \<and> returned t = [(1, -1, Some ''no'')] \<and> subscriptions t = [(1, ''a'', [])]"
  using refused_subscription_stays[of "connected ''u'' ''p''" 1 "''no''" "''a''" "[]"]
  by (auto simp: connected_def)

end
