(* ===== verification/Spec2Isabelle.thy ===== *)
theory Spec2Isabelle
  imports Auction_Winner In_Process Amqp_Buffer Amqp_Limits Amqp_Sessions Remote_Auctions Auction_Node Print_Report Yagnats_Client
begin

text \<open>
  Auctions for placing application instances on cells (\<open>github.com/onsi/auction\<close>).

  \<^bold>\<open>The program.\<close>  An auctioneer (\<open>auctioneer/\<close>) places an instance: in rounds it asks a part of
  the representatives (\<open>auctionrep/\<close>), one per cell, for scores or reservations, through a
  \<open>types.RepPoolClient\<close>; the best bid is claimed and the other reservations are released.  A
  representative scores with what its delegate reports, here the simulated cell
  (\<open>simulation/simulationrepdelegate\<close>).  Three clients reach the representatives: in the process
  (\<open>simulation/communication/inprocess\<close>), over NATS (\<open>communication/nats\<close>) and over RabbitMQ
  (\<open>communication/rabbit\<close>), over the client \<open>cloudfoundry/yagnats\<close> and the AMQP library
  \<open>streadway/amqp\<close> vendored under \<open>Godeps/_workspace/src/github.com\<close>.  A simulation hands many instances out to
  concurrent auctions (\<open>simulation/auctiondistributor\<close>), held by itself or by nodes over HTTP
  (\<open>simulation/auctioneernode\<close>), and reports on them (\<open>simulation/visualization\<close>,
  \<open>simulation/runs/collate\<close>) with the statistics vendored as \<open>GaryBoone/GoStats\<close>.

  \<^bold>\<open>The theories.\<close>
  \<^item> \<open>Auction_Prelude\<close>: outcomes (a value or a panic), indexing and slicing as Go does them.
    \<open>Go_Float64\<close>: the finite floats as rationals rounded to nearest even at 53 bits, negative zero,
    infinities and NaN.  \<open>Go_Rand\<close>: \<open>math/rand\<close> over an
    arbitrary stream of draws, reduced to the range asked for.
  \<^item> \<open>Util\<close> (\<open>util/util.go\<close>) and \<open>Types\<close> (\<open>types/*.go\<close>): guids, requests, results, the chain
    \<open>FilterErrors().Shuffle().Sort()\<close>.  \<open>sort.Sort\<close> is insertion sort there;
    \<open>ordered_bids_outcomes\<close> shows that after the shuffle no sort could be told from another.
  \<^item> \<open>Rep_Pool\<close>: the contract \<open>reserving_pool\<close> of a pool client and the abstract pool, a set of
    holders.  \<open>Auctioneer\<close> (\<open>auctioneer/*.go\<close>): the six algorithms, each the loop \<open>run_rounds\<close>
    over a round of its own.  \<open>Auction_Rounds\<close> proves in the contract how rounds and auctions end;
    \<open>Auction_Winner\<close> says, for any client at all, who wins and what panics.
  \<^item> \<open>Auction_Rep\<close> (\<open>auctionrep/auction_rep.go\<close>): representatives over any delegate that keeps
    \<open>rep_delegate\<close>, and their scores.  \<open>Sim_Delegate\<close>: the simulated cell keeps it.
  \<^item> \<open>Rep_World\<close>: the world of a client: representatives, the order in which goroutines run and
    deliver, and what other auctions do meanwhile.  \<open>In_Process\<close>: the in-process client.
  \<^item> \<open>Rep_Messages\<close>: the JSON of requests and answers.  \<open>Remote_Rep\<close>: the two servers and the fates
    of messages.  \<open>Rabbit\<close>, \<open>Nats\<close>: the two remote clients.  \<open>Remote_Auctions\<close>: auctions over
    them, when every request is answered and when not.  \<open>Example_Cells\<close>: the cells of examples.
  \<^item> \<open>Amqp_Wire\<close>, \<open>Amqp_Fields\<close>, \<open>Amqp_Types\<close>, a theory per group of classes
    (\<open>Amqp_Connection\<close>, \<open>Amqp_Channel\<close>, \<open>Amqp_Queue\<close>, \<open>Amqp_Basic\<close>, \<open>Amqp_Tx\<close>) and
    \<open>Amqp_Frames\<close>: the wire format of \<open>read.go\<close>, \<open>write.go\<close>, \<open>types.go\<close> and \<open>spec091.go\<close>, over
    lists of bytes.
  \<^item> \<open>Amqp_TagSet\<close>: \<open>container/heap\<close> over \<open>tagSet\<close>.  \<open>Amqp_State\<close>: the state of a connection with its
    channels, and a log of what leaves the client.  \<open>Amqp_Send\<close>, \<open>Amqp_Receive\<close>, \<open>Amqp_Calls\<close>:
    \<open>channel.go\<close>, \<open>connection.go\<close>, \<open>consumers.go\<close>, \<open>delivery.go\<close>, \<open>return.go\<close>, \<open>registry.go\<close> by the
    direction in which things go.  \<open>Amqp_Handshake\<close>: the handshake and \<open>auth.go\<close>.  \<open>Amqp_Buffer\<close>:
    the goroutine \<open>bufferDeliveries\<close> as a step relation.
  \<^item> \<open>Amqp_Content\<close>, \<open>Amqp_Limits\<close>, \<open>Amqp_Confirms\<close>, \<open>Amqp_Replies\<close>, \<open>Amqp_Sessions\<close>: what is shown of
    them, content across the wire, frame sizes and channel ids, confirmations, calls and shutdown,
    the handshake and what stops the reader.
  \<^item> \<open>Yagnats_Packets\<close>: the NATS protocol (\<open>packets.go\<close>, \<open>parser.go\<close>), with a matcher for the parser's
    regular expressions.  \<open>Yagnats_Client\<close> (\<open>connection.go\<close>, \<open>client.go\<close>): calls, reader and loss of
    the connection as a step relation.
  \<^item> \<open>Distributor\<close>: \<open>HoldAuctionsFor\<close>, its goroutines and their semaphore as a step relation.
    \<open>Auction_Node\<close>: auctions over HTTP, the start of both kinds of node, and reports that account
    for every instance.  \<open>Go_Stats\<close>: \<open>stats.go\<close>.  \<open>Report\<close>, \<open>Report_Card\<close>, \<open>Print_Report\<close>: the files of
    \<open>simulation/visualization\<close>, the last with \<open>collate.go\<close>; a drawing is the list of the calls of the
    SVG library, a printed text its formats with their arguments.
  \<^item> This theory: auctions over simulated cells in the process.

  \<^bold>\<open>What is shown.\<close>  Each client keeps the contract of a pool (\<open>sublocale\<close>s in \<open>In_Process\<close>,
  \<open>Rabbit\<close>, \<open>Nats\<close>), so every auction over it settles: it returns with exactly the winner holding
  the instance, or with nobody holding it and every round played; the remote clients as long as
  every request is answered, and \<open>Remote_Auctions\<close> shows how one lost or late message breaks it.
  Cells are never overcommitted, scores are ordered by instances and then by room, guids are
  unique.  Frames, field values and messages read back as they were written; malformed input is
  refused, or panics where the code does.  Over AMQP a method with its content arrives as it was
  sent, a channel in confirm mode refines a counter with a set of tags (\<open>tag_queue\<close> is the contract
  of the heap under it), shutdown closes every Go channel once, deliveries reach their consumer in
  order and all of them; and some uses never return, which is shown as such.  Over NATS a stream of
  packets comes out as it was sent, subscriptions keep their ids, a call alone gets its answer and
  calls at the same time may get each other's.  The distributor holds
  no more auctions at a time than it may, ends, and reports one result for every instance whatever
  fails on the way to a node; histograms count exactly, cards close what they open, and what makes
  a report panic is said.

  \<^bold>\<open>Modelling.\<close>  Randomness, schedules, latencies, clocks and the steps of other auctions are
  arbitrary functions in the world, read in order; a goroutine's access to a representative is one
  atomic step (the code holds the representative's lock).  Go's \<open>int\<close> is unbounded where it counts
  rounds, messages or containers; words have their width in the wire format.  Errors are values,
  panics end the computation.  The readers of nested field values take fuel; one unit more than
  there are bytes is always enough, and that is what they get.

  An AMQP connection is used by one goroutine of the application that takes turns with the reader:
  while a call waits, \<open>await\<close> lets the reader process what comes in; where the code's \<open>select\<close> finds
  both an error and a reply, the error is taken.  A run that waits for ever is \<open>None\<close>; which writes
  fail, and what comes in, is up to the peer.  Listeners receive whatever they are sent; the
  goroutine of the heartbeat is listener 0 of the connection.  Go maps of channels and consumers are
  ranged over in the order of insertion; those of a report in any order, drawn each time.

  \<^bold>\<open>Not modelled.\<close>  Listening, flags and files of the mains; the progress bar; of \<open>yagnats\<close> its own
  \<open>Ping\<close>, dialling and the pauses between attempts to reconnect; of the vendored AMQP
  library URIs, dialling and TLS, the clock of the heartbeat, and the shutdown that a failed write
  spawns, which is only noted; the regression of \<open>GoStats\<close>; the other vendored packages, which the
  program only calls in its tests or to draw.
\<close>

section \<open>Auctions over the pool of the process\<close>

definition example_pool :: "sim_delegate pool_world" where
  "example_pool =
     \<lparr>R = \<lparr>draws = (\<lambda>n. n), drawn = 0\<rparr>, guidTracker = Map.empty, entropy = (\<lambda>n. None),
      entropy_reads = 0, now_ns = (\<lambda>n. int n), clock_reads = 0, reps = example_reps,
      sched = \<lparr>draws = (\<lambda>n. n), drawn = 0\<rparr>, others = example_others, others_run = 0,
      LatencyMin = 1, LatencyMax = 5, Timeout = 3\<rparr>"

lemma example_pool_ok:
  assumes "good (example_cell [])" and "good (example_cell [(''j'', example_instance ''j'')])"
    and "\<And>g. adm (example_instance g)"
  shows "pool_ok (rep_ok sim_ops good example_totals) adm (example_instance ''i'') {''a'', ''b''} example_pool"
  by (rule example_reps_ok) (simp_all add: example_pool_def assms)

lemma example_pool_free: "pool_holders sim_holds (example_instance ''i'') example_pool = {}"
  by (rule example_reps_free) (simp add: example_pool_def)

text \<open>C1: an auction held with any of the six algorithms over a pool of simulation cells, whatever
  the latencies, the timeouts, the order of the goroutines and the steps of other auctions,
  returns; it ends with exactly the winner, a representative of the request, holding the
  instance, or with no winner, every round played and nobody holding it.  Its communications are
  bounded by the rounds.  Only \<open>pick_among_best\<close> may panic instead.\<close>

theorem auction_settles:
  assumes "pool_ok (rep_ok sim_ops sim_inv T) (\<lambda>_. True) inst ks w"
    and "pool_holders sim_holds inst w = {}" and "valid_request ks inst req"
    and "Algorithm (Rules req) \<in> algorithms"
  shows "settled only_pick_among_best (pool_ok (rep_ok sim_ops sim_inv T) (\<lambda>_. True) inst ks)
    (pool_holders sim_holds inst) req (Auction (inprocess_client sim_ops) req w)"
  by (rule sim.pool.Auction_settles[OF assms(3,1,2,4)])

theorem auction_settles_witness:
  "settled only_pick_among_best
     (pool_ok (rep_ok sim_ops sim_inv example_totals) (\<lambda>_. True) (example_instance ''i'') {''a'', ''b''})
     (pool_holders sim_holds (example_instance ''i'')) (example_order ''reserve_n_best'')
     (Auction (inprocess_client sim_ops) (example_order ''reserve_n_best'') example_pool)"
proof (rule auction_settles)
  show "pool_ok (rep_ok sim_ops sim_inv example_totals) (\<lambda>_. True) (example_instance ''i'') {''a'', ''b''}
      example_pool"
    by (rule example_pool_ok) (simp_all add: example_cells_ok)
  show "Algorithm (Rules (example_order ''reserve_n_best'')) \<in> algorithms"
    by (simp add: example_order_def algorithms_def)
qed (rule example_pool_free example_order_valid)+



text \<open>C4: whatever calls are made, in whatever order, the pool of the process does what the abstract
  pool does, however slow the cells are and whatever else happens at them: it gives answers that
  pool may give, and the cells that hold the instance afterwards are the abstract pool's holders.\<close>

theorem inprocess_refines_pool:
  assumes "pool_ok (rep_ok sim_ops sim_inv T) (\<lambda>_. True) inst ks w"
    and "\<And>c. c \<in> set cs \<Longrightarrow> call_guids c \<subseteq> ks"
  shows "\<exists>as w'. client_calls (inprocess_client sim_ops) inst cs w = Ret (as, w') \<and>
    pool_runs cs (pool_holders sim_holds inst w) as (pool_holders sim_holds inst w')"
  using sim.pool.calls_refine[OF assms] by blast

theorem inprocess_refines_pool_witness:
  "\<exists>as w'. client_calls (inprocess_client sim_ops) (example_instance ''i'')
       [PoolScore [''a'', ''b''], PoolReserve [''b''], PoolRelease [''b'']] example_pool = Ret (as, w') \<and>
     pool_runs [PoolScore [''a'', ''b''], PoolReserve [''b''], PoolRelease [''b'']] {} as
       (pool_holders sim_holds (example_instance ''i'') w')"
proof -
  have "call_guids c \<subseteq> {''a'', ''b''}"
    if "c \<in> set [PoolScore [''a'', ''b''], PoolReserve [''b''], PoolRelease [''b'']]" for c
    using that by auto
  from inprocess_refines_pool[OF example_pool_ok[OF example_cells_ok(1,2)] this]
  show ?thesis
    by (simp only: example_pool_free simp_thms)
qed

text \<open> releasing reservations on the pool releases every one of them, even when the call to a
  cell is late; what other representatives hold stays.\<close>

theorem late_releases_release:
  assumes "pool_ok (rep_ok sim_ops sim_inv T) (\<lambda>_. True) inst ks w" and "set gs \<subseteq> ks"
  shows "\<exists>w'. poolReleaseReservation sim_ops gs inst w = Ret ((), w') \<and>
    pool_holders sim_holds inst w' = pool_holders sim_holds inst w - set gs"
  using sim.poolRelease_answers[OF assms] by blast

theorem late_releases_release_witness:
  "\<exists>w'. poolReleaseReservation sim_ops [''a''] (example_instance ''i'') (example_pool\<lparr>Timeout := 0\<rparr>) =
      Ret ((), w') \<and> pool_holders sim_holds (example_instance ''i'') w' =
      pool_holders sim_holds (example_instance ''i'') (example_pool\<lparr>Timeout := 0\<rparr>) - {''a''}"
proof -
  have "pool_ok (rep_ok sim_ops sim_inv example_totals) (\<lambda>_. True) (example_instance ''i'') {''a'', ''b''}
      (example_pool\<lparr>Timeout := 0\<rparr>)"
    using example_pool_ok[of sim_inv "\<lambda>_. True"] by (simp add: example_cells_ok pool_ok_def)
  from late_releases_release[OF this, of "[''a'']"] show ?thesis by simp
qed

text \<open> asking the pool for scores answers every guid asked exactly once, late or not, and no
  reservation or claim of the instance changes by it.\<close>

theorem scoring_reserves_nothing:
  assumes "pool_ok (rep_ok sim_ops sim_inv T) (\<lambda>_. True) inst ks w" and "set gs \<subseteq> ks"
  shows "\<exists>rs w'. poolScore sim_ops gs inst w = Ret (rs, w') \<and> mset (map Rep rs) = mset gs \<and>
    pool_holders sim_holds inst w' = pool_holders sim_holds inst w"
  using sim.poolScore_answers[OF assms] by blast

theorem scoring_reserves_nothing_witness:
  "\<exists>rs w'. poolScore sim_ops [''b'', ''a''] (example_instance ''i'') example_pool = Ret (rs, w') \<and>
     mset (map Rep rs) = mset [''b'', ''a''] \<and>
     pool_holders sim_holds (example_instance ''i'') w' = pool_holders sim_holds (example_instance ''i'') example_pool"
  by (rule scoring_reserves_nothing[OF example_pool_ok]) (simp_all add: example_cells_ok)

end
